(* ===== verification/Prelude.thy ===== *)
theory Prelude
  imports Main "HOL-Library.Word" "HOL-Library.AList"
begin

text \<open>
  What every component of the development shares: the machine integers of the Rust sources,
  results of fallible code, and a few facts on lists.

  \<^item> \<open>u8\<close> to \<open>u128\<close> are words; \<open>+\<close> and \<open>-\<close> wrap, as in a release build (the workspace sets no
    profile, so overflow checks are off there). \<open>usize\<close> counts of in-memory collections are \<open>nat\<close>.
  \<^item> A fallible function returns \<open>'e + 'a\<close>, with \<open>Inl\<close> the error. A panic (\<open>unwrap\<close>, \<open>expect\<close>, an
    index out of range) is the error \<open>Panic\<close> of the datatype \<open>fault\<close>.
\<close>

named_theorems defs_simps \<open>definitions that component proofs unfold\<close>

type_synonym u8 = "8 word"
type_synonym u16 = "16 word"
type_synonym u32 = "32 word"
type_synonym u64 = "64 word"
type_synonym u128 = "128 word"

text \<open>A 32-byte hash (\<open>H256\<close>) and a 32-byte account id (\<open>AccountId32\<close>).\<close>

type_synonym h256 = "256 word"
type_synonym account_id = "256 word"

text \<open>Byte strings; a \<open>b"..."\<close> literal.\<close>

type_synonym bytes = "u8 list"

definition ascii :: "string \<Rightarrow> bytes" where
  "ascii s = map (of_char :: char \<Rightarrow> u8) s"

section \<open>Standard library arithmetic\<close>

definition saturating_sub :: "'a::len word \<Rightarrow> 'a word \<Rightarrow> 'a word" where
  "saturating_sub a b = (if b \<le> a then a - b else 0)"

definition checked_sub :: "'a::len word \<Rightarrow> 'a word \<Rightarrow> 'a word option" where
  "checked_sub a b = (if b \<le> a then Some (a - b) else None)"

lemma unat_saturating_sub: "unat (saturating_sub a b) = unat a - unat b"
  by (simp add: saturating_sub_def unat_sub word_le_nat_alt)

lemma saturating_sub_le [simp]: "saturating_sub a b \<le> a"
  by (simp add: word_le_nat_alt unat_saturating_sub)

lemma saturating_sub_self [simp]: "saturating_sub a a = 0"
  by (simp add: saturating_sub_def)

lemma checked_sub_Some_iff: "checked_sub a b = Some c \<longleftrightarrow> b \<le> a \<and> unat c = unat a - unat b"
  by (auto simp: checked_sub_def unat_sub word_le_nat_alt word_unat_eq_iff)

text \<open>\<open>x as u32\<close> of a \<open>usize\<close>, and the big-endian bytes of a \<open>u32\<close>.\<close>

definition usize_as_u32 :: "nat \<Rightarrow> u32" where
  "usize_as_u32 n = word_of_nat n"

definition u32_as_usize :: "u32 \<Rightarrow> nat" where
  "u32_as_usize w = unat w"

definition to_be_bytes :: "u32 \<Rightarrow> u8 list" where
  "to_be_bytes w = [ucast (drop_bit 24 w), ucast (drop_bit 16 w), ucast (drop_bit 8 w), ucast w]"

lemma unat_usize_as_u32: "n < 2 ^ 32 \<Longrightarrow> unat (usize_as_u32 n) = n"
  by (simp add: usize_as_u32_def unat_of_nat take_bit_nat_eq_self)

lemma Some_eq_map_option [simp]: "Some x = map_option f m \<longleftrightarrow> (\<exists>y. m = Some y \<and> x = f y)"
  by (cases m) auto

section \<open>Results\<close>

datatype fault = Panic | Fail

definition rbind :: "'e + 'a \<Rightarrow> ('a \<Rightarrow> 'e + 'b) \<Rightarrow> 'e + 'b" where
  "rbind m f = (case m of Inl e \<Rightarrow> Inl e | Inr x \<Rightarrow> f x)"

lemma rbind_simps [simp]: "rbind (Inl e) f = Inl e" "rbind (Inr x) f = f x"
  by (simp_all add: rbind_def)

lemma rbind_eq_Inr: "rbind m f = Inr y \<longleftrightarrow> (\<exists>x. m = Inr x \<and> f x = Inr y)"
  by (cases m) auto

lemma rbind_InrE [elim!]:
  assumes "rbind m f = Inr y"
  obtains x where "m = Inr x" "f x = Inr y"
  using assms by (auto simp: rbind_eq_Inr)

text \<open>\<open>opt.expect(..)\<close> and \<open>res.unwrap()\<close>: the missing value is a panic.\<close>

definition expect :: "'a option \<Rightarrow> fault + 'a" where
  "expect m = (case m of None \<Rightarrow> Inl Panic | Some x \<Rightarrow> Inr x)"

lemma expect_simps [simp]: "expect None = Inl Panic" "expect (Some x) = Inr x"
  by (simp_all add: expect_def)

lemma expect_eq_Inr [simp]: "expect m = Inr x \<longleftrightarrow> m = Some x"
  by (cases m) auto

text \<open>\<open>opt.unwrap_or(d)\<close>.\<close>

definition the_default :: "'a \<Rightarrow> 'a option \<Rightarrow> 'a" where
  "the_default d m = (case m of None \<Rightarrow> d | Some x \<Rightarrow> x)"

lemma the_default_simps [simp]: "the_default d None = d" "the_default d (Some x) = x"
  by (simp_all add: the_default_def)

text \<open>\<open>xs[i]\<close> and \<open>xs.get(i)\<close>.\<close>

definition get_index :: "'a list \<Rightarrow> nat \<Rightarrow> 'a option" where
  "get_index xs i = (if i < length xs then Some (xs ! i) else None)"

definition index_of :: "'a list \<Rightarrow> nat \<Rightarrow> fault + 'a" where
  "index_of xs i = expect (get_index xs i)"

text \<open>An iterator whose closure may fail, collected: the first failure wins.\<close>

fun rmap :: "('a \<Rightarrow> 'e + 'b) \<Rightarrow> 'a list \<Rightarrow> 'e + 'b list" where
  "rmap f [] = Inr []"
| "rmap f (x # xs) = rbind (f x) (\<lambda>y. rbind (rmap f xs) (\<lambda>ys. Inr (y # ys)))"

text \<open>A \<open>for\<close> loop over a list whose body updates a state and may fail.\<close>

fun rfold :: "('a \<Rightarrow> 's \<Rightarrow> 'e + 's) \<Rightarrow> 'a list \<Rightarrow> 's \<Rightarrow> 'e + 's" where
  "rfold f [] s = Inr s"
| "rfold f (x # xs) s = rbind (f x s) (rfold f xs)"

lemma rmap_Inr: "(\<And>x. x \<in> set xs \<Longrightarrow> f x = Inr (g x)) \<Longrightarrow> rmap f xs = Inr (map g xs)"
  by (induction xs) auto

lemma rmap_list_all2: "rmap f xs = Inr ys \<Longrightarrow> list_all2 (\<lambda>x y. f x = Inr y) xs ys"
  by (induction xs arbitrary: ys) auto

lemma rmap_length: "rmap f xs = Inr ys \<Longrightarrow> length ys = length xs"
  by (auto dest!: rmap_list_all2 list_all2_lengthD)

lemma rfold_invariant:
  assumes "rfold f xs s = Inr s'" "P s"
    and "\<And>x s s'. x \<in> set xs \<Longrightarrow> P s \<Longrightarrow> f x s = Inr s' \<Longrightarrow> P s'"
  shows "P s'"
  using assms
proof (induction xs arbitrary: s)
  case (Cons x xs)
  from Cons.prems(1) obtain s1 where s1: "f x s = Inr s1" "rfold f xs s1 = Inr s'" by auto
  have "P s1" by (rule Cons.prems(3) [OF _ Cons.prems(2) s1(1)]) simp
  show ?case
  proof (rule Cons.IH [OF s1(2) \<open>P s1\<close>])
    fix y s s' assume "y \<in> set xs" "P s" "f y s = Inr s'"
    then show "P s'" by (intro Cons.prems(3) [of y s s']) auto
  qed
qed simp

lemma rfold_total:
  assumes "P s" and "\<And>x s. x \<in> set xs \<Longrightarrow> P s \<Longrightarrow> \<exists>s'. f x s = Inr s' \<and> P s'"
  shows "\<exists>s'. rfold f xs s = Inr s' \<and> P s'"
  using assms
proof (induction xs arbitrary: s)
  case (Cons x xs)
  then obtain s1 where "f x s = Inr s1" "P s1" by force
  with Cons.IH [of s1] Cons.prems(2) show ?case by auto
qed simp

text \<open>A relation that the steps of a loop keep relates the state before the loop to the state after it.\<close>

locale step_preorder =
  fixes le :: "'s \<Rightarrow> 's \<Rightarrow> bool"
  assumes le_refl: "le s s"
    and le_trans: "le s s' \<Longrightarrow> le s' s'' \<Longrightarrow> le s s''"
begin

lemma fold_le: "(\<And>x s. x \<in> set xs \<Longrightarrow> le s (f x s)) \<Longrightarrow> le s (fold f xs s)"
  by (induction xs arbitrary: s) (auto intro: le_refl le_trans)

lemma rfold_le:
  "rfold f xs s = Inr s' \<Longrightarrow> (\<And>x s s'. x \<in> set xs \<Longrightarrow> f x s = Inr s' \<Longrightarrow> le s s') \<Longrightarrow> le s s'"
proof (induction xs arbitrary: s)
  case (Cons x xs)
  from Cons.prems(1) obtain s1 where s1: "f x s = Inr s1" "rfold f xs s1 = Inr s'" by auto
  have "le s s1" by (rule Cons.prems(2) [OF _ s1(1)]) simp
  moreover have "le s1 s'"
  proof (rule Cons.IH [OF s1(2)])
    fix y s s' assume "y \<in> set xs" "f y s = Inr s'"
    then show "le s s'" by (intro Cons.prems(2) [of y]) auto
  qed
  ultimately show ?case by (rule le_trans)
qed (simp add: le_refl)

end

lemma fold_invariant_set:
  "P s \<Longrightarrow> (\<And>x s. x \<in> set xs \<Longrightarrow> P s \<Longrightarrow> P (f x s)) \<Longrightarrow> P (fold f xs s)"
  by (induction xs arbitrary: s) auto

section \<open>Lists\<close>

text \<open>\<open>iter().last()\<close> and the update of the last element in place (\<open>last_mut\<close>).\<close>

definition last_opt :: "'a list \<Rightarrow> 'a option" where
  "last_opt xs = (if xs = [] then None else Some (last xs))"

definition map_last :: "('a \<Rightarrow> 'a) \<Rightarrow> 'a list \<Rightarrow> 'a list" where
  "map_last f xs = (if xs = [] then [] else butlast xs @ [f (last xs)])"

lemma last_opt_simps [simp]: "last_opt [] = None" "last_opt (xs @ [x]) = Some x"
  by (simp_all add: last_opt_def)

lemma last_opt_Some_iff: "last_opt xs = Some x \<longleftrightarrow> (\<exists>ys. xs = ys @ [x])"
  by (cases xs rule: rev_cases) auto

lemma map_last_simps [simp]: "map_last f [] = []" "map_last f (xs @ [x]) = xs @ [f x]"
  by (simp_all add: map_last_def)

lemma length_map_last [simp]: "length (map_last f xs) = length xs"
  by (cases xs rule: rev_cases) auto

lemma set_map_last: "set (map_last f xs) \<subseteq> set xs \<union> f ` set xs"
  by (cases xs rule: rev_cases) auto

section \<open>Decimal digits\<close>

fun digits10 :: "nat \<Rightarrow> nat list" where
  "digits10 n = (if n < 10 then [n] else digits10 (n div 10) @ [n mod 10])"

declare digits10.simps [simp del]

lemma digits10_value: "foldl (\<lambda>m d. 10 * m + d) 0 (digits10 n) = n"
proof (induction n rule: digits10.induct)
  case (1 n)
  then show ?case by (subst digits10.simps) simp
qed

lemma digits10_less: "d \<in> set (digits10 n) \<Longrightarrow> d < 10"
proof (induction n rule: digits10.induct)
  case (1 n)
  then show ?case by (subst (asm) (2) digits10.simps) (auto split: if_splits)
qed

lemma digits10_not_Nil [simp]: "digits10 n \<noteq> []"
  by (subst digits10.simps) simp

lemma digits10_inject: "digits10 m = digits10 n \<longleftrightarrow> m = n"
  using digits10_value [of m] digits10_value [of n] by metis

definition show_nat :: "nat \<Rightarrow> string" where
  "show_nat n = map (\<lambda>d. char_of (48 + d)) (digits10 n)"

end
