(* ===== verification/Maps.thy ===== *)
theory Maps
  imports Prelude
begin

text \<open>
  The two map types of the Rust standard library that the program uses, and the contract they
  share.

  \<^item> A \<open>HashMap\<close> is an association list with distinct keys. The list order is the iteration order,
    which Rust leaves unspecified: properties must hold for every list.
  \<^item> A \<open>BTreeMap\<close> is an association list whose keys are strictly increasing, so the list order is
    the iteration order that Rust specifies.
\<close>

type_synonym ('k, 'v) alist = "('k \<times> 'v) list"

section \<open>The contract of a finite map\<close>

locale keyed_map =
  fixes put :: "'k \<Rightarrow> 'v \<Rightarrow> ('k, 'v) alist \<Rightarrow> ('k, 'v) alist"
    and del :: "'k \<Rightarrow> ('k, 'v) alist \<Rightarrow> ('k, 'v) alist"
    and wf :: "('k, 'v) alist \<Rightarrow> bool"
  assumes wf_empty: "wf []"
    and wf_distinct: "wf m \<Longrightarrow> distinct (map fst m)"
    and wf_put: "wf m \<Longrightarrow> wf (put k v m)"
    and wf_del: "wf m \<Longrightarrow> wf (del k m)"
    and map_of_put: "wf m \<Longrightarrow> map_of (put k v m) = (map_of m)(k \<mapsto> v)"
    and map_of_del: "wf m \<Longrightarrow> map_of (del k m) = (map_of m)(k := None)"
begin

lemma get_put_same: "wf m \<Longrightarrow> map_of (put k v m) k = Some v"
  by (simp add: map_of_put)

lemma get_put_other: "wf m \<Longrightarrow> k' \<noteq> k \<Longrightarrow> map_of (put k v m) k' = map_of m k'"
  by (simp add: map_of_put)

lemma keys_put: "wf m \<Longrightarrow> fst ` set (put k v m) = insert k (fst ` set m)"
  by (metis map_of_put dom_map_of_conv_image_fst dom_fun_upd option.distinct(1))

lemma keys_del: "wf m \<Longrightarrow> fst ` set (del k m) = fst ` set m - {k}"
  by (metis map_of_del dom_map_of_conv_image_fst dom_fun_upd)

lemma length_card: "wf m \<Longrightarrow> length m = card (fst ` set m)"
  by (metis wf_distinct distinct_card length_map list.set_map)

lemma length_put_fresh: "wf m \<Longrightarrow> map_of m k = None \<Longrightarrow> length (put k v m) = Suc (length m)"
  by (simp add: length_card wf_put keys_put map_of_eq_None_iff)

lemma length_put_known:
  assumes "wf m" "map_of m k = Some w"
  shows "length (put k v m) = length m"
proof -
  from assms(2) have "k \<in> fst ` set m" by (metis map_of_eq_None_iff option.distinct(1))
  with assms(1) show ?thesis by (simp add: length_card wf_put keys_put insert_absorb)
qed

lemma entry_put: "wf m \<Longrightarrow> (k', w) \<in> set (put k v m) \<longleftrightarrow> (if k' = k then w = v else (k', w) \<in> set m)"
  by (metis map_of_put wf_distinct wf_put map_of_eq_Some_iff fun_upd_apply option.inject)

lemma entry_del: "wf m \<Longrightarrow> (k', w) \<in> set (del k m) \<longleftrightarrow> k' \<noteq> k \<and> (k', w) \<in> set m"
  by (metis map_of_del wf_distinct wf_del map_of_eq_Some_iff fun_upd_apply option.distinct(1))

end

section \<open>HashMap\<close>

definition hm_put :: "'k \<Rightarrow> 'v \<Rightarrow> ('k, 'v) alist \<Rightarrow> ('k, 'v) alist" where
  "hm_put = AList.update"

definition hm_del :: "'k \<Rightarrow> ('k, 'v) alist \<Rightarrow> ('k, 'v) alist" where
  "hm_del = AList.delete"

definition hm_wf :: "('k, 'v) alist \<Rightarrow> bool" where
  "hm_wf m \<longleftrightarrow> distinct (map fst m)"

interpretation hm: keyed_map hm_put hm_del hm_wf
  by unfold_locales
    (auto simp: hm_put_def hm_del_def hm_wf_def update_conv' delete_conv' intro: distinct_update distinct_delete)

lemma hm_put_code [simp]:
  "hm_put k v [] = [(k, v)]"
  "hm_put k v ((k', w) # m) = (if k' = k then (k, v) # m else (k', w) # hm_put k v m)"
  by (simp_all add: hm_put_def)

lemma hm_del_code [simp]:
  "hm_del k [] = []"
  "hm_del k ((k', w) # m) = (if k' = k then hm_del k m else (k', w) # hm_del k m)"
  by (simp_all add: hm_del_def AList.delete_eq)

lemma map_of_hm_put: "map_of (hm_put k v m) = (map_of m)(k \<mapsto> v)"
  by (simp add: hm_put_def update_conv')

lemma hm_wf_Nil [simp]: "hm_wf []"
  by (rule hm.wf_empty)

lemma map_of_hm_del: "map_of (hm_del k m) = (map_of m)(k := None)"
  by (simp add: hm_del_def delete_conv')

lemma map_of_fold_hm_del: "map_of (fold hm_del ks m) k = (if k \<in> set ks then None else map_of m k)"
  by (induction ks arbitrary: m) (auto simp: map_of_hm_del)

lemma hm_wf_fold_del: "hm_wf m \<Longrightarrow> hm_wf (fold hm_del ks m)"
  by (induction ks arbitrary: m) (auto simp: hm.wf_del)

text \<open>\<open>entry(k).or_default()\<close> followed by a change of the value found there.\<close>

definition hm_update_default :: "'v \<Rightarrow> 'k \<Rightarrow> ('v \<Rightarrow> 'v) \<Rightarrow> ('k, 'v) alist \<Rightarrow> ('k, 'v) alist" where
  "hm_update_default d k f m = hm_put k (f (case map_of m k of None \<Rightarrow> d | Some v \<Rightarrow> v)) m"

definition hm_push :: "'k \<Rightarrow> 'a \<Rightarrow> ('k, 'a list) alist \<Rightarrow> ('k, 'a list) alist" where
  "hm_push k x = hm_update_default [] k (\<lambda>xs. xs @ [x])"

text \<open>\<open>get_mut(k)\<close> with a change in place, and \<open>values_mut\<close>.\<close>

definition hm_modify :: "'k \<Rightarrow> ('v \<Rightarrow> 'v) \<Rightarrow> ('k, 'v) alist \<Rightarrow> ('k, 'v) alist" where
  "hm_modify k f m = map (\<lambda>(k', v). if k' = k then (k', f v) else (k', v)) m"

definition hm_map_values :: "('v \<Rightarrow> 'w) \<Rightarrow> ('k, 'v) alist \<Rightarrow> ('k, 'w) alist" where
  "hm_map_values f m = map (\<lambda>(k, v). (k, f v)) m"

lemma map_fst_hm_modify [simp]: "map fst (hm_modify k f m) = map fst m"
  by (induction m) (auto simp: hm_modify_def)

lemma map_fst_hm_map_values [simp]: "map fst (hm_map_values f m) = map fst m"
  by (induction m) (auto simp: hm_map_values_def)

lemma map_of_hm_modify:
  "map_of (hm_modify k f m) k' = (if k' = k then map_option f (map_of m k) else map_of m k')"
  by (induction m) (auto simp: hm_modify_def)

lemma map_of_hm_map_values: "map_of (hm_map_values f m) k = map_option f (map_of m k)"
  by (induction m) (auto simp: hm_map_values_def)

lemma hm_wf_modify [simp]: "hm_wf (hm_modify k f m) = hm_wf m"
  by (simp add: hm_wf_def)

lemma hm_wf_map_values [simp]: "hm_wf (hm_map_values f m) = hm_wf m"
  by (simp add: hm_wf_def)

lemma hm_wf_filter: "hm_wf m \<Longrightarrow> hm_wf (filter P m)"
  by (simp add: hm_wf_def distinct_map_filter)

lemma hm_wf_push [simp]: "hm_wf m \<Longrightarrow> hm_wf (hm_push k x m)"
  by (simp add: hm_push_def hm_update_default_def hm.wf_put)

lemma map_of_hm_push:
  "map_of (hm_push k x m) k' =
     (if k' = k then Some (the_default [] (map_of m k) @ [x]) else map_of m k')"
  by (simp add: hm_push_def hm_update_default_def map_of_hm_put the_default_def)

text \<open>All values of a map.\<close>

definition hm_all_values :: "('v \<Rightarrow> bool) \<Rightarrow> ('k, 'v) alist \<Rightarrow> bool" where
  "hm_all_values P m \<longleftrightarrow> (\<forall>kv \<in> set m. P (snd kv))"

lemma hm_all_values_Nil [simp]: "hm_all_values P []"
  by (simp add: hm_all_values_def)

lemma hm_all_values_get: "hm_all_values P m \<Longrightarrow> map_of m k = Some v \<Longrightarrow> P v"
  by (force simp: hm_all_values_def dest: map_of_SomeD)

lemma hm_all_values_put:
  "hm_wf m \<Longrightarrow> hm_all_values P m \<Longrightarrow> P v \<Longrightarrow> hm_all_values P (hm_put k v m)"
  by (auto simp: hm_all_values_def hm.entry_put split: if_splits)

lemma hm_all_values_modify:
  "hm_all_values P m \<Longrightarrow> (\<And>v. P v \<Longrightarrow> P (f v)) \<Longrightarrow> hm_all_values P (hm_modify k f m)"
  by (auto simp: hm_all_values_def hm_modify_def)

lemma hm_all_values_map_values:
  "hm_all_values P m \<Longrightarrow> (\<And>v. P v \<Longrightarrow> Q (f v)) \<Longrightarrow> hm_all_values Q (hm_map_values f m)"
  by (auto simp: hm_all_values_def hm_map_values_def)

text \<open>\<open>collect()\<close> into a map: a later entry replaces an earlier one with its key.\<close>

definition hm_collect :: "('k \<times> 'v) list \<Rightarrow> ('k, 'v) alist" where
  "hm_collect kvs = foldl (\<lambda>m (k, v). hm_put k v m) [] kvs"

lemma foldl_hm_put:
  "hm_wf m \<Longrightarrow> hm_wf (foldl (\<lambda>m (k, v). hm_put k v m) m kvs) \<and>
     map_of (foldl (\<lambda>m (k, v). hm_put k v m) m kvs) = map_of m ++ map_of (rev kvs)"
proof (induction kvs arbitrary: m)
  case (Cons kv kvs)
  obtain k v where kv: "kv = (k, v)" by force
  with Cons.IH [of "hm_put k v m"] Cons.prems show ?case
    by (simp add: hm.wf_put hm.map_of_put fun_eq_iff map_add_def split: option.split)
qed simp

lemma hm_wf_collect [simp]: "hm_wf (hm_collect kvs)"
  by (simp add: hm_collect_def foldl_hm_put)

lemma map_of_hm_collect: "map_of (hm_collect kvs) = map_of (rev kvs)"
  by (simp add: hm_collect_def foldl_hm_put)

lemma set_hm_collect: "kv \<in> set (hm_collect kvs) \<Longrightarrow> kv \<in> set kvs"
  using map_of_hm_collect [of kvs] hm_wf_collect [of kvs]
  by (cases kv) (metis hm_wf_def map_of_SomeD map_of_is_SomeI set_rev)

section \<open>BTreeMap\<close>

fun bt_put :: "'k::linorder \<Rightarrow> 'v \<Rightarrow> ('k, 'v) alist \<Rightarrow> ('k, 'v) alist" where
  "bt_put k v [] = [(k, v)]"
| "bt_put k v ((k', w) # m) =
     (if k < k' then (k, v) # (k', w) # m
      else if k = k' then (k, v) # m
      else (k', w) # bt_put k v m)"

definition bt_del :: "'k::linorder \<Rightarrow> ('k, 'v) alist \<Rightarrow> ('k, 'v) alist" where
  "bt_del k m = filter (\<lambda>(k', _). k' \<noteq> k) m"

definition bt_wf :: "('k::linorder, 'v) alist \<Rightarrow> bool" where
  "bt_wf m \<longleftrightarrow> sorted_wrt (<) (map fst m)"

lemma bt_wf_Cons: "bt_wf ((k, v) # m) \<longleftrightarrow> (\<forall>k' \<in> fst ` set m. k < k') \<and> bt_wf m"
  by (auto simp: bt_wf_def)

lemma set_bt_put_keys: "fst ` set (bt_put k v m) = insert k (fst ` set m)"
  by (induction k v m rule: bt_put.induct) auto

lemma bt_wf_put: "bt_wf m \<Longrightarrow> bt_wf (bt_put k v m)"
proof (induction k v m rule: bt_put.induct)
  case (2 k v k' w m)
  have k': "\<forall>y \<in> fst ` set m. k' < y" and m: "bt_wf m" using "2.prems" by (simp_all add: bt_wf_Cons)
  consider "k < k'" | "k = k'" | "k' < k" by fastforce
  then show ?case
  proof cases
    case 3
    with m have "bt_wf (bt_put k v m)" by (intro "2.IH") auto
    with 3 k' show ?thesis by (auto simp: bt_wf_Cons set_bt_put_keys)
  qed (use k' m in \<open>auto simp: bt_wf_Cons\<close>)
qed (simp add: bt_wf_def)

lemma map_of_bt_put: "bt_wf m \<Longrightarrow> map_of (bt_put k v m) = (map_of m)(k \<mapsto> v)"
proof (induction k v m rule: bt_put.induct)
  case (2 k v k' w m)
  then show ?case by (auto simp: bt_wf_def fun_eq_iff)
qed (simp add: fun_eq_iff)

lemma map_of_bt_del: "map_of (bt_del k m) = (map_of m)(k := None)"
  by (induction m) (auto simp: bt_del_def fun_eq_iff)

interpretation bt: keyed_map bt_put bt_del bt_wf
proof unfold_locales
  fix m :: "('k::linorder, 'v) alist" and k
  assume m: "bt_wf m"
  then show "distinct (map fst m)"
    by (simp add: bt_wf_def strict_sorted_iff)
  from m show "bt_wf (bt_del k m)"
    by (simp add: bt_wf_def bt_del_def sorted_wrt_map sorted_wrt_filter)
qed (simp_all add: bt_wf_put map_of_bt_put map_of_bt_del, simp add: bt_wf_def)

definition bt_update_default :: "'v \<Rightarrow> 'k::linorder \<Rightarrow> ('v \<Rightarrow> 'v) \<Rightarrow> ('k, 'v) alist \<Rightarrow> ('k, 'v) alist" where
  "bt_update_default d k f m = bt_put k (f (case map_of m k of None \<Rightarrow> d | Some v \<Rightarrow> v)) m"

lemma bt_wf_update_default [simp]: "bt_wf m \<Longrightarrow> bt_wf (bt_update_default d k f m)"
  by (simp add: bt_update_default_def bt_wf_put)

lemma map_of_bt_update_default:
  "bt_wf m \<Longrightarrow> map_of (bt_update_default d k f m) k' =
     (if k' = k then Some (f (case map_of m k of None \<Rightarrow> d | Some v \<Rightarrow> v)) else map_of m k')"
  by (simp add: bt_update_default_def map_of_bt_put)

lemma bt_wf_Nil [simp]: "bt_wf []"
  by (rule bt.wf_empty)

lemma bt_del_head: "bt_wf ((b, ks) # m) \<Longrightarrow> bt_del b ((b, ks) # m) = m"
  by (auto simp: bt_del_def bt_wf_Cons filter_id_conv)

lemma length_bt_update_default:
  "bt_wf m \<Longrightarrow> length (bt_update_default d k f m) \<le> Suc (length m)"
  by (cases "map_of m k") (simp_all add: bt_update_default_def bt.length_put_fresh bt.length_put_known)

lemma map_of_filter_keys: "map_of (filter (\<lambda>(k, _). k \<notin> A) m) k = (if k \<in> A then None else map_of m k)"
  by (induction m) auto

end
