(* ===== verification/Storage.thy ===== *)
theory Storage
  imports Maps
begin

text \<open>
  The in-memory record storage, \<^verbatim>\<open>essentials/src/storage.rs\<close>: the plain storage
  \<^verbatim>\<open>HashedPlainRecordsStorage\<close>, the prefixed storage \<^verbatim>\<open>HashedPrefixedRecordsStorage\<close> that the
  collector uses, their common contract (the trait \<^verbatim>\<open>RecordsStorage\<close>) as the locale
  \<open>record_store\<close>, and the eviction of the oldest block.

  The payload of an entry is SCALE bytes in the code. The codec is a third-party crate, so the
  payload type \<open>'d\<close> is a parameter here and \<open>into_inner\<close> takes the decoder as an argument.
\<close>

section \<open>Records\<close>

text \<open>A \<open>Duration\<close> is a number of nanoseconds.\<close>

type_synonym duration = nat

datatype record_type = Onchain | Offchain | Persistent

record record_time =
  rt_block_number :: u32
  rt_timestamp :: "duration option"

definition record_time_from :: "u32 \<Rightarrow> record_time" where
  "record_time_from n = \<lparr>rt_block_number = n, rt_timestamp = None\<rparr>"

definition with_ts :: "u32 \<Rightarrow> duration \<Rightarrow> record_time" where
  "with_ts n ts = \<lparr>rt_block_number = n, rt_timestamp = Some ts\<rparr>"

record 'd storage_entry =
  se_type :: record_type
  se_time :: record_time
  se_data :: 'd

definition new_onchain :: "record_time \<Rightarrow> 'd \<Rightarrow> 'd storage_entry" where
  "new_onchain t d = \<lparr>se_type = Onchain, se_time = t, se_data = d\<rparr>"

definition new_offchain :: "record_time \<Rightarrow> 'd \<Rightarrow> 'd storage_entry" where
  "new_offchain t d = \<lparr>se_type = Offchain, se_time = t, se_data = d\<rparr>"

definition new_persistent :: "record_time \<Rightarrow> 'd \<Rightarrow> 'd storage_entry" where
  "new_persistent t d = \<lparr>se_type = Persistent, se_time = t, se_data = d\<rparr>"

datatype storage_error = DuplicateKey | NoPrefix | DecodeError

definition into_inner :: "('d \<Rightarrow> 'a option) \<Rightarrow> 'd storage_entry \<Rightarrow> storage_error + 'a" where
  "into_inner decode e = (case decode (se_data e) of None \<Rightarrow> Inl DecodeError | Some x \<Rightarrow> Inr x)"

definition entry_block :: "'d storage_entry \<Rightarrow> u32" where
  "entry_block e = rt_block_number (se_time e)"

lemma entry_block_new [simp]:
  "entry_block (new_onchain t d) = rt_block_number t"
  "entry_block (new_persistent t d) = rt_block_number t"
  "rt_block_number (with_ts n ts) = n"
  by (simp_all add: entry_block_def new_onchain_def new_persistent_def with_ts_def)

section \<open>Eviction\<close>

text \<open>The keys of the oldest indexed block, when there are more blocks than the limit.\<close>

definition evicted_keys :: "nat \<Rightarrow> (u32, 'k set) alist \<Rightarrow> 'k set" where
  "evicted_keys max_blocks idx =
     (if length idx > max_blocks then (case idx of [] \<Rightarrow> {} | (_, ks) # _ \<Rightarrow> ks) else {})"

lemma evicted_keys_none [simp]: "length idx \<le> n \<Longrightarrow> evicted_keys n idx = {}"
  by (simp add: evicted_keys_def)

lemma evicted_keys_subset: "k \<in> evicted_keys n idx \<Longrightarrow> \<exists>ks \<in> snd ` set idx. k \<in> ks"
  by (cases idx) (auto simp: evicted_keys_def split: if_splits)

lemma evicted_keys_head:
  "k \<in> evicted_keys n idx \<longleftrightarrow> n < length idx \<and> (\<exists>b ks rest. idx = (b, ks) # rest \<and> k \<in> ks)"
  by (cases idx) (auto simp: evicted_keys_def)

section \<open>The contract of a record storage\<close>

datatype ('k, 'e) store_op = OpInsert 'k 'e | OpReplace 'k 'e | OpDelete 'k

text \<open>A run of mutating requests, their replies dropped.\<close>

fun run_op ::
  "('k \<Rightarrow> 'e \<Rightarrow> 's \<Rightarrow> (storage_error + unit) \<times> 's) \<Rightarrow> ('k \<Rightarrow> 'e \<Rightarrow> 's \<Rightarrow> 'e option \<times> 's) \<Rightarrow>
   ('k \<Rightarrow> 's \<Rightarrow> 'e option \<times> 's) \<Rightarrow> 's \<Rightarrow> ('k, 'e) store_op \<Rightarrow> 's" where
  "run_op ins rep del s (OpInsert k e) = snd (ins k e s)"
| "run_op ins rep del s (OpReplace k e) = snd (rep k e s)"
| "run_op ins rep del s (OpDelete k) = snd (del k s)"

definition run_ops ::
  "('k \<Rightarrow> 'e \<Rightarrow> 's \<Rightarrow> (storage_error + unit) \<times> 's) \<Rightarrow> ('k \<Rightarrow> 'e \<Rightarrow> 's \<Rightarrow> 'e option \<times> 's) \<Rightarrow>
   ('k \<Rightarrow> 's \<Rightarrow> 'e option \<times> 's) \<Rightarrow> 's \<Rightarrow> ('k, 'e) store_op list \<Rightarrow> 's" where
  "run_ops ins rep del = foldl (run_op ins rep del)"

definition writes :: "('k, 'e) store_op \<Rightarrow> 'k \<Rightarrow> 'e \<Rightarrow> bool" where
  "writes op k e \<longleftrightarrow> op = OpInsert k e \<or> op = OpReplace k e"

definition overwrites :: "('k, 'e) store_op \<Rightarrow> 'k \<Rightarrow> bool" where
  "overwrites op k \<longleftrightarrow> (case op of OpInsert _ _ \<Rightarrow> False | OpReplace k' _ \<Rightarrow> k' = k | OpDelete k' \<Rightarrow> k' = k)"

text \<open>The value \<open>e\<close> is the last one the requests wrote at \<open>k\<close>: no later request replaces or
  deletes it.\<close>

definition last_written :: "('k, 'e) store_op list \<Rightarrow> 'k \<Rightarrow> 'e \<Rightarrow> bool" where
  "last_written ops k e \<longleftrightarrow>
     (\<exists>before op after. ops = before @ [op] @ after \<and> writes op k e \<and> (\<forall>o' \<in> set after. \<not> overwrites o' k))"

lemma last_written_snoc_write: "writes op k e \<Longrightarrow> last_written (ops @ [op]) k e"
  unfolding last_written_def by (rule exI [of _ ops], rule exI [of _ op], rule exI [of _ "[]"]) simp

lemma last_written_snoc_keep:
  assumes "last_written ops k e" "\<not> overwrites op k"
  shows "last_written (ops @ [op]) k e"
proof -
  from assms(1) obtain before w after where
    "ops = before @ [w] @ after" "writes w k e" "\<forall>o' \<in> set after. \<not> overwrites o' k"
    unfolding last_written_def by blast
  with assms(2) show ?thesis
    unfolding last_written_def
    by (intro exI [of _ before] exI [of _ w] exI [of _ "after @ [op]"]) auto
qed

locale record_store =
  fixes ins :: "'k \<Rightarrow> 'e \<Rightarrow> 's \<Rightarrow> (storage_error + unit) \<times> 's"
    and rep :: "'k \<Rightarrow> 'e \<Rightarrow> 's \<Rightarrow> 'e option \<times> 's"
    and del :: "'k \<Rightarrow> 's \<Rightarrow> 'e option \<times> 's"
    and get :: "'k \<Rightarrow> 's \<Rightarrow> 'e option"
    and inv :: "'s \<Rightarrow> bool"
  assumes inv_ins: "inv s \<Longrightarrow> inv (snd (ins k e s))"
    and inv_rep: "inv s \<Longrightarrow> inv (snd (rep k e s))"
    and inv_del: "inv s \<Longrightarrow> inv (snd (del k s))"
    and ins_status: "inv s \<Longrightarrow> fst (ins k e s) = (if get k s = None then Inr () else Inl DuplicateKey)"
    and ins_known: "inv s \<Longrightarrow> get k s = Some e' \<Longrightarrow> get k' (snd (ins k e s)) = get k' s"
    and ins_fresh: "inv s \<Longrightarrow> get k s = None \<Longrightarrow>
      get k' (snd (ins k e s)) \<in> {None, if k' = k then Some e else get k' s}"
    and rep_reply: "inv s \<Longrightarrow> fst (rep k e s) = get k s"
    and rep_get: "inv s \<Longrightarrow>
      get k' (snd (rep k e s)) = (if k' = k \<and> get k s \<noteq> None then Some e else get k' s)"
    and del_reply: "inv s \<Longrightarrow> fst (del k s) = get k s"
    and del_get: "inv s \<Longrightarrow> get k' (snd (del k s)) = (if k' = k then None else get k' s)"
begin

lemma inv_run_op: "inv s \<Longrightarrow> inv (run_op ins rep del s op)"
  by (cases op) (simp_all add: inv_ins inv_rep inv_del)

lemma inv_run_ops: "inv s \<Longrightarrow> inv (run_ops ins rep del s ops)"
  by (induction ops rule: rev_induct) (simp_all add: run_ops_def inv_run_op)

lemma run_op_provenance:
  assumes "inv s" "get k (run_op ins rep del s op) = Some e"
  shows "writes op k e \<or> (get k s = Some e \<and> \<not> overwrites op k)"
proof (cases op)
  case (OpInsert k' e')
  show ?thesis
  proof (cases "get k' s")
    case None
    with ins_fresh [OF assms(1), of k' k e'] assms(2) OpInsert show ?thesis
      by (auto simp: writes_def overwrites_def split: if_splits)
  next
    case (Some d)
    with ins_known [OF assms(1) Some] assms(2) OpInsert show ?thesis by (simp add: overwrites_def)
  qed
next
  case (OpReplace k' e')
  with assms show ?thesis
    by (auto simp: rep_get writes_def overwrites_def split: if_splits)
next
  case (OpDelete k')
  with assms show ?thesis by (auto simp: del_get overwrites_def split: if_splits)
qed

text \<open>What holds of all stored values still holds after an operation that writes such a value.\<close>

lemma all_ins:
  assumes "inv s" "\<And>k e. get k s = Some e \<Longrightarrow> P k e" "P k0 e0" "get k (snd (ins k0 e0 s)) = Some e"
  shows "P k e"
proof (cases "get k0 s")
  case None
  with ins_fresh [OF assms(1), of k0 k e0] assms show ?thesis by (auto split: if_splits)
next
  case (Some d)
  with ins_known [OF assms(1) Some] assms show ?thesis by simp
qed

lemma all_rep:
  "inv s \<Longrightarrow> (\<And>k e. get k s = Some e \<Longrightarrow> P k e) \<Longrightarrow> P k0 e0 \<Longrightarrow> get k (snd (rep k0 e0 s)) = Some e \<Longrightarrow> P k e"
  by (auto simp: rep_get split: if_splits)

lemma all_del:
  "inv s \<Longrightarrow> (\<And>k e. get k s = Some e \<Longrightarrow> P k e) \<Longrightarrow> get k (snd (del k0 s)) = Some e \<Longrightarrow> P k e"
  by (auto simp: del_get split: if_splits)

text \<open>A read returns the value written last at its key, or nothing: never a stale value.\<close>

lemma run_ops_provenance:
  assumes "inv s" "\<And>k. get k s = None" "get k (run_ops ins rep del s ops) = Some e"
  shows "last_written ops k e"
  using assms(3)
proof (induction ops arbitrary: e rule: rev_induct)
  case Nil
  with assms(2) show ?case by (simp add: run_ops_def)
next
  case (snoc op ops)
  let ?s = "run_ops ins rep del s ops"
  have "inv ?s" by (rule inv_run_ops [OF assms(1)])
  moreover have "get k (run_op ins rep del ?s op) = Some e" using snoc.prems by (simp add: run_ops_def)
  ultimately have "writes op k e \<or> (get k ?s = Some e \<and> \<not> overwrites op k)"
    by (rule run_op_provenance)
  then show ?case
    by (auto intro: last_written_snoc_write last_written_snoc_keep snoc.IH)
qed

end

end
