(* ===== verification/Plain_Storage.thy ===== *)
theory Plain_Storage
  imports Storage
begin

text \<open>
  The plain storage \<^verbatim>\<open>HashedPlainRecordsStorage\<close> (\<^verbatim>\<open>essentials/src/storage.rs\<close>): entries by key, and
  an index of the keys written at each block, by block number, from which \<^verbatim>\<open>prune\<close> evicts the
  oldest block when more than \<^verbatim>\<open>max_blocks\<close> are indexed. Persistent entries are not indexed.
\<close>

record ('k, 'd) plain_storage =
  pl_max_blocks :: nat
  pl_last_block :: "u32 option"
  pl_ephemeral :: "(u32, 'k set) alist"
  pl_direct :: "('k, 'd storage_entry) alist"

definition pl_new :: "nat \<Rightarrow> ('k, 'd) plain_storage" where
  "pl_new max_blocks =
     \<lparr>pl_max_blocks = max_blocks, pl_last_block = None, pl_ephemeral = [], pl_direct = []\<rparr>"

definition pl_prune :: "('k, 'd) plain_storage \<Rightarrow> ('k, 'd) plain_storage" where
  "pl_prune s =
     (if length (pl_ephemeral s) > pl_max_blocks s then
        (case pl_ephemeral s of
           [] \<Rightarrow> s
         | (oldest_block, entries) # _ \<Rightarrow>
             s\<lparr>pl_direct := filter (\<lambda>(k, _). k \<notin> entries) (pl_direct s),
               pl_ephemeral := bt_del oldest_block (pl_ephemeral s)\<rparr>)
      else s)"

definition pl_insert ::
  "'k \<Rightarrow> 'd storage_entry \<Rightarrow> ('k, 'd) plain_storage \<Rightarrow> (storage_error + unit) \<times> ('k, 'd) plain_storage" where
  "pl_insert key entry s =
     (if map_of (pl_direct s) key \<noteq> None then (Inl DuplicateKey, s)
      else
        let block_number = entry_block entry;
            s1 = s\<lparr>pl_last_block := Some block_number, pl_direct := hm_put key entry (pl_direct s)\<rparr>;
            s2 = (if se_type entry = Persistent then s1
                  else s1\<lparr>pl_ephemeral := bt_update_default {} block_number (insert key) (pl_ephemeral s1)\<rparr>)
        in (Inr (), pl_prune s2))"

definition pl_replace ::
  "'k \<Rightarrow> 'd storage_entry \<Rightarrow> ('k, 'd) plain_storage \<Rightarrow> 'd storage_entry option \<times> ('k, 'd) plain_storage" where
  "pl_replace key entry s =
     (case map_of (pl_direct s) key of
        None \<Rightarrow> (None, s)
      | Some old \<Rightarrow> (Some old, s\<lparr>pl_direct := hm_modify key (\<lambda>_. entry) (pl_direct s)\<rparr>))"

definition pl_get :: "'k \<Rightarrow> ('k, 'd) plain_storage \<Rightarrow> 'd storage_entry option" where
  "pl_get key s = map_of (pl_direct s) key"

definition pl_delete ::
  "'k \<Rightarrow> ('k, 'd) plain_storage \<Rightarrow> 'd storage_entry option \<times> ('k, 'd) plain_storage" where
  "pl_delete key s = (map_of (pl_direct s) key, s\<lparr>pl_direct := hm_del key (pl_direct s)\<rparr>)"

definition pl_len :: "('k, 'd) plain_storage \<Rightarrow> nat" where
  "pl_len s = length (pl_direct s)"

definition pl_keys :: "('k, 'd) plain_storage \<Rightarrow> 'k list" where
  "pl_keys s = map fst (pl_direct s)"

section \<open>Invariant and contract\<close>

definition pl_inv :: "('k, 'd) plain_storage \<Rightarrow> bool" where
  "pl_inv s \<longleftrightarrow> bt_wf (pl_ephemeral s) \<and> hm_wf (pl_direct s) \<and> length (pl_ephemeral s) \<le> pl_max_blocks s"

text \<open>What \<open>pl_insert\<close> hands to \<open>pl_prune\<close>.\<close>

definition pl_insert_unpruned ::
  "'k \<Rightarrow> 'd storage_entry \<Rightarrow> ('k, 'd) plain_storage \<Rightarrow> ('k, 'd) plain_storage" where
  "pl_insert_unpruned key entry s =
     s\<lparr>pl_last_block := Some (entry_block entry), pl_direct := hm_put key entry (pl_direct s),
       pl_ephemeral :=
         (if se_type entry = Persistent then pl_ephemeral s
          else bt_update_default {} (entry_block entry) (insert key) (pl_ephemeral s))\<rparr>"

lemma pl_insert_fresh:
  "map_of (pl_direct s) key = None \<Longrightarrow> pl_insert key entry s = (Inr (), pl_prune (pl_insert_unpruned key entry s))"
  by (simp add: pl_insert_def pl_insert_unpruned_def Let_def)

lemma pl_prune_direct:
  "pl_direct (pl_prune s) =
     filter (\<lambda>(k, _). k \<notin> evicted_keys (pl_max_blocks s) (pl_ephemeral s)) (pl_direct s)"
  by (auto simp: pl_prune_def evicted_keys_def split: list.splits)

lemma pl_get_prune:
  "pl_get k (pl_prune s) =
     (if k \<in> evicted_keys (pl_max_blocks s) (pl_ephemeral s) then None else pl_get k s)"
  by (simp add: pl_get_def pl_prune_direct map_of_filter_keys)

lemma pl_prune_ephemeral:
  assumes "bt_wf (pl_ephemeral s)"
  shows "pl_ephemeral (pl_prune s) =
    (if length (pl_ephemeral s) > pl_max_blocks s then tl (pl_ephemeral s) else pl_ephemeral s)"
  using assms by (auto simp: pl_prune_def bt_del_head split: list.splits)

lemma pl_max_blocks_prune [simp]: "pl_max_blocks (pl_prune s) = pl_max_blocks s"
  by (auto simp: pl_prune_def split: list.splits)

lemma pl_inv_prune:
  assumes "bt_wf (pl_ephemeral s)" "hm_wf (pl_direct s)" "length (pl_ephemeral s) \<le> Suc (pl_max_blocks s)"
  shows "pl_inv (pl_prune s)"
  using assms
  by (cases "pl_ephemeral s")
    (auto simp: pl_inv_def pl_prune_ephemeral pl_prune_direct hm_wf_filter bt_wf_Cons)

lemma pl_inv_new [simp]: "pl_inv (pl_new n)"
  by (simp add: pl_inv_def pl_new_def)

lemma pl_inv_insert:
  assumes s: "pl_inv s"
  shows "pl_inv (snd (pl_insert k e s))"
proof (cases "map_of (pl_direct s) k")
  case None
  have "pl_inv (pl_prune (pl_insert_unpruned k e s))"
    using s length_bt_update_default [of "pl_ephemeral s" "{}" "entry_block e" "insert k"]
    by (intro pl_inv_prune) (auto simp: pl_insert_unpruned_def pl_inv_def hm.wf_put)
  with None show ?thesis by (simp add: pl_insert_fresh)
qed (simp add: pl_insert_def s)

lemma pl_get_insert:
  assumes "pl_inv s" "pl_get k s = None"
  shows "pl_get k' (snd (pl_insert k e s)) =
    (if k' \<in> evicted_keys (pl_max_blocks s) (pl_ephemeral (pl_insert_unpruned k e s)) then None
     else if k' = k then Some e else pl_get k' s)"
  using assms
  by (simp add: pl_get_def pl_insert_fresh pl_get_prune [unfolded pl_get_def])
    (simp add: pl_insert_unpruned_def hm.map_of_put pl_inv_def)

interpretation plain: record_store pl_insert pl_replace pl_delete pl_get pl_inv
proof unfold_locales
  fix s :: "('k, 'd) plain_storage" and k k' e
  assume s: "pl_inv s"
  show "pl_inv (snd (pl_insert k e s))" by (rule pl_inv_insert [OF s])
  show "pl_inv (snd (pl_replace k e s))" using s by (simp add: pl_replace_def pl_inv_def split: option.split)
  show "pl_inv (snd (pl_delete k s))" using s by (simp add: pl_delete_def pl_inv_def hm.wf_del)
  show "fst (pl_insert k e s) = (if pl_get k s = None then Inr () else Inl DuplicateKey)"
    by (simp add: pl_insert_def pl_get_def Let_def)
  show "pl_get k' (snd (pl_insert k e s)) \<in> {None, if k' = k then Some e else pl_get k' s}"
    if "pl_get k s = None" using pl_get_insert [OF s that, of k' e] by (simp split: if_splits)
  show "fst (pl_replace k e s) = pl_get k s" by (simp add: pl_replace_def pl_get_def split: option.split)
  show "pl_get k' (snd (pl_replace k e s)) = (if k' = k \<and> pl_get k s \<noteq> None then Some e else pl_get k' s)"
    by (auto simp: pl_replace_def pl_get_def map_of_hm_modify split: option.split)
  show "fst (pl_delete k s) = pl_get k s" by (simp add: pl_delete_def pl_get_def)
  show "pl_get k' (snd (pl_delete k s)) = (if k' = k then None else pl_get k' s)"
    using s by (simp add: pl_delete_def pl_get_def hm.map_of_del pl_inv_def)
qed (auto simp: pl_insert_def pl_get_def)

section \<open>Properties\<close>

abbreviation pl_run :: "('k, 'd) plain_storage \<Rightarrow> ('k, 'd storage_entry) store_op list \<Rightarrow> ('k, 'd) plain_storage" where
  "pl_run \<equiv> run_ops pl_insert pl_replace pl_delete"

lemma pl_inv_run [simp]: "pl_inv (pl_run (pl_new n) ops)"
  by (rule plain.inv_run_ops) simp

lemma pl_get_new [simp]: "pl_get k (pl_new n) = None"
  by (simp add: pl_get_def pl_new_def)

text \<open>In the plain storage, a read returns nothing or the value that the requests wrote last at the
  key, whatever was evicted in between.\<close>

theorem plain_read_is_last_written:
  assumes "pl_get k (pl_run (pl_new max_blocks) ops) = Some e"
  shows "last_written ops k e"
  by (rule plain.run_ops_provenance [OF pl_inv_new _ assms]) simp

theorem plain_read_is_last_written_witness:
  "last_written
     [OpInsert (7::nat) (new_onchain (record_time_from 5) (10::nat)),
      OpInsert 7 (new_onchain (record_time_from 5) 11), OpInsert 8 (new_onchain (record_time_from 5) 12)]
     7 (new_onchain (record_time_from 5) 10)"
  by (rule plain_read_is_last_written [where max_blocks = 4])
    (simp add: run_ops_def pl_insert_def pl_get_def pl_new_def pl_prune_def bt_update_default_def Let_def
      new_onchain_def record_time_from_def entry_block_def)

text \<open>Persistent entries are never in the index, as long as their key was never written with another
  record type.\<close>

definition pl_unindexed :: "'k \<Rightarrow> ('k, 'd) plain_storage \<Rightarrow> bool" where
  "pl_unindexed k s \<longleftrightarrow> (\<forall>ks \<in> snd ` set (pl_ephemeral s). k \<notin> ks)"

lemma bt_update_default_values:
  "bt_wf m \<Longrightarrow> kv \<in> set (bt_update_default d b f m) \<Longrightarrow>
     kv \<in> set m \<or> kv = (b, f (the_default d (map_of m b)))"
  by (cases kv) (auto simp: bt_update_default_def bt.entry_put the_default_def split: if_splits)

lemma pl_unindexed_insert:
  assumes s: "pl_inv s" and k: "pl_unindexed k s" and ins: "k' \<noteq> k \<or> se_type e = Persistent"
  shows "pl_unindexed k (snd (pl_insert k' e s))"
proof (cases "map_of (pl_direct s) k'")
  case None
  let ?s = "pl_insert_unpruned k' e s"
  have "\<exists>ks \<in> snd ` set (pl_ephemeral s). k \<in> ks"
    if "k \<in> the_default {} (map_of (pl_ephemeral s) b)" for b
    using that by (cases "map_of (pl_ephemeral s) b") (force dest: map_of_SomeD)+
  then have "pl_unindexed k ?s"
    using s k ins bt_update_default_values [of "pl_ephemeral s" _ "{}" "entry_block e" "insert k'"]
    by (force simp: pl_unindexed_def pl_insert_unpruned_def pl_inv_def split: if_splits)
  moreover have "bt_wf (pl_ephemeral ?s)" using s by (simp add: pl_insert_unpruned_def pl_inv_def)
  ultimately have "pl_unindexed k (pl_prune ?s)"
    by (auto simp: pl_unindexed_def pl_prune_ephemeral dest: list.set_sel(2) [rotated])
  with None show ?thesis by (simp add: pl_insert_fresh)
qed (simp add: pl_insert_def k)

lemma pl_get_insert_unindexed:
  assumes "pl_inv s" "pl_unindexed k s" "k' \<noteq> k"
  shows "pl_get k (snd (pl_insert k' e s)) = pl_get k s"
proof (cases "pl_get k' s")
  case None
  have "k \<notin> evicted_keys (pl_max_blocks s) (pl_ephemeral (pl_insert_unpruned k' e s))"
    using pl_unindexed_insert [OF assms(1,2), of k' e] evicted_keys_subset [of k "pl_max_blocks s"]
      bt_update_default_values [of "pl_ephemeral s" _ "{}" "entry_block e" "insert k'"] assms
    by (fastforce simp: pl_unindexed_def pl_insert_unpruned_def pl_inv_def the_default_def
        dest: map_of_SomeD split: if_splits option.splits)
  with pl_get_insert [OF assms(1) None] assms(3) show ?thesis by auto
qed (simp add: pl_insert_def pl_get_def)

lemma pl_unindexed_run_inserts:
  assumes "pl_inv s" "pl_unindexed k s" "\<forall>op \<in> set ops. \<exists>k' e. op = OpInsert k' e \<and> k' \<noteq> k"
  shows "pl_get k (pl_run s ops) = pl_get k s"
  using assms(3)
proof (induction ops rule: rev_induct)
  case (snoc op ops)
  then obtain k' e where op: "op = OpInsert k' e" "k' \<noteq> k" by auto
  have "pl_unindexed k (pl_run s ops)"
    using snoc.prems
  proof (induction ops rule: rev_induct)
    case (snoc op ops)
    then show ?case
      using pl_unindexed_insert [OF plain.inv_run_ops [OF assms(1)]] by (auto simp: run_ops_def)
  qed (simp add: run_ops_def assms(2))
  with pl_get_insert_unindexed [OF plain.inv_run_ops [OF assms(1)] _ op(2)] op snoc show ?case
    by (simp add: run_ops_def)
qed (simp add: run_ops_def)

text \<open>A persistent record of the plain storage is not pruned: once written at a key that is not
  indexed, it is still read after any number of insertions at other keys, however many blocks pass.\<close>

theorem plain_persistent_survives:
  assumes "pl_inv s" "pl_unindexed k s" "pl_get k s = None" "se_type e = Persistent"
    and "\<forall>op \<in> set ops. \<exists>k' e'. op = OpInsert k' e' \<and> k' \<noteq> k"
  shows "pl_get k (pl_run (snd (pl_insert k e s)) ops) = Some e"
proof -
  have "k \<notin> evicted_keys (pl_max_blocks s) (pl_ephemeral (pl_insert_unpruned k e s))"
    using assms(1,2,4) by (simp add: pl_insert_unpruned_def pl_inv_def)
  then have "pl_get k (snd (pl_insert k e s)) = Some e" by (simp add: pl_get_insert [OF assms(1,3)])
  moreover have "pl_unindexed k (snd (pl_insert k e s))"
    using assms(4) by (intro pl_unindexed_insert [OF assms(1,2)]) simp
  ultimately show ?thesis
    using pl_unindexed_run_inserts [OF pl_inv_insert [OF assms(1)] _ assms(5)] by simp
qed

theorem plain_persistent_survives_witness:
  "pl_get (3::nat)
     (pl_run (snd (pl_insert 3 (new_persistent (record_time_from 200) (10::nat)) (pl_new 1)))
        [OpInsert 4 (new_onchain (record_time_from 300) 11), OpInsert 5 (new_onchain (record_time_from 400) 12)]) =
   Some (new_persistent (record_time_from 200) 10)"
  by (rule plain_persistent_survives [OF pl_inv_new])
    (simp_all add: pl_unindexed_def new_persistent_def, simp add: pl_new_def)

text \<open>A deleted key stays in the index. Written again at a newer block, it is evicted with the old
  one.\<close>

lemma plain_delete_keeps_index:
  "pl_get (3::nat)
     (pl_run (pl_new 1)
        [OpInsert 3 (new_onchain (record_time_from 5) (10::nat)), OpDelete 3,
         OpInsert 3 (new_persistent (record_time_from 6) 11),
         OpInsert 4 (new_onchain (record_time_from 6) 12)]) = None"
  by (simp add: run_ops_def pl_insert_def pl_delete_def pl_get_def pl_new_def pl_prune_def bt_del_def
      bt_update_default_def Let_def new_onchain_def new_persistent_def record_time_from_def entry_block_def)

end
