(* ===== verification/Prefixed_Storage.thy ===== *)
theory Prefixed_Storage
  imports Storage
begin

text \<open>
  The prefixed storage \<^verbatim>\<open>HashedPrefixedRecordsStorage\<close> (\<^verbatim>\<open>essentials/src/storage.rs\<close>): one map of
  entries per prefix, and one index of keys by block for all prefixes. Eviction of a block removes
  its keys under every prefix. The collector keeps all its data in this storage.
\<close>

record ('k, 'p, 'd) prefixed_storage =
  pf_max_blocks :: nat
  pf_last_block :: "u32 option"
  pf_ephemeral :: "(u32, 'k set) alist"
  pf_records :: "('p, ('k, 'd storage_entry) alist) alist"

definition pf_new :: "nat \<Rightarrow> ('k, 'p, 'd) prefixed_storage" where
  "pf_new max_blocks =
     \<lparr>pf_max_blocks = max_blocks, pf_last_block = None, pf_ephemeral = [], pf_records = []\<rparr>"

section \<open>Operations without a prefix\<close>

text \<open>A key cannot be inserted without a prefix; it is replaced, read and deleted in the first map,
  in iteration order, that holds it.\<close>

definition pf_insert ::
  "'k \<Rightarrow> 'd storage_entry \<Rightarrow> ('k, 'p, 'd) prefixed_storage \<Rightarrow>
   (storage_error + unit) \<times> ('k, 'p, 'd) prefixed_storage" where
  "pf_insert key entry s = (Inl NoPrefix, s)"

fun replace_first ::
  "'k \<Rightarrow> 'e \<Rightarrow> ('p, ('k, 'e) alist) alist \<Rightarrow> 'e option \<times> ('p, ('k, 'e) alist) alist" where
  "replace_first key entry [] = (None, [])"
| "replace_first key entry ((p, direct_map) # rest) =
     (case map_of direct_map key of
        Some old \<Rightarrow> (Some old, (p, hm_modify key (\<lambda>_. entry) direct_map) # rest)
      | None \<Rightarrow> (let (r, rest') = replace_first key entry rest in (r, (p, direct_map) # rest')))"

definition pf_replace ::
  "'k \<Rightarrow> 'd storage_entry \<Rightarrow> ('k, 'p, 'd) prefixed_storage \<Rightarrow>
   'd storage_entry option \<times> ('k, 'p, 'd) prefixed_storage" where
  "pf_replace key entry s =
     (let (r, recs) = replace_first key entry (pf_records s) in (r, s\<lparr>pf_records := recs\<rparr>))"

fun find_first :: "'k \<Rightarrow> ('p, ('k, 'e) alist) alist \<Rightarrow> 'e option" where
  "find_first key [] = None"
| "find_first key ((p, direct_map) # rest) =
     (case map_of direct_map key of Some e \<Rightarrow> Some e | None \<Rightarrow> find_first key rest)"

definition pf_get :: "'k \<Rightarrow> ('k, 'p, 'd) prefixed_storage \<Rightarrow> 'd storage_entry option" where
  "pf_get key s = find_first key (pf_records s)"

fun delete_first ::
  "'k \<Rightarrow> ('p, ('k, 'e) alist) alist \<Rightarrow> 'e option \<times> ('p, ('k, 'e) alist) alist" where
  "delete_first key [] = (None, [])"
| "delete_first key ((p, direct_map) # rest) =
     (case map_of direct_map key of
        Some old \<Rightarrow> (Some old, (p, hm_del key direct_map) # rest)
      | None \<Rightarrow> (let (r, rest') = delete_first key rest in (r, (p, direct_map) # rest')))"

definition pf_delete ::
  "'k \<Rightarrow> ('k, 'p, 'd) prefixed_storage \<Rightarrow> 'd storage_entry option \<times> ('k, 'p, 'd) prefixed_storage" where
  "pf_delete key s = (let (r, recs) = delete_first key (pf_records s) in (r, s\<lparr>pf_records := recs\<rparr>))"

definition pf_len :: "('k, 'p, 'd) prefixed_storage \<Rightarrow> nat" where
  "pf_len s = sum_list (map (length \<circ> snd) (pf_records s))"

definition pf_keys :: "('k, 'p, 'd) prefixed_storage \<Rightarrow> 'k list" where
  "pf_keys s = concat (map (map fst \<circ> snd) (pf_records s))"

section \<open>Operations under a prefix\<close>

definition pf_prune :: "('k, 'p, 'd) prefixed_storage \<Rightarrow> ('k, 'p, 'd) prefixed_storage" where
  "pf_prune s =
     (if length (pf_ephemeral s) > pf_max_blocks s then
        (case pf_ephemeral s of
           [] \<Rightarrow> s
         | (oldest_block, entries) # _ \<Rightarrow>
             s\<lparr>pf_records := hm_map_values (filter (\<lambda>(k, _). k \<notin> entries)) (pf_records s),
               pf_ephemeral := bt_del oldest_block (pf_ephemeral s)\<rparr>)
      else s)"

text \<open>\<open>entry(prefix).or_default()\<close> creates the map of a new prefix before the key is looked up.\<close>

definition pf_insert_prefix ::
  "'p \<Rightarrow> 'k \<Rightarrow> 'd storage_entry \<Rightarrow> ('k, 'p, 'd) prefixed_storage \<Rightarrow>
   (storage_error + unit) \<times> ('k, 'p, 'd) prefixed_storage" where
  "pf_insert_prefix prefix key entry s =
     (let s0 = s\<lparr>pf_records := hm_update_default [] prefix id (pf_records s)\<rparr>;
          direct_storage = the_default [] (map_of (pf_records s0) prefix)
      in if map_of direct_storage key \<noteq> None then (Inl DuplicateKey, s0)
         else
           let block_number = entry_block entry;
               s1 = s0\<lparr>pf_last_block := Some block_number,
                       pf_records := hm_modify prefix (hm_put key entry) (pf_records s0)\<rparr>;
               s2 = s1\<lparr>pf_ephemeral := bt_update_default {} block_number (insert key) (pf_ephemeral s1)\<rparr>
           in (Inr (), pf_prune s2))"

definition pf_replace_prefixed ::
  "'p \<Rightarrow> 'k \<Rightarrow> 'd storage_entry \<Rightarrow> ('k, 'p, 'd) prefixed_storage \<Rightarrow>
   'd storage_entry option \<times> ('k, 'p, 'd) prefixed_storage" where
  "pf_replace_prefixed prefix key entry s =
     (case map_of (pf_records s) prefix of
        None \<Rightarrow> (None, s)
      | Some direct_storage \<Rightarrow>
          (case map_of direct_storage key of
             None \<Rightarrow> (None, s)
           | Some old \<Rightarrow>
               (Some old,
                s\<lparr>pf_records := hm_modify prefix (hm_modify key (\<lambda>_. entry)) (pf_records s)\<rparr>)))"

definition pf_get_prefix :: "'p \<Rightarrow> 'k \<Rightarrow> ('k, 'p, 'd) prefixed_storage \<Rightarrow> 'd storage_entry option" where
  "pf_get_prefix prefix key s =
     (case map_of (pf_records s) prefix of None \<Rightarrow> None | Some direct_storage \<Rightarrow> map_of direct_storage key)"

definition pf_delete_prefix ::
  "'p \<Rightarrow> 'k \<Rightarrow> ('k, 'p, 'd) prefixed_storage \<Rightarrow> 'd storage_entry option \<times> ('k, 'p, 'd) prefixed_storage" where
  "pf_delete_prefix prefix key s =
     (case map_of (pf_records s) prefix of
        None \<Rightarrow> (None, s)
      | Some direct_storage \<Rightarrow>
          (map_of direct_storage key, s\<lparr>pf_records := hm_modify prefix (hm_del key) (pf_records s)\<rparr>))"

definition pf_prefixed_keys :: "'p \<Rightarrow> ('k, 'p, 'd) prefixed_storage \<Rightarrow> 'k list" where
  "pf_prefixed_keys prefix s =
     (case map_of (pf_records s) prefix of None \<Rightarrow> [] | Some direct_storage \<Rightarrow> map fst direct_storage)"

definition pf_prefixes :: "('k, 'p, 'd) prefixed_storage \<Rightarrow> 'p list" where
  "pf_prefixes s = map fst (pf_records s)"

section \<open>Invariant and contract\<close>

definition pf_inv :: "('k, 'p, 'd) prefixed_storage \<Rightarrow> bool" where
  "pf_inv s \<longleftrightarrow>
     bt_wf (pf_ephemeral s) \<and> hm_wf (pf_records s) \<and> hm_all_values hm_wf (pf_records s) \<and>
     length (pf_ephemeral s) \<le> pf_max_blocks s"

lemma pf_inv_new [simp]: "pf_inv (pf_new n)"
  by (simp add: pf_inv_def pf_new_def)

lemma pf_inv_map: "pf_inv s \<Longrightarrow> map_of (pf_records s) p = Some m \<Longrightarrow> hm_wf m"
  by (auto simp: pf_inv_def intro: hm_all_values_get)

text \<open>The index and the limit that \<open>pf_prune\<close> sees after an insertion.\<close>

definition pf_index_with :: "'k \<Rightarrow> 'd storage_entry \<Rightarrow> ('k, 'p, 'd) prefixed_storage \<Rightarrow> (u32, 'k set) alist" where
  "pf_index_with key entry s = bt_update_default {} (entry_block entry) (insert key) (pf_ephemeral s)"

definition pf_evicted :: "'k \<Rightarrow> 'd storage_entry \<Rightarrow> ('k, 'p, 'd) prefixed_storage \<Rightarrow> 'k set" where
  "pf_evicted key entry s = evicted_keys (pf_max_blocks s) (pf_index_with key entry s)"

lemma pf_max_blocks_prune [simp]: "pf_max_blocks (pf_prune s) = pf_max_blocks s"
  by (auto simp: pf_prune_def split: list.splits)

lemma pf_prune_records:
  "pf_records (pf_prune s) =
     hm_map_values (filter (\<lambda>(k, _). k \<notin> evicted_keys (pf_max_blocks s) (pf_ephemeral s))) (pf_records s)"
  by (auto simp: pf_prune_def evicted_keys_def hm_map_values_def split: list.splits)

lemma pf_prune_ephemeral:
  assumes "bt_wf (pf_ephemeral s)"
  shows "pf_ephemeral (pf_prune s) =
    (if length (pf_ephemeral s) > pf_max_blocks s then tl (pf_ephemeral s) else pf_ephemeral s)"
  using assms by (auto simp: pf_prune_def bt_del_head split: list.splits)

lemma pf_get_prune:
  "pf_get_prefix p k (pf_prune s) =
     (if k \<in> evicted_keys (pf_max_blocks s) (pf_ephemeral s) then None else pf_get_prefix p k s)"
  by (simp add: pf_get_prefix_def pf_prune_records map_of_hm_map_values map_of_filter_keys split: option.split)

lemma pf_inv_prune:
  assumes "bt_wf (pf_ephemeral s)" "hm_wf (pf_records s)" "hm_all_values hm_wf (pf_records s)"
    "length (pf_ephemeral s) \<le> Suc (pf_max_blocks s)"
  shows "pf_inv (pf_prune s)"
  using assms
  by (cases "pf_ephemeral s")
    (auto simp: pf_inv_def pf_prune_ephemeral pf_prune_records bt_wf_Cons
      intro: hm_all_values_map_values hm_wf_filter)

text \<open>The state after \<open>entry(prefix).or_default()\<close>: the same reads.\<close>

definition pf_with_prefix :: "'p \<Rightarrow> ('k, 'p, 'd) prefixed_storage \<Rightarrow> ('k, 'p, 'd) prefixed_storage" where
  "pf_with_prefix p s = s\<lparr>pf_records := hm_update_default [] p id (pf_records s)\<rparr>"

lemma pf_with_prefix_simps [simp]:
  "pf_ephemeral (pf_with_prefix p s) = pf_ephemeral s"
  "pf_max_blocks (pf_with_prefix p s) = pf_max_blocks s"
  "pf_last_block (pf_with_prefix p s) = pf_last_block s"
  by (simp_all add: pf_with_prefix_def)

lemma map_of_with_prefix:
  "hm_wf (pf_records s) \<Longrightarrow> map_of (pf_records (pf_with_prefix p s)) p' =
     (if p' = p then Some (the_default [] (map_of (pf_records s) p)) else map_of (pf_records s) p')"
  by (simp add: pf_with_prefix_def hm_update_default_def hm.map_of_put the_default_def)

lemma pf_get_with_prefix: "pf_inv s \<Longrightarrow> pf_get_prefix p' k (pf_with_prefix p s) = pf_get_prefix p' k s"
  by (auto simp: pf_get_prefix_def map_of_with_prefix pf_inv_def split: option.split)

lemma pf_inv_with_prefix:
  assumes "pf_inv s" shows "pf_inv (pf_with_prefix p s)"
proof -
  have "hm_all_values hm_wf (pf_records (pf_with_prefix p s))"
    using assms pf_inv_map [OF assms, of p]
    by (auto simp: pf_with_prefix_def hm_update_default_def pf_inv_def intro!: hm_all_values_put split: option.split)
  with assms show ?thesis
    by (simp add: pf_inv_def) (simp add: pf_with_prefix_def hm_update_default_def hm.wf_put)
qed

definition pf_insert_unpruned ::
  "'p \<Rightarrow> 'k \<Rightarrow> 'd storage_entry \<Rightarrow> ('k, 'p, 'd) prefixed_storage \<Rightarrow> ('k, 'p, 'd) prefixed_storage" where
  "pf_insert_unpruned p k e s =
     (pf_with_prefix p s)\<lparr>pf_last_block := Some (entry_block e),
       pf_records := hm_modify p (hm_put k e) (pf_records (pf_with_prefix p s)),
       pf_ephemeral := pf_index_with k e s\<rparr>"

lemma pf_insert_prefix_eq:
  assumes "pf_inv s"
  shows "pf_insert_prefix p k e s =
    (if pf_get_prefix p k s = None then (Inr (), pf_prune (pf_insert_unpruned p k e s))
     else (Inl DuplicateKey, pf_with_prefix p s))"
proof -
  have "map_of (the_default [] (map_of (pf_records (pf_with_prefix p s)) p)) k = pf_get_prefix p k s"
    using assms by (simp add: pf_inv_def map_of_with_prefix pf_get_prefix_def the_default_def split: option.split)
  then show ?thesis
    by (simp add: pf_insert_prefix_def Let_def flip: pf_with_prefix_def)
      (simp add: pf_insert_unpruned_def pf_index_with_def)
qed

lemma pf_get_insert_unpruned:
  assumes "pf_inv s"
  shows "pf_get_prefix p' k' (pf_insert_unpruned p k e s) =
    (if p' = p \<and> k' = k then Some e else pf_get_prefix p' k' s)"
proof -
  have wf: "hm_wf (the_default [] (map_of (pf_records s) p))"
    using pf_inv_map [OF assms] by (cases "map_of (pf_records s) p") auto
  show ?thesis
    using assms wf
    by (auto simp: pf_get_prefix_def pf_insert_unpruned_def map_of_hm_modify map_of_with_prefix pf_inv_def
        hm.map_of_put split: option.split)
qed

lemma pf_insert_unpruned_simps [simp]:
  "pf_ephemeral (pf_insert_unpruned p k e s) = pf_index_with k e s"
  "pf_max_blocks (pf_insert_unpruned p k e s) = pf_max_blocks s"
  by (simp_all add: pf_insert_unpruned_def)

lemma pf_inv_insert:
  assumes s: "pf_inv s"
  shows "pf_inv (snd (pf_insert_prefix p k e s))"
proof (cases "pf_get_prefix p k s")
  case None
  have "hm_all_values hm_wf (pf_records (pf_insert_unpruned p k e s))"
    using pf_inv_with_prefix [OF s, of p]
    by (auto simp: pf_insert_unpruned_def pf_inv_def hm.wf_put intro!: hm_all_values_modify)
  moreover have "hm_wf (pf_records (pf_insert_unpruned p k e s))"
    using pf_inv_with_prefix [OF s, of p] by (simp add: pf_insert_unpruned_def pf_inv_def)
  ultimately have "pf_inv (pf_prune (pf_insert_unpruned p k e s))"
    using s length_bt_update_default [of "pf_ephemeral s" "{}" "entry_block e" "insert k"]
    by (intro pf_inv_prune) (auto simp: pf_inv_def pf_index_with_def)
  with None s show ?thesis by (simp add: pf_insert_prefix_eq)
qed (simp add: pf_insert_prefix_eq s pf_inv_with_prefix)

lemma pf_get_insert:
  assumes "pf_inv s" "pf_get_prefix p k s = None"
  shows "pf_get_prefix p' k' (snd (pf_insert_prefix p k e s)) =
    (if k' \<in> pf_evicted k e s then None
     else if p' = p \<and> k' = k then Some e else pf_get_prefix p' k' s)"
  using assms by (simp add: pf_insert_prefix_eq pf_get_prune pf_get_insert_unpruned pf_evicted_def)

definition pf_ins :: "'p \<times> 'k \<Rightarrow> 'd storage_entry \<Rightarrow> ('k, 'p, 'd) prefixed_storage \<Rightarrow> (storage_error + unit) \<times> ('k, 'p, 'd) prefixed_storage" where
  "pf_ins pk = pf_insert_prefix (fst pk) (snd pk)"

definition pf_rep :: "'p \<times> 'k \<Rightarrow> 'd storage_entry \<Rightarrow> ('k, 'p, 'd) prefixed_storage \<Rightarrow> 'd storage_entry option \<times> ('k, 'p, 'd) prefixed_storage" where
  "pf_rep pk = pf_replace_prefixed (fst pk) (snd pk)"

definition pf_del :: "'p \<times> 'k \<Rightarrow> ('k, 'p, 'd) prefixed_storage \<Rightarrow> 'd storage_entry option \<times> ('k, 'p, 'd) prefixed_storage" where
  "pf_del pk = pf_delete_prefix (fst pk) (snd pk)"

definition pf_read :: "'p \<times> 'k \<Rightarrow> ('k, 'p, 'd) prefixed_storage \<Rightarrow> 'd storage_entry option" where
  "pf_read pk = pf_get_prefix (fst pk) (snd pk)"

lemma pf_inv_modify:
  "pf_inv s \<Longrightarrow> (\<And>m. hm_wf m \<Longrightarrow> hm_wf (f m)) \<Longrightarrow> pf_inv (s\<lparr>pf_records := hm_modify p f (pf_records s)\<rparr>)"
  by (auto simp: pf_inv_def intro!: hm_all_values_modify)

lemma pf_get_modify:
  "pf_get_prefix p' k' (s\<lparr>pf_records := hm_modify p f (pf_records s)\<rparr>) =
     (case map_of (pf_records s) p' of None \<Rightarrow> None
      | Some m \<Rightarrow> map_of (if p' = p then f m else m) k')"
  by (simp add: pf_get_prefix_def map_of_hm_modify split: option.split)

lemma pf_read_rep:
  "pf_read pk' (snd (pf_rep pk e s)) = (if pk' = pk \<and> pf_read pk s \<noteq> None then Some e else pf_read pk' s)"
proof (cases "pf_read pk s")
  case None
  then have "snd (pf_rep pk e s) = s"
    by (auto simp: pf_rep_def pf_read_def pf_replace_prefixed_def pf_get_prefix_def split: option.splits)
  with None show ?thesis by simp
next
  case (Some old)
  then obtain m where m: "map_of (pf_records s) (fst pk) = Some m" "map_of m (snd pk) = Some old"
    by (auto simp: pf_read_def pf_get_prefix_def split: option.splits)
  then have "snd (pf_rep pk e s) =
      s\<lparr>pf_records := hm_modify (fst pk) (hm_modify (snd pk) (\<lambda>_. e)) (pf_records s)\<rparr>"
    by (simp add: pf_rep_def pf_replace_prefixed_def)
  with Some m show ?thesis
    by (auto simp: pf_read_def pf_get_modify map_of_hm_modify prod_eq_iff pf_get_prefix_def split: option.split)
qed

interpretation pfx: record_store pf_ins pf_rep pf_del pf_read pf_inv
proof unfold_locales
  fix s :: "('k, 'p, 'd) prefixed_storage" and pk pk' :: "'p \<times> 'k" and e :: "'d storage_entry"
  assume s: "pf_inv s"
  show "pf_inv (snd (pf_ins pk e s))" using s by (simp add: pf_ins_def pf_inv_insert)
  show "pf_inv (snd (pf_rep pk e s))"
    using s by (auto simp: pf_rep_def pf_replace_prefixed_def pf_inv_modify split: option.split)
  show "pf_inv (snd (pf_del pk s))"
    using s by (auto simp: pf_del_def pf_delete_prefix_def pf_inv_modify hm.wf_del split: option.split)
  show "fst (pf_ins pk e s) = (if pf_read pk s = None then Inr () else Inl DuplicateKey)"
    using s by (simp add: pf_ins_def pf_read_def pf_insert_prefix_eq)
  show "pf_read pk' (snd (pf_ins pk e s)) = pf_read pk' s" if "pf_read pk s = Some e'" for e'
    using s that by (simp add: pf_ins_def pf_read_def pf_insert_prefix_eq pf_get_with_prefix)
  show "pf_read pk' (snd (pf_ins pk e s)) \<in> {None, if pk' = pk then Some e else pf_read pk' s}"
    if "pf_read pk s = None"
    using s that by (auto simp: pf_ins_def pf_read_def pf_get_insert prod_eq_iff)
  show "fst (pf_rep pk e s) = pf_read pk s" "fst (pf_del pk s) = pf_read pk s"
    by (simp_all add: pf_rep_def pf_del_def pf_read_def pf_replace_prefixed_def pf_delete_prefix_def
        pf_get_prefix_def split: option.split)
  show "pf_read pk' (snd (pf_rep pk e s)) = (if pk' = pk \<and> pf_read pk s \<noteq> None then Some e else pf_read pk' s)"
    by (rule pf_read_rep)
  show "pf_read pk' (snd (pf_del pk s)) = (if pk' = pk then None else pf_read pk' s)"
    using pf_inv_map [OF s, of "fst pk"]
    by (cases pk; cases pk')
      (auto simp: pf_del_def pf_read_def pf_delete_prefix_def pf_get_modify hm.map_of_del split: option.split,
        auto simp: pf_get_prefix_def split: option.split)
qed

text \<open>The laws again, over the operations as the code names them.\<close>

lemma pf_inv_ops:
  assumes "pf_inv s"
  shows "pf_inv (snd (pf_insert_prefix p k e s))" "pf_inv (snd (pf_replace_prefixed p k e s))"
    "pf_inv (snd (pf_delete_prefix p k s))"
  using pfx.inv_ins [OF assms, of "(p, k)" e] pfx.inv_rep [OF assms, of "(p, k)" e] pfx.inv_del [OF assms, of "(p, k)"]
  by (simp_all add: pf_ins_def pf_rep_def pf_del_def)

lemma pf_all_ops:
  assumes "pf_inv s" "\<And>p k e. pf_get_prefix p k s = Some e \<Longrightarrow> Q p e"
  shows "Q p e \<Longrightarrow> pf_get_prefix p' k' (snd (pf_insert_prefix p k e s)) = Some e' \<Longrightarrow> Q p' e'"
    and "Q p e \<Longrightarrow> pf_get_prefix p' k' (snd (pf_replace_prefixed p k e s)) = Some e' \<Longrightarrow> Q p' e'"
    and "pf_get_prefix p' k' (snd (pf_delete_prefix p k s)) = Some e' \<Longrightarrow> Q p' e'"
  using pfx.all_ins [OF assms(1), of "\<lambda>pk. Q (fst pk)" "(p, k)" e "(p', k')" e']
    pfx.all_rep [OF assms(1), of "\<lambda>pk. Q (fst pk)" "(p, k)" e "(p', k')" e']
    pfx.all_del [OF assms(1), of "\<lambda>pk. Q (fst pk)" "(p', k')" "(p, k)" e'] assms(2)
  by (auto simp: pf_ins_def pf_rep_def pf_del_def pf_read_def)

section \<open>Properties\<close>

abbreviation pf_run :: "('k, 'p, 'd) prefixed_storage \<Rightarrow> ('p \<times> 'k, 'd storage_entry) store_op list \<Rightarrow> ('k, 'p, 'd) prefixed_storage" where
  "pf_run \<equiv> run_ops pf_ins pf_rep pf_del"

lemma pf_inv_run [simp]: "pf_inv (pf_run (pf_new n) ops)"
  by (rule pfx.inv_run_ops) simp

lemma pf_read_new [simp]: "pf_read pk (pf_new n) = None"
  by (simp add: pf_read_def pf_get_prefix_def pf_new_def)



text \<open>The exact effect of inserting a fresh key: every read afterwards is the new entry at its own
  prefix and key and the old one elsewhere, except for the keys of the oldest indexed block when the
  insertion brings the index over the limit, which are gone under every prefix.\<close>

theorem prefixed_insert_exact:
  assumes "pf_get_prefix p k (pf_run (pf_new max_blocks) ops) = None"
  shows "fst (pf_insert_prefix p k e (pf_run (pf_new max_blocks) ops)) = Inr () \<and>
    pf_get_prefix p' k' (snd (pf_insert_prefix p k e (pf_run (pf_new max_blocks) ops))) =
      (if k' \<in> pf_evicted k e (pf_run (pf_new max_blocks) ops) then None
       else if p' = p \<and> k' = k then Some e
       else pf_get_prefix p' k' (pf_run (pf_new max_blocks) ops))"
  using pf_get_insert [OF pf_inv_run assms] pfx.ins_status [OF pf_inv_run, where k = "(p, k)" and e = e] assms
  by (simp add: pf_ins_def pf_read_def)

theorem prefixed_insert_exact_witness:
  "pf_get_prefix (2::nat) (7::nat)
     (snd (pf_insert_prefix 1 8 (new_onchain (record_time_from 9) (12::nat))
        (pf_run (pf_new 1) [OpInsert (2, 7) (new_onchain (record_time_from 5) 10)]))) = None"
proof -
  let ?e = "new_onchain (record_time_from 5) (10::nat)"
  let ?s = "pf_run (pf_new 1) [OpInsert (2::nat, 7::nat) ?e]"
  have s: "?s = \<lparr>pf_max_blocks = 1, pf_last_block = Some 5, pf_ephemeral = [(5, {7})],
      pf_records = [(2, [(7, ?e)])]\<rparr>"
    by (simp add: run_ops_def pf_ins_def pf_insert_prefix_def pf_new_def pf_prune_def hm_update_default_def
        hm_modify_def bt_update_default_def Let_def new_onchain_def record_time_from_def entry_block_def)
  have "pf_get_prefix 1 8 ?s = None" unfolding s by (simp add: pf_get_prefix_def)
  moreover have "7 \<in> pf_evicted 8 (new_onchain (record_time_from 9) (12::nat)) ?s"
    unfolding s by (simp add: pf_evicted_def evicted_keys_def pf_index_with_def bt_update_default_def record_time_from_def)
  ultimately show ?thesis
    using prefixed_insert_exact [of "1::nat" "8::nat" 1 "[OpInsert (2, 7) ?e]" "new_onchain (record_time_from 9) 12" 2 7]
    by simp
qed

text \<open>What is written at the newest block is there afterwards.\<close>

lemma bt_put_last: "\<forall>b \<in> fst ` set m. b < k \<Longrightarrow> bt_put k v m = m @ [(k, v)]"
  by (induction k v m rule: bt_put.induct) auto

lemma newest_not_evicted:
  assumes "bt_wf idx" "\<forall>b' \<in> fst ` set idx. b' \<le> b" "0 < n" "length idx \<le> n"
    "\<forall>kv \<in> set idx. fst kv \<noteq> b \<longrightarrow> k' \<notin> snd kv"
  shows "k' \<notin> evicted_keys n (bt_update_default {} b (insert k) idx)"
proof
  let ?idx = "bt_update_default {} b (insert k) idx"
  assume ev: "k' \<in> evicted_keys n ?idx"
  then obtain h ks rest where new: "?idx = (h, ks) # rest" "k' \<in> ks" and long: "n < length ?idx"
    by (auto simp: evicted_keys_head)
  have "length ?idx = length idx" if "map_of idx b = Some w" for w
    using bt.length_put_known [OF assms(1) that] by (simp add: bt_update_default_def that)
  with long assms(4) have "map_of idx b = None" by (cases "map_of idx b") auto
  then have lt: "\<forall>b' \<in> fst ` set idx. b' < b"
    using assms(2) by (auto simp: map_of_eq_None_iff order.strict_iff_order)
  then have app: "?idx = idx @ [(b, {k})]"
    using \<open>map_of idx b = None\<close> by (simp add: bt_update_default_def bt_put_last)
  with long assms(3) have "idx \<noteq> []" by auto
  with app new have "(h, ks) \<in> set idx" by (cases idx) auto
  with assms(5) lt new(2) show False by force
qed

definition only_at_block :: "u32 \<Rightarrow> 'k \<Rightarrow> ('k, 'p, 'd) prefixed_storage \<Rightarrow> bool" where
  "only_at_block b k s \<longleftrightarrow> (\<forall>kv \<in> set (pf_ephemeral s). fst kv \<noteq> b \<longrightarrow> k \<notin> snd kv)"

definition newest_block :: "u32 \<Rightarrow> ('k, 'p, 'd) prefixed_storage \<Rightarrow> bool" where
  "newest_block b s \<longleftrightarrow> (\<forall>b' \<in> fst ` set (pf_ephemeral s). b' \<le> b)"

lemma newest_not_pf_evicted:
  assumes "pf_inv s" "0 < pf_max_blocks s" "newest_block (entry_block e) s" "only_at_block (entry_block e) k' s"
  shows "k' \<notin> pf_evicted k e s"
  using newest_not_evicted [of "pf_ephemeral s" "entry_block e" "pf_max_blocks s" k' k] assms
  by (simp add: pf_evicted_def pf_index_with_def pf_inv_def only_at_block_def newest_block_def)

text \<open>With room for at least one block, inserting a fresh key at the newest block makes the entry
  readable, and every other entry whose key is indexed at that block only stays as it was.\<close>

theorem prefixed_newest_block_kept:
  assumes "pf_inv s" "0 < pf_max_blocks s" "newest_block (entry_block e) s"
    and "pf_get_prefix p k s = None" "only_at_block (entry_block e) k s" "only_at_block (entry_block e) k' s"
  shows "pf_get_prefix p k (snd (pf_insert_prefix p k e s)) = Some e \<and>
    ((p', k') \<noteq> (p, k) \<longrightarrow> pf_get_prefix p' k' (snd (pf_insert_prefix p k e s)) = pf_get_prefix p' k' s)"
  using pf_get_insert [OF assms(1,4)] newest_not_pf_evicted [OF assms(1-3)] assms(5,6) by auto

theorem prefixed_newest_block_kept_witness:
  "pf_get_prefix (1::nat) (7::nat)
     (snd (pf_insert_prefix 1 7 (new_onchain (record_time_from 9) (12::nat)) (pf_new 1))) =
   Some (new_onchain (record_time_from 9) 12)"
  using prefixed_newest_block_kept [of "pf_new 1" "new_onchain (record_time_from 9) (12::nat)" "1::nat" "7::nat" 7 1]
  by (simp add: newest_block_def only_at_block_def) (simp add: pf_new_def pf_get_prefix_def)

text \<open>Every stored key is indexed at one of the at most \<open>max_blocks\<close> blocks.\<close>

definition pf_indexed :: "('k, 'p, 'd) prefixed_storage \<Rightarrow> bool" where
  "pf_indexed s \<longleftrightarrow>
     (\<forall>p k. pf_get_prefix p k s \<noteq> None \<longrightarrow> (\<exists>kv \<in> set (pf_ephemeral s). k \<in> snd kv))"

lemma index_keeps:
  assumes "bt_wf idx" "kv \<in> set idx" "k' \<in> snd kv"
  shows "\<exists>kv \<in> set (bt_update_default {} b (insert k) idx). k' \<in> snd kv"
proof (cases "fst kv = b")
  case True
  with assms have "map_of idx b = Some (snd kv)"
    by (metis bt.wf_distinct map_of_is_SomeI prod.collapse)
  with assms show ?thesis
    by (intro bexI [of _ "(b, insert k (snd kv))"]) (auto simp: bt_update_default_def bt.entry_put)
next
  case False
  with assms show ?thesis
    by (intro bexI [of _ kv]) (auto simp: bt_update_default_def bt.entry_put [of _ "fst kv" "snd kv", simplified])
qed

lemma index_adds: "bt_wf idx \<Longrightarrow> \<exists>kv \<in> set (bt_update_default {} b (insert k) idx). k \<in> snd kv"
  by (intro bexI [of _ "(b, insert k (the_default {} (map_of idx b)))"])
    (auto simp: bt_update_default_def bt.entry_put the_default_def)

lemma pf_indexed_insert:
  assumes s: "pf_inv s" and ix: "pf_indexed s"
  shows "pf_indexed (snd (pf_insert_prefix p k e s))"
proof (cases "pf_get_prefix p k s")
  case None
  let ?idx = "pf_index_with k e s"
  have wf: "bt_wf ?idx" using s by (simp add: pf_index_with_def pf_inv_def)
  have idx': "pf_ephemeral (snd (pf_insert_prefix p k e s)) =
      (if length ?idx > pf_max_blocks s then tl ?idx else ?idx)"
    using None s wf by (simp add: pf_insert_prefix_eq pf_prune_ephemeral)
  show ?thesis
    unfolding pf_indexed_def
  proof (intro allI impI)
    fix p' k' assume "pf_get_prefix p' k' (snd (pf_insert_prefix p k e s)) \<noteq> None"
    then have kept: "k' \<notin> pf_evicted k e s" and old: "k' = k \<or> pf_get_prefix p' k' s \<noteq> None"
      by (auto simp: pf_get_insert [OF s None] split: if_splits)
    have "\<exists>kv \<in> set ?idx. k' \<in> snd kv"
      using s ix old index_adds [of "pf_ephemeral s"] index_keeps [of "pf_ephemeral s"]
      unfolding pf_index_with_def pf_indexed_def pf_inv_def by blast
    then obtain kv where kv: "kv \<in> set ?idx" "k' \<in> snd kv" by blast
    with kept have "length ?idx > pf_max_blocks s \<Longrightarrow> kv \<in> set (tl ?idx)"
      by (cases ?idx) (auto simp: pf_evicted_def evicted_keys_def)
    with kv show "\<exists>kv \<in> set (pf_ephemeral (snd (pf_insert_prefix p k e s))). k' \<in> snd kv"
      by (auto simp: idx')
  qed
next
  case (Some e')
  with s ix show ?thesis by (simp add: pf_insert_prefix_eq pf_indexed_def pf_get_with_prefix)
qed

lemma pf_ephemeral_rep [simp]: "pf_ephemeral (snd (pf_rep pk e s)) = pf_ephemeral s"
  by (auto simp: pf_rep_def pf_replace_prefixed_def split: option.split)

lemma pf_ephemeral_del [simp]: "pf_ephemeral (snd (pf_del pk s)) = pf_ephemeral s"
  by (auto simp: pf_del_def pf_delete_prefix_def split: option.split)

lemma pf_indexed_run_op:
  assumes "pf_inv s" "pf_indexed s"
  shows "pf_indexed (run_op pf_ins pf_rep pf_del s op)"
proof (cases op)
  case (OpInsert pk e)
  with assms show ?thesis by (simp add: pf_ins_def pf_indexed_insert)
next
  case (OpReplace pk e)
  have "pf_get_prefix p k s \<noteq> None" if "pf_get_prefix p k (snd (pf_rep pk e s)) \<noteq> None" for p k
    using that pfx.rep_get [OF assms(1), of "(p, k)" pk e] by (auto simp: pf_read_def split: if_splits)
  with OpReplace assms(2) show ?thesis
    unfolding pf_indexed_def by (simp only: run_op.simps pf_ephemeral_rep) blast
next
  case (OpDelete pk)
  have "pf_get_prefix p k s \<noteq> None" if "pf_get_prefix p k (snd (pf_del pk s)) \<noteq> None" for p k
    using that pfx.del_get [OF assms(1), of "(p, k)" pk] by (auto simp: pf_read_def split: if_splits)
  with OpDelete assms(2) show ?thesis
    unfolding pf_indexed_def by (simp only: run_op.simps pf_ephemeral_del) blast
qed

lemma pf_indexed_run: "pf_indexed (pf_run (pf_new n) ops)"
proof (induction ops rule: rev_induct)
  case Nil
  then show ?case by (simp add: run_ops_def pf_indexed_def pf_new_def pf_get_prefix_def)
next
  case (snoc op ops)
  then show ?case using pf_indexed_run_op [OF pf_inv_run snoc] by (simp add: run_ops_def)
qed

lemma pf_max_blocks_run_op: "pf_max_blocks (run_op pf_ins pf_rep pf_del s op) = pf_max_blocks s"
  by (cases op)
    (auto simp: pf_ins_def pf_rep_def pf_del_def pf_insert_prefix_def pf_replace_prefixed_def
      pf_delete_prefix_def Let_def split: option.split)

lemma pf_max_blocks_run: "pf_max_blocks (pf_run (pf_new n) ops) = n"
  by (induction ops rule: rev_induct) (simp_all add: run_ops_def pf_max_blocks_run_op, simp add: pf_new_def)


text \<open>A persistent record is evicted like any other: the record type is not looked at.\<close>

lemma prefixed_persistent_evicted:
  "pf_get_prefix (1::nat) (7::nat)
     (pf_run (pf_new 1)
        [OpInsert (1, 7) (new_persistent (record_time_from 5) (10::nat)),
         OpInsert (1, 8) (new_onchain (record_time_from 6) 11)]) = None"
  by (simp add: run_ops_def pf_ins_def pf_insert_prefix_def pf_get_prefix_def pf_new_def pf_prune_def
      hm_update_default_def hm_modify_def hm_map_values_def bt_update_default_def bt_del_def
      Let_def new_onchain_def new_persistent_def record_time_from_def entry_block_def)

end
