(* ===== verification/Storage_Api.thy ===== *)
theory Storage_Api
  imports Plain_Storage Prefixed_Storage
begin

text \<open>
  The storage service, \<^verbatim>\<open>essentials/src/api/storage.rs\<close>: the request and response messages, the two
  handler tasks that own a storage and answer one request after another, and the client
  \<^verbatim>\<open>RequestExecutor\<close>, whose methods send a request and await the answer. A request carries the sender
  of a oneshot channel or none; \<open>Some alive\<close> says whether its receiver still exists. A handler that
  panics ends its task, and every later request panics on the closed channel.
\<close>

datatype ('k, 'p, 'd) request_type =
    RqWrite 'k "'d storage_entry"
  | RqWritePrefix 'p 'k "'d storage_entry"
  | RqRead 'k
  | RqReadPrefix 'p 'k
  | RqDelete 'k
  | RqDeletePrefix 'p 'k
  | RqReplace 'k "'d storage_entry"
  | RqReplacePrefix 'p 'k "'d storage_entry"
  | RqSize
  | RqKeys
  | RqPrefixes
  | RqKeysWithPrefix 'p

record ('k, 'p, 'd) request =
  rq_type :: "('k, 'p, 'd) request_type"
  rq_sender :: "bool option"

datatype ('k, 'p, 'd) response =
    RspRead "'d storage_entry option"
  | RspSize nat
  | RspKeys "'k list"
  | RspPrefixes "'p list"
  | RspStatus "storage_error + unit"

text \<open>\<open>sender.expect(..).send(r).unwrap()\<close>, and the same where no sender is fine.\<close>

definition must_reply :: "bool option \<Rightarrow> 'r \<Rightarrow> fault + 'r option" where
  "must_reply sender r = (case sender of Some True \<Rightarrow> Inr (Some r) | _ \<Rightarrow> Inl Panic)"

definition may_reply :: "bool option \<Rightarrow> 'r \<Rightarrow> fault + 'r option" where
  "may_reply sender r =
     (case sender of None \<Rightarrow> Inr None | Some True \<Rightarrow> Inr (Some r) | Some False \<Rightarrow> Inl Panic)"

section \<open>The handler tasks\<close>

fun api_handle_plain ::
  "('k, unit, 'd) request_type \<Rightarrow> bool option \<Rightarrow> ('k, 'd) plain_storage \<Rightarrow>
   (fault + ('k, unit, 'd) response option) \<times> ('k, 'd) plain_storage" where
  "api_handle_plain (RqRead key) tx s = (must_reply tx (RspRead (pl_get key s)), s)"
| "api_handle_plain (RqDelete key) tx s =
     (let (r, s') = pl_delete key s in (must_reply tx (RspRead r), s'))"
| "api_handle_plain (RqWrite key value) tx s =
     (let (res, s') = pl_insert key value s in (may_reply tx (RspStatus res), s'))"
| "api_handle_plain (RqReplace key value) tx s =
     (let (res, s') = pl_replace key value s in (may_reply tx (RspRead res), s'))"
| "api_handle_plain RqSize tx s = (must_reply tx (RspSize (pl_len s)), s)"
| "api_handle_plain RqKeys tx s = (must_reply tx (RspKeys (pl_keys s)), s)"
| "api_handle_plain _ tx s = (Inl Panic, s)"

fun api_handle_prefixed ::
  "('k, 'p, 'd) request_type \<Rightarrow> bool option \<Rightarrow> ('k, 'p, 'd) prefixed_storage \<Rightarrow>
   (fault + ('k, 'p, 'd) response option) \<times> ('k, 'p, 'd) prefixed_storage" where
  "api_handle_prefixed (RqRead key) tx s = (must_reply tx (RspRead (pf_get key s)), s)"
| "api_handle_prefixed (RqDelete key) tx s =
     (let (r, s') = pf_delete key s in (must_reply tx (RspRead r), s'))"
| "api_handle_prefixed (RqWrite key value) tx s =
     (let (res, s') = pf_insert key value s in (may_reply tx (RspStatus res), s'))"
| "api_handle_prefixed (RqReplace key value) tx s =
     (let (res, s') = pf_replace key value s in (may_reply tx (RspRead res), s'))"
| "api_handle_prefixed RqSize tx s = (must_reply tx (RspSize (pf_len s)), s)"
| "api_handle_prefixed RqKeys tx s = (must_reply tx (RspKeys (pf_keys s)), s)"
| "api_handle_prefixed (RqKeysWithPrefix prefix) tx s =
     (must_reply tx (RspKeys (pf_prefixed_keys prefix s)), s)"
| "api_handle_prefixed RqPrefixes tx s = (must_reply tx (RspPrefixes (pf_prefixes s)), s)"
| "api_handle_prefixed (RqWritePrefix prefix key value) tx s =
     (let (res, s') = pf_insert_prefix prefix key value s in (may_reply tx (RspStatus res), s'))"
| "api_handle_prefixed (RqReadPrefix prefix key) tx s =
     (must_reply tx (RspRead (pf_get_prefix prefix key s)), s)"
| "api_handle_prefixed (RqDeletePrefix prefix key) tx s =
     (let (r, s') = pf_delete_prefix prefix key s in (must_reply tx (RspRead r), s'))"
| "api_handle_prefixed (RqReplacePrefix prefix key value) tx s =
     (let (res, s') = pf_replace_prefixed prefix key value s in (may_reply tx (RspRead res), s'))"

text \<open>The task loop: it serves a request, or it has panicked.\<close>

datatype 's api_task = Serving 's | Dead

fun api_step ::
  "('q \<Rightarrow> bool option \<Rightarrow> 's \<Rightarrow> (fault + 'r option) \<times> 's) \<Rightarrow> 'q \<Rightarrow> bool option \<Rightarrow> 's api_task \<Rightarrow>
   (fault + 'r option) \<times> 's api_task" where
  "api_step handle q tx Dead = (Inl Panic, Dead)"
| "api_step handle q tx (Serving s) =
     (case handle q tx s of
        (Inl e, s') \<Rightarrow> (Inl Panic, Dead)
      | (Inr r, s') \<Rightarrow> (Inr r, Serving s'))"

section \<open>The client\<close>

datatype api_error = StorageError storage_error | InvalidResponse

type_synonym ('k, 'p, 'd, 's) api_handler =
  "('k, 'p, 'd) request_type \<Rightarrow> bool option \<Rightarrow> 's \<Rightarrow> (fault + ('k, 'p, 'd) response option) \<times> 's"

definition await_status :: "fault + ('k, 'p, 'd) response option \<Rightarrow> fault + (api_error + unit)" where
  "await_status r =
     (case r of
        Inr (Some (RspStatus (Inr u))) \<Rightarrow> Inr (Inr u)
      | Inr (Some (RspStatus (Inl e))) \<Rightarrow> Inr (Inl (StorageError e))
      | Inr (Some _) \<Rightarrow> Inr (Inl InvalidResponse)
      | _ \<Rightarrow> Inl Panic)"

definition await_read :: "fault + ('k, 'p, 'd) response option \<Rightarrow> fault + 'd storage_entry option" where
  "await_read r =
     (case r of
        Inr (Some (RspRead v)) \<Rightarrow> Inr v
      | Inr (Some _) \<Rightarrow> Inr None
      | _ \<Rightarrow> Inl Panic)"

definition storage_write ::
  "('k, 'p, 'd, 's) api_handler \<Rightarrow> 'k \<Rightarrow> 'd storage_entry \<Rightarrow> 's api_task \<Rightarrow>
   (fault + (api_error + unit)) \<times> 's api_task" where
  "storage_write h key value t =
     (let (r, t') = api_step h (RqWrite key value) (Some True) t in (await_status r, t'))"

definition storage_write_prefixed ::
  "('k, 'p, 'd, 's) api_handler \<Rightarrow> 'p \<Rightarrow> 'k \<Rightarrow> 'd storage_entry \<Rightarrow> 's api_task \<Rightarrow>
   (fault + (api_error + unit)) \<times> 's api_task" where
  "storage_write_prefixed h prefix key value t =
     (let (r, t') = api_step h (RqWritePrefix prefix key value) (Some True) t in (await_status r, t'))"

text \<open>A replacement is sent without a sender and its outcome is not awaited.\<close>

definition storage_replace ::
  "('k, 'p, 'd, 's) api_handler \<Rightarrow> 'k \<Rightarrow> 'd storage_entry \<Rightarrow> 's api_task \<Rightarrow> (fault + unit) \<times> 's api_task" where
  "storage_replace h key value t =
     (case t of Dead \<Rightarrow> (Inl Panic, Dead)
      | Serving s \<Rightarrow> (Inr (), snd (api_step h (RqReplace key value) None t)))"

definition storage_replace_prefixed ::
  "('k, 'p, 'd, 's) api_handler \<Rightarrow> 'p \<Rightarrow> 'k \<Rightarrow> 'd storage_entry \<Rightarrow> 's api_task \<Rightarrow>
   (fault + unit) \<times> 's api_task" where
  "storage_replace_prefixed h prefix key value t =
     (case t of Dead \<Rightarrow> (Inl Panic, Dead)
      | Serving s \<Rightarrow> (Inr (), snd (api_step h (RqReplacePrefix prefix key value) None t)))"

definition storage_read ::
  "('k, 'p, 'd, 's) api_handler \<Rightarrow> 'k \<Rightarrow> 's api_task \<Rightarrow> (fault + 'd storage_entry option) \<times> 's api_task" where
  "storage_read h key t = (let (r, t') = api_step h (RqRead key) (Some True) t in (await_read r, t'))"

definition storage_read_prefixed ::
  "('k, 'p, 'd, 's) api_handler \<Rightarrow> 'p \<Rightarrow> 'k \<Rightarrow> 's api_task \<Rightarrow>
   (fault + 'd storage_entry option) \<times> 's api_task" where
  "storage_read_prefixed h prefix key t =
     (let (r, t') = api_step h (RqReadPrefix prefix key) (Some True) t in (await_read r, t'))"

definition storage_delete ::
  "('k, 'p, 'd, 's) api_handler \<Rightarrow> 'k \<Rightarrow> 's api_task \<Rightarrow> (fault + 'd storage_entry option) \<times> 's api_task" where
  "storage_delete h key t = (let (r, t') = api_step h (RqDelete key) (Some True) t in (await_read r, t'))"

definition storage_delete_prefixed ::
  "('k, 'p, 'd, 's) api_handler \<Rightarrow> 'p \<Rightarrow> 'k \<Rightarrow> 's api_task \<Rightarrow>
   (fault + 'd storage_entry option) \<times> 's api_task" where
  "storage_delete_prefixed h prefix key t =
     (let (r, t') = api_step h (RqDeletePrefix prefix key) (Some True) t in (await_read r, t'))"

definition storage_len :: "('k, 'p, 'd, 's) api_handler \<Rightarrow> 's api_task \<Rightarrow> (fault + nat) \<times> 's api_task" where
  "storage_len h t =
     (let (r, t') = api_step h RqSize (Some True) t
      in (case r of Inr (Some (RspSize n)) \<Rightarrow> Inr n | _ \<Rightarrow> Inl Panic, t'))"

definition storage_keys :: "('k, 'p, 'd, 's) api_handler \<Rightarrow> 's api_task \<Rightarrow> (fault + 'k list) \<times> 's api_task" where
  "storage_keys h t =
     (let (r, t') = api_step h RqKeys (Some True) t
      in (case r of Inr (Some (RspKeys ks)) \<Rightarrow> Inr ks | _ \<Rightarrow> Inl Panic, t'))"

definition storage_keys_prefix ::
  "('k, 'p, 'd, 's) api_handler \<Rightarrow> 'p \<Rightarrow> 's api_task \<Rightarrow> (fault + 'k list) \<times> 's api_task" where
  "storage_keys_prefix h prefix t =
     (let (r, t') = api_step h (RqKeysWithPrefix prefix) (Some True) t
      in (case r of Inr (Some (RspKeys ks)) \<Rightarrow> Inr ks | _ \<Rightarrow> Inl Panic, t'))"

definition storage_prefixes ::
  "('k, 'p, 'd, 's) api_handler \<Rightarrow> 's api_task \<Rightarrow> (fault + 'p list) \<times> 's api_task" where
  "storage_prefixes h t =
     (let (r, t') = api_step h RqPrefixes (Some True) t
      in (case r of Inr (Some (RspPrefixes ps)) \<Rightarrow> Inr ps | _ \<Rightarrow> Inl Panic, t'))"

section \<open>Properties\<close>

lemmas client_defs =
  storage_write_def storage_write_prefixed_def storage_replace_def storage_replace_prefixed_def
  storage_read_def storage_read_prefixed_def storage_delete_def storage_delete_prefixed_def
  storage_len_def storage_keys_def storage_keys_prefix_def storage_prefixes_def
  await_status_def await_read_def must_reply_def may_reply_def

definition as_status :: "storage_error + unit \<Rightarrow> api_error + unit" where
  "as_status r = (case r of Inl e \<Rightarrow> Inl (StorageError e) | Inr u \<Rightarrow> Inr u)"

text \<open>C17: Behind the prefixed handler task, every prefixed client call answers exactly what the storage
  operation answers and leaves exactly the state it leaves: no call panics, no reply is dropped or
  of the wrong kind, and the task goes on serving.\<close>

theorem prefixed_client_refines_storage:
  "storage_write_prefixed api_handle_prefixed p k e (Serving s) =
     (Inr (as_status (fst (pf_insert_prefix p k e s))), Serving (snd (pf_insert_prefix p k e s))) \<and>
   storage_read_prefixed api_handle_prefixed p k (Serving s) = (Inr (pf_get_prefix p k s), Serving s) \<and>
   storage_delete_prefixed api_handle_prefixed p k (Serving s) =
     (Inr (fst (pf_delete_prefix p k s)), Serving (snd (pf_delete_prefix p k s))) \<and>
   storage_replace_prefixed api_handle_prefixed p k e (Serving s) =
     (Inr (), Serving (snd (pf_replace_prefixed p k e s))) \<and>
   storage_len api_handle_prefixed (Serving s) = (Inr (pf_len s), Serving s) \<and>
   storage_keys api_handle_prefixed (Serving s) = (Inr (pf_keys s), Serving s) \<and>
   storage_keys_prefix api_handle_prefixed p (Serving s) = (Inr (pf_prefixed_keys p s), Serving s) \<and>
   storage_prefixes api_handle_prefixed (Serving s) = (Inr (pf_prefixes s), Serving s)"
proof -
  obtain r s1 where i: "pf_insert_prefix p k e s = (r, s1)" by force
  obtain d s2 where d: "pf_delete_prefix p k s = (d, s2)" by force
  obtain q s3 where q: "pf_replace_prefixed p k e s = (q, s3)" by force
  show ?thesis by (cases r) (simp_all add: client_defs as_status_def i d q)
qed

text \<open>Behind the plain handler task, the unprefixed calls answer what the plain storage answers, and
  any call with a prefix panics and ends the task, so that every later request panics too.\<close>

theorem plain_client_refines_storage:
  "storage_write api_handle_plain k e (Serving s) =
     (Inr (as_status (fst (pl_insert k e s))), Serving (snd (pl_insert k e s))) \<and>
   storage_read api_handle_plain k (Serving s) = (Inr (pl_get k s), Serving s) \<and>
   storage_delete api_handle_plain k (Serving s) = (Inr (fst (pl_delete k s)), Serving (snd (pl_delete k s))) \<and>
   storage_replace api_handle_plain k e (Serving s) = (Inr (), Serving (snd (pl_replace k e s))) \<and>
   storage_len api_handle_plain (Serving s) = (Inr (pl_len s), Serving s) \<and>
   storage_keys api_handle_plain (Serving s) = (Inr (pl_keys s), Serving s) \<and>
   storage_read_prefixed api_handle_plain () k (Serving s) = (Inl Panic, Dead) \<and>
   storage_write_prefixed api_handle_plain () k e (Serving s) = (Inl Panic, Dead) \<and>
   storage_read api_handle_plain k Dead = (Inl Panic, Dead)"
proof -
  obtain r s1 where i: "pl_insert k e s = (r, s1)" by force
  obtain d s2 where d: "pl_delete k s = (d, s2)" by force
  obtain q s3 where q: "pl_replace k e s = (q, s3)" by force
  show ?thesis by (cases r) (simp_all add: client_defs as_status_def i d q)
qed

end
