(* ===== verification/Chain_Types.thy ===== *)
theory Chain_Types
  imports Storage
begin

text \<open>
  The data that travels between the components: \<^verbatim>\<open>essentials/src/types.rs\<close>, the events of
  \<^verbatim>\<open>essentials/src/chain_events.rs\<close>, the candidate records of
  \<^verbatim>\<open>essentials/src/collector/candidate_record.rs\<close>, and the keys and messages that
  \<^verbatim>\<open>essentials/src/collector/mod.rs\<close> declares for its subscribers. Of a relay chain header, a type of
  the \<^verbatim>\<open>subxt\<close> crate, the two fields the program reads are kept. A bitfield is a list of bits.
\<close>

section \<open>Types\<close>

type_synonym timestamp = u64
type_synonym claim_queue = "(u32 \<times> u32 list) list"
type_synonym bitfield = "bool list"

definition from_millis :: "u64 \<Rightarrow> duration" where
  "from_millis ms = unat ms * 1000000"

definition from_secs :: "u64 \<Rightarrow> duration" where
  "from_secs s = unat s * 1000000000"

record header =
  hd_number :: u32
  hd_parent_hash :: h256

datatype valid_kind =
    VExplicit
  | BackingSeconded h256
  | BackingValid h256
  | ApprovalChecking
  | ApprovalCheckingMultipleCandidates "h256 list"

datatype invalid_kind = IExplicit

datatype dispute_statement = ValidStatement valid_kind | InvalidStatement invalid_kind

fun is_valid_statement :: "dispute_statement \<Rightarrow> bool" where
  "is_valid_statement (ValidStatement _) = True"
| "is_valid_statement (InvalidStatement _) = False"

record dispute_statement_set =
  ds_candidate_hash :: h256
  ds_session :: u32
  ds_statements :: "(dispute_statement \<times> u32) list"

record inherent_data =
  ih_bitfields :: "bitfield list"
  ih_disputes :: "dispute_statement_set list"

record hrmp_channel =
  ch_max_capacity :: u32
  ch_max_total_size :: u32
  ch_max_message_size :: u32
  ch_msg_count :: u32
  ch_total_size :: u32
  ch_mqc_head :: "h256 option"
  ch_sender_deposit :: u128
  ch_recipient_deposit :: u128

type_synonym channel_map = "(u32, hrmp_channel) alist"

datatype core_state = CoreFree | CoreScheduled | CoreOccupied

section \<open>Chain events\<close>

datatype candidate_event_type = CandidateBacked | CandidateIncluded | CandidateTimedOut

record candidate_event =
  ce_candidate_hash :: h256
  ce_relay_parent :: h256
  ce_parachain_id :: u32
  ce_event_type :: candidate_event_type
  ce_core_idx :: u32

record subxt_dispute =
  sd_relay_parent_block :: h256
  sd_candidate_hash :: h256

datatype dispute_result = DValid | DInvalid | DTimedOut

datatype chain_event =
    NewBestHead h256 header
  | NewFinalizedHead h256 header
  | DisputeInitiated subxt_dispute
  | DisputeConcluded subxt_dispute dispute_result
  | CandidateChanged candidate_event

section \<open>Candidate records\<close>

record inclusion_record =
  ci_parachain_id :: u32
  ci_backed :: u32
  ci_included :: "u32 option"
  ci_timedout :: "u32 option"
  ci_core_idx :: u32
  ci_relay_parent :: h256
  ci_relay_parent_number :: u32

record conclusion =
  dr_outcome :: dispute_result
  dr_concluded_block :: u32

record candidate_disputed =
  cd_disputed :: u32
  cd_concluded :: "conclusion option"

record candidate_record =
  cr_first_seen :: duration
  cr_inclusion :: inclusion_record
  cr_disputed :: "candidate_disputed option"

definition cr_is_included :: "candidate_record \<Rightarrow> bool" where
  "cr_is_included r \<longleftrightarrow> ci_included (cr_inclusion r) \<noteq> None"

definition cr_is_disputed :: "candidate_record \<Rightarrow> bool" where
  "cr_is_disputed r \<longleftrightarrow> cr_disputed r \<noteq> None"

definition inclusion_time :: "candidate_record \<Rightarrow> u32 option" where
  "inclusion_time r =
     (case ci_included (cr_inclusion r) of
        Some included \<Rightarrow> checked_sub included (ci_backed (cr_inclusion r))
      | None \<Rightarrow> None)"

definition backing_time :: "candidate_record \<Rightarrow> u32 option" where
  "backing_time r = checked_sub (ci_backed (cr_inclusion r)) (ci_relay_parent_number (cr_inclusion r))"

definition dispute_resolution_time :: "candidate_record \<Rightarrow> u32 option" where
  "dispute_resolution_time r =
     (case cr_disputed r of
        None \<Rightarrow> None
      | Some disp \<Rightarrow>
          (case cd_concluded disp of
             None \<Rightarrow> None
           | Some c \<Rightarrow> checked_sub (dr_concluded_block c) (cd_disputed disp)))"

definition cr_parachain_id :: "candidate_record \<Rightarrow> u32" where
  "cr_parachain_id r = ci_parachain_id (cr_inclusion r)"

definition cr_core_idx :: "candidate_record \<Rightarrow> u32" where
  "cr_core_idx r = ci_core_idx (cr_inclusion r)"

section \<open>Messages of the collector\<close>

record dispute_info =
  di_initiated :: u32
  di_initiator_indices :: "u32 list"
  di_session_index :: u32
  di_dispute :: subxt_dispute
  di_parachain_id :: u32
  di_outcome :: "dispute_result option"
  di_concluded :: "u32 option"

record backed_candidate =
  bc_candidate_hash :: h256
  bc_core_idx :: u32
  bc_para_id :: u32

record new_head_event =
  nh_relay_parent_number :: u32
  nh_relay_parent_hashes :: "h256 list"
  nh_para_id :: u32
  nh_candidates_seen :: "h256 list"
  nh_candidates_backed :: "backed_candidate list"
  nh_candidates_included :: "h256 list"
  nh_candidates_timed_out :: "h256 list"
  nh_disputes_concluded :: "dispute_info list"
  nh_authors_missing_their_slots :: "account_id list"

datatype termination_reason = NormalEnd | AbnormalEnd

datatype update_event = NewHead new_head_event | NewSession u32 | Termination termination_reason

section \<open>What the storage of the collector holds\<close>

datatype prefix_type =
    PrTimestamp
  | PrCandidate u32
  | PrCandidatesParachains
  | PrRelayBlockHeader
  | PrRelevantFinalizedBlockNumber
  | PrAccountKeys
  | PrCoreAssignments
  | PrOccupiedCores
  | PrBackingGroups
  | PrInherentData
  | PrDispute u32
  | PrHrmpChannels u32

text \<open>A payload is the encoding of a value of one of these types. Decoding it at another type fails
  here; the program reads every prefix at the type it writes there.\<close>

datatype payload =
    PlTimestamp timestamp
  | PlCandidate candidate_record
  | PlParaId u32
  | PlHeader header
  | PlBlockNumber u32
  | PlAccountKeys "account_id list"
  | PlClaimQueue claim_queue
  | PlCores "core_state list"
  | PlGroups "u32 list list"
  | PlInherent inherent_data
  | PlDispute dispute_info
  | PlChannels channel_map channel_map

fun de_timestamp :: "payload \<Rightarrow> timestamp option" where
  "de_timestamp (PlTimestamp x) = Some x" | "de_timestamp _ = None"
fun de_candidate :: "payload \<Rightarrow> candidate_record option" where
  "de_candidate (PlCandidate x) = Some x" | "de_candidate _ = None"
fun de_para_id :: "payload \<Rightarrow> u32 option" where
  "de_para_id (PlParaId x) = Some x" | "de_para_id _ = None"
fun de_header :: "payload \<Rightarrow> header option" where
  "de_header (PlHeader x) = Some x" | "de_header _ = None"
fun de_block_number :: "payload \<Rightarrow> u32 option" where
  "de_block_number (PlBlockNumber x) = Some x" | "de_block_number _ = None"
fun de_account_keys :: "payload \<Rightarrow> account_id list option" where
  "de_account_keys (PlAccountKeys x) = Some x" | "de_account_keys _ = None"
fun de_claim_queue :: "payload \<Rightarrow> claim_queue option" where
  "de_claim_queue (PlClaimQueue x) = Some x" | "de_claim_queue _ = None"
fun de_cores :: "payload \<Rightarrow> core_state list option" where
  "de_cores (PlCores x) = Some x" | "de_cores _ = None"
fun de_groups :: "payload \<Rightarrow> u32 list list option" where
  "de_groups (PlGroups x) = Some x" | "de_groups _ = None"
fun de_inherent :: "payload \<Rightarrow> inherent_data option" where
  "de_inherent (PlInherent x) = Some x" | "de_inherent _ = None"
fun de_dispute :: "payload \<Rightarrow> dispute_info option" where
  "de_dispute (PlDispute x) = Some x" | "de_dispute _ = None"
fun de_channels :: "payload \<Rightarrow> (channel_map \<times> channel_map) option" where
  "de_channels (PlChannels i o') = Some (i, o')" | "de_channels _ = None"

lemma de_eq_Some [simp]:
  "de_timestamp p = Some t \<longleftrightarrow> p = PlTimestamp t"
  "de_candidate p = Some c \<longleftrightarrow> p = PlCandidate c"
  "de_para_id p = Some n \<longleftrightarrow> p = PlParaId n"
  "de_header p = Some h \<longleftrightarrow> p = PlHeader h"
  "de_account_keys p = Some ks \<longleftrightarrow> p = PlAccountKeys ks"
  "de_claim_queue p = Some q \<longleftrightarrow> p = PlClaimQueue q"
  "de_cores p = Some cs \<longleftrightarrow> p = PlCores cs"
  "de_groups p = Some gs \<longleftrightarrow> p = PlGroups gs"
  "de_inherent p = Some i \<longleftrightarrow> p = PlInherent i"
  "de_dispute p = Some d \<longleftrightarrow> p = PlDispute d"
  "de_channels p = Some io \<longleftrightarrow> p = PlChannels (fst io) (snd io)"
  by (cases p; auto)+

end
