(* ===== verification/Block_Info.thy ===== *)
theory Block_Info
  imports Chain_Types
begin

text \<open>
  The tracked parachain block of \<^verbatim>\<open>parachain-tracer/src/parachain_block_info.rs\<close> and the HRMP message
  queues of \<^verbatim>\<open>parachain-tracer/src/message_queues_tracker.rs\<close>.
\<close>

section \<open>Parachain blocks\<close>

record block_availability =
  ba_current :: u32
  ba_max :: u32

definition is_slow :: "block_availability \<Rightarrow> bool" where
  "is_slow a \<longleftrightarrow> ba_max a > 0 \<and> ba_current a \<le> (ba_max a div 3) * 2"

datatype block_state = Backed | PendingAvailability | Included | Dropped

record block_info =
  bi_candidate_hash :: h256
  bi_availability :: "block_availability option"
  bi_assigned_core :: u32
  bi_core_occupied :: bool
  bi_state :: block_state

definition block_info_new :: "h256 \<Rightarrow> u32 \<Rightarrow> block_info" where
  "block_info_new h core =
     \<lparr>bi_candidate_hash = h, bi_availability = None, bi_assigned_core = core,
      bi_core_occupied = False, bi_state = Backed\<rparr>"

definition set_pending :: "block_info \<Rightarrow> block_info" where
  "set_pending c = c\<lparr>bi_state := PendingAvailability\<rparr>"

definition set_included :: "block_info \<Rightarrow> block_info" where
  "set_included c = c\<lparr>bi_state := Included\<rparr>"

definition set_dropped :: "block_info \<Rightarrow> block_info" where
  "set_dropped c = c\<lparr>bi_state := Dropped\<rparr>"

definition is_backed :: "block_info \<Rightarrow> bool" where
  "is_backed c \<longleftrightarrow> bi_state c = Backed"

definition is_included :: "block_info \<Rightarrow> bool" where
  "is_included c \<longleftrightarrow> bi_state c = Included"

definition is_dropped :: "block_info \<Rightarrow> bool" where
  "is_dropped c \<longleftrightarrow> bi_state c = Dropped"

definition set_availability :: "block_availability \<Rightarrow> block_info \<Rightarrow> block_info" where
  "set_availability a c = c\<lparr>bi_availability := Some a\<rparr>"

definition is_bitfield_propagation_slow :: "block_info \<Rightarrow> bool" where
  "is_bitfield_propagation_slow c =
     (case bi_availability c of None \<Rightarrow> False | Some a \<Rightarrow> is_slow a)"

lemmas block_info_defs [defs_simps] =
  block_info_new_def set_pending_def set_included_def set_dropped_def is_backed_def is_included_def
  is_dropped_def set_availability_def

text \<open>The multiplication in \<open>is_slow\<close> does not wrap, and the test compares with twice the rounded-down
  third of the validators.\<close>

lemma unat_two_thirds: "unat ((m div 3) * 2 :: u32) = unat m div 3 * 2"
proof -
  have "unat m < 4294967296" using unsigned_less [of m] by simp
  then have "unat m div 3 * 2 < 4294967296" by simp
  moreover have "unat (m div 3) = unat m div 3" by (simp add: unat_div)
  ultimately show ?thesis by (simp add: unat_word_ariths)
qed

text \<open>A bitfield count is slow exactly if some validator is expected and the count is at most twice the
  floor of a third of the validators: no wrap-around. So every slow count is at most two thirds, and
  every count at most two thirds less two is slow.\<close>

theorem is_slow_two_thirds:
  "(is_slow a \<longleftrightarrow> 0 < unat (ba_max a) \<and> unat (ba_current a) \<le> unat (ba_max a) div 3 * 2) \<and>
   (is_slow a \<longrightarrow> 3 * unat (ba_current a) \<le> 2 * unat (ba_max a)) \<and>
   (0 < unat (ba_max a) \<and> 3 * unat (ba_current a) + 4 \<le> 2 * unat (ba_max a) \<longrightarrow> is_slow a)"
proof -
  have *: "is_slow a \<longleftrightarrow> 0 < unat (ba_max a) \<and> unat (ba_current a) \<le> unat (ba_max a) div 3 * 2"
    unfolding is_slow_def word_le_nat_alt unat_two_thirds by (simp add: word_less_nat_alt)
  show ?thesis unfolding * by auto
qed

theorem is_slow_two_thirds_witness: "is_slow \<lparr>ba_current = 100, ba_max = 200\<rparr>"
  using is_slow_two_thirds [of "\<lparr>ba_current = 100, ba_max = 200\<rparr>"] by simp

text \<open>A count below two thirds that the test does not flag: 133 of 200.\<close>

lemma is_slow_misses_below_two_thirds:
  "\<not> is_slow \<lparr>ba_current = 133, ba_max = 200\<rparr> \<and> (3::nat) * 133 < 2 * 200"
  by (simp add: is_slow_def)

section \<open>Message queues\<close>

record message_queues =
  mq_inbound :: channel_map
  mq_outbound :: channel_map

definition message_queues_default :: message_queues where
  "message_queues_default = \<lparr>mq_inbound = [], mq_outbound = []\<rparr>"

definition mq_set_hrmp_channels :: "channel_map \<Rightarrow> channel_map \<Rightarrow> message_queues \<Rightarrow> message_queues" where
  "mq_set_hrmp_channels inb outb q = q\<lparr>mq_inbound := inb, mq_outbound := outb\<rparr>"

definition has_hrmp_messages :: "message_queues \<Rightarrow> bool" where
  "has_hrmp_messages q \<longleftrightarrow>
     list_ex (\<lambda>(_, ch). ch_total_size ch > 0) (mq_inbound q) \<or>
     list_ex (\<lambda>(_, ch). ch_total_size ch > 0) (mq_outbound q)"

definition active_inbound_channels :: "message_queues \<Rightarrow> (u32 \<times> hrmp_channel) list" where
  "active_inbound_channels q = filter (\<lambda>(_, ch). ch_total_size ch > 0) (mq_inbound q)"

definition active_outbound_channels :: "message_queues \<Rightarrow> (u32 \<times> hrmp_channel) list" where
  "active_outbound_channels q = filter (\<lambda>(_, ch). ch_total_size ch > 0) (mq_outbound q)"

lemma has_hrmp_messages_active:
  "has_hrmp_messages q \<longleftrightarrow> active_inbound_channels q \<noteq> [] \<or> active_outbound_channels q \<noteq> []"
  by (auto simp: has_hrmp_messages_def active_inbound_channels_def active_outbound_channels_def
      list_ex_iff filter_empty_conv)

end
