(* ===== verification/Tracer_Types.thy ===== *)
theory Tracer_Types
  imports Block_Info
begin

text \<open>
  The helpers of \<^verbatim>\<open>parachain-tracer/src/utils.rs\<close> and the types of \<^verbatim>\<open>parachain-tracer/src/types.rs\<close>:
  votes and misbehaving validators of a dispute, availability bits of a core, the consensus events and
  the progress update of a parachain. The textual form of an account (SS58) comes from a third-party
  crate and is the parameter \<open>ss58\<close>.
\<close>

section \<open>Helpers\<close>

definition time_diff :: "u64 option \<Rightarrow> u64 option \<Rightarrow> duration option" where
  "time_diff lhs rhs =
     (case lhs of None \<Rightarrow> None
      | Some l \<Rightarrow> (case rhs of None \<Rightarrow> None | Some r \<Rightarrow> Some (from_millis l - from_millis r)))"

text \<open>Decimal digits, as \<open>format!\<close> prints an unsigned integer.\<close>

fun decimal :: "nat \<Rightarrow> string" where
  "decimal n = (if n < 10 then [char_of (48 + n)] else decimal (n div 10) @ [char_of (48 + n mod 10)])"

declare decimal.simps [simp del]

definition extract_validator_address ::
  "(account_id \<Rightarrow> string) \<Rightarrow> account_id list option \<Rightarrow> u32 \<Rightarrow> fault + (u32 \<times> string)" where
  "extract_validator_address ss58 session_keys validator_index =
     (case session_keys of
        Some keys \<Rightarrow>
          if validator_index < usize_as_u32 (length keys) then
            rbind (index_of keys (u32_as_usize validator_index)) (\<lambda>identity.
              Inr (validator_index, ss58 identity))
          else
            Inr (validator_index,
              ''??? (no such validator index '' @ decimal (unat validator_index) @ '': know '' @
              decimal (length keys) @ '' validators)'')
      | None \<Rightarrow> Inr (validator_index, ''??? (no session keys)''))"

definition extract_validator_addresses ::
  "(account_id \<Rightarrow> string) \<Rightarrow> account_id list option \<Rightarrow> u32 list \<Rightarrow> fault + (u32 \<times> string) list" where
  "extract_validator_addresses ss58 session_keys indices =
     rmap (extract_validator_address ss58 session_keys) indices"

definition extract_misbehaving_validators ::
  "(account_id \<Rightarrow> string) \<Rightarrow> account_id list option \<Rightarrow> dispute_statement_set \<Rightarrow> bool \<Rightarrow>
   fault + (u32 \<times> string) list" where
  "extract_misbehaving_validators ss58 session_keys info against_valid =
     rmap (\<lambda>(_, idx). extract_validator_address ss58 session_keys idx)
       (filter (\<lambda>(statement, _).
          if against_valid then \<not> is_valid_statement statement else is_valid_statement statement)
        (ds_statements info))"

definition extract_votes :: "dispute_statement_set \<Rightarrow> u32 \<times> u32" where
  "extract_votes info =
     (let voted_for =
        usize_as_u32 (length (filter (\<lambda>(statement, _). is_valid_statement statement) (ds_statements info)))
      in (voted_for, usize_as_u32 (length (ds_statements info)) - voted_for))"

definition extract_availability_bits_count :: "bitfield list \<Rightarrow> u32 \<Rightarrow> fault + u32" where
  "extract_availability_bits_count bitfields core =
     rbind (rmap (\<lambda>v. rbind (expect (get_index v (u32_as_usize core))) (\<lambda>b. Inr (of_bool b))) bitfields)
       (\<lambda>bits. Inr (sum_list bits))"

section \<open>Types\<close>

record fork_tracker =
  ft_relay_hash :: h256
  ft_relay_number :: u32
  ft_backed_candidate :: "h256 option"
  ft_included_candidate :: "h256 option"

record disputes_tracker =
  dt_candidate :: h256
  dt_outcome :: dispute_result
  dt_voted_for :: u32
  dt_voted_against :: u32
  dt_initiators :: "(u32 \<times> string) list"
  dt_misbehaving_validators :: "(u32 \<times> string) list"
  dt_resolve_time :: u32
  dt_session_index :: u32

definition disputes_tracker_new ::
  "(account_id \<Rightarrow> string) \<Rightarrow> dispute_statement_set \<Rightarrow> dispute_result \<Rightarrow> u32 \<Rightarrow> u32 list \<Rightarrow> u32 \<Rightarrow>
   account_id list option \<Rightarrow> account_id list option \<Rightarrow> fault + disputes_tracker" where
  "disputes_tracker_new ss58 info outcome initiated initiator_indices concluded session_info
     initiators_session_info =
     (let (voted_for, voted_against) = extract_votes info
      in rbind (extract_validator_addresses ss58 initiators_session_info initiator_indices) (\<lambda>initiators.
         rbind (extract_misbehaving_validators ss58 session_info info (outcome = DValid)) (\<lambda>misbehaving.
           Inr \<lparr>dt_candidate = ds_candidate_hash info, dt_outcome = outcome, dt_voted_for = voted_for,
                dt_voted_against = voted_against, dt_initiators = initiators,
                dt_misbehaving_validators = misbehaving,
                dt_resolve_time = saturating_sub concluded initiated,
                dt_session_index = ds_session info\<rparr>)))"

record block =
  bl_hash :: h256
  bl_num :: u32
  bl_ts :: timestamp

record block_without_hash =
  bw_num :: u32
  bw_ts :: timestamp

definition block_without_hash_from :: "block \<Rightarrow> block_without_hash" where
  "block_without_hash_from b = \<lparr>bw_num = bl_num b, bw_ts = bl_ts b\<rparr>"

datatype consensus_event =
    EvCoreAssigned u32
  | EvBacked h256
  | EvIncluded h256 u32 u32
  | EvDropped h256
  | EvDisputed disputes_tracker
  | EvSkippedSlot
  | EvPendingAvailability h256
  | EvSlowAvailability u32 u32
  | EvSlowBitfieldPropagation u32 u32
  | EvNewSession u32
  | EvMessageQueues "(u32 \<times> hrmp_channel) list" "(u32 \<times> hrmp_channel) list"

record progress_update =
  pu_para_id :: u32
  pu_timestamp :: timestamp
  pu_prev_timestamp :: timestamp
  pu_block_number :: u32
  pu_block_hash :: h256
  pu_core_occupied :: "(u32, bool) alist"
  pu_events :: "consensus_event list"
  pu_is_fork :: bool
  pu_finality_lag :: "u32 option"

definition push_event :: "consensus_event \<Rightarrow> progress_update \<Rightarrow> progress_update" where
  "push_event e p = p\<lparr>pu_events := pu_events p @ [e]\<rparr>"

section \<open>Properties\<close>

text \<open>The address lookup cannot panic, not even where the length of the key list does not fit \<open>u32\<close>.\<close>

lemma extract_validator_address_total:
  "\<exists>name. extract_validator_address ss58 keys idx = Inr (idx, name)"
proof (cases keys)
  case (Some ks)
  show ?thesis
  proof (cases "idx < usize_as_u32 (length ks)")
    case True
    have "unat (usize_as_u32 (length ks)) \<le> length ks"
      unfolding usize_as_u32_def unat_of_nat by (rule mod_less_eq_dividend)
    with True have "unat idx < length ks" by (simp add: word_less_nat_alt)
    with True Some show ?thesis
      by (simp add: extract_validator_address_def index_of_def get_index_def u32_as_usize_def)
  qed (simp add: Some extract_validator_address_def)
qed (simp add: extract_validator_address_def)

lemma rmap_addresses:
  "\<exists>names. rmap (\<lambda>x. extract_validator_address ss58 keys (f x)) xs = Inr names \<and> map fst names = map f xs"
proof (induction xs)
  case (Cons x xs)
  moreover obtain n where "extract_validator_address ss58 keys (f x) = Inr (f x, n)"
    using extract_validator_address_total by blast
  ultimately show ?case by auto
qed simp

lemma misbehaving_validators_total:
  "\<exists>names. extract_misbehaving_validators ss58 keys info v = Inr names \<and>
     map fst names = map snd (filter (\<lambda>(s, _). is_valid_statement s \<noteq> v) (ds_statements info))"
proof -
  have "(\<lambda>(s, _ :: u32). if v then \<not> is_valid_statement s else is_valid_statement s) =
    (\<lambda>(s, _). is_valid_statement s \<noteq> v)" by (cases v) auto
  then show ?thesis
    using rmap_addresses [of ss58 keys snd "filter (\<lambda>(s, _). is_valid_statement s \<noteq> v) (ds_statements info)"]
    by (simp add: extract_misbehaving_validators_def case_prod_beta')
qed

lemma length_filter_partition: "length (filter P xs) + length (filter (\<lambda>x. \<not> P x) xs) = length xs"
  by (induction xs) auto

lemma disputes_tracker_total:
  "\<exists>d. disputes_tracker_new ss58 info outcome initiated indices concluded keys initiator_keys = Inr d"
proof -
  obtain i where "extract_validator_addresses ss58 initiator_keys indices = Inr i"
    using rmap_addresses [of ss58 initiator_keys id indices] by (auto simp: extract_validator_addresses_def)
  moreover obtain m where "extract_misbehaving_validators ss58 keys info (outcome = DValid) = Inr m"
    using misbehaving_validators_total by blast
  ultimately show ?thesis by (simp add: disputes_tracker_new_def extract_votes_def Let_def)
qed

lemma add_diff_inverse_word: "a + (b - a) = (b :: 'a::len word)"
  by simp

lemma usize_as_u32_add: "usize_as_u32 (m + n) = usize_as_u32 m + usize_as_u32 n"
  by (simp add: usize_as_u32_def)

text \<open>Tracking a concluded dispute never panics. With the outcome Valid, the validators recorded as
  misbehaving are, in the order of the statements, those who voted Invalid, otherwise those who voted
  Valid; every initiator is recorded; and the two vote counts sum to the number of statements as long
  as that fits \<open>u32\<close> (they always do modulo \<open>2 ^ 32\<close>).\<close>

theorem disputes_tracker_new_correct:
  "\<exists>d. disputes_tracker_new ss58 info outcome initiated indices concluded keys initiator_keys = Inr d \<and>
     map fst (dt_misbehaving_validators d) =
       map snd (filter (\<lambda>(s, _). is_valid_statement s \<noteq> (outcome = DValid)) (ds_statements info)) \<and>
     map fst (dt_initiators d) = indices \<and>
     dt_voted_for d + dt_voted_against d = usize_as_u32 (length (ds_statements info)) \<and>
     dt_voted_against d = usize_as_u32 (length (filter (\<lambda>(s, _). \<not> is_valid_statement s) (ds_statements info))) \<and>
     unat (dt_resolve_time d) = unat concluded - unat initiated"
proof -
  obtain i where i: "extract_validator_addresses ss58 initiator_keys indices = Inr i" "map fst i = indices"
    using rmap_addresses [of ss58 initiator_keys id indices] by (auto simp: extract_validator_addresses_def)
  obtain m where m: "extract_misbehaving_validators ss58 keys info (outcome = DValid) = Inr m"
    "map fst m = map snd (filter (\<lambda>(s, _). is_valid_statement s \<noteq> (outcome = DValid)) (ds_statements info))"
    using misbehaving_validators_total by blast
  have "length (filter (\<lambda>(s, _). is_valid_statement s) (ds_statements info)) +
      length (filter (\<lambda>(s, _). \<not> is_valid_statement s) (ds_statements info)) = length (ds_statements info)"
    using length_filter_partition [of "\<lambda>x. is_valid_statement (fst x)" "ds_statements info"]
    by (simp only: case_prod_beta')
  note * = this
  have votes: "usize_as_u32 (length (ds_statements info)) -
      usize_as_u32 (length (filter (\<lambda>(s, _). is_valid_statement s) (ds_statements info))) =
      usize_as_u32 (length (filter (\<lambda>(s, _). \<not> is_valid_statement s) (ds_statements info)))"
    unfolding * [symmetric] usize_as_u32_add by simp
  show ?thesis
    unfolding disputes_tracker_new_def extract_votes_def Let_def case_prod_conv i m rbind_simps votes
    by (intro exI conjI, rule refl)
      (simp_all only: disputes_tracker.simps i m(2) unat_saturating_sub votes [symmetric] add_diff_cancel_left' add_diff_inverse_word)
qed

text \<open>The bits of a core are counted exactly, and the count panics only if a bitfield is too short.\<close>

lemma availability_bits_rmap:
  assumes "\<forall>v \<in> set bitfields. u32_as_usize core < length v"
  shows "rmap (\<lambda>v. rbind (expect (get_index v (u32_as_usize core))) (\<lambda>b. Inr (of_bool b))) bitfields =
    Inr (map (\<lambda>v. of_bool (v ! u32_as_usize core)) bitfields)"
  using assms by (intro rmap_Inr) (auto simp: get_index_def)

lemma sum_of_bool: "sum_list (map (\<lambda>v. of_bool (P v)) vs) = (of_nat (length (filter P vs)) :: 'a::len word)"
  by (induction vs) auto

text \<open>If every bitfield has a bit for the core, the availability count is the number of validators
  whose bit is set, exactly as long as there are fewer than \<open>2 ^ 32\<close> bitfields.\<close>

theorem availability_bits_count:
  assumes "\<forall>v \<in> set bitfields. u32_as_usize core < length v" "length bitfields < 2 ^ 32"
  shows "\<exists>n. extract_availability_bits_count bitfields core = Inr n \<and>
    unat n = length (filter (\<lambda>v. v ! u32_as_usize core) bitfields) \<and> unat n \<le> length bitfields"
proof -
  have "length (filter (\<lambda>v. v ! u32_as_usize core) bitfields) < 2 ^ 32"
    using assms(2) length_filter_le [of "\<lambda>v. v ! u32_as_usize core" bitfields] by linarith
  then show ?thesis
    unfolding extract_availability_bits_count_def availability_bits_rmap [OF assms(1)]
    by (simp add: sum_of_bool unat_of_nat take_bit_nat_eq_self)
qed

theorem availability_bits_count_witness:
  "\<exists>n. extract_availability_bits_count [[True, False], [True, True], [False, True]] 0 = Inr n \<and> unat n = 2"
  using availability_bits_count [of "[[True, False], [True, True], [False, True]]" 0]
  by (auto simp: u32_as_usize_def)

end
