(* ===== verification/Tracker_Storage.thy ===== *)
theory Tracker_Storage
  imports Chain_Types Prefixed_Storage
begin

text \<open>
  The reads of the tracer from the storage of the collector,
  \<^verbatim>\<open>parachain-tracer/src/tracker_storage.rs\<close>. Each read asks the storage service for a prefix and a
  key; the answer is that of the storage itself (theorem \<open>prefixed_client_refines_storage\<close> of
  \<open>Storage_Api\<close>). A payload that does not decode panics (\<open>unwrap\<close>). The storage is a fixed value
  while one relay block is processed.
\<close>

type_synonym collector_storage = "(h256, prefix_type, payload) prefixed_storage"

record tracker_storage =
  ts_para_id :: u32
  ts_storage :: collector_storage
  ts_hasher :: "u8 list \<Rightarrow> h256"

definition tracker_storage_new :: "u32 \<Rightarrow> collector_storage \<Rightarrow> (u8 list \<Rightarrow> h256) \<Rightarrow> tracker_storage" where
  "tracker_storage_new para_id storage hasher =
     \<lparr>ts_para_id = para_id, ts_storage = storage, ts_hasher = hasher\<rparr>"

definition read_with ::
  "(payload \<Rightarrow> 'a option) \<Rightarrow> prefix_type \<Rightarrow> h256 \<Rightarrow> tracker_storage \<Rightarrow> fault + 'a option" where
  "read_with decode prefix key s =
     (case pf_get_prefix prefix key (ts_storage s) of
        None \<Rightarrow> Inr None
      | Some entry \<Rightarrow> (case into_inner decode entry of Inl _ \<Rightarrow> Inl Panic | Inr v \<Rightarrow> Inr (Some v)))"

definition ts_session_keys :: "u32 \<Rightarrow> tracker_storage \<Rightarrow> fault + account_id list option" where
  "ts_session_keys session_index s =
     read_with de_account_keys PrAccountKeys (ts_hasher s (to_be_bytes session_index)) s"

definition ts_inherent_data :: "h256 \<Rightarrow> tracker_storage \<Rightarrow> fault + inherent_data option" where
  "ts_inherent_data block_hash = read_with de_inherent PrInherentData block_hash"

definition ts_relevant_finalized_block_number :: "h256 \<Rightarrow> tracker_storage \<Rightarrow> fault + u32 option" where
  "ts_relevant_finalized_block_number block_hash =
     read_with de_block_number PrRelevantFinalizedBlockNumber block_hash"

definition ts_dispute :: "h256 \<Rightarrow> tracker_storage \<Rightarrow> fault + dispute_info option" where
  "ts_dispute block_hash s = read_with de_dispute (PrDispute (ts_para_id s)) block_hash s"

definition ts_candidate :: "h256 \<Rightarrow> tracker_storage \<Rightarrow> fault + candidate_record option" where
  "ts_candidate candidate_hash s = read_with de_candidate (PrCandidate (ts_para_id s)) candidate_hash s"

definition ts_block_timestamp :: "h256 \<Rightarrow> tracker_storage \<Rightarrow> fault + timestamp option" where
  "ts_block_timestamp block_hash = read_with de_timestamp PrTimestamp block_hash"

definition ts_occupied_cores :: "h256 \<Rightarrow> tracker_storage \<Rightarrow> fault + core_state list option" where
  "ts_occupied_cores block_hash = read_with de_cores PrOccupiedCores block_hash"

definition ts_backing_groups :: "h256 \<Rightarrow> tracker_storage \<Rightarrow> fault + u32 list list option" where
  "ts_backing_groups block_hash = read_with de_groups PrBackingGroups block_hash"

definition ts_core_assignments :: "h256 \<Rightarrow> tracker_storage \<Rightarrow> fault + claim_queue option" where
  "ts_core_assignments block_hash = read_with de_claim_queue PrCoreAssignments block_hash"

definition ts_inbound_outbound_hrmp_channels ::
  "h256 \<Rightarrow> tracker_storage \<Rightarrow> fault + (channel_map \<times> channel_map) option" where
  "ts_inbound_outbound_hrmp_channels block_hash s =
     read_with de_channels (PrHrmpChannels (ts_para_id s)) block_hash s"

lemmas ts_read_defs =
  ts_session_keys_def ts_inherent_data_def ts_relevant_finalized_block_number_def ts_dispute_def
  ts_candidate_def ts_block_timestamp_def ts_occupied_cores_def ts_backing_groups_def
  ts_core_assignments_def ts_inbound_outbound_hrmp_channels_def

text \<open>\<open>expect("saved in the collector")\<close>.\<close>

definition saved :: "fault + 'a option \<Rightarrow> fault + 'a" where
  "saved r = rbind r expect"

lemma saved_simps [simp]: "saved (Inl e) = Inl e" "saved (Inr m) = expect m"
  by (simp_all add: saved_def)

lemma saved_eq_Inr [simp]: "saved r = Inr x \<longleftrightarrow> r = Inr (Some x)"
  by (cases r) auto

section \<open>What the tracer finds\<close>

text \<open>Every payload is of the type that its prefix is read at, so no read panics.\<close>

fun well_typed :: "prefix_type \<Rightarrow> payload \<Rightarrow> bool" where
  "well_typed PrTimestamp d = (de_timestamp d \<noteq> None)"
| "well_typed (PrCandidate _) d = (de_candidate d \<noteq> None)"
| "well_typed PrCandidatesParachains d = (de_para_id d \<noteq> None)"
| "well_typed PrRelayBlockHeader d = (de_header d \<noteq> None)"
| "well_typed PrRelevantFinalizedBlockNumber d = (de_block_number d \<noteq> None)"
| "well_typed PrAccountKeys d = (de_account_keys d \<noteq> None)"
| "well_typed PrCoreAssignments d = (de_claim_queue d \<noteq> None)"
| "well_typed PrOccupiedCores d = (de_cores d \<noteq> None)"
| "well_typed PrBackingGroups d = (de_groups d \<noteq> None)"
| "well_typed PrInherentData d = (de_inherent d \<noteq> None)"
| "well_typed (PrDispute _) d = (de_dispute d \<noteq> None)"
| "well_typed (PrHrmpChannels _) d = (de_channels d \<noteq> None)"

definition storage_typed :: "collector_storage \<Rightarrow> bool" where
  "storage_typed s \<longleftrightarrow>
     (\<forall>(p, m) \<in> set (pf_records s). \<forall>(k, e) \<in> set m. well_typed p (se_data e))"

lemma storage_typed_iff:
  assumes "pf_inv s"
  shows "storage_typed s \<longleftrightarrow> (\<forall>p k e. pf_get_prefix p k s = Some e \<longrightarrow> well_typed p (se_data e))"
proof
  assume *: "\<forall>p k e. pf_get_prefix p k s = Some e \<longrightarrow> well_typed p (se_data e)"
  have "well_typed p (se_data e)" if "(p, m) \<in> set (pf_records s)" "(k, e) \<in> set m" for p m k e
  proof -
    have m: "map_of (pf_records s) p = Some m" using that(1) assms by (simp add: pf_inv_def hm_wf_def)
    with that(2) pf_inv_map [OF assms m] have "pf_get_prefix p k s = Some e"
      by (simp add: pf_get_prefix_def hm_wf_def)
    with * show ?thesis by blast
  qed
  then show "storage_typed s" by (auto simp: storage_typed_def)
qed (fastforce simp: storage_typed_def pf_get_prefix_def dest: map_of_SomeD split: option.splits)

lemma pf_get_prefix_typed:
  "storage_typed s \<Longrightarrow> pf_get_prefix p k s = Some e \<Longrightarrow> well_typed p (se_data e)"
  by (fastforce simp: storage_typed_def pf_get_prefix_def dest: map_of_SomeD split: option.splits)

lemma read_with_typed:
  assumes "storage_typed (ts_storage s)" "\<And>d. well_typed p d \<Longrightarrow> decode d \<noteq> None"
  shows "\<exists>m. read_with decode p k s = Inr m \<and> (m = None \<longleftrightarrow> pf_get_prefix p k (ts_storage s) = None)"
  using pf_get_prefix_typed [OF assms(1), of p k] assms(2)
  by (fastforce simp: read_with_def into_inner_def split: option.splits)

lemma ts_reads_total:
  assumes "storage_typed (ts_storage s)"
  shows "\<exists>m. ts_session_keys i s = Inr m"
    and "\<exists>m. ts_inherent_data h s = Inr m \<and> (m = None \<longleftrightarrow> pf_get_prefix PrInherentData h (ts_storage s) = None)"
    and "\<exists>m. ts_relevant_finalized_block_number h s = Inr m"
    and "\<exists>m. ts_dispute h s = Inr m"
    and "\<exists>m. ts_candidate h s = Inr m"
    and "\<exists>m. ts_block_timestamp h s = Inr m \<and> (m = None \<longleftrightarrow> pf_get_prefix PrTimestamp h (ts_storage s) = None)"
    and "\<exists>m. ts_occupied_cores h s = Inr m \<and> (m = None \<longleftrightarrow> pf_get_prefix PrOccupiedCores h (ts_storage s) = None)"
    and "\<exists>m. ts_backing_groups h s = Inr m \<and> (m = None \<longleftrightarrow> pf_get_prefix PrBackingGroups h (ts_storage s) = None)"
    and "\<exists>m. ts_core_assignments h s = Inr m \<and> (m = None \<longleftrightarrow> pf_get_prefix PrCoreAssignments h (ts_storage s) = None)"
    and "\<exists>m. ts_inbound_outbound_hrmp_channels h s = Inr m"
proof -
  note r = read_with_typed [OF assms]
  show "\<exists>m. ts_session_keys i s = Inr m"
    using r [of PrAccountKeys de_account_keys] unfolding ts_session_keys_def by force
  show "\<exists>m. ts_inherent_data h s = Inr m \<and> (m = None \<longleftrightarrow> pf_get_prefix PrInherentData h (ts_storage s) = None)"
    unfolding ts_inherent_data_def by (rule r) simp
  show "\<exists>m. ts_relevant_finalized_block_number h s = Inr m"
    using r [of PrRelevantFinalizedBlockNumber de_block_number]
    unfolding ts_relevant_finalized_block_number_def by force
  show "\<exists>m. ts_dispute h s = Inr m"
    using r [of "PrDispute (ts_para_id s)" de_dispute] unfolding ts_dispute_def by force
  show "\<exists>m. ts_candidate h s = Inr m"
    using r [of "PrCandidate (ts_para_id s)" de_candidate] unfolding ts_candidate_def by force
  show "\<exists>m. ts_block_timestamp h s = Inr m \<and> (m = None \<longleftrightarrow> pf_get_prefix PrTimestamp h (ts_storage s) = None)"
    unfolding ts_block_timestamp_def by (rule r) simp
  show "\<exists>m. ts_occupied_cores h s = Inr m \<and> (m = None \<longleftrightarrow> pf_get_prefix PrOccupiedCores h (ts_storage s) = None)"
    unfolding ts_occupied_cores_def by (rule r) simp
  show "\<exists>m. ts_backing_groups h s = Inr m \<and> (m = None \<longleftrightarrow> pf_get_prefix PrBackingGroups h (ts_storage s) = None)"
    unfolding ts_backing_groups_def by (rule r) simp
  show "\<exists>m. ts_core_assignments h s = Inr m \<and> (m = None \<longleftrightarrow> pf_get_prefix PrCoreAssignments h (ts_storage s) = None)"
    unfolding ts_core_assignments_def by (rule r) simp
  show "\<exists>m. ts_inbound_outbound_hrmp_channels h s = Inr m"
    using r [of "PrHrmpChannels (ts_para_id s)" de_channels]
    unfolding ts_inbound_outbound_hrmp_channels_def by force
qed

end
