(* ===== verification/Tracker.thy ===== *)
theory Tracker
  imports Tracer_Types Tracker_Storage
begin

text \<open>
  The parachain tracker, \<^verbatim>\<open>parachain-tracer/src/tracker.rs\<close>: its state and how a relay chain block
  changes it. \<^verbatim>\<open>candidates\<close> and \<^verbatim>\<open>cores\<close> are hash maps, so their list order is any iteration order. The
  methods of the source never return an error, they only panic, so a step is a state or \<open>Panic\<close>.
\<close>

section \<open>State\<close>

datatype backing_type = Sync | Async

type_synonym slot = "block_info option"

record subxt_tracker =
  tk_para_id :: u32
  tk_new_session :: "u32 option"
  tk_candidates :: "(u32, slot list) alist"
  tk_cores :: "(u32, u32 list) alist"
  tk_current_relay_block :: "block option"
  tk_previous_relay_block :: "block option"
  tk_current_non_fork_ts :: "timestamp option"
  tk_last_non_fork_ts :: "timestamp option"
  tk_last_backed_at :: "u32 option"
  tk_backing_type :: backing_type
  tk_last_included_at :: "block_without_hash option"
  tk_previous_included_at :: "block_without_hash option"
  tk_finality_lag :: "u32 option"
  tk_disputes :: "disputes_tracker list"
  tk_message_queues :: message_queues
  tk_relay_forks :: "fork_tracker list"

definition tracker_new :: "u32 \<Rightarrow> subxt_tracker" where
  "tracker_new para_id =
     \<lparr>tk_para_id = para_id, tk_new_session = None, tk_candidates = [], tk_cores = [],
      tk_current_relay_block = None, tk_previous_relay_block = None, tk_current_non_fork_ts = None,
      tk_last_non_fork_ts = None, tk_last_backed_at = None, tk_backing_type = Sync,
      tk_last_included_at = None, tk_previous_included_at = None, tk_finality_lag = None,
      tk_disputes = [], tk_message_queues = message_queues_default, tk_relay_forks = []\<rparr>"

definition inject_new_session :: "u32 \<Rightarrow> subxt_tracker \<Rightarrow> subxt_tracker" where
  "inject_new_session session_index t = t\<lparr>tk_new_session := Some session_index\<rparr>"

section \<open>Queries\<close>

definition is_fork :: "subxt_tracker \<Rightarrow> bool" where
  "is_fork t =
     (case (tk_current_relay_block t, tk_previous_relay_block t) of
        (Some a, Some b) \<Rightarrow> bl_num a = bl_num b
      | _ \<Rightarrow> False)"

definition slots_of :: "u32 \<Rightarrow> subxt_tracker \<Rightarrow> slot list" where
  "slots_of core t = the_default [] (map_of (tk_candidates t) core)"

definition current_candidate :: "u32 \<Rightarrow> subxt_tracker \<Rightarrow> block_info option" where
  "current_candidate core t =
     (case map_of (tk_candidates t) core of
        None \<Rightarrow> None
      | Some v \<Rightarrow> (case last_opt v of Some (Some c) \<Rightarrow> Some c | _ \<Rightarrow> None))"

text \<open>A change through \<open>current_candidate_mut\<close>.\<close>

definition update_current_candidate :: "u32 \<Rightarrow> (block_info \<Rightarrow> block_info) \<Rightarrow> subxt_tracker \<Rightarrow> subxt_tracker" where
  "update_current_candidate core f t =
     t\<lparr>tk_candidates := hm_modify core (map_last (map_option f)) (tk_candidates t)\<rparr>"

definition all_slots :: "subxt_tracker \<Rightarrow> slot list" where
  "all_slots t = concat (map snd (tk_candidates t))"

definition has_backed_candidate :: "u32 \<Rightarrow> subxt_tracker \<Rightarrow> bool" where
  "has_backed_candidate core t \<longleftrightarrow>
     (case map_of (tk_candidates t) core of
        None \<Rightarrow> False
      | Some v \<Rightarrow> list_ex (\<lambda>s. case s of None \<Rightarrow> False | Some c \<Rightarrow> is_backed c) v) \<or>
     list_ex (\<lambda>f. ft_backed_candidate f \<noteq> None) (tk_relay_forks t)"

definition has_backed_or_included_candidate :: "u32 \<Rightarrow> subxt_tracker \<Rightarrow> bool" where
  "has_backed_or_included_candidate core t \<longleftrightarrow>
     (case map_of (tk_candidates t) core of None \<Rightarrow> False | Some v \<Rightarrow> list_ex (\<lambda>s. s \<noteq> None) v) \<or>
     list_ex (\<lambda>f. ft_backed_candidate f \<noteq> None \<or> ft_included_candidate f \<noteq> None) (tk_relay_forks t)"

definition is_current_candidate_backed :: "u32 \<Rightarrow> subxt_tracker \<Rightarrow> bool" where
  "is_current_candidate_backed core t =
     (case current_candidate core t of None \<Rightarrow> False | Some c \<Rightarrow> is_backed c)"

definition is_just_backed :: "subxt_tracker \<Rightarrow> bool" where
  "is_just_backed t \<longleftrightarrow>
     tk_last_backed_at t \<noteq> None \<and> tk_last_backed_at t = map_option bl_num (tk_current_relay_block t)"

definition is_slow_availability :: "u32 \<Rightarrow> subxt_tracker \<Rightarrow> bool" where
  "is_slow_availability core t \<longleftrightarrow>
     (case current_candidate core t of None \<Rightarrow> False | Some c \<Rightarrow> bi_core_occupied c) \<and> \<not> is_just_backed t"

definition validators_indices :: "h256 \<Rightarrow> tracker_storage \<Rightarrow> fault + u32 list" where
  "validators_indices block_hash storage =
     rbind (saved (ts_backing_groups block_hash storage)) (\<lambda>groups. Inr (concat groups))"

definition candidate_backed_in :: "h256 \<Rightarrow> tracker_storage \<Rightarrow> fault + u32 option" where
  "candidate_backed_in candidate_hash storage =
     rbind (ts_candidate candidate_hash storage) (\<lambda>m.
       Inr (map_option (\<lambda>v. saturating_sub (ci_backed (cr_inclusion v)) (ci_relay_parent_number (cr_inclusion v))) m))"

section \<open>The steps of a relay chain block\<close>

definition set_relay_block :: "h256 \<Rightarrow> u32 \<Rightarrow> tracker_storage \<Rightarrow> subxt_tracker \<Rightarrow> fault + subxt_tracker" where
  "set_relay_block block_hash block_number storage t =
     rbind (saved (ts_block_timestamp block_hash storage)) (\<lambda>ts.
       let t1 = t\<lparr>tk_previous_relay_block := tk_current_relay_block t,
                  tk_current_relay_block := Some \<lparr>bl_hash = block_hash, bl_num = block_number, bl_ts = ts\<rparr>\<rparr>;
           t2 = (if \<not> is_fork t1 then
                   t1\<lparr>tk_last_non_fork_ts := tk_current_non_fork_ts t1, tk_current_non_fork_ts := Some ts\<rparr>
                 else t1)
       in rbind (ts_relevant_finalized_block_number block_hash storage) (\<lambda>m.
            Inr (t2\<lparr>tk_finality_lag := map_option (\<lambda>num. block_number - num) m\<rparr>)))"

definition set_forks :: "h256 \<Rightarrow> u32 \<Rightarrow> subxt_tracker \<Rightarrow> subxt_tracker" where
  "set_forks block_hash block_number t =
     t\<lparr>tk_relay_forks := (if \<not> is_fork t then [] else tk_relay_forks t) @
         [\<lparr>ft_relay_hash = block_hash, ft_relay_number = block_number, ft_backed_candidate = None,
           ft_included_candidate = None\<rparr>]\<rparr>"

definition set_cores :: "h256 \<Rightarrow> tracker_storage \<Rightarrow> subxt_tracker \<Rightarrow> fault + subxt_tracker" where
  "set_cores block_hash storage t =
     rbind (saved (ts_core_assignments block_hash storage)) (\<lambda>assignments.
       Inr (t\<lparr>tk_cores := hm_collect (filter (\<lambda>(_, ids). tk_para_id t \<in> set ids) assignments)\<rparr>))"

definition include_candidate :: "h256 list \<Rightarrow> bitfield list \<Rightarrow> u32 \<Rightarrow> block_info \<Rightarrow> fault + block_info" where
  "include_candidate candidates_included bitfields max_bits candidate =
     (if bi_candidate_hash candidate \<in> set candidates_included then
        rbind (extract_availability_bits_count bitfields (bi_assigned_core candidate)) (\<lambda>current_bits.
          Inr (set_availability \<lparr>ba_current = current_bits, ba_max = max_bits\<rparr> (set_included candidate)))
      else Inr candidate)"

definition include_slot :: "h256 list \<Rightarrow> bitfield list \<Rightarrow> u32 \<Rightarrow> slot \<Rightarrow> fault + slot" where
  "include_slot candidates_included bitfields max_bits s =
     (case s of
        None \<Rightarrow> Inr None
      | Some c \<Rightarrow> rbind (include_candidate candidates_included bitfields max_bits c) (\<lambda>c'. Inr (Some c')))"

definition set_included_candidates ::
  "h256 \<Rightarrow> h256 list \<Rightarrow> bitfield list \<Rightarrow> tracker_storage \<Rightarrow> subxt_tracker \<Rightarrow> fault + subxt_tracker" where
  "set_included_candidates block_hash candidates_included bitfields storage t =
     rbind (validators_indices block_hash storage) (\<lambda>validators.
       let max_bits = usize_as_u32 (length validators);
           last_included = last_opt (filter (\<lambda>h. h \<in> set candidates_included)
             (map bi_candidate_hash (List.map_filter id (all_slots t))))
       in rbind (rmap (\<lambda>(core, v).
                   rbind (rmap (include_slot candidates_included bitfields max_bits) v) (\<lambda>v'. Inr (core, v')))
                 (tk_candidates t)) (\<lambda>candidates.
            let t1 = t\<lparr>tk_candidates := candidates\<rparr>
            in (if last_included \<noteq> None then
                  (if tk_relay_forks t1 = [] then Inl Panic
                   else Inr (t1\<lparr>tk_relay_forks :=
                                 map_last (\<lambda>f. f\<lparr>ft_included_candidate := last_included\<rparr>) (tk_relay_forks t1),
                               tk_previous_included_at := tk_last_included_at t1,
                               tk_last_included_at := map_option block_without_hash_from (tk_current_relay_block t1)\<rparr>))
                else Inr t1)))"

text \<open>One backed candidate of the parachain.\<close>

definition back_candidate :: "u32 \<Rightarrow> backed_candidate \<Rightarrow> subxt_tracker \<Rightarrow> subxt_tracker" where
  "back_candidate block_number backed t =
     (let core = bc_core_idx backed;
          candidate = block_info_new (bc_candidate_hash backed) core;
          t1 = t\<lparr>tk_relay_forks :=
                  map_last (\<lambda>f. f\<lparr>ft_backed_candidate := Some (bi_candidate_hash candidate)\<rparr>) (tk_relay_forks t)\<rparr>;
          t2 = (if tk_backing_type t1 = Sync \<and>
                   (case tk_last_backed_at t1 of None \<Rightarrow> False | Some at \<Rightarrow> block_number - at = 1)
                then t1\<lparr>tk_backing_type := Async\<rparr> else t1)
      in t2\<lparr>tk_last_backed_at := Some block_number,
            tk_candidates := hm_push core (Some candidate) (tk_candidates t2)\<rparr>)"

text \<open>A core of the parachain that no candidate was backed on.\<close>

definition idle_core :: "u32 \<Rightarrow> subxt_tracker \<Rightarrow> subxt_tracker" where
  "idle_core core t =
     (case tk_backing_type t of
        Sync \<Rightarrow>
          if \<not> has_backed_or_included_candidate core t
          then t\<lparr>tk_candidates := hm_push core None (tk_candidates t)\<rparr> else t
      | Async \<Rightarrow>
          if \<not> has_backed_candidate core t
          then t\<lparr>tk_candidates := hm_push core None (tk_candidates t)\<rparr> else t)"

definition set_backed_candidates :: "u32 \<Rightarrow> backed_candidate list \<Rightarrow> subxt_tracker \<Rightarrow> subxt_tracker" where
  "set_backed_candidates block_number backed_candidates t =
     (let own = filter (\<lambda>v. bc_para_id v = tk_para_id t) backed_candidates;
          t1 = fold (back_candidate block_number) own t;
          used_cores = map bc_core_idx own;
          idle_cores = filter (\<lambda>c. c \<notin> set used_cores) (map fst (tk_cores t1))
      in fold idle_core idle_cores t1)"

definition is_live :: "slot \<Rightarrow> bool" where
  "is_live s = (case s of None \<Rightarrow> False | Some c \<Rightarrow> \<not> is_included c)"

fun drop_first_live :: "nat \<Rightarrow> slot list \<Rightarrow> slot list" where
  "drop_first_live n [] = []"
| "drop_first_live n (s # v) =
     (if is_live s then
        (case n of 0 \<Rightarrow> s # v | Suc m \<Rightarrow> map_option set_dropped s # drop_first_live m v)
      else s # drop_first_live n v)"

definition drop_stale :: "slot list \<Rightarrow> slot list" where
  "drop_stale v =
     (let n = length (filter is_live v) in if n > 1 then drop_first_live (n - 1) v else v)"

definition set_dropped_candidates :: "subxt_tracker \<Rightarrow> subxt_tracker" where
  "set_dropped_candidates t = t\<lparr>tk_candidates := hm_map_values drop_stale (tk_candidates t)\<rparr>"

definition assign_core :: "h256 \<Rightarrow> tracker_storage \<Rightarrow> u32 \<Rightarrow> subxt_tracker \<Rightarrow> fault + subxt_tracker" where
  "assign_core block_hash storage core t =
     (case current_candidate core t of
        None \<Rightarrow> Inr t
      | Some candidate \<Rightarrow>
          if is_backed candidate then
            rbind (saved (ts_occupied_cores block_hash storage)) (\<lambda>cores.
            rbind (index_of cores (u32_as_usize core)) (\<lambda>state.
              Inr (update_current_candidate core (\<lambda>c. c\<lparr>bi_core_occupied := (state = CoreOccupied)\<rparr>) t)))
          else Inr t)"

definition set_core_assignment :: "h256 \<Rightarrow> tracker_storage \<Rightarrow> subxt_tracker \<Rightarrow> fault + subxt_tracker" where
  "set_core_assignment block_hash storage t =
     rfold (assign_core block_hash storage) (map fst (tk_cores t)) t"

definition track_dispute ::
  "(account_id \<Rightarrow> string) \<Rightarrow> dispute_statement_set list \<Rightarrow> tracker_storage \<Rightarrow> dispute_info \<Rightarrow> subxt_tracker \<Rightarrow>
   fault + subxt_tracker" where
  "track_dispute ss58 inherent_disputes storage concluded_dispute t =
     (case List.find (\<lambda>v. ds_candidate_hash v = sd_candidate_hash (di_dispute concluded_dispute)) inherent_disputes of
        None \<Rightarrow> Inr t
      | Some info \<Rightarrow>
          rbind (ts_dispute (ds_candidate_hash info) storage) (\<lambda>m.
            case m of
              None \<Rightarrow> Inr t
            | Some d \<Rightarrow>
                (case di_outcome d of
                   None \<Rightarrow> Inr t
                 | Some outcome \<Rightarrow>
                     rbind (expect (di_concluded d)) (\<lambda>concluded.
                     rbind (ts_session_keys (ds_session info) storage) (\<lambda>keys.
                     rbind (ts_session_keys (di_session_index d) storage) (\<lambda>initiator_keys.
                     rbind (disputes_tracker_new ss58 info outcome (di_initiated d) (di_initiator_indices d)
                              concluded keys initiator_keys) (\<lambda>tracked.
                       Inr (t\<lparr>tk_disputes := tk_disputes t @ [tracked]\<rparr>))))))))"

definition set_disputes ::
  "(account_id \<Rightarrow> string) \<Rightarrow> dispute_statement_set list \<Rightarrow> dispute_info list \<Rightarrow> tracker_storage \<Rightarrow> subxt_tracker \<Rightarrow>
   fault + subxt_tracker" where
  "set_disputes ss58 inherent_disputes concluded_disputes storage t =
     rfold (track_dispute ss58 inherent_disputes storage) concluded_disputes (t\<lparr>tk_disputes := []\<rparr>)"

definition set_hrmp_channels :: "h256 \<Rightarrow> tracker_storage \<Rightarrow> subxt_tracker \<Rightarrow> fault + subxt_tracker" where
  "set_hrmp_channels block_hash storage t =
     rbind (ts_inbound_outbound_hrmp_channels block_hash storage) (\<lambda>m.
       let (inbound, outbound) = the_default ([], []) m
       in Inr (t\<lparr>tk_message_queues := mq_set_hrmp_channels inbound outbound (tk_message_queues t)\<rparr>))"

definition pend_core :: "bitfield list \<Rightarrow> u32 \<Rightarrow> u32 \<Rightarrow> subxt_tracker \<Rightarrow> fault + subxt_tracker" where
  "pend_core bitfields max_bits core t =
     (if is_current_candidate_backed core t \<and> \<not> is_just_backed t then
        rbind (extract_availability_bits_count bitfields core) (\<lambda>current_bits.
          Inr (update_current_candidate core
                 (\<lambda>c. set_availability \<lparr>ba_current = current_bits, ba_max = max_bits\<rparr> (set_pending c)) t))
      else Inr t)"

definition set_pending_availability ::
  "h256 \<Rightarrow> bitfield list \<Rightarrow> tracker_storage \<Rightarrow> subxt_tracker \<Rightarrow> fault + subxt_tracker" where
  "set_pending_availability block_hash bitfields storage t =
     rbind (validators_indices block_hash storage) (\<lambda>validators.
       rfold (pend_core bitfields (usize_as_u32 (length validators))) (map fst (tk_cores t)) t)"

definition inject_block ::
  "(account_id \<Rightarrow> string) \<Rightarrow> h256 \<Rightarrow> new_head_event \<Rightarrow> tracker_storage \<Rightarrow> subxt_tracker \<Rightarrow> fault + subxt_tracker" where
  "inject_block ss58 block_hash new_head storage t =
     rbind (ts_inherent_data block_hash storage) (\<lambda>m.
       case m of
         None \<Rightarrow> Inr t
       | Some inherent \<Rightarrow>
           let block_number = nh_relay_parent_number new_head in
           rbind (set_relay_block block_hash block_number storage t) (\<lambda>t.
           let t = set_forks block_hash block_number t in
           rbind (set_cores block_hash storage t) (\<lambda>t.
           rbind (set_included_candidates block_hash (nh_candidates_included new_head)
                    (ih_bitfields inherent) storage t) (\<lambda>t.
           let t = set_backed_candidates block_number (nh_candidates_backed new_head) t in
           rbind (set_core_assignment block_hash storage t) (\<lambda>t.
           rbind (set_disputes ss58 (ih_disputes inherent) (nh_disputes_concluded new_head) storage t) (\<lambda>t.
           rbind (set_hrmp_channels block_hash storage t) (\<lambda>t.
           rbind (set_pending_availability block_hash (ih_bitfields inherent) storage t) (\<lambda>t.
             Inr (set_dropped_candidates t)))))))))"

definition maybe_reset_state :: "subxt_tracker \<Rightarrow> subxt_tracker" where
  "maybe_reset_state t =
     (let t1 = t\<lparr>tk_new_session := None, tk_disputes := [],
                 tk_candidates := hm_map_values
                   (filter (\<lambda>s. case s of None \<Rightarrow> False | Some c \<Rightarrow> \<not> is_included c \<and> \<not> is_dropped c))
                   (tk_candidates t)\<rparr>
      in t1\<lparr>tk_candidates := filter (\<lambda>(_, v). v \<noteq> []) (tk_candidates t1)\<rparr>)"

end
