(* ===== verification/Tracker_Progress.thy ===== *)
theory Tracker_Progress
  imports Tracker
begin

text \<open>
  The progress report of the tracker (\<^verbatim>\<open>progress\<close> and the \<^verbatim>\<open>notify_*\<close> methods of
  \<^verbatim>\<open>parachain-tracer/src/tracker.rs\<close>). The statistics and the metrics are traits in the code: a report
  carries the calls made on them, in order.
\<close>

datatype stats_call =
    OnBlock duration
  | OnBitfields u32 bool
  | OnSkippedSlot progress_update
  | OnBacked
  | OnSlowAvailability
  | OnIncluded u32 "u32 option" "u32 option"
  | OnDisputed disputes_tracker

datatype metrics_call =
    MBitfields u32 bool u32
  | MSkippedSlot progress_update
  | MBacked u32
  | MSlowAvailability u32
  | MIncluded u32 "u32 option" "u32 option" "duration option" u32
  | MDisputed disputes_tracker u32
  | MFinalityLag u32

record report =
  rp_progress :: progress_update
  rp_stats :: "stats_call list"
  rp_metrics :: "metrics_call list"

definition emit :: "consensus_event \<Rightarrow> report \<Rightarrow> report" where
  "emit e r = r\<lparr>rp_progress := push_event e (rp_progress r)\<rparr>"

definition call_stats :: "stats_call \<Rightarrow> report \<Rightarrow> report" where
  "call_stats c r = r\<lparr>rp_stats := rp_stats r @ [c]\<rparr>"

definition call_metrics :: "metrics_call \<Rightarrow> report \<Rightarrow> report" where
  "call_metrics c r = r\<lparr>rp_metrics := rp_metrics r @ [c]\<rparr>"

definition notify_disputes :: "subxt_tracker \<Rightarrow> report \<Rightarrow> report" where
  "notify_disputes t r =
     (if is_fork t then r
      else fold (\<lambda>outcome r. call_metrics (MDisputed outcome (tk_para_id t))
                   (call_stats (OnDisputed outcome) (emit (EvDisputed outcome) r))) (tk_disputes t) r)"

definition notify_active_message_queues :: "subxt_tracker \<Rightarrow> report \<Rightarrow> report" where
  "notify_active_message_queues t r =
     (if has_hrmp_messages (tk_message_queues t) then
        emit (EvMessageQueues (active_inbound_channels (tk_message_queues t))
                (active_outbound_channels (tk_message_queues t))) r
      else r)"

definition current_block_time :: "subxt_tracker \<Rightarrow> duration" where
  "current_block_time t =
     (let cur_ts = the_default 0 (map_option bl_ts (tk_current_relay_block t));
          base_ts = the_default cur_ts (tk_last_non_fork_ts t)
      in from_millis cur_ts - from_millis base_ts)"

definition notify_current_block_time :: "subxt_tracker \<Rightarrow> report \<Rightarrow> report" where
  "notify_current_block_time t r =
     (if \<not> is_fork t then call_stats (OnBlock (current_block_time t)) r else r)"

definition notify_finality_lag :: "subxt_tracker \<Rightarrow> report \<Rightarrow> report" where
  "notify_finality_lag t r =
     (case tk_finality_lag t of None \<Rightarrow> r | Some lag \<Rightarrow> call_metrics (MFinalityLag lag) r)"

definition notify_new_session :: "subxt_tracker \<Rightarrow> report \<Rightarrow> report" where
  "notify_new_session t r =
     (case tk_new_session t of None \<Rightarrow> r | Some session_index \<Rightarrow> emit (EvNewSession session_index) r)"

definition notify_core_assignment :: "subxt_tracker \<Rightarrow> report \<Rightarrow> report" where
  "notify_core_assignment t r =
     fold (\<lambda>core r. if current_candidate core t \<noteq> None then emit (EvCoreAssigned core) r else r)
       (map fst (tk_cores t)) r"

definition notify_core_bitfields :: "subxt_tracker \<Rightarrow> u32 \<Rightarrow> report \<Rightarrow> report" where
  "notify_core_bitfields t core r =
     (case current_candidate core t of
        None \<Rightarrow> r
      | Some candidate \<Rightarrow>
          (case bi_availability candidate of
             None \<Rightarrow> r
           | Some availability \<Rightarrow>
               let slow = is_bitfield_propagation_slow candidate;
                   r1 = call_metrics (MBitfields (ba_current availability) slow (tk_para_id t))
                          (call_stats (OnBitfields (ba_current availability) slow) r)
               in (if slow then
                     emit (EvSlowBitfieldPropagation (ba_current availability) (ba_max availability)) r1
                   else r1)))"

definition notify_bitfield_propagation :: "subxt_tracker \<Rightarrow> report \<Rightarrow> report" where
  "notify_bitfield_propagation t r = fold (notify_core_bitfields t) (map fst (tk_cores t)) r"

definition notify_candidate :: "subxt_tracker \<Rightarrow> tracker_storage \<Rightarrow> block_info \<Rightarrow> report \<Rightarrow> fault + report" where
  "notify_candidate t storage candidate r =
     (case bi_state candidate of
        Backed \<Rightarrow>
          Inr (call_metrics (MBacked (tk_para_id t)) (call_stats OnBacked
                 (emit (EvBacked (bi_candidate_hash candidate)) r)))
      | PendingAvailability \<Rightarrow>
          let r1 = emit (EvPendingAvailability (bi_candidate_hash candidate)) r in
          Inr (if is_slow_availability (bi_assigned_core candidate) t then
                 let r2 = (case bi_availability candidate of
                             None \<Rightarrow> r1
                           | Some a \<Rightarrow> emit (EvSlowAvailability (ba_current a) (ba_max a)) r1)
                 in call_metrics (MSlowAvailability (tk_para_id t)) (call_stats OnSlowAvailability r2)
               else r1)
      | Included \<Rightarrow>
          let r1 = (case bi_availability candidate of
                      None \<Rightarrow> r
                    | Some a \<Rightarrow> emit (EvIncluded (bi_candidate_hash candidate) (ba_current a) (ba_max a)) r) in
          rbind (candidate_backed_in (bi_candidate_hash candidate) storage) (\<lambda>backed_in.
          rbind (expect (tk_current_relay_block t)) (\<lambda>relay_block.
            let previous = tk_previous_included_at t in
            Inr (call_metrics (MIncluded (bl_num relay_block) (map_option bw_num previous) backed_in
                     (time_diff (Some (bl_ts relay_block)) (map_option bw_ts previous)) (tk_para_id t))
                   (call_stats (OnIncluded (bl_num relay_block) (map_option bw_num previous) backed_in) r1))))
      | Dropped \<Rightarrow> Inr (emit (EvDropped (bi_candidate_hash candidate)) r))"

definition notify_slot :: "subxt_tracker \<Rightarrow> tracker_storage \<Rightarrow> slot \<Rightarrow> report \<Rightarrow> fault + report" where
  "notify_slot t storage s r =
     (case s of
        None \<Rightarrow>
          let r1 = emit EvSkippedSlot r
          in Inr (call_metrics (MSkippedSlot (rp_progress r1)) (call_stats (OnSkippedSlot (rp_progress r1)) r1))
      | Some candidate \<Rightarrow> notify_candidate t storage candidate r)"

definition notify_candidate_state :: "subxt_tracker \<Rightarrow> tracker_storage \<Rightarrow> report \<Rightarrow> fault + report" where
  "notify_candidate_state t storage r = rfold (notify_slot t storage) (all_slots t) r"

definition progress_start :: "subxt_tracker \<Rightarrow> block \<Rightarrow> progress_update" where
  "progress_start t b =
     \<lparr>pu_para_id = tk_para_id t, pu_timestamp = bl_ts b,
      pu_prev_timestamp = the_default (bl_ts b) (tk_last_non_fork_ts t),
      pu_block_number = bl_num b, pu_block_hash = bl_hash b,
      pu_core_occupied =
        hm_map_values (\<lambda>v. case last_opt v of Some (Some c) \<Rightarrow> bi_core_occupied c | _ \<Rightarrow> False) (tk_candidates t),
      pu_events = [], pu_is_fork = is_fork t, pu_finality_lag = tk_finality_lag t\<rparr>"

definition progress :: "tracker_storage \<Rightarrow> subxt_tracker \<Rightarrow> fault + report option" where
  "progress storage t =
     (case tk_current_relay_block t of
        None \<Rightarrow> Inr None
      | Some b \<Rightarrow>
          let r = \<lparr>rp_progress = progress_start t b, rp_stats = [], rp_metrics = []\<rparr>;
              r = notify_new_session t r;
              r = notify_core_assignment t r;
              r = notify_bitfield_propagation t r
          in rbind (notify_candidate_state t storage r) (\<lambda>r.
             let r = notify_disputes t r;
                 r = notify_active_message_queues t r;
                 r = notify_current_block_time t r;
                 r = notify_finality_lag t r
             in Inr (Some r)))"

end
