(* ===== verification/Tracker_Steps.thy ===== *)
theory Tracker_Steps
  imports Tracker
begin

text \<open>
  What one step of the tracker can do to the candidates it tracks: the life cycle of a candidate. A
  relay chain block appends candidates and skipped slots to the list of a core and moves the states of
  the candidates already there along \<open>may_become\<close>; nothing is removed, reordered or renamed.
\<close>

section \<open>The life cycle\<close>

fun may_become :: "block_state \<Rightarrow> block_state \<Rightarrow> bool" where
  "may_become Backed _ = True"
| "may_become PendingAvailability s = (s \<noteq> Backed)"
| "may_become Included s = (s = Included)"
| "may_become Dropped s = (s \<in> {Dropped, Included})"

text \<open>A step between two slots when the candidates \<open>incl\<close> are included meanwhile.\<close>

fun slot_step :: "h256 set \<Rightarrow> slot \<Rightarrow> slot \<Rightarrow> bool" where
  "slot_step incl None s' = (s' = None)"
| "slot_step incl (Some c) None = False"
| "slot_step incl (Some c) (Some c') =
     (bi_candidate_hash c' = bi_candidate_hash c \<and> bi_assigned_core c' = bi_assigned_core c \<and>
      may_become (bi_state c) (bi_state c') \<and>
      (is_included c' \<longleftrightarrow> is_included c \<or> bi_candidate_hash c \<in> incl))"

definition slots_step :: "h256 set \<Rightarrow> slot list \<Rightarrow> slot list \<Rightarrow> bool" where
  "slots_step incl v v' \<longleftrightarrow> (\<exists>old new. v' = old @ new \<and> list_all2 (slot_step incl) v old)"

definition cand_step :: "h256 set \<Rightarrow> subxt_tracker \<Rightarrow> subxt_tracker \<Rightarrow> bool" where
  "cand_step incl t t' \<longleftrightarrow> (\<forall>core. slots_step incl (slots_of core t) (slots_of core t'))"

lemma may_become_refl [simp]: "may_become s s"
  by (cases s) auto

lemma slot_step_refl: "slot_step {} s s"
  by (cases s; cases "bi_state (the s)") auto

lemma may_become_trans: "may_become s s' \<Longrightarrow> may_become s' s'' \<Longrightarrow> may_become s s''"
  by (cases s; cases s'; cases s'') auto

lemma slot_step_trans: "slot_step A s s' \<Longrightarrow> slot_step B s' s'' \<Longrightarrow> slot_step (A \<union> B) s s''"
  by (cases s; cases s'; cases s'') (auto intro: may_become_trans)

lemma slots_step_refl: "slots_step {} v v"
  unfolding slots_step_def
  by (rule exI [of _ v], rule exI [of _ "[]"]) (simp add: list_all2_refl slot_step_refl)

lemma slots_step_snoc: "slots_step {} v (v @ new)"
  unfolding slots_step_def by (intro exI conjI, rule refl) (simp add: list_all2_refl slot_step_refl)

lemma slots_step_trans:
  assumes "slots_step A u v" "slots_step B v w"
  shows "slots_step (A \<union> B) u w"
proof -
  from assms obtain v1 v2 w1 w2 where uv: "v = v1 @ v2" "list_all2 (slot_step A) u v1"
    and vw: "w = w1 @ w2" "list_all2 (slot_step B) v w1" unfolding slots_step_def by blast
  from vw(2) uv(1) obtain w3 w4 where w1: "w1 = w3 @ w4" "list_all2 (slot_step B) v1 w3"
    by (auto simp: list_all2_append1)
  have "list_all2 (slot_step (A \<union> B)) u w3"
    by (rule list_all2_trans [OF _ uv(2) w1(2)]) (rule slot_step_trans)
  with vw(1) w1(1) show ?thesis unfolding slots_step_def by auto
qed

lemma slots_step_all2: "list_all2 (slot_step A) v v' \<Longrightarrow> slots_step A v v'"
  unfolding slots_step_def by (rule exI [of _ v'], rule exI [of _ "[]"]) simp

lemma cand_step_trans: "cand_step A t t' \<Longrightarrow> cand_step B t' t'' \<Longrightarrow> cand_step (A \<union> B) t t''"
  by (auto simp: cand_step_def intro: slots_step_trans)

lemma cand_step_same: "tk_candidates t' = tk_candidates t \<Longrightarrow> cand_step {} t t'"
  by (simp add: cand_step_def slots_of_def slots_step_refl)

interpretation cand: step_preorder "cand_step {}"
proof
  show "cand_step {} t t" for t by (rule cand_step_same) simp
  show "cand_step {} t t''" if "cand_step {} t t'" "cand_step {} t' t''" for t t' t''
    using cand_step_trans [OF that] by simp
qed

section \<open>Each step\<close>

lemma slots_of_push:
  "slots_of core' (t\<lparr>tk_candidates := hm_push core s (tk_candidates t)\<rparr>) =
     (if core' = core then slots_of core t @ [s] else slots_of core' t)"
  by (simp add: slots_of_def map_of_hm_push)

lemma cand_step_push: "cand_step {} t (t\<lparr>tk_candidates := hm_push core s (tk_candidates t)\<rparr>)"
  by (simp add: cand_step_def slots_of_push slots_step_snoc slots_step_refl)

lemma cand_step_update_current:
  assumes "\<And>c. current_candidate core t = Some c \<Longrightarrow> slot_step {} (Some c) (Some (f c))"
  shows "cand_step {} t (update_current_candidate core f t)"
  unfolding cand_step_def
proof
  fix core'
  show "slots_step {} (slots_of core' t) (slots_of core' (update_current_candidate core f t))"
  proof (cases "core' = core \<and> slots_of core t \<noteq> []")
    case True
    then obtain v s where v: "map_of (tk_candidates t) core = Some (v @ [s])"
      by (cases "map_of (tk_candidates t) core"; cases "slots_of core t" rule: rev_cases)
        (auto simp: slots_of_def)
    have "slot_step {} s (map_option f s)"
      using assms v by (cases s) (auto simp: current_candidate_def)
    then have "list_all2 (slot_step {}) (v @ [s]) (v @ [map_option f s])"
      by (simp add: list_all2_appendI list_all2_refl slot_step_refl)
    with True v show ?thesis
      by (simp add: slots_of_def update_current_candidate_def map_of_hm_modify slots_step_all2)
  next
    case False
    then have "slots_of core' (update_current_candidate core f t) = slots_of core' t"
      by (cases "map_of (tk_candidates t) core'")
        (auto simp: slots_of_def update_current_candidate_def map_of_hm_modify)
    then show ?thesis by (simp add: slots_step_refl)
  qed
qed

lemma set_relay_block_candidates:
  "set_relay_block h n st t = Inr t' \<Longrightarrow>
     tk_candidates t' = tk_candidates t \<and> tk_cores t' = tk_cores t \<and> tk_relay_forks t' = tk_relay_forks t \<and>
     tk_para_id t' = tk_para_id t \<and> tk_backing_type t' = tk_backing_type t \<and>
     tk_last_backed_at t' = tk_last_backed_at t"
  by (auto simp: set_relay_block_def Let_def)

lemma set_cores_fields:
  "set_cores h st t = Inr t' \<Longrightarrow> \<exists>a. ts_core_assignments h st = Inr (Some a) \<and>
     t' = t\<lparr>tk_cores := hm_collect (filter (\<lambda>(_, ids). tk_para_id t \<in> set ids) a)\<rparr>"
  by (auto simp: set_cores_def)

lemma include_slot_step:
  "include_slot incl bs m s = Inr s' \<Longrightarrow> slot_step (set incl) s s'"
  by (cases s; cases "bi_state (the s)")
    (auto simp: include_slot_def include_candidate_def defs_simps split: if_splits)

lemma map_of_rmap_entries:
  assumes "rmap (\<lambda>(k, v). rbind (f v) (\<lambda>v'. Inr (k, v'))) m = Inr m'"
  shows "map fst m' = map fst m"
    and "map_of m k = None \<Longrightarrow> map_of m' k = None"
    and "map_of m k = Some v \<Longrightarrow> \<exists>v'. map_of m' k = Some v' \<and> f v = Inr v'"
  using assms by (induction m arbitrary: m') (auto split: if_splits)

lemma rmap_all2: "rmap f xs = Inr ys \<Longrightarrow> (\<And>x y. f x = Inr y \<Longrightarrow> P x y) \<Longrightarrow> list_all2 P xs ys"
  by (auto dest!: rmap_list_all2 elim: list_all2_mono)

lemma set_included_candidates_ok:
  assumes "set_included_candidates h incl bs st t = Inr t'"
  obtains m where "rmap (\<lambda>(core, v). rbind (rmap (include_slot incl bs m) v) (\<lambda>v'. Inr (core, v'))) (tk_candidates t) =
      Inr (tk_candidates t')"
    and "tk_cores t' = tk_cores t" "tk_para_id t' = tk_para_id t" "tk_backing_type t' = tk_backing_type t"
    and "tk_last_backed_at t' = tk_last_backed_at t" "tk_current_relay_block t' = tk_current_relay_block t"
    and "map ft_relay_hash (tk_relay_forks t') = map ft_relay_hash (tk_relay_forks t)"
    and "map ft_relay_number (tk_relay_forks t') = map ft_relay_number (tk_relay_forks t)"
    and "map ft_backed_candidate (tk_relay_forks t') = map ft_backed_candidate (tk_relay_forks t)"
proof -
  have last: "map g (map_last (\<lambda>f. f\<lparr>ft_included_candidate := x\<rparr>) fs) = map g fs"
    if "\<And>f. g (f\<lparr>ft_included_candidate := x\<rparr>) = g f" for g :: "fork_tracker \<Rightarrow> 'b" and x fs
    using that by (cases fs rule: rev_cases) auto
  show thesis
    using assms that
    by (auto simp: set_included_candidates_def Let_def last split: if_splits)
qed

lemma cand_step_included:
  assumes "set_included_candidates h incl bs st t = Inr t'"
  shows "cand_step (set incl) t t'"
proof -
  obtain m where m: "rmap (\<lambda>(core, v). rbind (rmap (include_slot incl bs m) v) (\<lambda>v'. Inr (core, v')))
      (tk_candidates t) = Inr (tk_candidates t')"
    using set_included_candidates_ok [OF assms] by metis
  show ?thesis
    unfolding cand_step_def
  proof
    fix core
    show "slots_step (set incl) (slots_of core t) (slots_of core t')"
    proof (cases "map_of (tk_candidates t) core")
      case None
      with map_of_rmap_entries(2) [OF m, of core] show ?thesis by (simp add: slots_of_def slots_step_all2)
    next
      case (Some v)
      then obtain v' where "map_of (tk_candidates t') core = Some v'" "rmap (include_slot incl bs m) v = Inr v'"
        using map_of_rmap_entries(3) [OF m] by blast
      with Some show ?thesis
        by (simp add: slots_of_def slots_step_all2 rmap_all2 [OF _ include_slot_step])
    qed
  qed
qed

lemma cand_step_back: "cand_step {} t (back_candidate n b t)"
proof -
  let ?c = "Some (block_info_new (bc_candidate_hash b) (bc_core_idx b))"
  have "tk_candidates (back_candidate n b t) =
      tk_candidates (t\<lparr>tk_candidates := hm_push (bc_core_idx b) ?c (tk_candidates t)\<rparr>)"
    by (simp add: back_candidate_def Let_def)
  then show ?thesis by (rule cand.le_trans [OF cand_step_push cand_step_same])
qed

lemma cand_step_idle: "cand_step {} t (idle_core core t)"
  by (auto simp: idle_core_def cand_step_push cand.le_refl split: backing_type.split)

lemma cand_step_backed: "cand_step {} t (set_backed_candidates n bs t)"
  unfolding set_backed_candidates_def Let_def
  by (rule cand.le_trans [OF cand.fold_le cand.fold_le]) (simp_all add: cand_step_back cand_step_idle)

lemma cand_step_assign:
  assumes "assign_core h st core t = Inr t'" shows "cand_step {} t t'"
proof -
  have "cand_step {} t (update_current_candidate core (\<lambda>c. c\<lparr>bi_core_occupied := b\<rparr>) t)" for b
    by (rule cand_step_update_current) (auto simp: defs_simps)
  with assms show ?thesis
    by (auto simp: assign_core_def cand.le_refl split: option.splits if_splits)
qed

lemma cand_step_core_assignment: "set_core_assignment h st t = Inr t' \<Longrightarrow> cand_step {} t t'"
  unfolding set_core_assignment_def by (erule cand.rfold_le) (rule cand_step_assign)

text \<open>The steps that only change other fields.\<close>

lemma track_dispute_fields:
  "track_dispute ss58 ds st d t = Inr t' \<Longrightarrow> t' = t\<lparr>tk_disputes := tk_disputes t'\<rparr>"
  by (auto simp: track_dispute_def split: option.splits)

lemma set_disputes_fields:
  assumes "set_disputes ss58 ds concl st t = Inr t'"
  shows "t' = t\<lparr>tk_disputes := tk_disputes t'\<rparr>"
proof (rule rfold_invariant [OF assms [unfolded set_disputes_def]])
  fix d s s' assume s: "s = t\<lparr>tk_disputes := tk_disputes s\<rparr>" "track_dispute ss58 ds st d s = Inr s'"
  from track_dispute_fields [OF s(2)] show "s' = t\<lparr>tk_disputes := tk_disputes s'\<rparr>"
    by (subst (asm) s(1)) simp
qed simp

lemma set_hrmp_channels_fields:
  "set_hrmp_channels h st t = Inr t' \<Longrightarrow> t' = t\<lparr>tk_message_queues := tk_message_queues t'\<rparr>"
  by (auto simp: set_hrmp_channels_def Let_def split: prod.splits)

lemma cand_step_pend:
  assumes "pend_core bs m core t = Inr t'" shows "cand_step {} t t'"
proof (cases "is_current_candidate_backed core t \<and> \<not> is_just_backed t")
  case True
  have "cand_step {} t (update_current_candidate core (\<lambda>c. set_availability a (set_pending c)) t)" for a
    by (rule cand_step_update_current)
      (use True in \<open>auto simp: is_current_candidate_backed_def defs_simps\<close>)
  with True assms show ?thesis by (auto simp: pend_core_def)
qed (use assms in \<open>auto simp: pend_core_def cand.le_refl\<close>)

lemma cand_step_pending: "set_pending_availability h bs st t = Inr t' \<Longrightarrow> cand_step {} t t'"
  by (auto simp: set_pending_availability_def intro: cand.rfold_le cand_step_pend)

section \<open>Dropping stale candidates\<close>

lemma drop_first_live_step: "list_all2 (slot_step {}) v (drop_first_live n v)"
proof (induction n v rule: drop_first_live.induct)
  case (2 n s v)
  have "slot_step {} s (map_option set_dropped s)" if "is_live s"
    using that by (cases s; cases "bi_state (the s)") (auto simp: is_live_def defs_simps)
  with 2 show ?case by (auto simp: slot_step_refl list_all2_refl split: nat.split)
qed simp

lemma drop_stale_step: "slots_step {} v (drop_stale v)"
  by (simp add: drop_stale_def Let_def slots_step_all2 drop_first_live_step slots_step_refl)

lemma slots_of_dropped: "slots_of core (set_dropped_candidates t) = drop_stale (slots_of core t)"
  by (cases "map_of (tk_candidates t) core")
    (simp_all add: slots_of_def set_dropped_candidates_def map_of_hm_map_values drop_stale_def)

lemma cand_step_dropped: "cand_step {} t (set_dropped_candidates t)"
  by (simp add: cand_step_def slots_of_dropped drop_stale_step)

text \<open>A candidate that waits: backed or pending availability.\<close>

definition is_waiting :: "slot \<Rightarrow> bool" where
  "is_waiting s = (case s of None \<Rightarrow> False | Some c \<Rightarrow> bi_state c \<in> {Backed, PendingAvailability})"

lemma waiting_live: "is_waiting s \<Longrightarrow> is_live s"
  by (auto simp: is_waiting_def is_live_def defs_simps split: option.splits)

lemma waiting_dropped [simp]: "\<not> is_waiting (map_option set_dropped s)"
  by (cases s) (auto simp: is_waiting_def defs_simps)

lemma waiting_le_live: "length (filter is_waiting v) \<le> length (filter is_live v)"
  by (induction v) (auto dest: waiting_live)

lemma drop_first_live_waiting:
  "length (filter is_live v) \<le> Suc n \<Longrightarrow> length (filter is_waiting (drop_first_live n v)) \<le> 1"
proof (induction n v rule: drop_first_live.induct)
  case (2 n s v)
  show ?case
  proof (cases "is_live s")
    case True
    with 2 show ?thesis using waiting_le_live [of v] by (cases n) auto
  next
    case False
    with 2 waiting_live [of s] show ?thesis by auto
  qed
qed simp

lemma drop_stale_waiting: "length (filter is_waiting (drop_stale v)) \<le> 1"
proof (cases "length (filter is_live v) > 1")
  case True
  then have "length (filter is_waiting (drop_first_live (length (filter is_live v) - 1) v)) \<le> 1"
    by (intro drop_first_live_waiting) simp
  with True show ?thesis by (simp add: drop_stale_def)
next
  case False
  with waiting_le_live [of v] show ?thesis by (simp add: drop_stale_def)
qed

end
