(* ===== verification/Samples.thy ===== *)
theory Samples
  imports Tracker
begin

text \<open>
  A concrete relay chain block, the storage a collector has for it and a tracker that has seen a
  candidate before, used to evaluate the tracker on. Parachain 100 is scheduled on core 0; the block
  includes candidate 7 and backs candidate 8.
\<close>

definition sample_entry :: "payload \<Rightarrow> payload storage_entry" where
  "sample_entry d = new_onchain (record_time_from 5) d"

definition sample_storage :: tracker_storage where
  "sample_storage =
     \<lparr>ts_para_id = 100,
      ts_storage =
        \<lparr>pf_max_blocks = 4, pf_last_block = Some 5, pf_ephemeral = [(5, {1})],
         pf_records =
           [(PrTimestamp, [(1, sample_entry (PlTimestamp 12000))]),
            (PrCoreAssignments, [(1, sample_entry (PlClaimQueue [(0, [100]), (1, [200])]))]),
            (PrOccupiedCores, [(1, sample_entry (PlCores [CoreOccupied, CoreFree]))]),
            (PrBackingGroups, [(1, sample_entry (PlGroups [[0, 1], [2]]))]),
            (PrInherentData,
              [(1, sample_entry (PlInherent
                  \<lparr>ih_bitfields = [[True, False], [True, True]], ih_disputes = []\<rparr>))])]\<rparr>,
      ts_hasher = (\<lambda>_. 0)\<rparr>"

definition sample_event :: new_head_event where
  "sample_event =
     \<lparr>nh_relay_parent_number = 5, nh_relay_parent_hashes = [1], nh_para_id = 100,
      nh_candidates_seen = [7, 8],
      nh_candidates_backed = [\<lparr>bc_candidate_hash = 8, bc_core_idx = 0, bc_para_id = 100\<rparr>],
      nh_candidates_included = [7], nh_candidates_timed_out = [], nh_disputes_concluded = [],
      nh_authors_missing_their_slots = []\<rparr>"

definition sample_tracker :: subxt_tracker where
  "sample_tracker =
     (tracker_new 100)\<lparr>tk_candidates := [(0, [Some (block_info_new 7 0)])], tk_last_backed_at := Some 4\<rparr>"

definition sample_inject :: "subxt_tracker \<Rightarrow> fault + subxt_tracker" where
  "sample_inject = inject_block (\<lambda>_. []) 1 sample_event sample_storage"

lemma sample_inherent:
  "ts_inherent_data 1 sample_storage =
     Inr (Some \<lparr>ih_bitfields = [[True, False], [True, True]], ih_disputes = []\<rparr>)"
  by code_simp

lemma not_isl_projr: "\<not> isl r \<Longrightarrow> r = Inr (projr r)"
  by (cases r) auto

lemma sample_inject_tracker: "sample_inject sample_tracker = Inr (projr (sample_inject sample_tracker))"
  by (rule not_isl_projr) code_simp

lemma sample_inject_new: "sample_inject (tracker_new 100) = Inr (projr (sample_inject (tracker_new 100)))"
  by (rule not_isl_projr) code_simp

end
