(* ===== verification/Tracker_Invariant.thy ===== *)
theory Tracker_Invariant
  imports Tracker_Steps Samples
begin

text \<open>
  The invariant of the tracker and its reachable states: candidates sit under the core they are assigned
  to, at most one candidate of a core waits for inclusion between two blocks, the forks listed are the
  blocks seen at the current height, and asynchronous backing is never given up.
\<close>

section \<open>Frames\<close>

text \<open>Steps that keep the relay chain view, and steps that keep the backing view too.\<close>

definition relay_frame :: "subxt_tracker \<Rightarrow> subxt_tracker \<Rightarrow> bool" where
  "relay_frame t t' \<longleftrightarrow>
     tk_para_id t' = tk_para_id t \<and> tk_current_relay_block t' = tk_current_relay_block t \<and>
     tk_previous_relay_block t' = tk_previous_relay_block t \<and>
     tk_cores t' = tk_cores t \<and>
     map ft_relay_hash (tk_relay_forks t') = map ft_relay_hash (tk_relay_forks t) \<and>
     map ft_relay_number (tk_relay_forks t') = map ft_relay_number (tk_relay_forks t)"

definition quiet :: "subxt_tracker \<Rightarrow> subxt_tracker \<Rightarrow> bool" where
  "quiet t t' \<longleftrightarrow>
     relay_frame t t' \<and> tk_backing_type t' = tk_backing_type t \<and> tk_last_backed_at t' = tk_last_backed_at t"

interpretation frame: step_preorder relay_frame
  by unfold_locales (auto simp: relay_frame_def)

interpretation quiet: step_preorder quiet
  by unfold_locales (auto simp: quiet_def relay_frame_def)

lemma quiet_frame: "quiet t t' \<Longrightarrow> relay_frame t t'"
  by (simp add: quiet_def)

lemma map_map_last: "(\<And>x. g (f x) = g x) \<Longrightarrow> map g (map_last f xs) = map g xs"
  by (cases xs rule: rev_cases) auto

lemma quiet_update_current: "quiet t (update_current_candidate core f t)"
  by (simp add: quiet_def relay_frame_def update_current_candidate_def)

lemma quiet_included: "set_included_candidates h incl bs st t = Inr t' \<Longrightarrow> quiet t t'"
  by (auto simp: set_included_candidates_def Let_def quiet_def relay_frame_def map_map_last split: if_splits)

lemma quiet_core_assignment: "set_core_assignment h st t = Inr t' \<Longrightarrow> quiet t t'"
  unfolding set_core_assignment_def
  by (erule quiet.rfold_le)
    (auto simp: assign_core_def quiet_update_current quiet.le_refl split: option.splits if_splits)

lemma set_disputes_upd:
  "set_disputes ss58 ds concl st t = Inr t' \<Longrightarrow> \<exists>x. t' = t\<lparr>tk_disputes := x\<rparr>"
  by (rule exI) (erule set_disputes_fields)

lemma set_hrmp_channels_upd:
  "set_hrmp_channels h st t = Inr t' \<Longrightarrow> \<exists>x. t' = t\<lparr>tk_message_queues := x\<rparr>"
  by (rule exI) (erule set_hrmp_channels_fields)

lemma quiet_disputes: "set_disputes ss58 ds concl st t = Inr t' \<Longrightarrow> quiet t t'"
  by (drule set_disputes_upd) (auto simp: quiet_def relay_frame_def)

lemma quiet_hrmp: "set_hrmp_channels h st t = Inr t' \<Longrightarrow> quiet t t'"
  by (drule set_hrmp_channels_upd) (auto simp: quiet_def relay_frame_def)

lemma quiet_pending: "set_pending_availability h bs st t = Inr t' \<Longrightarrow> quiet t t'"
  unfolding set_pending_availability_def
  by (elim rbind_InrE, erule quiet.rfold_le)
    (auto simp: pend_core_def quiet_update_current quiet.le_refl split: if_splits)

lemma quiet_dropped: "quiet t (set_dropped_candidates t)"
  by (simp add: set_dropped_candidates_def quiet_def relay_frame_def)

lemma frame_back: "relay_frame t (back_candidate n b t)"
  by (simp add: back_candidate_def Let_def relay_frame_def map_map_last)

lemma quiet_idle: "quiet t (idle_core core t)"
  by (auto simp: idle_core_def quiet_def relay_frame_def split: backing_type.split)

lemma frame_backed: "relay_frame t (set_backed_candidates n bs t)"
  unfolding set_backed_candidates_def Let_def
  by (rule frame.le_trans [OF frame.fold_le frame.fold_le]) (simp_all add: frame_back quiet_frame quiet_idle)

section \<open>A block, step by step\<close>

lemma inject_block_cases:
  assumes "inject_block ss58 h ev st t = Inr t'"
  obtains (no_data) "ts_inherent_data h st = Inr None" "t' = t"
  | (data) ih t1 t2 t3 t4 t5 t6 t7 where
      "ts_inherent_data h st = Inr (Some ih)"
      "set_relay_block h (nh_relay_parent_number ev) st t = Inr t1"
      "set_cores h st (set_forks h (nh_relay_parent_number ev) t1) = Inr t2"
      "set_included_candidates h (nh_candidates_included ev) (ih_bitfields ih) st t2 = Inr t3"
      "set_core_assignment h st (set_backed_candidates (nh_relay_parent_number ev) (nh_candidates_backed ev) t3) = Inr t4"
      "set_disputes ss58 (ih_disputes ih) (nh_disputes_concluded ev) st t4 = Inr t5"
      "set_hrmp_channels h st t5 = Inr t6"
      "set_pending_availability h (ih_bitfields ih) st t6 = Inr t7"
      "t' = set_dropped_candidates t7"
  using assms by (auto simp: inject_block_def Let_def split: option.splits)

lemma cand_step_relay:
  assumes "set_relay_block h n st t = Inr t1" "set_cores h st (set_forks h n t1) = Inr t2"
  shows "cand_step {} t t2"
  using set_relay_block_candidates [OF assms(1)] set_cores_fields [OF assms(2)]
  by (intro cand_step_same) (auto simp: set_forks_def)

lemma cand_step_inject:
  assumes "inject_block ss58 h ev st t = Inr t'" "ts_inherent_data h st = Inr (Some ih)"
  shows "cand_step (set (nh_candidates_included ev)) t t'"
  using assms(1)
proof (cases rule: inject_block_cases)
  case (data ih t1 t2 t3 t4 t5 t6 t7)
  have same: "cand_step {} t4 t6"
    using set_disputes_upd [OF data(6)] set_hrmp_channels_upd [OF data(7)]
    by (elim exE) (rule cand_step_same, simp)
  have "cand_step {} t3 t'"
    unfolding data(9)
    by (rule cand.le_trans [OF cand_step_backed cand.le_trans [OF cand_step_core_assignment [OF data(5)]
          cand.le_trans [OF same cand.le_trans [OF cand_step_pending [OF data(8)] cand_step_dropped]]]])
  with cand_step_trans [OF cand_step_trans [OF cand_step_relay [OF data(2,3)] cand_step_included [OF data(4)]]]
  have "cand_step (({} \<union> set (nh_candidates_included ev)) \<union> {}) t t'" by blast
  then show ?thesis by simp
qed (use assms(2) in simp)

section \<open>Properties of a step\<close>

text \<open>C2: The life cycle of tracked candidates. When a relay chain block is injected, the list of every
  core is only appended to: skipped slots stay, and a candidate keeps its hash and core while its
  state moves along the life cycle. It is included afterwards exactly if it was before or the block
  includes its hash; a pending candidate never becomes backed again and an included one stays so.\<close>

theorem inject_block_life_cycle:
  assumes "inject_block ss58 h ev st t = Inr t'" "ts_inherent_data h st = Inr (Some ih)"
  shows "slots_step (set (nh_candidates_included ev)) (slots_of core t) (slots_of core t')"
  using cand_step_inject [OF assms] by (simp add: cand_step_def)

theorem inject_block_life_cycle_witness:
  "slots_step {7} (slots_of 0 sample_tracker) (slots_of 0 (projr (sample_inject sample_tracker)))"
  using inject_block_life_cycle [OF sample_inject_tracker [unfolded sample_inject_def] sample_inherent, of 0]
  by (simp add: sample_event_def sample_inject_def)

text \<open>The backing type.\<close>

lemma back_candidate_backing:
  "tk_backing_type (back_candidate n b t) =
     (if tk_backing_type t = Sync \<and> (\<exists>at. tk_last_backed_at t = Some at \<and> n - at = 1) then Async
      else tk_backing_type t) \<and>
   tk_last_backed_at (back_candidate n b t) = Some n"
  by (auto simp: back_candidate_def Let_def split: option.splits)

lemma back_candidates_backing:
  "tk_backing_type (fold (back_candidate n) bs t) =
     (if bs \<noteq> [] \<and> tk_backing_type t = Sync \<and> (\<exists>at. tk_last_backed_at t = Some at \<and> n - at = 1) then Async
      else tk_backing_type t) \<and>
   (bs \<noteq> [] \<longrightarrow> tk_last_backed_at (fold (back_candidate n) bs t) = Some n)"
proof (induction bs arbitrary: t)
  case (Cons b bs)
  show ?case using Cons.IH [of "back_candidate n b t"] back_candidate_backing [of n b t] by auto
qed simp

lemma quiet_idle_cores: "quiet t (fold idle_core cs t)"
  by (rule quiet.fold_le) (rule quiet_idle)

definition own_backed :: "new_head_event \<Rightarrow> subxt_tracker \<Rightarrow> backed_candidate list" where
  "own_backed ev t = filter (\<lambda>v. bc_para_id v = tk_para_id t) (nh_candidates_backed ev)"

lemma set_backed_backing:
  "tk_backing_type (set_backed_candidates n bs t) =
     tk_backing_type (fold (back_candidate n) (filter (\<lambda>v. bc_para_id v = tk_para_id t) bs) t)"
  using quiet_idle_cores [unfolded quiet_def] by (simp add: set_backed_candidates_def Let_def)

text \<open>The tracker changes to asynchronous backing exactly when a block backs a candidate of the
  parachain and the previous backing was in the block right before it, and it never changes back.\<close>

theorem backing_type_switch:
  assumes "inject_block ss58 h ev st t = Inr t'" "ts_inherent_data h st = Inr (Some ih)"
  shows "tk_backing_type t' = Async \<longleftrightarrow>
    tk_backing_type t = Async \<or>
    (own_backed ev t \<noteq> [] \<and> (\<exists>at. tk_last_backed_at t = Some at \<and> nh_relay_parent_number ev - at = 1))"
  using assms(1)
proof (cases rule: inject_block_cases)
  case (data ih t1 t2 t3 t4 t5 t6 t7)
  let ?n = "nh_relay_parent_number ev"
  have "quiet (set_backed_candidates ?n (nh_candidates_backed ev) t3) t'"
    unfolding data(9)
    by (rule quiet.le_trans [OF quiet_core_assignment [OF data(5)] quiet.le_trans [OF quiet_disputes [OF data(6)]
        quiet.le_trans [OF quiet_hrmp [OF data(7)] quiet.le_trans [OF quiet_pending [OF data(8)] quiet_dropped]]]])
  moreover have "tk_backing_type t3 = tk_backing_type t \<and> tk_last_backed_at t3 = tk_last_backed_at t \<and>
      tk_para_id t3 = tk_para_id t"
    using set_relay_block_candidates [OF data(2)] set_cores_fields [OF data(3)] quiet_included [OF data(4)]
    by (auto simp: quiet_def relay_frame_def set_forks_def)
  ultimately show ?thesis
    using back_candidates_backing [of ?n "own_backed ev t3" t3]
    by (cases "tk_backing_type t") (auto simp: quiet_def set_backed_backing own_backed_def)
qed (use assms(2) in simp)

theorem backing_type_switch_witness: "tk_backing_type (projr (sample_inject sample_tracker)) = Async"
proof -
  have "own_backed sample_event sample_tracker \<noteq> [] \<and>
      (\<exists>at. tk_last_backed_at sample_tracker = Some at \<and> nh_relay_parent_number sample_event - at = 1)"
    by (simp add: own_backed_def sample_event_def sample_tracker_def tracker_new_def)
  then show ?thesis
    using backing_type_switch [OF sample_inject_tracker [unfolded sample_inject_def] sample_inherent]
    by (simp add: sample_inject_def)
qed

section \<open>The invariant\<close>

definition cores_wf :: "subxt_tracker \<Rightarrow> bool" where
  "cores_wf t \<longleftrightarrow> hm_wf (tk_candidates t) \<and> hm_wf (tk_cores t) \<and>
     (\<forall>core v. map_of (tk_candidates t) core = Some v \<longrightarrow>
        v \<noteq> [] \<and> (\<forall>c. Some c \<in> set v \<longrightarrow> bi_assigned_core c = core))"

definition one_waiting :: "subxt_tracker \<Rightarrow> bool" where
  "one_waiting t \<longleftrightarrow> (\<forall>core. length (filter is_waiting (slots_of core t)) \<le> 1)"

definition forks_ok :: "subxt_tracker \<Rightarrow> bool" where
  "forks_ok t \<longleftrightarrow>
     (case tk_current_relay_block t of
        None \<Rightarrow> tk_relay_forks t = []
      | Some b \<Rightarrow>
          tk_relay_forks t \<noteq> [] \<and> ft_relay_hash (last (tk_relay_forks t)) = bl_hash b \<and>
          (\<forall>f \<in> set (tk_relay_forks t). ft_relay_number f = bl_num b))"

definition tracker_inv :: "subxt_tracker \<Rightarrow> bool" where
  "tracker_inv t \<longleftrightarrow> cores_wf t \<and> one_waiting t \<and> forks_ok t"

lemma cores_wf_push:
  assumes "cores_wf t" "\<And>c. s = Some c \<Longrightarrow> bi_assigned_core c = core"
  shows "cores_wf (t\<lparr>tk_candidates := hm_push core s (tk_candidates t)\<rparr>)"
  using assms
  by (cases "map_of (tk_candidates t) core") (auto simp: cores_wf_def map_of_hm_push)

lemma map_last_eq_Nil [simp]: "map_last f v = [] \<longleftrightarrow> v = []"
  by (simp add: map_last_def)

lemma cores_wf_update_current:
  assumes "cores_wf t" "\<And>c. bi_assigned_core (f c) = bi_assigned_core c"
  shows "cores_wf (update_current_candidate core f t)"
proof -
  have "bi_assigned_core c = core'" if "Some c \<in> set (map_last (map_option f) v)"
    "\<forall>c. Some c \<in> set v \<longrightarrow> bi_assigned_core c = core'" for c core' v
    using that assms(2) by (cases v rule: rev_cases) (auto simp: map_option_case split: option.splits)
  with assms(1) show ?thesis
    by (auto simp: cores_wf_def update_current_candidate_def map_of_hm_modify split: if_splits)
qed

lemma cores_wf_same:
  "cores_wf t \<Longrightarrow> tk_candidates t' = tk_candidates t \<Longrightarrow> hm_wf (tk_cores t') \<Longrightarrow> cores_wf t'"
  by (simp add: cores_wf_def)

lemma include_slot_core:
  "include_slot incl bs m s = Inr (Some c) \<Longrightarrow> \<exists>d. s = Some d \<and> bi_assigned_core c = bi_assigned_core d"
  by (cases s) (auto simp: include_slot_def include_candidate_def defs_simps split: if_splits)

lemma cores_wf_included:
  assumes "set_included_candidates h incl bs st t = Inr t'" "cores_wf t"
  shows "cores_wf t'"
proof -
  obtain m where m: "rmap (\<lambda>(core, v). rbind (rmap (include_slot incl bs m) v) (\<lambda>v'. Inr (core, v')))
      (tk_candidates t) = Inr (tk_candidates t')" and cores: "tk_cores t' = tk_cores t"
    using set_included_candidates_ok [OF assms(1)] by metis
  have "v' \<noteq> [] \<and> (\<forall>c. Some c \<in> set v' \<longrightarrow> bi_assigned_core c = core)"
    if v': "map_of (tk_candidates t') core = Some v'" for core v'
  proof -
    obtain v where v: "map_of (tk_candidates t) core = Some v"
      using map_of_rmap_entries(2) [OF m, of core] v' by fastforce
    with v' map_of_rmap_entries(3) [OF m v] have r: "rmap (include_slot incl bs m) v = Inr v'" by auto
    have "bi_assigned_core c = core" if "Some c \<in> set v'" for c
    proof -
      from that obtain i where i: "i < length v'" "v' ! i = Some c" by (auto simp: in_set_conv_nth)
      then have "include_slot incl bs m (v ! i) = Inr (Some c)" "i < length v"
        using rmap_list_all2 [OF r] by (auto simp: list_all2_conv_all_nth)
      with assms(2) v show ?thesis
        by (auto simp: cores_wf_def dest!: include_slot_core) (metis nth_mem)
    qed
    moreover have "v' \<noteq> []" using rmap_length [OF r] assms(2) v by (auto simp: cores_wf_def)
    ultimately show ?thesis by blast
  qed
  with assms(2) map_of_rmap_entries(1) [OF m] cores show ?thesis by (auto simp: cores_wf_def hm_wf_def)
qed

lemma cores_wf_backed: "cores_wf t \<Longrightarrow> cores_wf (set_backed_candidates n bs t)"
proof -
  have bk: "cores_wf (back_candidate n b t)" if "cores_wf t" for b t
  proof -
    have "cores_wf (t\<lparr>tk_candidates := hm_push (bc_core_idx b)
        (Some (block_info_new (bc_candidate_hash b) (bc_core_idx b))) (tk_candidates t)\<rparr>)"
      by (rule cores_wf_push [OF that]) (auto simp: block_info_new_def)
    then show ?thesis
      by (rule cores_wf_same) (use that in \<open>simp_all add: back_candidate_def Let_def cores_wf_def\<close>)
  qed
  have idle: "cores_wf (idle_core core t)" if "cores_wf t" for core t
    using that by (auto simp: idle_core_def intro: cores_wf_push split: backing_type.split)
  assume "cores_wf t"
  then show ?thesis
    unfolding set_backed_candidates_def Let_def
    by (rule fold_invariant_set [where P = cores_wf, OF fold_invariant_set [where P = cores_wf]])
      (simp_all add: bk idle)
qed

lemma cores_wf_assign:
  assumes "assign_core h st core t = Inr t'" "cores_wf t" shows "cores_wf t'"
proof -
  have "cores_wf (update_current_candidate core (\<lambda>c. c\<lparr>bi_core_occupied := b\<rparr>) t)" for b
    by (rule cores_wf_update_current [OF assms(2)]) simp
  with assms show ?thesis by (auto simp: assign_core_def split: option.splits if_splits)
qed

lemma cores_wf_core_assignment:
  "set_core_assignment h st t = Inr t' \<Longrightarrow> cores_wf t \<Longrightarrow> cores_wf t'"
  unfolding set_core_assignment_def
  by (erule rfold_invariant [where P = cores_wf], assumption) (erule (1) cores_wf_assign)

lemma cores_wf_pend: "pend_core bs m core t = Inr t' \<Longrightarrow> cores_wf t \<Longrightarrow> cores_wf t'"
  by (auto simp: pend_core_def defs_simps intro!: cores_wf_update_current split: if_splits)

lemma cores_wf_pending:
  "set_pending_availability h bs st t = Inr t' \<Longrightarrow> cores_wf t \<Longrightarrow> cores_wf t'"
  unfolding set_pending_availability_def
  by (elim rbind_InrE, erule rfold_invariant [where P = cores_wf], assumption) (erule (1) cores_wf_pend)

lemma drop_stale_core:
  "\<forall>c. Some c \<in> set v \<longrightarrow> bi_assigned_core c = core \<Longrightarrow>
   \<forall>c. Some c \<in> set (drop_stale v) \<longrightarrow> bi_assigned_core c = core"
proof -
  have "Some c \<in> set (drop_first_live n v) \<Longrightarrow> \<exists>d. Some d \<in> set v \<and> bi_assigned_core c = bi_assigned_core d" for c n
    by (induction n v rule: drop_first_live.induct)
      (auto simp: defs_simps split: if_splits nat.splits option.splits)
  then show "\<forall>c. Some c \<in> set v \<longrightarrow> bi_assigned_core c = core \<Longrightarrow>
    \<forall>c. Some c \<in> set (drop_stale v) \<longrightarrow> bi_assigned_core c = core"
    by (fastforce simp: drop_stale_def Let_def split: if_splits)
qed

lemma drop_stale_eq_Nil [simp]: "drop_stale v = [] \<longleftrightarrow> v = []"
  using list_all2_lengthD [OF drop_first_live_step, of v "length (filter is_live v) - 1"]
  by (auto simp: drop_stale_def Let_def)

lemma cores_wf_dropped: "cores_wf t \<Longrightarrow> cores_wf (set_dropped_candidates t)"
  by (auto simp: cores_wf_def set_dropped_candidates_def map_of_hm_map_values
      dest!: drop_stale_core [rule_format, rotated])

lemma one_waiting_dropped: "one_waiting (set_dropped_candidates t)"
  using drop_stale_waiting by (simp add: one_waiting_def slots_of_dropped)

lemma forks_ok_same:
  "tk_current_relay_block t' = tk_current_relay_block t \<Longrightarrow> tk_relay_forks t' = tk_relay_forks t \<Longrightarrow>
     forks_ok t' = forks_ok t"
  by (simp only: forks_ok_def)

text \<open>The forks listed after a new relay block are those at its height.\<close>

lemma set_relay_block_blocks:
  "set_relay_block h n st t = Inr t' \<Longrightarrow>
     tk_previous_relay_block t' = tk_current_relay_block t \<and>
     (\<exists>ts. tk_current_relay_block t' = Some \<lparr>bl_hash = h, bl_num = n, bl_ts = ts\<rparr>)"
  by (auto simp: set_relay_block_def Let_def)

lemma forks_ok_set_forks:
  assumes "set_relay_block h n st t = Inr t1" "forks_ok t"
  shows "forks_ok (set_forks h n t1)"
proof -
  have "ft_relay_number f = n" if "is_fork t1" "f \<in> set (tk_relay_forks t)" for f
    using that assms(2) set_relay_block_blocks [OF assms(1)]
    by (cases "tk_current_relay_block t") (auto simp: is_fork_def forks_ok_def)
  then show ?thesis
    using set_relay_block_blocks [OF assms(1)] set_relay_block_candidates [OF assms(1)]
    by (auto simp: forks_ok_def set_forks_def)
qed

lemma last_map_eq: "map g xs = map g ys \<Longrightarrow> xs \<noteq> [] \<Longrightarrow> g (last xs) = g (last ys)"
  by (metis last_map map_is_Nil_conv)

lemma forks_ok_frame:
  assumes "relay_frame t t'" "forks_ok t"
  shows "forks_ok t'"
proof -
  have "tk_relay_forks t' = [] \<longleftrightarrow> tk_relay_forks t = []"
    using assms(1) by (auto simp: relay_frame_def dest: map_eq_imp_length_eq)
  moreover have "ft_relay_number ` set (tk_relay_forks t') = ft_relay_number ` set (tk_relay_forks t)"
    using assms(1) by (metis relay_frame_def list.set_map)
  moreover have "ft_relay_hash (last (tk_relay_forks t')) = ft_relay_hash (last (tk_relay_forks t))"
    if "tk_relay_forks t' \<noteq> []"
    using assms(1) that by (intro last_map_eq) (simp_all add: relay_frame_def)
  ultimately show ?thesis
    using assms by (fastforce simp: forks_ok_def relay_frame_def split: option.splits)
qed

lemma tracker_inv_inject:
  assumes "inject_block ss58 h ev st t = Inr t'" "tracker_inv t"
  shows "tracker_inv t'"
  using assms(1)
proof (cases rule: inject_block_cases)
  case (data ih t1 t2 t3 t4 t5 t6 t7)
  let ?n = "nh_relay_parent_number ev"
  have wf2: "cores_wf t2"
    using set_relay_block_candidates [OF data(2)] set_cores_fields [OF data(3)] assms(2)
    by (intro cores_wf_same [of t t2]) (auto simp: tracker_inv_def set_forks_def cores_wf_def)
  have "cores_wf t4"
    by (rule cores_wf_core_assignment [OF data(5) cores_wf_backed [OF cores_wf_included [OF data(4) wf2]]])
  then have "cores_wf t6"
    using set_disputes_upd [OF data(6)] set_hrmp_channels_upd [OF data(7)]
    by (elim exE) (simp add: cores_wf_def)
  then have "cores_wf t'"
    unfolding data(9) by (rule cores_wf_dropped [OF cores_wf_pending [OF data(8)]])
  moreover have "one_waiting t'" unfolding data(9) by (rule one_waiting_dropped)
  moreover have "forks_ok t'"
  proof (rule forks_ok_frame)
    show "forks_ok t2"
      using forks_ok_set_forks [OF data(2)] assms(2) set_cores_fields [OF data(3)]
        forks_ok_same [of t2 "set_forks h ?n t1"]
      by (auto simp: tracker_inv_def)
    show "relay_frame t2 t'"
      unfolding data(9)
      by (rule frame.le_trans [OF quiet_frame [OF quiet_included [OF data(4)]] frame.le_trans [OF frame_backed
          quiet_frame [OF quiet.le_trans [OF quiet_core_assignment [OF data(5)] quiet.le_trans [OF quiet_disputes [OF data(6)]
          quiet.le_trans [OF quiet_hrmp [OF data(7)] quiet.le_trans [OF quiet_pending [OF data(8)] quiet_dropped]]]]]]])
  qed
  ultimately show ?thesis by (simp add: tracker_inv_def)
qed (use assms(2) in simp)

lemma waiting_iff:
  "(case s of None \<Rightarrow> False | Some c \<Rightarrow> \<not> is_included c \<and> \<not> is_dropped c) \<longleftrightarrow> is_waiting s"
  by (cases s; cases "bi_state (the s)") (auto simp: is_waiting_def defs_simps)

lemma map_of_filter_values: "hm_wf m \<Longrightarrow>
  map_of (filter (\<lambda>(_, v). P v) m) k = (case map_of m k of None \<Rightarrow> None | Some v \<Rightarrow> if P v then Some v else None)"
proof (induction m)
  case (Cons kv m)
  have "map_of (filter (\<lambda>(_, v). P v) m) (fst kv) = None"
    using Cons.prems by (auto simp: hm_wf_def map_of_eq_None_iff)
  with Cons show ?case by (cases kv) (auto simp: hm_wf_def)
qed simp

lemma slots_of_reset:
  assumes "hm_wf (tk_candidates t)"
  shows "slots_of core (maybe_reset_state t) = filter is_waiting (slots_of core t)"
  using assms
  by (cases "map_of (tk_candidates t) core")
    (simp_all add: slots_of_def maybe_reset_state_def waiting_iff map_of_filter_values map_of_hm_map_values)

lemma tracker_inv_reset: "tracker_inv t \<Longrightarrow> tracker_inv (maybe_reset_state t)"
proof -
  assume t: "tracker_inv t"
  then have wf: "hm_wf (tk_candidates t)" by (simp add: tracker_inv_def cores_wf_def)
  have "cores_wf (maybe_reset_state t)"
    using t
    by (auto simp: tracker_inv_def cores_wf_def maybe_reset_state_def map_of_filter_values
        map_of_hm_map_values hm_wf_filter split: option.splits if_splits)
  moreover have "forks_ok (maybe_reset_state t)"
    by (rule iffD2 [OF forks_ok_same [of _ t]]) (use t in \<open>simp_all add: tracker_inv_def maybe_reset_state_def\<close>)
  moreover have "one_waiting (maybe_reset_state t)"
    using t by (simp add: tracker_inv_def one_waiting_def slots_of_reset [OF wf])
  ultimately show ?thesis by (simp add: tracker_inv_def)
qed

section \<open>Reachable states\<close>

text \<open>The states of a tracker that its watcher loop can produce, whatever the collector stored.\<close>

inductive tracker_reachable :: "u32 \<Rightarrow> subxt_tracker \<Rightarrow> bool" for para_id where
  start: "tracker_reachable para_id (tracker_new para_id)"
| session: "tracker_reachable para_id t \<Longrightarrow> tracker_reachable para_id (inject_new_session i t)"
| inject: "tracker_reachable para_id t \<Longrightarrow> inject_block ss58 h ev st t = Inr t' \<Longrightarrow> tracker_reachable para_id t'"
| reset: "tracker_reachable para_id t \<Longrightarrow> tracker_reachable para_id (maybe_reset_state t)"

lemma reachable_inv: "tracker_reachable para_id t \<Longrightarrow> tracker_inv t"
proof (induction rule: tracker_reachable.induct)
  case start
  show ?case
    by (simp add: tracker_inv_def cores_wf_def one_waiting_def forks_ok_def tracker_new_def slots_of_def)
next
  case (session t i)
  have "forks_ok (inject_new_session i t) = forks_ok t"
    by (rule forks_ok_same) (simp_all add: inject_new_session_def)
  with session show ?case
    by (simp add: tracker_inv_def cores_wf_def one_waiting_def inject_new_session_def slots_of_def)
qed (auto intro: tracker_inv_inject tracker_inv_reset)

text \<open>C12: Every reachable tracker state keeps the invariant: map keys are unique, no core has an empty list,
  a candidate is listed under the core it is assigned to, at most one candidate of a core waits for
  inclusion, and the forks listed are exactly blocks of the current height, the current one last.\<close>

theorem tracker_reachable_inv:
  assumes "tracker_reachable para_id t"
  shows "tracker_inv t"
  by (rule reachable_inv [OF assms])

lemma sample_reachable: "tracker_reachable 100 (projr (sample_inject (tracker_new 100)))"
  by (rule inject [OF start sample_inject_new [unfolded sample_inject_def], folded sample_inject_def])

theorem tracker_reachable_inv_witness: "tracker_inv (projr (sample_inject (tracker_new 100)))"
  by (rule tracker_reachable_inv [OF sample_reachable])

text \<open>A reset between two blocks keeps, in order, exactly the candidates that wait for inclusion: every
  included or dropped candidate and every skipped slot goes, the others stay as they are, and no
  session or dispute is left to report.\<close>

theorem reset_keeps_waiting:
  assumes "tracker_reachable para_id t"
  shows "slots_of core (maybe_reset_state t) = filter is_waiting (slots_of core t) \<and>
    (map_of (tk_candidates (maybe_reset_state t)) core = None \<longleftrightarrow> filter is_waiting (slots_of core t) = []) \<and>
    tk_new_session (maybe_reset_state t) = None \<and> tk_disputes (maybe_reset_state t) = [] \<and>
    tk_relay_forks (maybe_reset_state t) = tk_relay_forks t"
proof -
  have wf: "hm_wf (tk_candidates t)"
    using reachable_inv [OF assms] by (simp add: tracker_inv_def cores_wf_def)
  show ?thesis
    using slots_of_reset [OF wf, of core] wf
    by (cases "map_of (tk_candidates t) core")
      (simp_all add: maybe_reset_state_def waiting_iff map_of_filter_values map_of_hm_map_values slots_of_def)
qed

theorem reset_keeps_waiting_witness:
  "slots_of 0 (maybe_reset_state (projr (sample_inject (tracker_new 100)))) =
     filter is_waiting (slots_of 0 (projr (sample_inject (tracker_new 100))))"
  using reset_keeps_waiting [OF sample_reachable, of 0] by simp

end
