(* ===== verification/Tracker_Report.thy ===== *)
theory Tracker_Report
  imports Tracker_Progress Tracker_Invariant Samples
begin

text \<open>
  What the progress report of \<open>Tracker_Progress\<close> contains: the events in closed form, one group per slot,
  and that the statistics and the metrics are told the same things.
\<close>

section \<open>Closed forms\<close>

definition slot_events :: "subxt_tracker \<Rightarrow> slot \<Rightarrow> consensus_event list" where
  "slot_events t s =
     (case s of
        None \<Rightarrow> [EvSkippedSlot]
      | Some c \<Rightarrow>
          (let h = bi_candidate_hash c;
               bits = (\<lambda>ev. case bi_availability c of None \<Rightarrow> [] | Some a \<Rightarrow> [ev (ba_current a) (ba_max a)])
           in case bi_state c of
                Backed \<Rightarrow> [EvBacked h]
              | PendingAvailability \<Rightarrow>
                  EvPendingAvailability h #
                  (if is_slow_availability (bi_assigned_core c) t then bits EvSlowAvailability else [])
              | Included \<Rightarrow> bits (EvIncluded h)
              | Dropped \<Rightarrow> [EvDropped h]))"

definition core_events :: "subxt_tracker \<Rightarrow> u32 \<Rightarrow> consensus_event list" where
  "core_events t core =
     (case current_candidate core t of
        None \<Rightarrow> []
      | Some c \<Rightarrow>
          (case bi_availability c of
             None \<Rightarrow> []
           | Some a \<Rightarrow> if is_slow a then [EvSlowBitfieldPropagation (ba_current a) (ba_max a)] else []))"

definition report_events :: "subxt_tracker \<Rightarrow> consensus_event list" where
  "report_events t =
     (case tk_new_session t of None \<Rightarrow> [] | Some i \<Rightarrow> [EvNewSession i]) @
     map EvCoreAssigned (filter (\<lambda>core. current_candidate core t \<noteq> None) (map fst (tk_cores t))) @
     concat (map (core_events t) (map fst (tk_cores t))) @
     concat (map (slot_events t) (all_slots t)) @
     (if is_fork t then [] else map EvDisputed (tk_disputes t)) @
     (if has_hrmp_messages (tk_message_queues t)
      then [EvMessageQueues (active_inbound_channels (tk_message_queues t))
              (active_outbound_channels (tk_message_queues t))]
      else [])"

text \<open>The metrics call that goes with a statistics call.\<close>

fun metrics_of :: "subxt_tracker \<Rightarrow> stats_call \<Rightarrow> metrics_call list" where
  "metrics_of t (OnBlock _) = []"
| "metrics_of t (OnBitfields n slow) = [MBitfields n slow (tk_para_id t)]"
| "metrics_of t (OnSkippedSlot p) = [MSkippedSlot p]"
| "metrics_of t OnBacked = [MBacked (tk_para_id t)]"
| "metrics_of t OnSlowAvailability = [MSlowAvailability (tk_para_id t)]"
| "metrics_of t (OnIncluded n prev backed_in) =
     [MIncluded n prev backed_in
        (time_diff (map_option bl_ts (tk_current_relay_block t)) (map_option bw_ts (tk_previous_included_at t)))
        (tk_para_id t)]"
| "metrics_of t (OnDisputed d) = [MDisputed d (tk_para_id t)]"

definition mirrored :: "subxt_tracker \<Rightarrow> report \<Rightarrow> bool" where
  "mirrored t r \<longleftrightarrow>
     rp_metrics r = concat (map (metrics_of t) (rp_stats r)) \<and> pu_para_id (rp_progress r) = tk_para_id t \<and>
     (\<forall>p. OnSkippedSlot p \<in> set (rp_stats r) \<longrightarrow> pu_para_id p = tk_para_id t)"

abbreviation events_of :: "report \<Rightarrow> consensus_event list" where
  "events_of r \<equiv> pu_events (rp_progress r)"

lemma events_simps [simp]:
  "events_of (emit e r) = events_of r @ [e]"
  "events_of (call_stats c r) = events_of r"
  "events_of (call_metrics m r) = events_of r"
  by (simp_all add: emit_def call_stats_def call_metrics_def push_event_def)

lemma stats_simps [simp]:
  "rp_stats (emit e r) = rp_stats r"
  "rp_stats (call_stats c r) = rp_stats r @ [c]"
  "rp_stats (call_metrics m r) = rp_stats r"
  by (simp_all add: emit_def call_stats_def call_metrics_def)

lemma mirrored_simps [simp]:
  "mirrored t (emit e r) = mirrored t r"
  "metrics_of t c = [m] \<Longrightarrow> (case c of OnSkippedSlot p \<Rightarrow> pu_para_id p = tk_para_id t | _ \<Rightarrow> True) \<Longrightarrow> mirrored t r \<Longrightarrow>
     mirrored t (call_metrics m (call_stats c r))"
  "metrics_of t c = [] \<Longrightarrow> mirrored t r \<Longrightarrow> mirrored t (call_stats c r)"
  by (auto simp: mirrored_def emit_def call_stats_def call_metrics_def push_event_def)

lemma mirrored_para_id: "mirrored t r \<Longrightarrow> pu_para_id (rp_progress (emit e r)) = tk_para_id t"
  by (simp add: mirrored_def emit_def push_event_def)

section \<open>The parts of a report\<close>

lemma notify_slot_events:
  "notify_slot t st s r = Inr r' \<Longrightarrow> events_of r' = events_of r @ slot_events t s"
  by (cases s; cases "bi_state (the s)")
    (auto simp: notify_slot_def notify_candidate_def slot_events_def Let_def split: option.splits if_splits)

lemma notify_slots_events:
  "rfold (notify_slot t st) ss r = Inr r' \<Longrightarrow> events_of r' = events_of r @ concat (map (slot_events t) ss)"
  by (induction ss arbitrary: r) (auto dest!: notify_slot_events)

lemma notify_slot_mirrored:
  "notify_slot t st s r = Inr r' \<Longrightarrow> mirrored t r \<Longrightarrow> mirrored t r'"
  by (cases s; cases "bi_state (the s)")
    (auto simp: notify_slot_def notify_candidate_def Let_def mirrored_para_id split: option.splits if_splits)

lemma notify_disputes_events:
  "events_of (fold (\<lambda>outcome r. call_metrics (MDisputed outcome p) (call_stats (OnDisputed outcome)
      (emit (EvDisputed outcome) r))) ds r) = events_of r @ map EvDisputed ds"
  by (induction ds arbitrary: r) simp_all

lemma notify_core_assignment_events:
  "events_of (fold (\<lambda>core r. if current_candidate core t \<noteq> None then emit (EvCoreAssigned core) r else r) cs r) =
     events_of r @ map EvCoreAssigned (filter (\<lambda>core. current_candidate core t \<noteq> None) cs)"
  by (induction cs arbitrary: r) auto

lemma notify_core_bitfields_events:
  "events_of (notify_core_bitfields t core r) = events_of r @ core_events t core"
  by (auto simp: notify_core_bitfields_def core_events_def is_bitfield_propagation_slow_def Let_def
      split: option.split)

lemma notify_bitfields_events:
  "events_of (fold (notify_core_bitfields t) cs r) = events_of r @ concat (map (core_events t) cs)"
  by (induction cs arbitrary: r) (simp_all add: notify_core_bitfields_events)

lemma notify_core_bitfields_mirrored: "mirrored t r \<Longrightarrow> mirrored t (notify_core_bitfields t core r)"
  by (auto simp: notify_core_bitfields_def Let_def split: option.split)

lemma notify_disputes_mirrored: "mirrored t r \<Longrightarrow> mirrored t (notify_disputes t r)"
  unfolding notify_disputes_def
  by (auto intro!: fold_invariant_set [where P = "mirrored t"])

text \<open>A report in stages: before the slots, after them, and complete.\<close>

definition report_start :: "subxt_tracker \<Rightarrow> block \<Rightarrow> report" where
  "report_start t b =
     notify_bitfield_propagation t (notify_core_assignment t (notify_new_session t
       \<lparr>rp_progress = progress_start t b, rp_stats = [], rp_metrics = []\<rparr>))"

lemma progress_cases:
  assumes "progress st t = Inr (Some r)"
  obtains b r1 where "tk_current_relay_block t = Some b"
    "rfold (notify_slot t st) (all_slots t) (report_start t b) = Inr r1"
    "r = notify_finality_lag t (notify_current_block_time t (notify_active_message_queues t (notify_disputes t r1)))"
  using assms by (auto simp: progress_def report_start_def notify_candidate_state_def Let_def split: option.splits)

lemma report_start_events:
  "events_of (report_start t b) =
     (case tk_new_session t of None \<Rightarrow> [] | Some i \<Rightarrow> [EvNewSession i]) @
     map EvCoreAssigned (filter (\<lambda>core. current_candidate core t \<noteq> None) (map fst (tk_cores t))) @
     concat (map (core_events t) (map fst (tk_cores t)))"
proof -
  have "events_of (notify_new_session t \<lparr>rp_progress = progress_start t b, rp_stats = [], rp_metrics = []\<rparr>) =
      (case tk_new_session t of None \<Rightarrow> [] | Some i \<Rightarrow> [EvNewSession i])"
    by (simp add: notify_new_session_def progress_start_def split: option.split)
  then show ?thesis
    unfolding report_start_def notify_bitfield_propagation_def notify_bitfields_events
      notify_core_assignment_def notify_core_assignment_events by simp
qed

lemma report_start_mirrored: "mirrored t (report_start t b)"
proof -
  have "mirrored t (notify_new_session t \<lparr>rp_progress = progress_start t b, rp_stats = [], rp_metrics = []\<rparr>)"
    by (simp add: notify_new_session_def split: option.split) (simp add: mirrored_def progress_start_def)
  then show ?thesis
    unfolding report_start_def notify_bitfield_propagation_def notify_core_assignment_def
    by (intro fold_invariant_set [where P = "mirrored t"]) (auto intro: notify_core_bitfields_mirrored)
qed

text \<open>C15: A progress report lists, in this order: the new session, the cores of the parachain with a current
  candidate, the slow bitfields per core, then for every tracked slot, core by core, the events of its
  state (a skipped slot, a backed, pending, included or dropped candidate), the disputes unless the
  block is a fork, and the active message queues. No slot is left out or reported twice.\<close>

theorem progress_events:
  assumes "progress st t = Inr (Some r)"
  shows "events_of r = report_events t"
proof -
  from assms obtain b r1 where b: "rfold (notify_slot t st) (all_slots t) (report_start t b) = Inr r1"
    and r: "r = notify_finality_lag t (notify_current_block_time t (notify_active_message_queues t (notify_disputes t r1)))"
    by (rule progress_cases)
  have "events_of r = events_of (notify_active_message_queues t (notify_disputes t r1))"
    by (simp add: r notify_finality_lag_def notify_current_block_time_def split: option.split)
  then show ?thesis
    by (simp add: notify_active_message_queues_def notify_disputes_def notify_disputes_events
        notify_slots_events [OF b] report_start_events report_events_def)
qed

text \<open>A tracker at a fork, with an included candidate, a skipped slot and a backed candidate.\<close>

definition sample_fork :: subxt_tracker where
  "sample_fork =
     (tracker_new 100)
       \<lparr>tk_candidates :=
          [(0, [Some \<lparr>bi_candidate_hash = 7, bi_availability = Some \<lparr>ba_current = 2, ba_max = 3\<rparr>,
                      bi_assigned_core = 0, bi_core_occupied = False, bi_state = Included\<rparr>,
                None,
                Some \<lparr>bi_candidate_hash = 8, bi_availability = None, bi_assigned_core = 0,
                      bi_core_occupied = True, bi_state = Backed\<rparr>])],
        tk_cores := [(0, [100])],
        tk_current_relay_block := Some \<lparr>bl_hash = 1, bl_num = 5, bl_ts = 12000\<rparr>,
        tk_previous_relay_block := Some \<lparr>bl_hash = 2, bl_num = 5, bl_ts = 12000\<rparr>\<rparr>"

lemma sample_progress: "progress sample_storage sample_fork = Inr (Some (the (projr (progress sample_storage sample_fork))))"
proof -
  have "\<not> isl (progress sample_storage sample_fork)" "projr (progress sample_storage sample_fork) \<noteq> None"
    by code_simp+
  then show ?thesis by (cases "progress sample_storage sample_fork") auto
qed

theorem progress_events_witness:
  "events_of (the (projr (progress sample_storage sample_fork))) =
     [EvCoreAssigned 0, EvIncluded 7 2 3, EvSkippedSlot, EvBacked 8]"
proof -
  have "report_events sample_fork = [EvCoreAssigned 0, EvIncluded 7 2 3, EvSkippedSlot, EvBacked 8]"
    by code_simp
  with progress_events [OF sample_progress] show ?thesis by simp
qed

lemma progress_mirrored:
  assumes "progress st t = Inr (Some r)"
  shows "rp_metrics r = concat (map (metrics_of t) (rp_stats r)) @
      (case tk_finality_lag t of None \<Rightarrow> [] | Some lag \<Rightarrow> [MFinalityLag lag])"
    and "\<And>p. OnSkippedSlot p \<in> set (rp_stats r) \<Longrightarrow> pu_para_id p = tk_para_id t"
proof -
  from assms obtain b r1 where b: "rfold (notify_slot t st) (all_slots t) (report_start t b) = Inr r1"
    and r: "r = notify_finality_lag t (notify_current_block_time t (notify_active_message_queues t (notify_disputes t r1)))"
    by (rule progress_cases)
  have "mirrored t r1"
    by (rule rfold_invariant [OF b, of "mirrored t"]) (auto intro: report_start_mirrored notify_slot_mirrored)
  then have "mirrored t (notify_current_block_time t (notify_active_message_queues t (notify_disputes t r1)))"
    by (simp add: notify_current_block_time_def notify_active_message_queues_def notify_disputes_mirrored)
  then show "rp_metrics r = concat (map (metrics_of t) (rp_stats r)) @
      (case tk_finality_lag t of None \<Rightarrow> [] | Some lag \<Rightarrow> [MFinalityLag lag])"
    and "\<And>p. OnSkippedSlot p \<in> set (rp_stats r) \<Longrightarrow> pu_para_id p = tk_para_id t"
    by (auto simp: r notify_finality_lag_def mirrored_def call_metrics_def split: option.splits)
qed

text \<open>The metrics are told what the statistics are told: one metrics call for each statistics call, with
  the same data, the block time excepted, and the finality lag at the end.\<close>

theorem progress_metrics_mirror_stats:
  assumes "progress st t = Inr (Some r)"
  shows "rp_metrics r = concat (map (metrics_of t) (rp_stats r)) @
    (case tk_finality_lag t of None \<Rightarrow> [] | Some lag \<Rightarrow> [MFinalityLag lag])"
  using assms by (rule progress_mirrored)

theorem progress_metrics_mirror_stats_witness:
  "length (rp_metrics (the (projr (progress sample_storage sample_fork)))) = 3"
proof -
  have "length (concat (map (metrics_of sample_fork) (rp_stats (the (projr (progress sample_storage sample_fork)))))) = 3"
    by code_simp
  moreover have "tk_finality_lag sample_fork = None" by code_simp
  ultimately show ?thesis
    using progress_metrics_mirror_stats [OF sample_progress] by simp
qed

text \<open>With well-typed payloads a progress report never panics, and there is one exactly if some relay
  chain block has been injected.\<close>

theorem progress_total:
  assumes "storage_typed (ts_storage st)"
  shows "\<exists>m. progress st t = Inr m \<and> (m = None \<longleftrightarrow> tk_current_relay_block t = None)"
proof (cases "tk_current_relay_block t")
  case (Some b)
  have "\<exists>r'. notify_slot t st s r = Inr r'" for s r
  proof -
    obtain m where "ts_candidate (bi_candidate_hash (the s)) st = Inr m" using ts_reads_total(5) [OF assms] by blast
    then show ?thesis
      using Some by (cases s; cases "bi_state (the s)")
        (auto simp: notify_slot_def notify_candidate_def candidate_backed_in_def Let_def)
  qed
  then have "\<exists>r'. rfold (notify_slot t st) (all_slots t) r = Inr r'" for r
    using rfold_total [where P = "\<lambda>_. True" and f = "notify_slot t st"] by simp
  then have "\<exists>r. notify_candidate_state t st (report_start t b) = Inr r"
    by (simp add: notify_candidate_state_def)
  with Some show ?thesis by (auto simp: progress_def report_start_def Let_def)
qed (simp add: progress_def)

theorem progress_total_witness:
  "\<exists>m. progress sample_storage (tracker_new 100) = Inr m \<and> m = None"
proof -
  have "storage_typed (ts_storage sample_storage)" by code_simp
  from progress_total [OF this, of "tracker_new 100"] show ?thesis by (simp add: tracker_new_def)
qed

end
