(* ===== verification/Effects.thy ===== *)
theory Effects
  imports Prelude
begin

text \<open>
  Actions that change a state and may fail, and keep what they have changed when they fail: the shape of
  the handlers of the collector, whose methods take \<^verbatim>\<open>&mut self\<close>, return a \<^verbatim>\<open>Result\<close> and leave with
  \<^verbatim>\<open>?\<close> at the first error.
\<close>

type_synonym ('s, 'e, 'a) action = "'s \<Rightarrow> ('e + 'a) \<times> 's"

definition done_with :: "'a \<Rightarrow> ('s, 'e, 'a) action" where
  "done_with x s = (Inr x, s)"

definition fail_with :: "'e \<Rightarrow> ('s, 'e, 'a) action" where
  "fail_with e s = (Inl e, s)"

definition andthen :: "('s, 'e, 'a) action \<Rightarrow> ('a \<Rightarrow> ('s, 'e, 'b) action) \<Rightarrow> ('s, 'e, 'b) action" where
  "andthen m f s = (case m s of (Inl e, s') \<Rightarrow> (Inl e, s') | (Inr x, s') \<Rightarrow> f x s')"

definition change :: "('s \<Rightarrow> 's) \<Rightarrow> ('s, 'e, unit) action" where
  "change f s = (Inr (), f s)"

definition reading :: "('s \<Rightarrow> ('s, 'e, 'a) action) \<Rightarrow> ('s, 'e, 'a) action" where
  "reading f s = f s s"

text \<open>An optional answer, whose absence is the error \<open>e\<close>.\<close>

definition answer :: "'e \<Rightarrow> 'a option \<Rightarrow> ('s, 'e, 'a) action" where
  "answer e m = (case m of None \<Rightarrow> fail_with e | Some x \<Rightarrow> done_with x)"

fun each :: "('a \<Rightarrow> ('s, 'e, unit) action) \<Rightarrow> 'a list \<Rightarrow> ('s, 'e, unit) action" where
  "each f [] = done_with ()"
| "each f (x # xs) = andthen (f x) (\<lambda>_. each f xs)"

lemmas action_defs = done_with_def fail_with_def change_def reading_def

lemma andthen_run [simp]:
  "m s = (Inr x, s') \<Longrightarrow> andthen m f s = f x s'"
  "m s = (Inl e, s') \<Longrightarrow> andthen m f s = (Inl e, s')"
  by (simp_all add: andthen_def)

lemma answer_simps [simp]: "answer e None = fail_with e" "answer e (Some x) = done_with x"
  by (simp_all add: answer_def)

lemma andthen_InrE:
  assumes "andthen m f s = (Inr y, s'')"
  obtains x s' where "m s = (Inr x, s')" "f x s' = (Inr y, s'')"
  using assms by (auto simp: andthen_def split: prod.splits sum.splits)

lemma answer_InrE:
  assumes "answer e m s = (Inr x, s')"
  obtains "m = Some x" "s' = s"
  using assms by (cases m) (auto simp: action_defs)

section \<open>Relations that actions keep\<close>

text \<open>An action keeps a relation when the state before and the state after are related, whatever the
  outcome.\<close>

definition keeps :: "('s \<Rightarrow> 's \<Rightarrow> bool) \<Rightarrow> ('s, 'e, 'a) action \<Rightarrow> bool" where
  "keeps R m \<longleftrightarrow> (\<forall>s. R s (snd (m s)))"

lemma keepsD: "keeps R m \<Longrightarrow> m s = (r, s') \<Longrightarrow> R s s'"
  unfolding keeps_def by (metis snd_conv)

locale action_preorder = step_preorder le
  for le :: "'s \<Rightarrow> 's \<Rightarrow> bool"
begin

lemma keeps_done: "keeps le (done_with x)"
  by (simp add: keeps_def done_with_def le_refl)

lemma keeps_fail: "keeps le (fail_with e)"
  by (simp add: keeps_def fail_with_def le_refl)

lemma keeps_answer: "keeps le (answer e m)"
  by (cases m) (simp_all add: keeps_done keeps_fail)

lemma keeps_change: "(\<And>s. le s (f s)) \<Longrightarrow> keeps le (change f)"
  by (simp add: keeps_def change_def)

lemma keeps_reading: "(\<And>s. keeps le (f s)) \<Longrightarrow> keeps le (reading f)"
  by (simp add: keeps_def reading_def)

lemma keeps_andthen:
  assumes "keeps le m" "\<And>x. keeps le (f x)"
  shows "keeps le (andthen m f)"
  unfolding keeps_def
proof
  fix s
  show "le s (snd (andthen m f s))"
  proof (cases "m s")
    case (Pair r s')
    have "le s s'" using keepsD [OF assms(1) Pair] .
    with Pair assms(2) show ?thesis
      by (cases r) (auto simp: keeps_def intro: le_trans)
  qed
qed

lemma keeps_each: "(\<And>x. keeps le (f x)) \<Longrightarrow> keeps le (each f xs)"
  by (induction xs) (simp_all add: keeps_done keeps_andthen)

lemma keeps_if: "(b \<Longrightarrow> keeps le m) \<Longrightarrow> (\<not> b \<Longrightarrow> keeps le m') \<Longrightarrow> keeps le (if b then m else m')"
  by simp

lemma keeps_case_option:
  "keeps le m \<Longrightarrow> (\<And>x. keeps le (f x)) \<Longrightarrow> keeps le (case z of None \<Rightarrow> m | Some x \<Rightarrow> f x)"
  by (cases z) simp_all

lemma keeps_case_sum:
  "(\<And>e. keeps le (f e)) \<Longrightarrow> (\<And>x. keeps le (g x)) \<Longrightarrow> keeps le (case z of Inl e \<Rightarrow> f e | Inr x \<Rightarrow> g x)"
  by (cases z) simp_all

lemmas keeps_intros =
  keeps_done keeps_fail keeps_answer keeps_change keeps_reading keeps_andthen keeps_each keeps_if
  keeps_case_option keeps_case_sum

end

text \<open>An invariant is the relation "if it held before, it holds after".\<close>

definition preserving :: "('s \<Rightarrow> bool) \<Rightarrow> 's \<Rightarrow> 's \<Rightarrow> bool" where
  "preserving P s s' \<longleftrightarrow> (P s \<longrightarrow> P s')"

interpretation preserve: action_preorder "preserving P"
  by unfold_locales (auto simp: preserving_def)

end
