(* ===== verification/Disputes.thy ===== *)
theory Disputes
  imports Chain_Types
begin

text \<open>
  Disputes as the runtime call \<^verbatim>\<open>ParachainHost_disputes\<close> reports them (\<^verbatim>\<open>essentials/src/api/decode.rs\<close>),
  the supermajority rule, and the chain events that a block's disputes give
  (\<^verbatim>\<open>essentials/src/collector/mod.rs\<close>). The SCALE codec, a third-party crate, is the parameter \<open>codec\<close>:
  it turns bytes into the raw structures or fails.
\<close>

section \<open>Decoding\<close>

record raw_dispute =
  rd_session :: u32
  rd_candidate_hash :: h256
  rd_validators_for :: "bool list"
  rd_validators_against :: "bool list"
  rd_start :: u32
  rd_concluded_at :: "u32 option"

record decoded_dispute =
  dd_session :: u32
  dd_candidate_hash :: h256
  dd_validators_for :: "u32 list"
  dd_validators_against :: "u32 list"
  dd_validator_count :: u32
  dd_start :: u32
  dd_concluded_at :: "u32 option"

datatype decode_error = CodecError | LengthsDiffer

text \<open>\<open>iter_ones\<close>: the indices of the set bits.\<close>

definition iter_ones :: "bool list \<Rightarrow> nat list" where
  "iter_ones bs = filter (\<lambda>i. bs ! i) [0..<length bs]"

definition decode_dispute :: "raw_dispute \<Rightarrow> decode_error + decoded_dispute" where
  "decode_dispute d =
     (if length (rd_validators_for d) \<noteq> length (rd_validators_against d) then Inl LengthsDiffer
      else Inr \<lparr>dd_session = rd_session d, dd_candidate_hash = rd_candidate_hash d,
                dd_validators_for = map usize_as_u32 (iter_ones (rd_validators_for d)),
                dd_validators_against = map usize_as_u32 (iter_ones (rd_validators_against d)),
                dd_validator_count = usize_as_u32 (length (rd_validators_for d)),
                dd_start = rd_start d, dd_concluded_at = rd_concluded_at d\<rparr>)"

definition decode_disputes ::
  "(u8 list \<Rightarrow> raw_dispute list option) \<Rightarrow> u8 list \<Rightarrow> decode_error + decoded_dispute list" where
  "decode_disputes codec bytes =
     (case codec bytes of None \<Rightarrow> Inl CodecError | Some raw \<Rightarrow> rmap decode_dispute raw)"

section \<open>Supermajority\<close>

definition supermajority_threshold :: "u32 \<Rightarrow> u32" where
  "supermajority_threshold n = n - saturating_sub n 1 div 3"

definition reached_supermajority :: "decoded_dispute \<Rightarrow> u32 list \<Rightarrow> bool" where
  "reached_supermajority d votes \<longleftrightarrow>
     dd_validator_count d > 0 \<and>
     length votes \<ge> u32_as_usize (supermajority_threshold (dd_validator_count d))"

definition concluded_for :: "decoded_dispute \<Rightarrow> bool" where
  "concluded_for d = reached_supermajority d (dd_validators_for d)"

definition concluded_against :: "decoded_dispute \<Rightarrow> bool" where
  "concluded_against d = reached_supermajority d (dd_validators_against d)"

section \<open>Events of a block\<close>

definition disputes_to_chain_events :: "h256 \<Rightarrow> u32 \<Rightarrow> decoded_dispute list \<Rightarrow> chain_event list" where
  "disputes_to_chain_events hash block_number disputes =
     (let dispute = (\<lambda>h. \<lparr>sd_relay_parent_block = hash, sd_candidate_hash = h\<rparr>);
          initiated = map (\<lambda>d. DisputeInitiated (dispute (dd_candidate_hash d)))
            (filter (\<lambda>d. dd_start d = block_number) disputes);
          concluded = concat (map (\<lambda>d.
              map (\<lambda>(_, outcome). DisputeConcluded (dispute (dd_candidate_hash d)) outcome)
                (filter fst [(concluded_for d, DValid), (concluded_against d, DInvalid)]))
            (filter (\<lambda>d. dd_concluded_at d = Some block_number) disputes))
      in initiated @ concluded)"

definition concluded_earlier_both_ways :: "u32 \<Rightarrow> decoded_dispute list \<Rightarrow> h256 set" where
  "concluded_earlier_both_ways block_number disputes =
     set (map dd_candidate_hash
       (filter (\<lambda>d. concluded_for d \<and> concluded_against d)
         (filter (\<lambda>d. case dd_concluded_at d of None \<Rightarrow> False | Some at \<Rightarrow> at < block_number) disputes)))"

record concluded_dispute =
  cn_candidate_hash :: h256
  cn_outcome :: dispute_result

definition candidate_events :: "chain_event list \<Rightarrow> candidate_event list" where
  "candidate_events evs = List.map_filter (\<lambda>e. case e of CandidateChanged c \<Rightarrow> Some c | _ \<Rightarrow> None) evs"

definition initiated_disputes :: "chain_event list \<Rightarrow> h256 list" where
  "initiated_disputes evs =
     List.map_filter (\<lambda>e. case e of DisputeInitiated d \<Rightarrow> Some (sd_candidate_hash d) | _ \<Rightarrow> None) evs"

definition concluded_disputes :: "chain_event list \<Rightarrow> concluded_dispute list" where
  "concluded_disputes evs =
     List.map_filter (\<lambda>e. case e of
       DisputeConcluded d outcome \<Rightarrow> Some \<lparr>cn_candidate_hash = sd_candidate_hash d, cn_outcome = outcome\<rparr>
     | _ \<Rightarrow> None) evs"

section \<open>Properties\<close>

lemma unat_supermajority: "unat (supermajority_threshold n) = unat n - (unat n - 1) div 3"
proof -
  have "unat (saturating_sub n 1 div 3) = (unat n - 1) div 3"
    by (simp add: unat_div unat_saturating_sub)
  moreover have "(unat n - 1) div 3 \<le> unat n" by simp
  ultimately show ?thesis
    unfolding supermajority_threshold_def by (simp add: unat_sub word_le_nat_alt)
qed

lemma iter_ones_distinct: "distinct (iter_ones bs)" "set (iter_ones bs) = {i. i < length bs \<and> bs ! i}"
  by (auto simp: iter_ones_def)

lemma third_bound: "(n - 1) div 3 * 3 \<le> (n :: nat) - 1"
  by simp

lemma two_thirds_votes: "0 < (n :: nat) \<Longrightarrow> n - (n - 1) div 3 \<le> k \<longleftrightarrow> 2 * n < 3 * k"
proof -
  assume "0 < n"
  define q r where "q = (n - 1) div 3" and "r = (n - 1) mod 3"
  have "n = 3 * q + r + 1" "r < 3" using \<open>0 < n\<close> by (simp_all add: q_def r_def)
  then show ?thesis by (simp flip: q_def) linarith
qed

text \<open>What decoding guarantees of a dispute: distinct validators, all below the validator count.\<close>

definition dispute_wf :: "decoded_dispute \<Rightarrow> bool" where
  "dispute_wf d \<longleftrightarrow>
     distinct (dd_validators_for d) \<and> distinct (dd_validators_against d) \<and>
     (\<forall>v \<in> set (dd_validators_for d) \<union> set (dd_validators_against d). v < dd_validator_count d)"

lemma map_usize_distinct:
  assumes "distinct is" "\<forall>i \<in> set is. i < n" "n < 2 ^ 32"
  shows "distinct (map usize_as_u32 is) \<and> (\<forall>v \<in> set (map usize_as_u32 is). v < usize_as_u32 n)"
proof
  have unat: "unat (usize_as_u32 i) = i" if "i \<in> set is" for i
    using that assms by (intro unat_usize_as_u32) auto
  show "distinct (map usize_as_u32 is)"
    using assms(1) unat by (auto simp: distinct_map intro!: inj_onI) metis
  show "\<forall>v \<in> set (map usize_as_u32 is). v < usize_as_u32 n"
    using assms(2,3) unat by (auto simp: word_less_nat_alt unat_usize_as_u32)
qed

lemma decode_dispute_wf:
  assumes "decode_dispute raw = Inr d" "length (rd_validators_for raw) < 2 ^ 32"
  shows "dispute_wf d"
proof -
  let ?n = "length (rd_validators_for raw)"
  have same: "length (rd_validators_against raw) = ?n" using assms(1) by (auto simp: decode_dispute_def split: if_splits)
  have "distinct (map usize_as_u32 (iter_ones bs)) \<and>
      (\<forall>v \<in> set (map usize_as_u32 (iter_ones bs)). v < usize_as_u32 ?n)" if "length bs = ?n" for bs
    by (rule map_usize_distinct) (use that assms(2) in \<open>auto simp: iter_ones_distinct\<close>)
  from this [of "rd_validators_for raw"] this [of "rd_validators_against raw"] same assms(1)
  show ?thesis by (auto simp: decode_dispute_def dispute_wf_def split: if_splits)
qed

text \<open>A dispute that reaches the supermajority on both sides has more than a third of the validators
  voting on both: at least \<open>f + 1\<close> of \<open>n \<ge> 3 f + 1\<close> validators, with \<open>f = (n - 1) div 3\<close>.\<close>

theorem both_sides_overlap:
  assumes "dispute_wf d" "concluded_for d" "concluded_against d"
  shows "(unat (dd_validator_count d) - 1) div 3 + 1 \<le>
    card (set (dd_validators_for d) \<inter> set (dd_validators_against d))"
proof -
  let ?A = "set (dd_validators_for d)" and ?B = "set (dd_validators_against d)"
  let ?n = "unat (dd_validator_count d)" and ?f = "(unat (dd_validator_count d) - 1) div 3"
  have votes: "?n - ?f \<le> card ?A" "?n - ?f \<le> card ?B" "0 < ?n"
    using assms by (auto simp: concluded_for_def concluded_against_def reached_supermajority_def
        dispute_wf_def u32_as_usize_def unat_supermajority distinct_card word_less_nat_alt)
  have "?A \<union> ?B \<subseteq> {v. v < dd_validator_count d}" using assms(1) by (auto simp: dispute_wf_def)
  moreover have "card {v. v < dd_validator_count d} \<le> ?n"
  proof -
    have "inj_on unat {v. v < dd_validator_count d}" by (rule inj_onI) (rule unsigned_word_eqI)
    moreover have "unat ` {v. v < dd_validator_count d} \<subseteq> {..<?n}" by (auto simp: word_less_nat_alt)
    ultimately have "card {v. v < dd_validator_count d} \<le> card {..<?n}" by (rule card_inj_on_le) simp
    then show ?thesis by simp
  qed
  ultimately have "card (?A \<union> ?B) \<le> ?n"
    using card_mono [of "{v. v < dd_validator_count d}" "?A \<union> ?B"] by simp
  moreover have "card ?A + card ?B = card (?A \<union> ?B) + card (?A \<inter> ?B)" by (rule card_Un_Int) simp_all
  ultimately have "2 * (?n - ?f) \<le> ?n + card (?A \<inter> ?B)" using votes by linarith
  with votes(3) show ?thesis using third_bound [of ?n] by linarith
qed

definition sample_dispute :: decoded_dispute where
  "sample_dispute =
     \<lparr>dd_session = 1, dd_candidate_hash = 7, dd_validators_for = [0, 1, 2],
      dd_validators_against = [1, 2, 3], dd_validator_count = 4, dd_start = 5, dd_concluded_at = None\<rparr>"

theorem both_sides_overlap_witness:
  "2 \<le> card (set (dd_validators_for sample_dispute) \<inter> set (dd_validators_against sample_dispute))"
proof -
  have "dispute_wf sample_dispute" "concluded_for sample_dispute" "concluded_against sample_dispute"
    by code_simp+
  from both_sides_overlap [OF this] show ?thesis by (simp add: sample_dispute_def)
qed

text \<open>The supermajority of \<open>n\<close> validators is the least number of votes above two thirds of them, computed
  without wrap-around, and an empty validator set concludes nothing.\<close>

theorem supermajority_exact:
  "(reached_supermajority d votes \<longleftrightarrow>
      0 < unat (dd_validator_count d) \<and> 2 * unat (dd_validator_count d) < 3 * length votes)"
  using two_thirds_votes [of "unat (dd_validator_count d)" "length votes"]
  by (auto simp: reached_supermajority_def u32_as_usize_def unat_supermajority word_less_nat_alt)

lemma map_filter_append: "List.map_filter f (xs @ ys) = List.map_filter f xs @ List.map_filter f ys"
  by (induction xs) (auto simp: List.map_filter_simps split: option.split)

lemma set_map_filter: "y \<in> set (List.map_filter f xs) \<longleftrightarrow> (\<exists>x \<in> set xs. f x = Some y)"
  by (induction xs) (auto simp: List.map_filter_simps split: option.split)

text \<open>The dispute events of a block are exactly these: an initiation for every reported dispute that
  started in it, and for every one whose first conclusion is in it a conclusion for each side that
  reached the supermajority, none when neither did; all at the hash of the block, with no candidate
  event among them.\<close>

theorem dispute_events_exact:
  "(DisputeInitiated x \<in> set (disputes_to_chain_events hash n ds) \<longleftrightarrow>
      (\<exists>d \<in> set ds. dd_start d = n \<and> x = \<lparr>sd_relay_parent_block = hash, sd_candidate_hash = dd_candidate_hash d\<rparr>)) \<and>
   (DisputeConcluded x outcome \<in> set (disputes_to_chain_events hash n ds) \<longleftrightarrow>
      (\<exists>d \<in> set ds. dd_concluded_at d = Some n \<and>
         x = \<lparr>sd_relay_parent_block = hash, sd_candidate_hash = dd_candidate_hash d\<rparr> \<and>
         (outcome = DValid \<and> concluded_for d \<or> outcome = DInvalid \<and> concluded_against d))) \<and>
   candidate_events (disputes_to_chain_events hash n ds) = []"
proof -
  have "candidate_events (disputes_to_chain_events hash n ds) = []"
    by (auto simp: candidate_events_def List.map_filter_def disputes_to_chain_events_def Let_def filter_empty_conv)
  then show ?thesis
    by (auto simp: disputes_to_chain_events_def Let_def)
qed

text \<open>The conclusions that a second look at the block may report and the runtime call cannot express are
  those of disputes that concluded earlier and have the supermajority on both sides; they are left out
  of the comparison, and no dispute that concludes in the block itself is.\<close>

lemma concluded_twice_exact:
  "h \<in> concluded_earlier_both_ways n ds \<longleftrightarrow>
     (\<exists>d \<in> set ds. dd_candidate_hash d = h \<and> (\<exists>at. dd_concluded_at d = Some at \<and> at < n) \<and>
        concluded_for d \<and> concluded_against d)"
  by (auto simp: concluded_earlier_both_ways_def split: option.splits)

end
