(* ===== verification/Collector_Types.thy ===== *)
theory Collector_Types
  imports Effects Disputes Prefixed_Storage
begin

text \<open>
  The state of the collector (\<^verbatim>\<open>essentials/src/collector/mod.rs\<close>), the channels it notifies, and the node it
  asks. A channel records what was put into it, in order: \<^verbatim>\<open>send\<close> fails on a closed channel and otherwise
  enqueues (waiting for room is not modelled), \<^verbatim>\<open>send_priority\<close> uses the second queue. The node, behind
  the request executor, is a record of functions; \<open>None\<close> is a failed request.
\<close>

section \<open>Channels\<close>

record 'm sink =
  sk_open :: bool
  sk_sent :: "'m list"
  sk_urgent :: "'m list"

definition sink_new :: "'m sink" where
  "sink_new = \<lparr>sk_open = True, sk_sent = [], sk_urgent = []\<rparr>"

definition sink_push :: "'m \<Rightarrow> 'm sink \<Rightarrow> 'm sink" where
  "sink_push m k = k\<lparr>sk_sent := sk_sent k @ [m]\<rparr>"

definition sink_push_urgent :: "'m \<Rightarrow> 'm sink \<Rightarrow> 'm sink" where
  "sink_push_urgent m k = (if sk_open k then k\<lparr>sk_urgent := sk_urgent k @ [m]\<rparr> else k)"

text \<open>A message to each channel of a list, and several messages to one channel: the first failure stops.\<close>

fun send_each :: "'m \<Rightarrow> 'm sink list \<Rightarrow> bool \<times> 'm sink list" where
  "send_each m [] = (True, [])"
| "send_each m (k # ks) =
     (if sk_open k then (let (ok, ks') = send_each m ks in (ok, sink_push m k # ks')) else (False, k # ks))"

fun send_seq :: "'m list \<Rightarrow> 'm sink \<Rightarrow> bool \<times> 'm sink" where
  "send_seq [] k = (True, k)"
| "send_seq (m # ms) k = (if sk_open k then send_seq ms (sink_push m k) else (False, k))"

text \<open>A message per subscribed parachain to each of its channels.\<close>

fun send_subscribed :: "(u32 \<Rightarrow> 'm) \<Rightarrow> (u32, 'm sink list) alist \<Rightarrow> bool \<times> (u32, 'm sink list) alist" where
  "send_subscribed f [] = (True, [])"
| "send_subscribed f ((para_id, ks) # rest) =
     (let (ok, ks') = send_each (f para_id) ks
      in if ok then (let (ok', rest') = send_subscribed f rest in (ok', (para_id, ks') # rest'))
         else (False, (para_id, ks') # rest))"

section \<open>State\<close>

datatype subscribe_mode = Best | Finalized

record collector_state =
  cs_current_number :: u32
  cs_current_hashes :: "h256 list"
  cs_candidates_seen :: "(u32, h256 list) alist"
  cs_disputes_seen :: "(u32, dispute_info list) alist"
  cs_candidates_backed :: "backed_candidate list"
  cs_candidates_included :: "h256 list"
  cs_candidates_timed_out :: "h256 list"
  cs_session_index :: u32
  cs_last_finalized :: "u32 option"
  cs_authors_missing :: "account_id list"
  cs_paras_seen :: "(u32, u32) alist"

definition collector_state_default :: collector_state where
  "collector_state_default =
     \<lparr>cs_current_number = 0, cs_current_hashes = [], cs_candidates_seen = [], cs_disputes_seen = [],
      cs_candidates_backed = [], cs_candidates_included = [], cs_candidates_timed_out = [],
      cs_session_index = 0, cs_last_finalized = None, cs_authors_missing = [], cs_paras_seen = []\<rparr>"

datatype ws_event_type =
    WsBacked
  | WsIncluded duration
  | WsTimedOut duration
  | WsDisputeInitiated h256
  | WsDisputeConcluded h256 dispute_result

record ws_event =
  we_event :: ws_event_type
  we_candidate_hash :: h256
  we_ts :: duration
  we_parachain_id :: u32

type_synonym storage = "(h256, prefix_type, payload) prefixed_storage"

record collector =
  co_storage :: storage
  co_websocket :: "ws_event sink option"
  co_subscribe_channels :: "(u32, update_event sink list) alist"
  co_broadcast_channels :: "update_event sink list"
  co_state :: collector_state
  co_subscribe_mode :: subscribe_mode
  co_hrmp_channels :: bool
  co_max_parachain_stall :: u32

definition collector_new :: "nat option \<Rightarrow> subscribe_mode \<Rightarrow> bool \<Rightarrow> u32 \<Rightarrow> collector" where
  "collector_new max_blocks mode hrmp stall =
     \<lparr>co_storage = pf_new (the_default 64 max_blocks), co_websocket = None, co_subscribe_channels = [],
      co_broadcast_channels = [], co_state = collector_state_default, co_subscribe_mode = mode,
      co_hrmp_channels = hrmp, co_max_parachain_stall = stall\<rparr>"

definition subscribe_parachain_updates :: "u32 \<Rightarrow> collector \<Rightarrow> collector" where
  "subscribe_parachain_updates para_id c =
     c\<lparr>co_subscribe_channels :=
         bt_update_default [] para_id (\<lambda>ks. ks @ [sink_new]) (co_subscribe_channels c)\<rparr>"

definition subscribe_broadcast_updates :: "collector \<Rightarrow> collector" where
  "subscribe_broadcast_updates c = c\<lparr>co_broadcast_channels := co_broadcast_channels c @ [sink_new]\<rparr>"

datatype collector_error = NonFatal | ExecutorFatal | SendFatal | OtherError | Panicked

type_synonym 'a handler = "(collector, collector_error, 'a) action"

section \<open>The node\<close>

type_synonym authority = "u8 list"

record node =
  rpc_block_timestamp :: "h256 \<Rightarrow> timestamp option"
  rpc_block_head :: "h256 \<Rightarrow> header option option"
  rpc_session_index :: "h256 \<Rightarrow> u32 option"
  rpc_session_account_keys :: "u32 \<Rightarrow> h256 \<Rightarrow> account_id list option option"
  rpc_parainherent_data :: "h256 \<Rightarrow> inherent_data option"
  rpc_occupied_cores :: "h256 \<Rightarrow> core_state list option"
  rpc_backing_groups :: "h256 \<Rightarrow> u32 list list option"
  rpc_claim_queue :: "h256 \<Rightarrow> claim_queue option"
  rpc_hrmp_channels :: "h256 \<Rightarrow> u32 list \<Rightarrow> (u32 \<times> channel_map \<times> channel_map) list option"
  rpc_babe_current_slot :: "h256 \<Rightarrow> u64 option option"
  rpc_babe_randomness :: "h256 \<Rightarrow> h256 option option"
  rpc_babe_authorities :: "h256 \<Rightarrow> (authority \<times> u64) list option"
  rpc_babe_key_owner :: "h256 \<Rightarrow> authority \<Rightarrow> account_id option option"
  rpc_candidate_events :: "h256 \<Rightarrow> candidate_event list option"
  rpc_disputes :: "h256 \<Rightarrow> decoded_dispute list option"
  node_hash :: "u8 list \<Rightarrow> h256"
  node_slot_random :: "h256 \<Rightarrow> u64 \<Rightarrow> nat"

end
