(* ===== verification/Collector.thy ===== *)
theory Collector
  imports Collector_Types
begin

text \<open>
  The handlers of the collector, \<^verbatim>\<open>essentials/src/collector/mod.rs\<close>: what a new relay chain head, a
  candidate event and a dispute event do to its state, its storage and its channels. A handler that
  fails leaves behind what it changed before. \<open>now\<close> is the wall clock a handler reads.
\<close>

section \<open>Storage\<close>

definition set_state :: "(collector_state \<Rightarrow> collector_state) \<Rightarrow> unit handler" where
  "set_state f = change (\<lambda>c. c\<lparr>co_state := f (co_state c)\<rparr>)"

definition storage_read :: "prefix_type \<Rightarrow> h256 \<Rightarrow> payload storage_entry option handler" where
  "storage_read p k c = (Inr (pf_get_prefix p k (co_storage c)), c)"

definition storage_write :: "prefix_type \<Rightarrow> h256 \<Rightarrow> payload storage_entry \<Rightarrow> unit handler" where
  "storage_write p k v c =
     (case pf_insert_prefix p k v (co_storage c) of
        (Inl _, s) \<Rightarrow> (Inl NonFatal, c\<lparr>co_storage := s\<rparr>)
      | (Inr _, s) \<Rightarrow> (Inr (), c\<lparr>co_storage := s\<rparr>))"

definition storage_replace :: "prefix_type \<Rightarrow> h256 \<Rightarrow> payload storage_entry \<Rightarrow> unit handler" where
  "storage_replace p k v = change (\<lambda>c. c\<lparr>co_storage := snd (pf_replace_prefixed p k v (co_storage c))\<rparr>)"

definition storage_delete :: "prefix_type \<Rightarrow> h256 \<Rightarrow> unit handler" where
  "storage_delete p k = change (\<lambda>c. c\<lparr>co_storage := snd (pf_delete_prefix p k (co_storage c))\<rparr>)"

definition decoded :: "collector_error \<Rightarrow> (payload \<Rightarrow> 'a option) \<Rightarrow> payload storage_entry \<Rightarrow> 'a handler" where
  "decoded e dec v = (case into_inner dec v of Inl _ \<Rightarrow> fail_with e | Inr x \<Rightarrow> done_with x)"

definition onchain :: "u32 \<Rightarrow> duration \<Rightarrow> payload \<Rightarrow> payload storage_entry" where
  "onchain n ts d = new_onchain (with_ts n ts) d"

section \<open>Notifications\<close>

definition concluded_of :: "collector_state \<Rightarrow> u32 \<Rightarrow> dispute_info list" where
  "concluded_of s para_id =
     filter (\<lambda>d. di_concluded d \<noteq> None) (the_default [] (map_of (cs_disputes_seen s) para_id))"

definition head_event :: "collector_state \<Rightarrow> account_id list \<Rightarrow> u32 \<Rightarrow> update_event" where
  "head_event s authors para_id =
     NewHead \<lparr>nh_relay_parent_number = cs_current_number s, nh_relay_parent_hashes = cs_current_hashes s,
       nh_para_id = para_id, nh_candidates_seen = the_default [] (map_of (cs_candidates_seen s) para_id),
       nh_candidates_backed = cs_candidates_backed s, nh_candidates_included = cs_candidates_included s,
       nh_candidates_timed_out = cs_candidates_timed_out s, nh_disputes_concluded = concluded_of s para_id,
       nh_authors_missing_their_slots = authors\<rparr>"

text \<open>The parachains to report on broadcast channels: those seen, without the stalled ones.\<close>

definition refresh_paras :: "u32 \<Rightarrow> collector_state \<Rightarrow> (u32, u32) alist" where
  "refresh_paras max_stall s =
     (let seen = fold (\<lambda>para_id m. bt_put para_id (cs_current_number s) m)
                   (map fst (cs_candidates_seen s)) (cs_paras_seen s);
          to_evict = map fst (filter (\<lambda>(_, last_block). cs_current_number s - last_block > max_stall) seen)
      in fold bt_del to_evict seen)"

fun broadcast_heads :: "u32 \<Rightarrow> update_event sink list \<Rightarrow> collector_state \<Rightarrow>
    bool \<times> update_event sink list \<times> collector_state" where
  "broadcast_heads max_stall [] s = (True, [], s)"
| "broadcast_heads max_stall (k # ks) s =
     (let s1 = s\<lparr>cs_paras_seen := refresh_paras max_stall s\<rparr>;
          (ok, k') = send_seq (map (head_event s1 []) (map fst (cs_paras_seen s1))) k
      in if ok then (let (ok', ks', s2) = broadcast_heads max_stall ks s1 in (ok', k' # ks', s2))
         else (False, k' # ks, s1))"

definition clear_state :: "u32 \<Rightarrow> h256 \<Rightarrow> collector_state \<Rightarrow> collector_state" where
  "clear_state block_number block_hash s =
     s\<lparr>cs_candidates_seen := [], cs_candidates_backed := [], cs_candidates_included := [],
       cs_candidates_timed_out := [], cs_disputes_seen := [], cs_current_hashes := [block_hash],
       cs_authors_missing := [], cs_current_number := block_number\<rparr>"

definition update_state :: "u32 \<Rightarrow> h256 \<Rightarrow> unit handler" where
  "update_state block_number block_hash c =
     (let s = co_state c;
          (ok, subs) = send_subscribed (head_event s (cs_authors_missing s)) (co_subscribe_channels c);
          c1 = c\<lparr>co_subscribe_channels := subs\<rparr>
      in if \<not> ok then (Inl NonFatal, c1)
         else
           let (ok', bs, s') = broadcast_heads (co_max_parachain_stall c) (co_broadcast_channels c1) s;
               c2 = c1\<lparr>co_broadcast_channels := bs, co_state := s'\<rparr>
           in if \<not> ok' then (Inl NonFatal, c2)
              else (Inr (), c2\<lparr>co_state := clear_state block_number block_hash s'\<rparr>))"

definition broadcast_event :: "update_event \<Rightarrow> unit handler" where
  "broadcast_event event c =
     (let (ok, subs) = send_subscribed (\<lambda>_. event) (co_subscribe_channels c);
          c1 = c\<lparr>co_subscribe_channels := subs\<rparr>
      in if \<not> ok then (Inl NonFatal, c1)
         else
           let (ok', bs) = send_each event (co_broadcast_channels c1);
               c2 = c1\<lparr>co_broadcast_channels := bs\<rparr>
           in if ok' then (Inr (), c2) else (Inl NonFatal, c2))"

definition broadcast_event_priority :: "update_event \<Rightarrow> collector \<Rightarrow> collector" where
  "broadcast_event_priority event c =
     c\<lparr>co_subscribe_channels := hm_map_values (map (sink_push_urgent event)) (co_subscribe_channels c),
       co_broadcast_channels := map (sink_push_urgent event) (co_broadcast_channels c)\<rparr>"

definition terminate :: "termination_reason \<Rightarrow> collector \<Rightarrow> collector" where
  "terminate reason = broadcast_event_priority (Termination reason)"

definition notify_websocket :: "ws_event \<Rightarrow> unit handler" where
  "notify_websocket event c =
     (case co_websocket c of
        None \<Rightarrow> (Inr (), c)
      | Some k \<Rightarrow> if sk_open k then (Inr (), c\<lparr>co_websocket := Some (sink_push event k)\<rparr>) else (Inl SendFatal, c))"

section \<open>A new relay chain head\<close>

definition write_hrmp_channels :: "node \<Rightarrow> h256 \<Rightarrow> u32 \<Rightarrow> timestamp \<Rightarrow> unit handler" where
  "write_hrmp_channels node block_hash block_number ts =
     reading (\<lambda>c.
       if \<not> co_hrmp_channels c then done_with ()
       else
         let para_ids = (if co_subscribe_channels c = [] then map fst (cs_candidates_seen (co_state c))
                         else map fst (co_subscribe_channels c))
         in andthen (answer ExecutorFatal (rpc_hrmp_channels node block_hash para_ids)) (\<lambda>channels.
              each (\<lambda>(para_id, inbound, outbound).
                storage_write (PrHrmpChannels para_id) block_hash
                  (onchain block_number (from_secs ts) (PlChannels inbound outbound))) channels))"

definition write_parainherent_data :: "node \<Rightarrow> h256 \<Rightarrow> u32 \<Rightarrow> timestamp \<Rightarrow> unit handler" where
  "write_parainherent_data node block_hash block_number ts =
     andthen (answer ExecutorFatal (rpc_parainherent_data node block_hash)) (\<lambda>inherent.
       storage_write PrInherentData block_hash (onchain block_number (from_secs ts) (PlInherent inherent)))"

definition write_ts :: "h256 \<Rightarrow> u32 \<Rightarrow> timestamp \<Rightarrow> unit handler" where
  "write_ts block_hash block_number ts =
     storage_write PrTimestamp block_hash (onchain block_number (from_secs ts) (PlTimestamp ts))"

definition write_occupied_cores :: "node \<Rightarrow> h256 \<Rightarrow> u32 \<Rightarrow> timestamp \<Rightarrow> unit handler" where
  "write_occupied_cores node block_hash block_number ts =
     andthen (answer ExecutorFatal (rpc_occupied_cores node block_hash)) (\<lambda>cores.
       storage_write PrOccupiedCores block_hash (onchain block_number (from_secs ts) (PlCores cores)))"

definition write_backing_groups :: "node \<Rightarrow> h256 \<Rightarrow> u32 \<Rightarrow> timestamp \<Rightarrow> unit handler" where
  "write_backing_groups node block_hash block_number ts =
     andthen (answer ExecutorFatal (rpc_backing_groups node block_hash)) (\<lambda>groups.
       storage_write PrBackingGroups block_hash (onchain block_number (from_secs ts) (PlGroups groups)))"

definition write_core_assignments :: "node \<Rightarrow> h256 \<Rightarrow> u32 \<Rightarrow> timestamp \<Rightarrow> unit handler" where
  "write_core_assignments node block_hash block_number ts =
     andthen (answer ExecutorFatal (rpc_claim_queue node block_hash)) (\<lambda>assignments.
       storage_write PrCoreAssignments block_hash (onchain block_number (from_secs ts) (PlClaimQueue assignments)))"

lemma unat_pred_less: "p < m \<Longrightarrow> unat (m - 1 :: 'a::len word) < unat m"
  by (cases "m = 0") (simp_all add: unat_minus_one unat_gt_0)

text \<open>The secondary slot authors of the slots between the parent and this block, newest first. An answer that
  fails is a report, hence not fatal.\<close>

function missing_authors ::
  "node \<Rightarrow> h256 \<Rightarrow> h256 option \<Rightarrow> (authority \<times> u64) list \<Rightarrow> u64 \<Rightarrow> u64 \<Rightarrow> account_id list \<Rightarrow> account_id list handler" where
  "missing_authors node parent_hash randomness authorities parent_slot missed_slots acc =
     (if missed_slots > parent_slot then
        (case randomness of
           None \<Rightarrow> missing_authors node parent_hash randomness authorities parent_slot (missed_slots - 1) acc
         | Some r \<Rightarrow>
             if authorities = [] then fail_with Panicked
             else
               let idx = node_slot_random node r missed_slots mod length authorities in
               andthen (answer NonFatal (rpc_babe_key_owner node parent_hash (fst (authorities ! idx)))) (\<lambda>owner.
                 missing_authors node parent_hash randomness authorities parent_slot (missed_slots - 1)
                   (acc @ (case owner of None \<Rightarrow> [] | Some a \<Rightarrow> [a]))))
      else done_with acc)"
  by pat_completeness auto

termination
  by (relation "measure (\<lambda>(_, _, _, _, _, missed, _). unat missed)") (auto intro: unat_pred_less)

declare missing_authors.simps [simp del]

definition authors_missing_their_slots :: "node \<Rightarrow> h256 \<Rightarrow> h256 \<Rightarrow> account_id list handler" where
  "authors_missing_their_slots node block_hash parent_hash =
     andthen (answer NonFatal (rpc_babe_current_slot node block_hash)) (\<lambda>current.
     andthen (answer NonFatal (rpc_babe_current_slot node parent_hash)) (\<lambda>parent.
       case (current, parent) of
         (Some current_slot, Some parent_slot) \<Rightarrow>
           if saturating_sub current_slot 1 > parent_slot then
             andthen (answer NonFatal (rpc_babe_randomness node block_hash)) (\<lambda>randomness.
             andthen (answer NonFatal (rpc_babe_authorities node block_hash)) (\<lambda>authorities.
               missing_authors node parent_hash randomness authorities parent_slot (current_slot - 1) []))
           else done_with []
       | _ \<Rightarrow> done_with []))"

definition store_session :: "node \<Rightarrow> h256 \<Rightarrow> u32 \<Rightarrow> timestamp \<Rightarrow> u32 \<Rightarrow> unit handler" where
  "store_session node block_hash block_number ts cur_session =
     (let cur_session_hash = node_hash node (to_be_bytes cur_session) in
      andthen (storage_read PrAccountKeys cur_session_hash) (\<lambda>existing.
        if existing \<noteq> None then done_with ()
        else
          andthen (answer ExecutorFatal (rpc_session_account_keys node cur_session block_hash)) (\<lambda>keys.
          andthen (answer NonFatal keys) (\<lambda>accounts_keys.
          andthen (storage_write PrAccountKeys cur_session_hash
                     (new_persistent (with_ts block_number (from_secs ts)) (PlAccountKeys accounts_keys))) (\<lambda>_.
            if cur_session > 1 then
              storage_delete PrAccountKeys (node_hash node (to_be_bytes (saturating_sub cur_session 2)))
            else done_with ())))))"

definition enter_block :: "node \<Rightarrow> h256 \<Rightarrow> timestamp \<Rightarrow> u32 \<Rightarrow> unit handler" where
  "enter_block node block_hash ts block_number =
     reading (\<lambda>c.
       if block_number > cs_current_number (co_state c) then
         andthen (write_hrmp_channels node block_hash block_number ts) (\<lambda>_. update_state block_number block_hash)
       else if block_number = cs_current_number (co_state c) then
         set_state (\<lambda>s. s\<lparr>cs_current_hashes := cs_current_hashes s @ [block_hash]\<rparr>)
       else fail_with NonFatal)"

definition enter_session :: "u32 \<Rightarrow> unit handler" where
  "enter_session cur_session =
     reading (\<lambda>c.
       if cs_session_index (co_state c) \<noteq> cur_session then
         andthen (set_state (\<lambda>s. s\<lparr>cs_session_index := cur_session\<rparr>)) (\<lambda>_.
           broadcast_event (NewSession cur_session))
       else done_with ())"

definition process_new_head :: "node \<Rightarrow> h256 \<Rightarrow> header \<Rightarrow> timestamp \<Rightarrow> u32 \<Rightarrow> unit handler" where
  "process_new_head node block_hash header ts block_number =
     andthen (enter_block node block_hash ts block_number) (\<lambda>_.
     andthen (storage_write PrRelayBlockHeader block_hash
                (onchain block_number (from_secs ts) (PlHeader header))) (\<lambda>_.
     andthen (answer ExecutorFatal (rpc_session_index node block_hash)) (\<lambda>cur_session.
     andthen (store_session node block_hash block_number ts cur_session) (\<lambda>_.
     andthen (enter_session cur_session) (\<lambda>_.
     andthen (write_parainherent_data node block_hash block_number ts) (\<lambda>_.
     andthen (write_ts block_hash block_number ts) (\<lambda>_.
     andthen (write_occupied_cores node block_hash block_number ts) (\<lambda>_.
     andthen (write_backing_groups node block_hash block_number ts) (\<lambda>_.
     andthen (write_core_assignments node block_hash block_number ts) (\<lambda>_.
     andthen (authors_missing_their_slots node block_hash (hd_parent_hash header)) (\<lambda>authors.
       set_state (\<lambda>s. s\<lparr>cs_authors_missing := cs_authors_missing s @ authors\<rparr>))))))))))))"

definition process_new_best_head :: "node \<Rightarrow> h256 \<Rightarrow> header \<Rightarrow> unit handler" where
  "process_new_best_head node block_hash header =
     andthen (answer ExecutorFatal (rpc_block_timestamp node block_hash)) (\<lambda>ts.
     reading (\<lambda>c.
       andthen
         (case cs_last_finalized (co_state c) of
            None \<Rightarrow> done_with ()
          | Some last_finalized \<Rightarrow>
              storage_write PrRelevantFinalizedBlockNumber block_hash
                (onchain (hd_number header) (from_secs ts) (PlBlockNumber last_finalized))) (\<lambda>_.
         if co_subscribe_mode c = Best then process_new_head node block_hash header ts (hd_number header)
         else done_with ())))"

definition process_new_finalized_head :: "node \<Rightarrow> h256 \<Rightarrow> header \<Rightarrow> unit handler" where
  "process_new_finalized_head node block_hash header =
     andthen (answer ExecutorFatal (rpc_block_timestamp node block_hash)) (\<lambda>ts.
     andthen
       (set_state (\<lambda>s.
          if cs_last_finalized s = None \<or> the (cs_last_finalized s) < hd_number header
          then s\<lparr>cs_last_finalized := Some (hd_number header)\<rparr> else s)) (\<lambda>_.
     reading (\<lambda>c.
       if co_subscribe_mode c = Finalized then process_new_head node block_hash header ts (hd_number header)
       else done_with ())))"

section \<open>Candidates\<close>

definition read_or_fetch_header :: "node \<Rightarrow> h256 \<Rightarrow> header option handler" where
  "read_or_fetch_header node block_hash =
     andthen (storage_read PrRelayBlockHeader block_hash) (\<lambda>m.
       case m of
         Some v \<Rightarrow> andthen (decoded NonFatal de_header v) (\<lambda>h. done_with (Some h))
       | None \<Rightarrow>
           andthen (answer ExecutorFatal (rpc_block_head node block_hash)) (\<lambda>fetched.
             case fetched of
               None \<Rightarrow> done_with None
             | Some relay_parent \<Rightarrow>
                 andthen (answer ExecutorFatal (rpc_block_timestamp node block_hash)) (\<lambda>ts.
                 andthen (storage_write PrRelayBlockHeader block_hash
                            (onchain (hd_number relay_parent) (from_secs ts) (PlHeader relay_parent))) (\<lambda>_.
                   done_with (Some relay_parent)))))"

definition see_candidate :: "u32 \<Rightarrow> h256 \<Rightarrow> collector_state \<Rightarrow> collector_state" where
  "see_candidate para_id h s =
     s\<lparr>cs_candidates_seen := bt_update_default [] para_id (\<lambda>hs. hs @ [h]) (cs_candidates_seen s)\<rparr>"

definition candidate_backed :: "node \<Rightarrow> duration \<Rightarrow> candidate_event \<Rightarrow> unit handler" where
  "candidate_backed node now ev =
     andthen (storage_read (PrCandidate (ce_parachain_id ev)) (ce_candidate_hash ev)) (\<lambda>m.
       case m of
         Some existing \<Rightarrow> andthen (decoded NonFatal de_candidate existing) (\<lambda>_. done_with ())
       | None \<Rightarrow>
           reading (\<lambda>c.
             let n = cs_current_number (co_state c) in
             andthen (storage_write PrCandidatesParachains (ce_candidate_hash ev)
                        (onchain n now (PlParaId (ce_parachain_id ev)))) (\<lambda>_.
             andthen (read_or_fetch_header node (ce_relay_parent ev)) (\<lambda>header.
             andthen (answer NonFatal header) (\<lambda>relay_parent.
               let inclusion =
                     \<lparr>ci_parachain_id = ce_parachain_id ev, ci_backed = n, ci_included = None, ci_timedout = None,
                      ci_core_idx = ce_core_idx ev, ci_relay_parent = ce_relay_parent ev,
                      ci_relay_parent_number = hd_number relay_parent\<rparr>;
                   new_record = \<lparr>cr_first_seen = now, cr_inclusion = inclusion, cr_disputed = None\<rparr>
               in andthen (storage_write (PrCandidate (ce_parachain_id ev)) (ce_candidate_hash ev)
                             (onchain n now (PlCandidate new_record))) (\<lambda>_.
                  andthen (set_state (\<lambda>s.
                    let s1 = see_candidate (ce_parachain_id ev) (ce_candidate_hash ev) s
                    in s1\<lparr>cs_candidates_backed := cs_candidates_backed s1 @
                          [\<lparr>bc_candidate_hash = ce_candidate_hash ev, bc_core_idx = ce_core_idx ev,
                            bc_para_id = ce_parachain_id ev\<rparr>]\<rparr>)) (\<lambda>_.
                    notify_websocket \<lparr>we_event = WsBacked, we_candidate_hash = ce_candidate_hash ev,
                      we_ts = now, we_parachain_id = ce_parachain_id ev\<rparr>)))))))"

text \<open>The common shape of the two handlers of a known candidate.\<close>

definition candidate_settled ::
  "(inclusion_record \<Rightarrow> u32 \<Rightarrow> inclusion_record) \<Rightarrow> (duration \<Rightarrow> ws_event_type) \<Rightarrow>
   (h256 \<Rightarrow> collector_state \<Rightarrow> collector_state) \<Rightarrow> duration \<Rightarrow> candidate_event \<Rightarrow> unit handler" where
  "candidate_settled mark ws note now ev =
     andthen (storage_read (PrCandidate (ce_parachain_id ev)) (ce_candidate_hash ev)) (\<lambda>m.
       case m of
         None \<Rightarrow> done_with ()
       | Some known \<Rightarrow>
           reading (\<lambda>c.
             let n = cs_current_number (co_state c) in
             andthen (decoded NonFatal de_candidate known) (\<lambda>r0.
               let r = r0\<lparr>cr_inclusion := mark (cr_inclusion r0) n\<rparr> in
               andthen (notify_websocket \<lparr>we_event = ws (now - cr_first_seen r),
                          we_candidate_hash = ce_candidate_hash ev, we_ts = now,
                          we_parachain_id = ce_parachain_id ev\<rparr>) (\<lambda>_.
               andthen (set_state (\<lambda>s.
                          note (ce_candidate_hash ev) (see_candidate (ce_parachain_id ev) (ce_candidate_hash ev) s))) (\<lambda>_.
                 storage_replace (PrCandidate (ce_parachain_id ev)) (ce_candidate_hash ev)
                   (onchain n now (PlCandidate r)))))))"

definition process_candidate_change :: "node \<Rightarrow> duration \<Rightarrow> candidate_event \<Rightarrow> unit handler" where
  "process_candidate_change node now ev =
     (case ce_event_type ev of
        CandidateBacked \<Rightarrow> candidate_backed node now ev
      | CandidateIncluded \<Rightarrow>
          candidate_settled (\<lambda>i n. i\<lparr>ci_included := Some n\<rparr>) WsIncluded
            (\<lambda>h s. s\<lparr>cs_candidates_included := cs_candidates_included s @ [h]\<rparr>) now ev
      | CandidateTimedOut \<Rightarrow>
          candidate_settled (\<lambda>i n. i\<lparr>ci_timedout := Some n\<rparr>) WsTimedOut
            (\<lambda>h s. s\<lparr>cs_candidates_timed_out := cs_candidates_timed_out s @ [h]\<rparr>) now ev)"

section \<open>Disputes\<close>

definition find_candidate_by_hash :: "h256 \<Rightarrow> candidate_record option handler" where
  "find_candidate_by_hash candidate_hash =
     andthen (storage_read PrCandidatesParachains candidate_hash) (\<lambda>m.
       case m of
         None \<Rightarrow> done_with None
       | Some v \<Rightarrow>
           andthen (decoded Panicked de_para_id v) (\<lambda>para_id.
           andthen (storage_read (PrCandidate para_id) candidate_hash) (\<lambda>m'.
             case m' of
               None \<Rightarrow> done_with None
             | Some v' \<Rightarrow> andthen (decoded Panicked de_candidate v') (\<lambda>r. done_with (Some r)))))"

definition extract_dispute_initiators :: "subxt_dispute \<Rightarrow> (u32 list \<times> u32) handler" where
  "extract_dispute_initiators d =
     reading (\<lambda>c.
       let default_value = ([], cs_session_index (co_state c)) in
       andthen (storage_read PrInherentData (sd_relay_parent_block d)) (\<lambda>m.
         case m of
           None \<Rightarrow> done_with default_value
         | Some v \<Rightarrow>
             andthen (decoded NonFatal de_inherent v) (\<lambda>inherent.
               case List.find (\<lambda>s. ds_candidate_hash s = sd_candidate_hash d) (ih_disputes inherent) of
                 None \<Rightarrow> done_with default_value
               | Some s \<Rightarrow>
                   done_with (map snd (filter (\<lambda>(st, _). \<not> is_valid_statement st) (ds_statements s)), ds_session s))))"

definition see_dispute :: "u32 \<Rightarrow> dispute_info \<Rightarrow> collector_state \<Rightarrow> collector_state" where
  "see_dispute para_id d s =
     s\<lparr>cs_disputes_seen := bt_update_default [] para_id (\<lambda>ds. ds @ [d]) (cs_disputes_seen s)\<rparr>"

definition process_dispute_initiated :: "duration \<Rightarrow> subxt_dispute \<Rightarrow> unit handler" where
  "process_dispute_initiated now d =
     andthen (find_candidate_by_hash (sd_candidate_hash d)) (\<lambda>found.
     andthen (answer NonFatal found) (\<lambda>candidate.
     reading (\<lambda>c.
       let n = cs_current_number (co_state c);
           para_id = cr_parachain_id candidate;
           candidate' = candidate\<lparr>cr_disputed := Some \<lparr>cd_disputed = n, cd_concluded = None\<rparr>\<rparr>
       in andthen (extract_dispute_initiators d) (\<lambda>(initiator_indices, session_index).
          andthen (notify_websocket \<lparr>we_event = WsDisputeInitiated (sd_relay_parent_block d),
                     we_candidate_hash = sd_candidate_hash d, we_ts = now, we_parachain_id = para_id\<rparr>) (\<lambda>_.
          let info = \<lparr>di_initiated = n, di_initiator_indices = initiator_indices,
                      di_session_index = session_index, di_dispute = d, di_parachain_id = para_id,
                      di_outcome = None, di_concluded = None\<rparr>
          in andthen (set_state (see_dispute para_id info)) (\<lambda>_.
             andthen (storage_write (PrDispute para_id) (sd_candidate_hash d) (onchain n now (PlDispute info))) (\<lambda>_.
               storage_replace (PrCandidate para_id) (sd_candidate_hash d)
                 (onchain n now (PlCandidate candidate')))))))))"

definition process_dispute_concluded :: "duration \<Rightarrow> subxt_dispute \<Rightarrow> dispute_result \<Rightarrow> unit handler" where
  "process_dispute_concluded now d outcome =
     andthen (find_candidate_by_hash (sd_candidate_hash d)) (\<lambda>found.
     andthen (answer NonFatal found) (\<lambda>candidate.
     reading (\<lambda>c.
       let n = cs_current_number (co_state c);
           para_id = cr_parachain_id candidate;
           candidate' = candidate\<lparr>cr_disputed := Some \<lparr>cd_disputed = n,
             cd_concluded = Some \<lparr>dr_outcome = outcome, dr_concluded_block = n\<rparr>\<rparr>\<rparr>
       in andthen (notify_websocket \<lparr>we_event = WsDisputeConcluded (sd_relay_parent_block d) outcome,
                     we_candidate_hash = sd_candidate_hash d, we_ts = now, we_parachain_id = para_id\<rparr>) (\<lambda>_.
          andthen (storage_read (PrDispute para_id) (sd_candidate_hash d)) (\<lambda>m.
          andthen
            (case m of
               None \<Rightarrow> done_with ()
             | Some v \<Rightarrow>
                 andthen (decoded NonFatal de_dispute v) (\<lambda>info.
                   let info' = info\<lparr>di_outcome := Some outcome, di_concluded := Some n\<rparr> in
                   andthen (set_state (see_dispute para_id info')) (\<lambda>_.
                     storage_replace (PrDispute para_id) (sd_candidate_hash d) (onchain n now (PlDispute info'))))) (\<lambda>_.
            storage_replace (PrCandidate para_id) (sd_candidate_hash d)
              (onchain n now (PlCandidate candidate'))))))))"

section \<open>Events\<close>

definition process_chain_event :: "node \<Rightarrow> duration \<Rightarrow> chain_event \<Rightarrow> unit handler" where
  "process_chain_event node now ev =
     (case ev of
        NewBestHead h header \<Rightarrow> process_new_best_head node h header
      | NewFinalizedHead h header \<Rightarrow> process_new_finalized_head node h header
      | CandidateChanged change_event \<Rightarrow> process_candidate_change node now change_event
      | DisputeInitiated d \<Rightarrow> process_dispute_initiated now d
      | DisputeConcluded d outcome \<Rightarrow> process_dispute_concluded now d outcome)"

end
