(* ===== verification/Collector_Loop.thy ===== *)
theory Collector_Loop
  imports Collector
begin

text \<open>
  The loop of the collector (\<^verbatim>\<open>run_with_consumer_channel\<close>, \<^verbatim>\<open>essentials/src/collector/mod.rs\<close>): an event of
  the chain subscription becomes chain events, which are processed in order; fatal errors end the loop
  and tell every subscriber. With shadowing on, the events are checked against those scraped from the
  block (\<^verbatim>\<open>essentials/src/api/shadow.rs\<close>), and a mismatch ends the process.
\<close>

datatype subscription_event =
    SubNewBestHead h256 header
  | SubNewFinalizedBlock h256 header
  | SubHeartbeat
  | SubTermination

fun new_head_hash :: "subscription_event \<Rightarrow> subscribe_mode \<Rightarrow> h256 option" where
  "new_head_hash (SubNewBestHead hash _) Best = Some hash"
| "new_head_hash (SubNewFinalizedBlock hash _) Finalized = Some hash"
| "new_head_hash _ _ = None"

section \<open>Shadowing\<close>

text \<open>Two lists as maps from the identity of their items, compared; \<open>False\<close> ends the process.\<close>

definition compare_set :: "'a list \<Rightarrow> 'a list \<Rightarrow> ('a \<Rightarrow> 'k) \<Rightarrow> bool" where
  "compare_set old new key \<longleftrightarrow>
     set (hm_collect (map (\<lambda>v. (key v, v)) old)) = set (hm_collect (map (\<lambda>v. (key v, v)) new))"

text \<open>A block event that cannot be decoded is skipped; one that is recognised and malformed is an error.\<close>

fun scrape_events :: "('ev \<Rightarrow> unit + chain_event option) \<Rightarrow> 'ev option list \<Rightarrow> unit + chain_event list" where
  "scrape_events decode [] = Inr []"
| "scrape_events decode (None # evs) = scrape_events decode evs"
| "scrape_events decode (Some ev # evs) =
     rbind (decode ev) (\<lambda>m. rbind (scrape_events decode evs) (\<lambda>rest.
       Inr (case m of None \<Rightarrow> rest | Some e \<Rightarrow> e # rest)))"

datatype shadow_verdict = ShadowOk | ShadowError | ShadowExit

definition shadow_events ::
  "('ev \<Rightarrow> unit + chain_event option) \<Rightarrow> 'ev option list option \<Rightarrow> u32 \<Rightarrow> chain_event list \<Rightarrow>
   decoded_dispute list \<Rightarrow> shadow_verdict" where
  "shadow_events decode block_events block_number chain_events disputes =
     (case block_events of
        None \<Rightarrow> ShadowError
      | Some evs \<Rightarrow>
          (case scrape_events decode evs of
             Inl _ \<Rightarrow> ShadowError
           | Inr scraped \<Rightarrow>
               let twice = concluded_earlier_both_ways block_number disputes;
                   scraped_concluded = filter (\<lambda>d. cn_candidate_hash d \<notin> twice) (concluded_disputes scraped)
               in if compare_set (candidate_events scraped) (candidate_events chain_events)
                       (\<lambda>e. (ce_candidate_hash e, ce_event_type e)) \<and>
                     compare_set (initiated_disputes scraped) (initiated_disputes chain_events) id \<and>
                     compare_set scraped_concluded (concluded_disputes chain_events)
                       (\<lambda>d. (cn_candidate_hash d, cn_outcome d = DValid))
                  then ShadowOk else ShadowExit))"

section \<open>The loop\<close>

datatype collected = Collected "chain_event list" | CollectFailed | CollectExit

definition collect_chain_events ::
  "node \<Rightarrow> (h256 \<Rightarrow> u32 \<Rightarrow> chain_event list \<Rightarrow> decoded_dispute list \<Rightarrow> shadow_verdict) option \<Rightarrow>
   subscribe_mode \<Rightarrow> subscription_event \<Rightarrow> collected" where
  "collect_chain_events node shadow mode event =
     (let head = (case event of
                    SubNewBestHead hash header \<Rightarrow> Some (NewBestHead hash header, hd_number header)
                  | SubNewFinalizedBlock hash header \<Rightarrow> Some (NewFinalizedHead hash header, hd_number header)
                  | _ \<Rightarrow> None)
      in case head of
           None \<Rightarrow> Collected []
         | Some (new_head_event, block_number) \<Rightarrow>
             (case new_head_hash event mode of
                None \<Rightarrow> Collected [new_head_event]
              | Some hash \<Rightarrow>
                  (case rpc_candidate_events node hash of
                     None \<Rightarrow> CollectFailed
                   | Some candidates \<Rightarrow>
                       (case rpc_disputes node hash of
                          None \<Rightarrow> CollectFailed
                        | Some disputes \<Rightarrow>
                            let chain_events = [new_head_event] @ map CandidateChanged candidates @
                                  disputes_to_chain_events hash block_number disputes
                            in (case shadow of
                                  None \<Rightarrow> Collected chain_events
                                | Some check \<Rightarrow>
                                    (case check hash block_number chain_events disputes of
                                       ShadowOk \<Rightarrow> Collected chain_events
                                     | ShadowError \<Rightarrow> CollectFailed
                                     | ShadowExit \<Rightarrow> CollectExit))))))"

datatype loop_state = Looping collector | Stopped bool collector | Exited

text \<open>The flag of \<open>Stopped\<close> says that the shutdown signal was sent to the other tasks.
  A panic ends the task at once; the other fatal errors are told to the subscribers.\<close>

fun process_events :: "node \<Rightarrow> (chain_event \<Rightarrow> duration) \<Rightarrow> chain_event list \<Rightarrow> collector \<Rightarrow> loop_state" where
  "process_events node clock [] c = Looping c"
| "process_events node clock (ev # evs) c =
     (case process_chain_event node (clock ev) ev c of
        (Inl ExecutorFatal, c') \<Rightarrow> Stopped False (terminate AbnormalEnd c')
      | (Inl SendFatal, c') \<Rightarrow> Stopped False (terminate AbnormalEnd c')
      | (Inl Panicked, c') \<Rightarrow> Stopped False c'
      | (Inl NonFatal, c') \<Rightarrow> process_events node clock evs c'
      | (Inl OtherError, c') \<Rightarrow> process_events node clock evs c'
      | (Inr _, c') \<Rightarrow> process_events node clock evs c')"

text \<open>What the loop receives: a subscription event, the end of the subscription, or the shutdown signal.\<close>

datatype loop_input = Message subscription_event | SubscriptionClosed | Shutdown

definition collector_step ::
  "node \<Rightarrow> (chain_event \<Rightarrow> duration) \<Rightarrow>
   (h256 \<Rightarrow> u32 \<Rightarrow> chain_event list \<Rightarrow> decoded_dispute list \<Rightarrow> shadow_verdict) option \<Rightarrow>
   loop_input \<Rightarrow> collector \<Rightarrow> loop_state" where
  "collector_step node clock shadow input c =
     (case input of
        SubscriptionClosed \<Rightarrow> Stopped True (terminate NormalEnd c)
      | Shutdown \<Rightarrow> Stopped False (terminate NormalEnd c)
      | Message SubTermination \<Rightarrow> Stopped True (terminate NormalEnd c)
      | Message event \<Rightarrow>
          (case collect_chain_events node shadow (co_subscribe_mode c) event of
             Collected evs \<Rightarrow> process_events node clock evs c
           | CollectFailed \<Rightarrow> Stopped False (terminate AbnormalEnd c)
           | CollectExit \<Rightarrow> Exited))"

text \<open>The loop run on a sequence of inputs. It ends at the first input that stops it.\<close>

fun collector_run ::
  "node \<Rightarrow> (chain_event \<Rightarrow> duration) \<Rightarrow>
   (h256 \<Rightarrow> u32 \<Rightarrow> chain_event list \<Rightarrow> decoded_dispute list \<Rightarrow> shadow_verdict) option \<Rightarrow>
   loop_input list \<Rightarrow> collector \<Rightarrow> loop_state" where
  "collector_run node clock shadow [] c = Looping c"
| "collector_run node clock shadow (i # is) c =
     (case collector_step node clock shadow i c of
        Looping c' \<Rightarrow> collector_run node clock shadow is c'
      | stopped \<Rightarrow> stopped)"

end
