(* ===== verification/Collector_Invariant.thy ===== *)
theory Collector_Invariant
  imports Collector_Loop Tracker_Storage
begin

text \<open>
  The invariant of the collector: the storage is well-formed, every payload is of the type its prefix is
  read at, a candidate is stored under its own parachain, and a dispute has an outcome exactly if it has
  a conclusion block. Every handler keeps it, failing or not.
\<close>

section \<open>The invariant\<close>

fun entry_ok :: "prefix_type \<Rightarrow> payload \<Rightarrow> bool" where
  "entry_ok (PrCandidate q) d = (case de_candidate d of None \<Rightarrow> False | Some r \<Rightarrow> cr_parachain_id r = q)"
| "entry_ok (PrDispute q) d =
     (case de_dispute d of None \<Rightarrow> False | Some i \<Rightarrow> di_outcome i = None \<longleftrightarrow> di_concluded i = None)"
| "entry_ok p d = well_typed p d"

lemma entry_ok_typed: "entry_ok p d \<Longrightarrow> well_typed p d"
  by (cases p) (auto split: option.splits)

definition storage_ok :: "storage \<Rightarrow> bool" where
  "storage_ok s \<longleftrightarrow> pf_inv s \<and> (\<forall>p k e. pf_get_prefix p k s = Some e \<longrightarrow> entry_ok p (se_data e))"

definition co_ok :: "collector \<Rightarrow> bool" where
  "co_ok c \<longleftrightarrow> storage_ok (co_storage c)"

lemma storage_ok_typed: "storage_ok s \<Longrightarrow> storage_typed s"
  by (auto simp: storage_ok_def storage_typed_iff intro: entry_ok_typed)

lemma storage_ok_ops:
  assumes "storage_ok s"
  shows "entry_ok p (se_data e) \<Longrightarrow> storage_ok (snd (pf_insert_prefix p k e s))"
    and "entry_ok p (se_data e) \<Longrightarrow> storage_ok (snd (pf_replace_prefixed p k e s))"
    and "storage_ok (snd (pf_delete_prefix p k s))"
proof -
  have s: "pf_inv s" "\<And>p k e. pf_get_prefix p k s = Some e \<Longrightarrow> entry_ok p (se_data e)"
    using assms by (auto simp: storage_ok_def)
  note all = pf_all_ops [OF s(1), where Q = "\<lambda>p e. entry_ok p (se_data e)"]
  show "storage_ok (snd (pf_insert_prefix p k e s))" if e: "entry_ok p (se_data e)"
    unfolding storage_ok_def
    by (intro conjI allI impI pf_inv_ops(1) [OF s(1)], erule all(1) [rotated 2]) (use s(2) e in auto)
  show "storage_ok (snd (pf_replace_prefixed p k e s))" if e: "entry_ok p (se_data e)"
    unfolding storage_ok_def
    by (intro conjI allI impI pf_inv_ops(2) [OF s(1)], erule all(2) [rotated 2]) (use s(2) e in auto)
  show "storage_ok (snd (pf_delete_prefix p k s))"
    unfolding storage_ok_def
    by (intro conjI allI impI pf_inv_ops(3) [OF s(1)], erule all(3) [rotated]) (use s(2) in auto)
qed

section \<open>Every handler keeps it\<close>

abbreviation ok :: "'a handler \<Rightarrow> bool" where
  "ok m \<equiv> keeps (preserving co_ok) m"

lemma ok_same_storage: "(\<And>c. co_storage (snd (m c)) = co_storage c) \<Longrightarrow> ok m"
  by (simp add: keeps_def preserving_def co_ok_def)

lemma ok_set_state: "ok (set_state f)"
  by (rule ok_same_storage) (simp add: set_state_def change_def)

lemma ok_write: "entry_ok p (se_data e) \<Longrightarrow> ok (storage_write p k e)"
  using storage_ok_ops(1)
  by (auto simp: keeps_def preserving_def co_ok_def storage_write_def split: prod.splits sum.splits)
    (metis snd_conv)+

lemma ok_replace: "entry_ok p (se_data e) \<Longrightarrow> ok (storage_replace p k e)"
  by (simp add: keeps_def preserving_def co_ok_def storage_replace_def change_def storage_ok_ops(2))

lemma ok_delete: "ok (storage_delete p k)"
  by (simp add: keeps_def preserving_def co_ok_def storage_delete_def change_def storage_ok_ops(3))

lemma ok_read: "ok (storage_read p k)"
  by (rule ok_same_storage) (simp add: storage_read_def)

lemma ok_decoded: "ok (decoded e dec v)"
  by (auto simp: decoded_def preserve.keeps_intros split: sum.split)

lemma ok_update_state: "ok (update_state n h)"
  by (rule ok_same_storage) (simp add: update_state_def Let_def split: prod.split)

lemma ok_broadcast: "ok (broadcast_event ev)"
  by (rule ok_same_storage) (simp add: broadcast_event_def Let_def split: prod.split)

lemma ok_websocket: "ok (notify_websocket ev)"
  by (rule ok_same_storage) (simp add: notify_websocket_def split: option.split)

text \<open>What was read under a prefix is in order, as long as the invariant holds.\<close>

lemma ok_read_andthen:
  assumes "\<And>m. (\<And>v. m = Some v \<Longrightarrow> entry_ok p (se_data v)) \<Longrightarrow> ok (f m)"
  shows "ok (andthen (storage_read p k) f)"
  unfolding keeps_def preserving_def
proof (intro allI impI)
  fix c assume c: "co_ok c"
  let ?m = "pf_get_prefix p k (co_storage c)"
  have "ok (f ?m)" using c by (intro assms) (auto simp: co_ok_def storage_ok_def)
  with c show "co_ok (snd (andthen (storage_read p k) f c))"
    by (simp add: storage_read_def keeps_def preserving_def)
qed

lemmas ok_intros =
  preserve.keeps_intros ok_set_state ok_write ok_replace ok_delete ok_read ok_decoded ok_update_state
  ok_broadcast ok_websocket

lemma ok_case_prod: "(\<And>x y. ok (f x y)) \<Longrightarrow> ok (case z of (x, y) \<Rightarrow> f x y)"
  by (cases z) simp

lemma onchain_data [simp]: "se_data (onchain n ts d) = d" "se_data (new_persistent t d) = d"
  by (simp_all add: onchain_def new_onchain_def new_persistent_def)

lemma ok_hrmp_channels: "ok (write_hrmp_channels node h n ts)"
  by (auto simp: write_hrmp_channels_def Let_def intro!: ok_intros)

lemma ok_parainherent: "ok (write_parainherent_data node h n ts)"
  by (auto simp: write_parainherent_data_def intro!: ok_intros)

lemma ok_ts: "ok (write_ts h n ts)"
  by (auto simp: write_ts_def intro!: ok_intros)

lemma ok_occupied_cores: "ok (write_occupied_cores node h n ts)"
  by (auto simp: write_occupied_cores_def intro!: ok_intros)

lemma ok_backing_groups: "ok (write_backing_groups node h n ts)"
  by (auto simp: write_backing_groups_def intro!: ok_intros)

lemma ok_core_assignments: "ok (write_core_assignments node h n ts)"
  by (auto simp: write_core_assignments_def intro!: ok_intros)

lemma missing_authors_pure:
  "snd (missing_authors node h r auths p m acc c) = c"
proof (induction node h r auths p m acc arbitrary: c rule: missing_authors.induct)
  case (1 node h r auths p m acc)
  show ?case
  proof (cases "m > p \<and> (\<exists>x. r = Some x) \<and> auths \<noteq> []")
    case True
    then obtain x where x: "r = Some x" by auto
    show ?thesis
      using True x 1
      by (subst missing_authors.simps)
        (auto simp: andthen_def answer_def action_defs Let_def split: option.split prod.split sum.split)
  next
    case False
    then show ?thesis
      using 1 by (subst missing_authors.simps) (auto simp: action_defs split: option.split)
  qed
qed

lemma ok_missing_authors: "ok (missing_authors node h r auths p m acc)"
  by (rule ok_same_storage) (simp only: missing_authors_pure)

lemma ok_authors: "ok (authors_missing_their_slots node h ph)"
  by (auto simp: authors_missing_their_slots_def intro!: ok_intros ok_missing_authors split: option.split)

lemma ok_store_session: "ok (store_session node h n ts i)"
  by (auto simp: store_session_def Let_def intro!: ok_intros)

lemma ok_enter_block: "ok (enter_block node h ts n)"
  by (auto simp: enter_block_def intro!: ok_intros ok_hrmp_channels)

lemma ok_enter_session: "ok (enter_session i)"
  by (auto simp: enter_session_def intro!: ok_intros)

lemma ok_process_new_head: "ok (process_new_head node h header ts n)"
  by (auto simp: process_new_head_def intro!: ok_intros ok_enter_block ok_store_session ok_enter_session
      ok_parainherent ok_ts ok_occupied_cores ok_backing_groups ok_core_assignments ok_authors)

lemma ok_best_head: "ok (process_new_best_head node h header)"
  by (auto simp: process_new_best_head_def intro!: ok_intros ok_process_new_head)

lemma ok_finalized_head: "ok (process_new_finalized_head node h header)"
  by (auto simp: process_new_finalized_head_def intro!: ok_intros ok_process_new_head)

lemma ok_read_or_fetch: "ok (read_or_fetch_header node h)"
  by (auto simp: read_or_fetch_header_def intro!: ok_intros)

lemma ok_find_candidate: "ok (find_candidate_by_hash h)"
  by (auto simp: find_candidate_by_hash_def intro!: ok_intros)

lemma ok_initiators: "ok (extract_dispute_initiators d)"
  by (auto simp: extract_dispute_initiators_def Let_def intro!: ok_intros)

lemma ok_candidate_backed: "ok (candidate_backed node now ev)"
  by (auto simp: candidate_backed_def Let_def cr_parachain_id_def intro!: ok_intros ok_read_or_fetch)

lemma ok_decoded_andthen:
  "(\<And>x. dec (se_data v) = Some x \<Longrightarrow> ok (f x)) \<Longrightarrow> ok (andthen (decoded e dec v) f)"
  by (cases "dec (se_data v)")
    (simp_all add: decoded_def into_inner_def keeps_def andthen_def action_defs preserving_def)

lemma ok_candidate_settled:
  assumes "\<And>i n. ci_parachain_id (mark i n) = ci_parachain_id i"
  shows "ok (candidate_settled mark ws note now ev)"
  unfolding candidate_settled_def
  by (rule ok_read_andthen)
    (use assms in \<open>auto simp: Let_def cr_parachain_id_def intro!: ok_decoded_andthen preserve.keeps_reading
      preserve.keeps_andthen preserve.keeps_done ok_websocket ok_set_state ok_replace split: option.split\<close>)

lemma ok_candidate_change: "ok (process_candidate_change node now ev)"
  by (auto simp: process_candidate_change_def ok_candidate_backed intro!: ok_candidate_settled
      split: candidate_event_type.split)

lemma ok_dispute_initiated: "ok (process_dispute_initiated now d)"
  by (auto simp: process_dispute_initiated_def Let_def cr_parachain_id_def
      intro!: ok_intros ok_find_candidate ok_initiators)

lemma ok_dispute_concluded: "ok (process_dispute_concluded now d outcome)"
  by (auto simp: process_dispute_concluded_def Let_def cr_parachain_id_def
      intro!: ok_intros ok_find_candidate)

lemma ok_chain_event: "ok (process_chain_event node now ev)"
  by (auto simp: process_chain_event_def ok_best_head ok_finalized_head ok_candidate_change
      ok_dispute_initiated ok_dispute_concluded split: chain_event.split)

section \<open>The loop\<close>

definition loop_ok :: "loop_state \<Rightarrow> bool" where
  "loop_ok l = (case l of Looping c \<Rightarrow> co_ok c | Stopped _ c \<Rightarrow> co_ok c | Exited \<Rightarrow> True)"

lemma loop_ok_simps [simp]: "loop_ok (Looping c) = co_ok c" "loop_ok (Stopped sd c) = co_ok c" "loop_ok Exited"
  by (simp_all add: loop_ok_def)

lemma co_ok_terminate [simp]: "co_ok (terminate reason c) = co_ok c"
  by (simp add: co_ok_def terminate_def broadcast_event_priority_def)

lemma loop_ok_events: "co_ok c \<Longrightarrow> loop_ok (process_events node clock evs c)"
proof (induction evs arbitrary: c)
  case (Cons ev evs)
  obtain r c' where ev: "process_chain_event node (clock ev) ev c = (r, c')" by force
  have "co_ok c'" using keepsD [OF ok_chain_event ev] Cons.prems by (simp add: preserving_def)
  with ev Cons.IH show ?case by (auto split: sum.split collector_error.split)
qed simp

lemma loop_ok_step: "co_ok c \<Longrightarrow> loop_ok (collector_step node clock shadow i c)"
  by (auto simp: collector_step_def loop_ok_events split: loop_input.split subscription_event.split collected.split)

lemma loop_ok_run: "co_ok c \<Longrightarrow> loop_ok (collector_run node clock shadow is c)"
proof (induction "is" arbitrary: c)
  case (Cons i "is")
  have "loop_ok (collector_step node clock shadow i c)" by (rule loop_ok_step [OF Cons.prems])
  with Cons.IH show ?case by (cases "collector_step node clock shadow i c") simp_all
qed simp

lemma co_ok_new: "co_storage c = pf_new n \<Longrightarrow> co_ok c"
  by (simp add: co_ok_def storage_ok_def pf_get_prefix_def) (simp add: pf_new_def)

lemma collector_run_storage_ok:
  assumes "co_storage c0 = pf_new max_blocks"
    and "collector_run node clock shadow inputs c0 \<in> {Looping c, Stopped sd c}"
  shows "storage_ok (co_storage c)"
proof -
  have "loop_ok (collector_run node clock shadow inputs c0)" by (rule loop_ok_run [OF co_ok_new [OF assms(1)]])
  with assms(2) show ?thesis by (auto simp: co_ok_def)
qed

end
