(* ===== verification/Collector_Block.thy ===== *)
theory Collector_Block
  imports Collector_Invariant
begin

text \<open>
  What the storage holds after a relay chain head has been processed: everything the tracer expects to
  find for that block.
\<close>

section \<open>Writing at the newest block\<close>

text \<open>Block \<open>n\<close> is the newest indexed block, and the key \<open>h\<close> is indexed at no other.\<close>

definition at_newest :: "h256 \<Rightarrow> u32 \<Rightarrow> storage \<Rightarrow> bool" where
  "at_newest h n s \<longleftrightarrow> pf_inv s \<and> 0 < pf_max_blocks s \<and> newest_block n s \<and> only_at_block n h s"

text \<open>A step that keeps this, and with it the entries of the key \<open>h\<close>, the account keys excepted: the keys of
  a session two sessions ago are deleted under another hash of the same map.\<close>

definition keeps_entries :: "h256 \<Rightarrow> u32 \<Rightarrow> collector \<Rightarrow> collector \<Rightarrow> bool" where
  "keeps_entries h n c c' \<longleftrightarrow>
     (at_newest h n (co_storage c) \<longrightarrow>
        at_newest h n (co_storage c') \<and>
        (\<forall>p v. p \<noteq> PrAccountKeys \<longrightarrow> pf_get_prefix p h (co_storage c) = Some v \<longrightarrow>
           pf_get_prefix p h (co_storage c') = Some v))"

interpretation entries: action_preorder "keeps_entries h n"
  by unfold_locales (auto simp: keeps_entries_def)

lemma at_newest_inv: "at_newest h n s \<Longrightarrow> pf_inv s"
  by (simp add: at_newest_def)

lemma pf_ephemeral_delete [simp]:
  "pf_ephemeral (snd (pf_delete_prefix p k s)) = pf_ephemeral s"
  "pf_max_blocks (snd (pf_delete_prefix p k s)) = pf_max_blocks s"
  by (auto simp: pf_delete_prefix_def split: option.split)

lemma index_with_subset:
  assumes "bt_wf (pf_ephemeral s)" "(b, ks) \<in> set (pf_index_with k e s)"
  shows "b = entry_block e \<or> (b, ks) \<in> set (pf_ephemeral s)"
  using assms by (auto simp: pf_index_with_def bt_update_default_def bt.entry_put split: if_splits)

lemma pruned_index_subset:
  "bt_wf (pf_ephemeral s) \<Longrightarrow> set (pf_ephemeral (pf_prune s)) \<subseteq> set (pf_ephemeral s)"
  by (auto simp: pf_prune_ephemeral dest: list.set_sel(2) [rotated])

lemma insert_index_subset:
  assumes "pf_inv s" "(b, ks) \<in> set (pf_ephemeral (snd (pf_insert_prefix p k e s)))"
  shows "b = entry_block e \<or> (b, ks) \<in> set (pf_ephemeral s)"
proof (cases "pf_get_prefix p k s")
  case None
  have wf: "bt_wf (pf_index_with k e s)" using assms(1) by (simp add: pf_index_with_def pf_inv_def)
  have "(b, ks) \<in> set (pf_index_with k e s)"
    using assms None pruned_index_subset [of "pf_insert_unpruned p k e s"] wf
    by (auto simp: pf_insert_prefix_eq)
  with assms(1) show ?thesis by (intro index_with_subset) (simp_all add: pf_inv_def)
next
  case (Some v)
  with assms show ?thesis by (simp add: pf_insert_prefix_eq)
qed

lemma insert_max_blocks [simp]:
  "pf_inv s \<Longrightarrow> pf_max_blocks (snd (pf_insert_prefix p k e s)) = pf_max_blocks s"
  by (simp add: pf_insert_prefix_eq)

lemma at_newest_insert:
  assumes "at_newest h n s" "entry_block e = n"
  shows "at_newest h n (snd (pf_insert_prefix p k e s))"
proof -
  have s: "pf_inv s" using assms(1) by (simp add: at_newest_def)
  have "newest_block n (snd (pf_insert_prefix p k e s))"
    using insert_index_subset [OF s] assms by (fastforce simp: newest_block_def at_newest_def)
  moreover have "only_at_block n h (snd (pf_insert_prefix p k e s))"
    using insert_index_subset [OF s] assms by (fastforce simp: only_at_block_def at_newest_def)
  ultimately show ?thesis
    using assms(1) pf_inv_ops(1) [OF s] s by (simp add: at_newest_def)
qed

lemma get_insert_newest:
  assumes "at_newest h n s" "entry_block e = n"
  shows "pf_get_prefix q h s = Some v \<Longrightarrow> pf_get_prefix q h (snd (pf_insert_prefix p k e s)) = Some v"
    and "fst (pf_insert_prefix p h e s) = Inr () \<Longrightarrow> pf_get_prefix p h (snd (pf_insert_prefix p h e s)) = Some e"
proof -
  have s: "pf_inv s" "0 < pf_max_blocks s" "newest_block (entry_block e) s" "only_at_block (entry_block e) h s"
    using assms by (simp_all add: at_newest_def)
  have ev: "h \<notin> pf_evicted k e s" for k using newest_not_pf_evicted [OF s] .
  show "pf_get_prefix q h (snd (pf_insert_prefix p k e s)) = Some v" if "pf_get_prefix q h s = Some v"
    using that ev pf_get_insert [OF s(1), of p k q h e]
    by (cases "pf_get_prefix p k s") (auto simp: pf_insert_prefix_eq [OF s(1)] pf_get_with_prefix [OF s(1)])
  show "pf_get_prefix p h (snd (pf_insert_prefix p h e s)) = Some e" if "fst (pf_insert_prefix p h e s) = Inr ()"
    using that ev pf_get_insert [OF s(1), of p h p h e]
    by (cases "pf_get_prefix p h s") (auto simp: pf_insert_prefix_eq [OF s(1)])
qed

lemma storage_write_storage: "co_storage (snd (storage_write p k e c)) = snd (pf_insert_prefix p k e (co_storage c))"
  by (simp add: storage_write_def split: prod.split sum.split)

lemma entries_write: "entry_block e = n \<Longrightarrow> keeps (keeps_entries h n) (storage_write p k e)"
  by (simp add: keeps_def keeps_entries_def storage_write_storage at_newest_insert get_insert_newest(1))

lemma entries_same_storage: "(\<And>c. co_storage (snd (m c)) = co_storage c) \<Longrightarrow> keeps (keeps_entries h n) m"
  by (simp add: keeps_def keeps_entries_def)

lemma entries_delete: "keeps (keeps_entries h n) (storage_delete PrAccountKeys k)"
proof -
  have "at_newest h n (snd (pf_delete_prefix p k s))" if "at_newest h n s" for p s
    using that pf_inv_ops(3) [of s] by (auto simp: at_newest_def newest_block_def only_at_block_def)
  moreover have "pf_get_prefix q h (snd (pf_delete_prefix PrAccountKeys k s)) = pf_get_prefix q h s"
    if "at_newest h n s" "q \<noteq> PrAccountKeys" for q s
    using pfx.del_get [OF at_newest_inv [OF that(1)], of "(q, h)" "(PrAccountKeys, k)"] that(2)
    by (simp add: pf_del_def pf_read_def)
  ultimately show ?thesis
    unfolding keeps_def keeps_entries_def storage_delete_def change_def by simp
qed

lemma onchain_block [simp]: "entry_block (onchain n ts d) = n"
  by (simp add: onchain_def)

lemma entries_set_state: "keeps (keeps_entries h n) (set_state f)"
  by (rule entries_same_storage) (simp add: set_state_def change_def)

lemma entries_read: "keeps (keeps_entries h n) (storage_read p k)"
  by (rule entries_same_storage) (simp add: storage_read_def)

lemma entries_broadcast: "keeps (keeps_entries h n) (broadcast_event ev)"
  by (rule entries_same_storage) (simp add: broadcast_event_def Let_def split: prod.split)

lemma entries_update_state: "keeps (keeps_entries h n) (update_state m k)"
  by (rule entries_same_storage) (simp add: update_state_def Let_def split: prod.split)

lemmas entries_intros =
  entries.keeps_intros entries_write entries_delete entries_set_state entries_read entries_broadcast
  entries_update_state

lemma entries_enter_block: "keeps (keeps_entries h n) (enter_block node h ts n)"
  by (auto simp: enter_block_def write_hrmp_channels_def Let_def intro!: entries_intros)

lemma entries_store_session: "keeps (keeps_entries h n) (store_session node k n ts i)"
  by (auto simp: store_session_def Let_def intro!: entries_intros)

lemma entries_enter_session: "keeps (keeps_entries h n) (enter_session i)"
  by (auto simp: enter_session_def intro!: entries_intros)

lemma entries_missing_authors: "keeps (keeps_entries h n) (missing_authors node k r auths p m acc)"
  by (rule entries_same_storage) (simp only: missing_authors_pure)

lemma entries_authors: "keeps (keeps_entries h n) (authors_missing_their_slots node k ph)"
  by (auto simp: authors_missing_their_slots_def intro!: entries_intros entries_missing_authors split: option.split)

lemma storage_write_success:
  assumes "storage_write p h e c = (Inr (), c')" "at_newest h n (co_storage c)" "entry_block e = n"
  shows "pf_get_prefix p h (co_storage c') = Some e"
proof -
  have "fst (pf_insert_prefix p h e (co_storage c)) = Inr ()"
    using assms(1) by (auto simp: storage_write_def split: prod.splits sum.splits)
  with get_insert_newest(2) [OF assms(2,3)] storage_write_storage [of p h e c] assms(1) show ?thesis by simp
qed

section \<open>The block is saved\<close>

definition saved_at :: "h256 \<Rightarrow> u32 \<Rightarrow> timestamp \<Rightarrow> prefix_type \<Rightarrow> payload \<Rightarrow> storage \<Rightarrow> bool" where
  "saved_at h n ts p d s \<longleftrightarrow> pf_get_prefix p h s = Some (onchain n (from_secs ts) d)"

text \<open>One write, and everything written before it.\<close>

lemma write_saves:
  assumes "storage_write p h (onchain n (from_secs ts) d) c = (Inr (), c')" "at_newest h n (co_storage c)"
  shows "saved_at h n ts p d (co_storage c')" "at_newest h n (co_storage c')"
    and "q \<noteq> PrAccountKeys \<Longrightarrow> saved_at h n ts q d' (co_storage c) \<Longrightarrow> saved_at h n ts q d' (co_storage c')"
  using storage_write_success [OF assms onchain_block]
    keepsD [OF entries_write [OF onchain_block] assms(1), of h] assms(2)
  by (simp_all add: saved_at_def keeps_entries_def)

lemma step_saves:
  assumes "keeps (keeps_entries h n) m" "m c = (r, c')" "at_newest h n (co_storage c)"
  shows "at_newest h n (co_storage c')"
    and "q \<noteq> PrAccountKeys \<Longrightarrow> saved_at h n ts q d (co_storage c) \<Longrightarrow> saved_at h n ts q d (co_storage c')"
  using keepsD [OF assms(1,2)] assms(3) by (simp_all add: saved_at_def keeps_entries_def)

lemma process_new_head_saves:
  assumes run: "process_new_head node h header ts n c = (Inr (), c')"
    and newest: "at_newest h n (co_storage c)"
  obtains inherent cores groups queue where
    "rpc_parainherent_data node h = Some inherent" "rpc_occupied_cores node h = Some cores"
    "rpc_backing_groups node h = Some groups" "rpc_claim_queue node h = Some queue"
    "saved_at h n ts PrRelayBlockHeader (PlHeader header) (co_storage c')"
    "saved_at h n ts PrInherentData (PlInherent inherent) (co_storage c')"
    "saved_at h n ts PrTimestamp (PlTimestamp ts) (co_storage c')"
    "saved_at h n ts PrOccupiedCores (PlCores cores) (co_storage c')"
    "saved_at h n ts PrBackingGroups (PlGroups groups) (co_storage c')"
    "saved_at h n ts PrCoreAssignments (PlClaimQueue queue) (co_storage c')"
    "at_newest h n (co_storage c')"
proof -
  obtain c1 c2 i c4 c5 where
      c1: "enter_block node h ts n c = (Inr (), c1)"
    and c2: "storage_write PrRelayBlockHeader h (onchain n (from_secs ts) (PlHeader header)) c1 = (Inr (), c2)"
    and c4: "store_session node h n ts i c2 = (Inr (), c4)"
    and c5: "enter_session i c4 = (Inr (), c5)"
    and rest: "andthen (write_parainherent_data node h n ts) (\<lambda>_.
     andthen (write_ts h n ts) (\<lambda>_.
     andthen (write_occupied_cores node h n ts) (\<lambda>_.
     andthen (write_backing_groups node h n ts) (\<lambda>_.
     andthen (write_core_assignments node h n ts) (\<lambda>_.
     andthen (authors_missing_their_slots node h (hd_parent_hash header)) (\<lambda>authors.
       set_state (\<lambda>s. s\<lparr>cs_authors_missing := cs_authors_missing s @ authors\<rparr>))))))) c5 = (Inr (), c')"
    using run unfolding process_new_head_def
    by (auto elim!: andthen_InrE answer_InrE)
  from rest obtain inherent c6 c7 cores c8 groups c9 queue c10 authors c11 where
      a6: "rpc_parainherent_data node h = Some inherent"
    and c6: "storage_write PrInherentData h (onchain n (from_secs ts) (PlInherent inherent)) c5 = (Inr (), c6)"
    and c7: "storage_write PrTimestamp h (onchain n (from_secs ts) (PlTimestamp ts)) c6 = (Inr (), c7)"
    and a8: "rpc_occupied_cores node h = Some cores"
    and c8: "storage_write PrOccupiedCores h (onchain n (from_secs ts) (PlCores cores)) c7 = (Inr (), c8)"
    and a9: "rpc_backing_groups node h = Some groups"
    and c9: "storage_write PrBackingGroups h (onchain n (from_secs ts) (PlGroups groups)) c8 = (Inr (), c9)"
    and a10: "rpc_claim_queue node h = Some queue"
    and c10: "storage_write PrCoreAssignments h (onchain n (from_secs ts) (PlClaimQueue queue)) c9 = (Inr (), c10)"
    and c11: "authors_missing_their_slots node h (hd_parent_hash header) c10 = (Inr authors, c11)"
    and c12: "set_state (\<lambda>s. s\<lparr>cs_authors_missing := cs_authors_missing s @ authors\<rparr>) c11 = (Inr (), c')"
    unfolding write_parainherent_data_def write_ts_def write_occupied_cores_def write_backing_groups_def
      write_core_assignments_def
    by (auto elim!: andthen_InrE answer_InrE)
  note s1 = step_saves [OF entries_enter_block c1 newest]
  note s2 = write_saves [OF c2 s1(1)]
  note s4 = step_saves [OF entries_store_session c4 s2(2)]
  note s5 = step_saves [OF entries_enter_session c5 s4(1)]
  note s6 = write_saves [OF c6 s5(1)]
  note s7 = write_saves [OF c7 s6(2)]
  note s8 = write_saves [OF c8 s7(2)]
  note s9 = write_saves [OF c9 s8(2)]
  note s10 = write_saves [OF c10 s9(2)]
  note s11 = step_saves [OF entries_authors c11 s10(2)]
  note s12 = step_saves [OF entries_set_state c12 s11(1)]
  show thesis
    by (rule that [OF a6 a8 a9 a10])
      (simp_all add: s2 s4 s5 s6 s7 s8 s9 s10 s11 s12)
qed

end
