(* ===== verification/Collector_Samples.thy ===== *)
theory Collector_Samples
  imports Collector_Block Samples "HOL-Library.Code_Target_Nat"
begin

text \<open>
  A node that answers every request, and a collector with one subscriber and one broadcast channel, to
  evaluate the handlers of the collector on.
\<close>

definition sample_node :: node where
  "sample_node =
     \<lparr>rpc_block_timestamp = (\<lambda>_. Some 12),
      rpc_block_head = (\<lambda>h. Some (Some \<lparr>hd_number = 4, hd_parent_hash = 0\<rparr>)),
      rpc_session_index = (\<lambda>_. Some 3),
      rpc_session_account_keys = (\<lambda>_ _. Some (Some [11, 12, 13])),
      rpc_parainherent_data =
        (\<lambda>_. Some \<lparr>ih_bitfields = [[True, False], [True, True]], ih_disputes = []\<rparr>),
      rpc_occupied_cores = (\<lambda>_. Some [CoreOccupied, CoreFree]),
      rpc_backing_groups = (\<lambda>_. Some [[0, 1], [2]]),
      rpc_claim_queue = (\<lambda>_. Some [(0, [100]), (1, [200])]),
      rpc_hrmp_channels = (\<lambda>_ paras. Some (map (\<lambda>p. (p, [], [])) paras)),
      rpc_babe_current_slot = (\<lambda>h. Some (Some (if h = 1 then 21 else 18))),
      rpc_babe_randomness = (\<lambda>_. Some (Some 0)),
      rpc_babe_authorities = (\<lambda>_. Some [([1], 1), ([2], 1)]),
      rpc_babe_key_owner = (\<lambda>_ a. Some (if a = [1] then Some 11 else Some 12)),
      rpc_candidate_events = (\<lambda>_. Some []),
      rpc_disputes = (\<lambda>_. Some []),
      node_hash = (\<lambda>bs. 1000 + ucast (last bs)),
      node_slot_random = (\<lambda>_ slot. unat slot)\<rparr>"

definition sample_header :: header where
  "sample_header = \<lparr>hd_number = 5, hd_parent_hash = 0\<rparr>"

definition sample_collector :: collector where
  "sample_collector = subscribe_broadcast_updates (subscribe_parachain_updates 100 (collector_new (Some 4) Best True 10))"

definition sample_head :: "unit handler" where
  "sample_head = process_new_head sample_node 1 sample_header 12 5"

definition sample_after :: collector where
  "sample_after = snd (sample_head sample_collector)"

lemma sample_head_done: "process_new_head sample_node 1 sample_header 12 5 sample_collector = (Inr (), sample_after)"
proof -
  have "fst (sample_head sample_collector) = Inr ()" by code_simp
  then show ?thesis by (simp add: sample_after_def sample_head_def prod_eq_iff)
qed

lemma sample_storage_new: "co_storage sample_collector = pf_new 4"
  by (simp add: sample_collector_def subscribe_broadcast_updates_def subscribe_parachain_updates_def
      collector_new_def)

lemma sample_collector_ok: "co_ok sample_collector"
  using co_ok_new sample_storage_new by blast

lemma at_newest_pf_new: "0 < max_blocks \<Longrightarrow> at_newest h n (pf_new max_blocks)"
  by (simp add: at_newest_def newest_block_def only_at_block_def) (simp add: pf_new_def)

lemma sample_newest: "at_newest 1 5 (co_storage sample_collector)"
  by (simp add: sample_storage_new at_newest_pf_new)

end
