(* ===== verification/Tracker_Total.thy ===== *)
theory Tracker_Total
  imports Tracker_Invariant
begin

text \<open>
  What a relay chain block adds to each core, and that a block whose data the collector has saved is
  processed without a panic.
\<close>

section \<open>Backed candidates and skipped slots\<close>

text \<open>An idle core misses a candidate: none is tracked there that could still fill the slot, and no fork at
  this height has backed (or, with synchronous backing, included) one.\<close>

definition misses_candidate :: "u32 \<Rightarrow> subxt_tracker \<Rightarrow> bool" where
  "misses_candidate core t \<longleftrightarrow>
     (case tk_backing_type t of
        Sync \<Rightarrow> \<not> has_backed_or_included_candidate core t
      | Async \<Rightarrow> \<not> has_backed_candidate core t)"

lemma idle_core_misses:
  "idle_core core t =
     (if misses_candidate core t then t\<lparr>tk_candidates := hm_push core None (tk_candidates t)\<rparr> else t)"
  by (simp add: idle_core_def misses_candidate_def split: backing_type.split)

lemma slots_of_idle:
  "slots_of core' (idle_core core t) =
     slots_of core' t @ (if core' = core \<and> misses_candidate core t then [None] else [])"
  by (simp add: idle_core_misses slots_of_push)

lemma misses_candidate_idle:
  "core' \<noteq> core \<Longrightarrow> misses_candidate core' (idle_core core t) = misses_candidate core' t"
  by (simp add: idle_core_misses misses_candidate_def has_backed_or_included_candidate_def
      has_backed_candidate_def map_of_hm_push split: backing_type.split)

lemma slots_of_idle_cores:
  "distinct cs \<Longrightarrow> slots_of core (fold idle_core cs t) =
     slots_of core t @ (if core \<in> set cs \<and> misses_candidate core t then [None] else [])"
proof (induction cs arbitrary: t)
  case (Cons c cs)
  then show ?case by (cases "core = c") (simp_all add: slots_of_idle misses_candidate_idle)
qed simp

lemma slots_of_back:
  "slots_of core (back_candidate n b t) =
     slots_of core t @ (if bc_core_idx b = core then [Some (block_info_new (bc_candidate_hash b) core)] else [])"
proof -
  have "slots_of core (back_candidate n b t) = slots_of core (t\<lparr>tk_candidates :=
      hm_push (bc_core_idx b) (Some (block_info_new (bc_candidate_hash b) (bc_core_idx b))) (tk_candidates t)\<rparr>)"
    by (simp add: back_candidate_def Let_def slots_of_def)
  then show ?thesis by (simp add: slots_of_push)
qed

lemma slots_of_back_candidates:
  "slots_of core (fold (back_candidate n) bs t) =
     slots_of core t @
     map (\<lambda>b. Some (block_info_new (bc_candidate_hash b) core)) (filter (\<lambda>b. bc_core_idx b = core) bs)"
  by (induction bs arbitrary: t) (simp_all add: slots_of_back)

lemma back_candidate_fork:
  "tk_relay_forks t \<noteq> [] \<Longrightarrow>
     tk_relay_forks (back_candidate n b t) \<noteq> [] \<and>
     (\<exists>f \<in> set (tk_relay_forks (back_candidate n b t)). ft_backed_candidate f \<noteq> None)"
  by (cases "tk_relay_forks t" rule: rev_cases) (auto simp: back_candidate_def Let_def)

lemma back_candidates_fork:
  assumes "tk_relay_forks t \<noteq> []" "bs \<noteq> []"
  shows "\<exists>f \<in> set (tk_relay_forks (fold (back_candidate n) bs t)). ft_backed_candidate f \<noteq> None"
proof -
  obtain b bs' where bs: "bs = bs' @ [b]" using assms(2) by (cases bs rule: rev_cases) auto
  have "tk_relay_forks (fold (back_candidate n) bs' t) \<noteq> []"
    using fold_invariant_set [where P = "\<lambda>t. tk_relay_forks t \<noteq> []"] assms(1) back_candidate_fork by metis
  then show ?thesis using back_candidate_fork [of "fold (back_candidate n) bs' t"] by (simp add: bs)
qed

lemma fork_backed_no_miss:
  "\<exists>f \<in> set (tk_relay_forks t). ft_backed_candidate f \<noteq> None \<Longrightarrow> \<not> misses_candidate core t"
  by (auto simp: misses_candidate_def has_backed_or_included_candidate_def has_backed_candidate_def
      list_ex_iff split: backing_type.split)

text \<open>C4: What a relay chain block adds to a core: the candidates of the parachain it backs there, in order,
  each in state Backed; and a skipped slot exactly if the block backs no candidate of the parachain on
  any core, the core is assigned to the parachain and misses a candidate. Nothing else.\<close>

theorem set_backed_candidates_exact:
  assumes "hm_wf (tk_cores t)" "tk_relay_forks t \<noteq> []"
  shows "slots_of core (set_backed_candidates n bs t) =
    slots_of core t @
    map (\<lambda>b. Some (block_info_new (bc_candidate_hash b) core))
      (filter (\<lambda>b. bc_para_id b = tk_para_id t \<and> bc_core_idx b = core) bs) @
    (if (\<forall>b \<in> set bs. bc_para_id b \<noteq> tk_para_id t) \<and> core \<in> fst ` set (tk_cores t) \<and> misses_candidate core t
     then [None] else [])"
proof -
  let ?own = "filter (\<lambda>v. bc_para_id v = tk_para_id t) bs"
  let ?t = "fold (back_candidate n) ?own t"
  let ?idle = "filter (\<lambda>c. c \<notin> set (map bc_core_idx ?own)) (map fst (tk_cores ?t))"
  have cores: "tk_cores ?t = tk_cores t"
    using frame.fold_le [of ?own "back_candidate n" t] frame_back by (simp add: relay_frame_def)
  have "slots_of core (set_backed_candidates n bs t) =
      slots_of core ?t @ (if core \<in> set ?idle \<and> misses_candidate core ?t then [None] else [])"
    unfolding set_backed_candidates_def Let_def
    by (rule slots_of_idle_cores) (use assms(1) cores in \<open>simp add: hm_wf_def\<close>)
  moreover have "(core \<in> set ?idle \<and> misses_candidate core ?t) \<longleftrightarrow>
      (?own = [] \<and> core \<in> fst ` set (tk_cores t) \<and> misses_candidate core t)"
    using back_candidates_fork [OF assms(2), of ?own n] fork_backed_no_miss [of ?t core] cores
    by (cases "?own = []") auto
  ultimately show ?thesis
    by (simp add: slots_of_back_candidates filter_empty_conv conj_commute)
qed

theorem set_backed_candidates_exact_witness:
  "slots_of 3 (set_backed_candidates 9 []
     ((tracker_new 100)\<lparr>tk_cores := [(3, [100])],
        tk_relay_forks := [\<lparr>ft_relay_hash = 1, ft_relay_number = 9, ft_backed_candidate = None,
                            ft_included_candidate = None\<rparr>]\<rparr>)) = [None]"
  by (subst set_backed_candidates_exact)
    (simp_all add: hm_wf_def slots_of_def tracker_new_def misses_candidate_def
      has_backed_or_included_candidate_def)

section \<open>No panic\<close>

lemma set_relay_block_total:
  assumes "storage_typed (ts_storage st)" "pf_get_prefix PrTimestamp h (ts_storage st) \<noteq> None"
  shows "\<exists>t'. set_relay_block h n st t = Inr t'"
  using ts_reads_total(3,6) [OF assms(1), of h] assms(2) by (fastforce simp: set_relay_block_def Let_def)

lemma set_cores_total:
  assumes "storage_typed (ts_storage st)" "pf_get_prefix PrCoreAssignments h (ts_storage st) \<noteq> None"
  shows "\<exists>t'. set_cores h st t = Inr t'"
  using ts_reads_total(9) [OF assms(1), of h] assms(2) by (fastforce simp: set_cores_def)

lemma validators_indices_total:
  assumes "storage_typed (ts_storage st)" "pf_get_prefix PrBackingGroups h (ts_storage st) \<noteq> None"
  shows "\<exists>vs. validators_indices h st = Inr vs"
  using ts_reads_total(8) [OF assms(1), of h] assms(2) by (fastforce simp: validators_indices_def)

lemma availability_bits_total:
  assumes "\<forall>v \<in> set bs. n \<le> length v" "unat core < n"
  shows "\<exists>k. extract_availability_bits_count bs core = Inr k"
  using assms by (subst extract_availability_bits_count_def, subst availability_bits_rmap)
    (auto simp: u32_as_usize_def)

lemma rmap_total: "(\<And>x. x \<in> set xs \<Longrightarrow> \<exists>y. f x = Inr y) \<Longrightarrow> \<exists>ys. rmap f xs = Inr ys"
  by (induction xs) force+

lemma set_included_total:
  assumes "cores_wf t" "tk_relay_forks t \<noteq> []" "\<exists>vs. validators_indices h st = Inr vs"
    and "\<forall>v \<in> set bs. n \<le> length v" "\<forall>(core, _) \<in> set (tk_candidates t). unat core < n"
  shows "\<exists>t'. set_included_candidates h incl bs st t = Inr t'"
proof -
  from assms(3) obtain vs where vs: "validators_indices h st = Inr vs" by blast
  let ?m = "usize_as_u32 (length vs)"
  have slot: "\<exists>s'. include_slot incl bs ?m s = Inr s'"
    if mem: "(core, v) \<in> set (tk_candidates t)" "s \<in> set v" for core v s
  proof -
    have "map_of (tk_candidates t) core = Some v"
      using mem(1) assms(1) by (simp add: cores_wf_def hm_wf_def)
    then have "bi_assigned_core c = core" if "s = Some c" for c
      using assms(1) mem(2) that by (auto simp: cores_wf_def)
    moreover have "unat core < n" using assms(5) mem(1) by auto
    ultimately show ?thesis
      using availability_bits_total [OF assms(4), of core]
      by (cases s) (auto simp: include_slot_def include_candidate_def)
  qed
  have "\<exists>y. (\<lambda>(core, v). rbind (rmap (include_slot incl bs ?m) v) (\<lambda>v'. Inr (core, v'))) x = Inr y"
    if x: "x \<in> set (tk_candidates t)" for x
  proof -
    obtain core v where cv: "x = (core, v)" by force
    with x slot have "\<exists>v'. rmap (include_slot incl bs ?m) v = Inr v'" by (intro rmap_total) blast
    with cv show ?thesis by auto
  qed
  then have "\<exists>m. rmap (\<lambda>(core, v). rbind (rmap (include_slot incl bs ?m) v) (\<lambda>v'. Inr (core, v')))
      (tk_candidates t) = Inr m" by (rule rmap_total)
  with vs assms(2) show ?thesis by (auto simp: set_included_candidates_def Let_def)
qed

lemma rfold_total_simple:
  "(\<And>x s. x \<in> set xs \<Longrightarrow> \<exists>s'. f x s = Inr s') \<Longrightarrow> \<exists>s'. rfold f xs s = Inr s'"
  using rfold_total [where P = "\<lambda>_. True" and f = f] by simp

lemma set_core_assignment_total:
  assumes "storage_typed (ts_storage st)" "pf_get_prefix PrOccupiedCores h (ts_storage st) \<noteq> None"
    and "\<And>cs. ts_occupied_cores h st = Inr (Some cs) \<Longrightarrow> n \<le> length cs"
    and "\<forall>core \<in> fst ` set (tk_cores t). unat core < n"
  shows "\<exists>t'. set_core_assignment h st t = Inr t'"
proof -
  obtain cs where cs: "ts_occupied_cores h st = Inr (Some cs)"
    using ts_reads_total(7) [OF assms(1), of h] assms(2) by auto
  have "\<exists>s'. assign_core h st core s = Inr s'" if "core \<in> fst ` set (tk_cores t)" for core s
  proof -
    have "u32_as_usize core < length cs" using that assms(3) [OF cs] assms(4) by (force simp: u32_as_usize_def)
    with cs show ?thesis
      by (cases "current_candidate core s") (auto simp: assign_core_def index_of_def get_index_def)
  qed
  then show ?thesis
    unfolding set_core_assignment_def by (intro rfold_total_simple) auto
qed

lemma set_pending_total:
  assumes "\<exists>vs. validators_indices h st = Inr vs" "\<forall>v \<in> set bs. n \<le> length v"
    and "\<forall>core \<in> fst ` set (tk_cores t). unat core < n"
  shows "\<exists>t'. set_pending_availability h bs st t = Inr t'"
proof -
  have "\<exists>s'. pend_core bs m core s = Inr s'" if "core \<in> set (map fst (tk_cores t))" for core s m
  proof -
    have "unat core < n" using assms(3) that by fastforce
    then obtain k where "extract_availability_bits_count bs core = Inr k"
      using availability_bits_total [OF assms(2)] by blast
    then show ?thesis by (simp add: pend_core_def)
  qed
  then have "\<exists>t'. rfold (pend_core bs m) (map fst (tk_cores t)) t = Inr t'" for m
    by (intro rfold_total_simple) blast
  with assms(1) show ?thesis by (auto simp: set_pending_availability_def)
qed

lemma track_dispute_total:
  assumes "storage_typed (ts_storage st)"
    and "\<And>h d. ts_dispute h st = Inr (Some d) \<Longrightarrow> di_outcome d \<noteq> None \<Longrightarrow> di_concluded d \<noteq> None"
  shows "\<exists>s'. track_dispute ss58 ds st d s = Inr s'"
proof (cases "List.find (\<lambda>v. ds_candidate_hash v = sd_candidate_hash (di_dispute d)) ds")
  case info: (Some info)
  obtain m where m: "ts_dispute (ds_candidate_hash info) st = Inr m" using ts_reads_total(4) [OF assms(1)] by blast
  obtain k1 where k1: "ts_session_keys (ds_session info) st = Inr k1" using ts_reads_total(1) [OF assms(1)] by blast
  show ?thesis
  proof (cases m)
    case stored: (Some stored)
    obtain k2 where k2: "ts_session_keys (di_session_index stored) st = Inr k2"
      using ts_reads_total(1) [OF assms(1)] by blast
    show ?thesis
    proof (cases "di_outcome stored")
      case (Some out)
      then obtain c where "di_concluded stored = Some c" using assms(2) m stored by force
      moreover obtain x where "disputes_tracker_new ss58 info out (di_initiated stored)
          (di_initiator_indices stored) c k1 k2 = Inr x" using disputes_tracker_total by blast
      ultimately show ?thesis using info m k1 k2 stored Some by (simp add: track_dispute_def)
    qed (simp add: track_dispute_def info m stored)
  qed (simp add: track_dispute_def info m)
qed (simp add: track_dispute_def)

lemma set_disputes_total:
  assumes "storage_typed (ts_storage st)"
    and "\<And>h d. ts_dispute h st = Inr (Some d) \<Longrightarrow> di_outcome d \<noteq> None \<Longrightarrow> di_concluded d \<noteq> None"
  shows "\<exists>t'. set_disputes ss58 ds concl st t = Inr t'"
  unfolding set_disputes_def by (rule rfold_total_simple) (rule track_dispute_total [OF assms])

lemma set_hrmp_channels_total:
  "storage_typed (ts_storage st) \<Longrightarrow> \<exists>t'. set_hrmp_channels h st t = Inr t'"
  using ts_reads_total(10) [of st h] by (fastforce simp: set_hrmp_channels_def Let_def split: prod.split)

lemma inject_block_total:
  assumes "tracker_reachable para_id t" "storage_typed (ts_storage st)"
    and saved: "\<forall>p \<in> {PrTimestamp, PrCoreAssignments, PrOccupiedCores, PrBackingGroups}.
      pf_get_prefix p h (ts_storage st) \<noteq> None"
    and bits: "\<And>ih. ts_inherent_data h st = Inr (Some ih) \<Longrightarrow> \<forall>v \<in> set (ih_bitfields ih). n \<le> length v"
    and occupied: "\<And>cs. ts_occupied_cores h st = Inr (Some cs) \<Longrightarrow> n \<le> length cs"
    and assigned: "\<And>q. ts_core_assignments h st = Inr (Some q) \<Longrightarrow> \<forall>(core, _) \<in> set q. unat core < n"
    and tracked: "\<forall>(core, _) \<in> set (tk_candidates t). unat core < n"
    and concluded: "\<And>h d. ts_dispute h st = Inr (Some d) \<Longrightarrow> di_outcome d \<noteq> None \<Longrightarrow> di_concluded d \<noteq> None"
  shows "\<exists>t'. inject_block ss58 h ev st t = Inr t'"
proof -
  let ?n = "nh_relay_parent_number ev"
  obtain m where m: "ts_inherent_data h st = Inr m" using ts_reads_total(2) [OF assms(2)] by blast
  show ?thesis
  proof (cases m)
    case (Some ih)
    obtain t1 where t1: "set_relay_block h ?n st t = Inr t1"
      using set_relay_block_total [OF assms(2)] saved by blast
    obtain t2 where t2: "set_cores h st (set_forks h ?n t1) = Inr t2"
      using set_cores_total [OF assms(2)] saved by blast
    from set_cores_fields [OF t2] obtain q where q: "ts_core_assignments h st = Inr (Some q)"
      and t2q: "t2 = set_forks h ?n t1\<lparr>tk_cores := hm_collect (filter (\<lambda>(_, ids). tk_para_id (set_forks h ?n t1) \<in> set ids) q)\<rparr>"
      by blast
    have cores: "\<forall>core \<in> fst ` set (tk_cores t2). unat core < n"
      using assigned [OF q] by (auto simp: t2q dest!: set_hm_collect)
    have cands: "tk_candidates t2 = tk_candidates t" "tk_relay_forks t2 \<noteq> []"
      using set_relay_block_candidates [OF t1] by (simp_all add: t2q set_forks_def)
    have wf: "cores_wf t2"
      using reachable_inv [OF assms(1)] cands(1) by (auto simp: tracker_inv_def cores_wf_def t2q)
    have vs: "\<exists>vs. validators_indices h st = Inr vs" using validators_indices_total [OF assms(2)] saved by blast
    have bits': "\<forall>v \<in> set (ih_bitfields ih). n \<le> length v" using bits m Some by simp
    obtain t3 where t3: "set_included_candidates h (nh_candidates_included ev) (ih_bitfields ih) st t2 = Inr t3"
      using set_included_total [OF wf cands(2) vs bits'] tracked cands(1) by auto
    let ?t3 = "set_backed_candidates ?n (nh_candidates_backed ev) t3"
    have c3: "tk_cores ?t3 = tk_cores t2"
      using frame_backed quiet_included [OF t3] by (simp add: quiet_def relay_frame_def)
    obtain t4 where t4: "set_core_assignment h st ?t3 = Inr t4"
      using set_core_assignment_total [OF assms(2) _ occupied, of h ?t3] saved cores c3 by auto
    obtain t5 where t5: "set_disputes ss58 (ih_disputes ih) (nh_disputes_concluded ev) st t4 = Inr t5"
      using set_disputes_total [OF assms(2)] concluded by blast
    obtain t6 where t6: "set_hrmp_channels h st t5 = Inr t6" using set_hrmp_channels_total [OF assms(2)] by blast
    have "tk_cores t6 = tk_cores t2"
      using quiet_core_assignment [OF t4] quiet_disputes [OF t5] quiet_hrmp [OF t6] c3
      by (simp add: quiet_def relay_frame_def)
    then obtain t7 where t7: "set_pending_availability h (ih_bitfields ih) st t6 = Inr t7"
      using set_pending_total [OF vs bits', of t6] cores by auto
    show ?thesis
      by (simp add: inject_block_def m Some Let_def t1 t2 t3 t4 t5 t6 t7)
  qed (simp add: inject_block_def m)
qed



end
