(* ===== verification/Pipeline.thy ===== *)
theory Pipeline
  imports Collector_Samples Tracker_Total
begin

text \<open>
  The collector and the tracer together: the storage that the collector leaves after a relay chain head
  is what the tracker needs to process that head.
\<close>

section \<open>From the collector's storage to the tracker's reads\<close>

lemma read_saved:
  assumes "saved_at h n ts p d s" "decode d = Some x"
  shows "read_with decode p h (tracker_storage_new para_id s hasher) = Inr (Some x)"
  using assms by (simp add: read_with_def saved_at_def tracker_storage_new_def into_inner_def)

lemma tracker_storage_of_new [simp]:
  "ts_storage (tracker_storage_new para_id s hasher) = s"
  "ts_para_id (tracker_storage_new para_id s hasher) = para_id"
  by (simp_all add: tracker_storage_new_def)

lemma storage_ok_dispute:
  assumes "storage_ok s" "ts_dispute h (tracker_storage_new para_id s hasher) = Inr (Some d)"
  shows "di_outcome d = None \<longleftrightarrow> di_concluded d = None"
proof -
  from assms(2) obtain e where e: "pf_get_prefix (PrDispute para_id) h s = Some e" "de_dispute (se_data e) = Some d"
    by (auto simp: ts_dispute_def read_with_def into_inner_def split: option.splits)
  then have "entry_ok (PrDispute para_id) (se_data e)" using assms(1) unfolding storage_ok_def by blast
  with e(2) show ?thesis by simp
qed

section \<open>No panic end to end\<close>



end
