(* ===== verification/Collector_Head.thy ===== *)
theory Collector_Head
  imports Collector_Samples
begin

text \<open>
  What a relay chain head does to the collector: the invariant of its storage, the entries it saves, the
  notifications it sends, the authors it reports, and what never goes back.
\<close>

section \<open>The storage\<close>

text \<open>C13: Whatever the node answers and whatever arrives, the storage of a collector that started empty stays
  in order, also after errors: unique keys, no more blocks than the limit, every payload of the type
  its prefix is read at, candidates under their own parachain, and an outcome for a dispute exactly if
  it has a conclusion block.\<close>

theorem collector_storage_ok:
  assumes "co_storage c0 = pf_new max_blocks"
    and "collector_run node clock shadow inputs c0 \<in> {Looping c, Stopped sd c}"
  shows "storage_ok (co_storage c)"
  by (rule collector_run_storage_ok [OF assms])

lemma sample_best_head: "process_new_best_head sample_node 1 sample_header sample_collector = (Inr (), sample_after)"
proof -
  have "cs_last_finalized (co_state sample_collector) = None" "co_subscribe_mode sample_collector = Best"
    "rpc_block_timestamp sample_node 1 = Some 12" "hd_number sample_header = 5"
    by code_simp+
  then show ?thesis using sample_head_done by (simp add: process_new_best_head_def andthen_def action_defs)
qed

lemma sample_loop:
  "collector_run sample_node (\<lambda>_. 7) None [Message (SubNewBestHead 1 sample_header)] sample_collector = Looping sample_after"
proof -
  have "collect_chain_events sample_node None (co_subscribe_mode sample_collector) (SubNewBestHead 1 sample_header) =
      Collected [NewBestHead 1 sample_header]" by code_simp
  then show ?thesis using sample_best_head by (simp add: collector_step_def process_chain_event_def)
qed

theorem collector_storage_ok_witness: "storage_ok (co_storage sample_after)"
  using collector_storage_ok [OF sample_storage_new] sample_loop by blast

text \<open>C5: A head that was processed without an error, at the newest block of the storage, is saved in full:
  its header, inherent data, timestamp, occupied cores, backing groups and core assignments are
  readable under its hash, as the node answered them, at its block and time.\<close>

theorem collector_saves_block:
  assumes "process_new_head node h header ts n c = (Inr (), c')" "at_newest h n (co_storage c)"
  shows "\<exists>inherent cores groups queue.
    rpc_parainherent_data node h = Some inherent \<and> rpc_occupied_cores node h = Some cores \<and>
    rpc_backing_groups node h = Some groups \<and> rpc_claim_queue node h = Some queue \<and>
    (\<forall>(p, d) \<in> {(PrRelayBlockHeader, PlHeader header), (PrInherentData, PlInherent inherent),
         (PrTimestamp, PlTimestamp ts), (PrOccupiedCores, PlCores cores), (PrBackingGroups, PlGroups groups),
         (PrCoreAssignments, PlClaimQueue queue)}.
       pf_get_prefix p h (co_storage c') = Some (new_onchain (with_ts n (from_secs ts)) d))"
  by (rule process_new_head_saves [OF assms]) (auto simp: saved_at_def onchain_def)

theorem collector_saves_block_witness:
  "pf_get_prefix PrTimestamp 1 (co_storage sample_after) = Some (new_onchain (with_ts 5 (from_secs 12)) (PlTimestamp 12))"
  using collector_saves_block [OF sample_head_done sample_newest] by auto

section \<open>Notifications\<close>

lemma send_each_open: "\<forall>k \<in> set ks. sk_open k \<Longrightarrow> send_each m ks = (True, map (sink_push m) ks)"
  by (induction ks) simp_all

lemma send_subscribed_open:
  "\<forall>(p, ks) \<in> set m. \<forall>k \<in> set ks. sk_open k \<Longrightarrow>
   send_subscribed f m = (True, map (\<lambda>(p, ks). (p, map (sink_push (f p)) ks)) m)"
  by (induction m) (auto simp: send_each_open)

lemma send_seq_open: "sk_open k \<Longrightarrow> send_seq ms k = (True, k\<lparr>sk_sent := sk_sent k @ ms\<rparr>)"
  by (induction ms arbitrary: k) (simp_all add: sink_push_def)

lemma map_of_fold_put:
  "bt_wf m \<Longrightarrow> bt_wf (fold (\<lambda>k m. bt_put k v m) ks m) \<and>
     map_of (fold (\<lambda>k m. bt_put k v m) ks m) = (\<lambda>k. if k \<in> set ks then Some v else map_of m k)"
  by (induction ks arbitrary: m) (auto simp: bt_wf_put map_of_bt_put fun_eq_iff)

lemma map_of_fold_del:
  "bt_wf m \<Longrightarrow> bt_wf (fold bt_del ks m) \<and>
     map_of (fold bt_del ks m) = (\<lambda>k. if k \<in> set ks then None else map_of m k)"
  by (induction ks arbitrary: m) (auto simp: bt.wf_del map_of_bt_del fun_eq_iff)

lemma bt_eqI:
  assumes "bt_wf m" "bt_wf m'" "map_of m = map_of m'"
  shows "m = m'"
proof (rule map_sorted_distinct_set_unique [where f = fst])
  have d: "distinct (map fst m)" "distinct (map fst m')" using assms(1,2) bt.wf_distinct by blast+
  then show "set m = set m'" using assms(3) map_of_inject_set by blast
  with d(1) show "inj_on fst (set m \<union> set m')" by (simp add: distinct_map)
qed (use assms(1,2) in \<open>auto simp: bt_wf_def strict_sorted_iff\<close>)

text \<open>Which parachains a refresh keeps.\<close>

lemma refresh_paras_wf: "bt_wf (cs_paras_seen s) \<Longrightarrow> bt_wf (refresh_paras stall s)"
  by (simp add: refresh_paras_def Let_def map_of_fold_del map_of_fold_put)

lemma map_of_refresh_paras:
  assumes "bt_wf (cs_paras_seen s)"
  shows "map_of (refresh_paras stall s) p =
    (if p \<in> fst ` set (cs_candidates_seen s) then Some (cs_current_number s)
     else case map_of (cs_paras_seen s) p of
       None \<Rightarrow> None | Some b \<Rightarrow> if cs_current_number s - b > stall then None else Some b)"
proof -
  let ?seen = "fold (\<lambda>p m. bt_put p (cs_current_number s) m) (map fst (cs_candidates_seen s)) (cs_paras_seen s)"
  let ?late = "\<lambda>b. cs_current_number s - b > stall"
  have seen: "bt_wf ?seen"
    "map_of ?seen = (\<lambda>p. if p \<in> fst ` set (cs_candidates_seen s) then Some (cs_current_number s) else map_of (cs_paras_seen s) p)"
    using map_of_fold_put [OF assms] by (simp_all add: fun_eq_iff)
  have late: "q \<in> fst ` set (filter (\<lambda>(_, b). ?late b) ?seen) \<longleftrightarrow> (\<exists>b. map_of ?seen q = Some b \<and> ?late b)" for q
  proof -
    have "map_of ?seen q = Some b \<longleftrightarrow> (q, b) \<in> set ?seen" for b
      by (rule map_of_eq_Some_iff [OF bt.wf_distinct [OF seen(1)]])
    then show ?thesis by auto force
  qed
  have "map_of (refresh_paras stall s) p =
      (if p \<in> fst ` set (filter (\<lambda>(_, b). ?late b) ?seen) then None else map_of ?seen p)"
    using map_of_fold_del [OF seen(1)] by (simp add: refresh_paras_def Let_def)
  also have "\<dots> = (if \<exists>b. map_of ?seen p = Some b \<and> ?late b then None else map_of ?seen p)"
    by (simp only: late)
  finally show ?thesis by (auto simp: seen(2) split: option.split)
qed

text \<open>Refreshing twice at the same state changes nothing more: every broadcast channel gets the same list.\<close>

lemma refresh_paras_twice:
  assumes "bt_wf (cs_paras_seen s)"
  shows "refresh_paras stall (s\<lparr>cs_paras_seen := refresh_paras stall s\<rparr>) = refresh_paras stall s"
proof (rule bt_eqI)
  let ?s = "s\<lparr>cs_paras_seen := refresh_paras stall s\<rparr>"
  have wf: "bt_wf (cs_paras_seen ?s)" using refresh_paras_wf [OF assms] by simp
  show "map_of (refresh_paras stall ?s) = map_of (refresh_paras stall s)"
    by (rule ext, subst map_of_refresh_paras [OF wf])
      (auto simp: map_of_refresh_paras [OF assms] split: option.split)
  show "bt_wf (refresh_paras stall ?s)" by (rule refresh_paras_wf [OF wf])
qed (rule refresh_paras_wf [OF assms])

lemma broadcast_heads_open:
  fixes stall
  assumes "bt_wf (cs_paras_seen s)" "\<forall>k \<in> set ks. sk_open k"
  defines "s1 \<equiv> s\<lparr>cs_paras_seen := refresh_paras stall s\<rparr>"
  shows "broadcast_heads stall ks s =
    (True, map (\<lambda>k. k\<lparr>sk_sent := sk_sent k @ map (head_event s1 []) (map fst (cs_paras_seen s1))\<rparr>) ks,
     if ks = [] then s else s1)"
  using assms(1,2) unfolding s1_def
proof (induction ks arbitrary: s)
  case (Cons k ks)
  let ?s1 = "s\<lparr>cs_paras_seen := refresh_paras stall s\<rparr>"
  have wf: "bt_wf (cs_paras_seen ?s1)" using refresh_paras_wf [OF Cons.prems(1)] by simp
  have "?s1\<lparr>cs_paras_seen := refresh_paras stall ?s1\<rparr> = ?s1"
    using refresh_paras_twice [OF Cons.prems(1)] by simp
  with Cons.IH [OF wf] Cons.prems show ?case by (auto simp: send_seq_open Let_def)
qed simp

text \<open>C8: Moving to a new block tells the subscribers of a parachain, each exactly once, what was collected for
  that parachain since the last block, tells every broadcast channel the same for every parachain
  that is not stalled, in ascending order, and then starts the new block with everything collected
  cleared. Which parachains count is exact: those with a candidate now, and those whose last
  candidate is at most \<open>stall\<close> blocks old.\<close>

theorem new_block_notifications:
  fixes c n h
  defines "s \<equiv> co_state c"
  defines "s1 \<equiv> (if co_broadcast_channels c = [] then s
                 else s\<lparr>cs_paras_seen := refresh_paras (co_max_parachain_stall c) s\<rparr>)"
  assumes "bt_wf (cs_paras_seen s)" "\<forall>(p, ks) \<in> set (co_subscribe_channels c). \<forall>k \<in> set ks. sk_open k"
    "\<forall>k \<in> set (co_broadcast_channels c). sk_open k"
  shows "update_state n h c = (Inr (), c\<lparr>
      co_subscribe_channels := map (\<lambda>(p, ks). (p, map (sink_push (head_event s (cs_authors_missing s) p)) ks))
        (co_subscribe_channels c),
      co_broadcast_channels := map (\<lambda>k. k\<lparr>sk_sent := sk_sent k @ map (head_event s1 []) (map fst (cs_paras_seen s1))\<rparr>)
        (co_broadcast_channels c),
      co_state := s1\<lparr>cs_candidates_seen := [], cs_candidates_backed := [], cs_candidates_included := [],
        cs_candidates_timed_out := [], cs_disputes_seen := [], cs_current_hashes := [h],
        cs_authors_missing := [], cs_current_number := n\<rparr>\<rparr>) \<and>
    (co_broadcast_channels c \<noteq> [] \<longrightarrow> (\<forall>p. p \<in> fst ` set (cs_paras_seen s1) \<longleftrightarrow>
       p \<in> fst ` set (cs_candidates_seen s) \<or>
       (\<exists>b. map_of (cs_paras_seen s) p = Some b \<and> cs_current_number s - b \<le> co_max_parachain_stall c)))"
proof (intro conjI impI allI)
  show "update_state n h c = (Inr (), c\<lparr>
      co_subscribe_channels := map (\<lambda>(p, ks). (p, map (sink_push (head_event s (cs_authors_missing s) p)) ks))
        (co_subscribe_channels c),
      co_broadcast_channels := map (\<lambda>k. k\<lparr>sk_sent := sk_sent k @ map (head_event s1 []) (map fst (cs_paras_seen s1))\<rparr>)
        (co_broadcast_channels c),
      co_state := s1\<lparr>cs_candidates_seen := [], cs_candidates_backed := [], cs_candidates_included := [],
        cs_candidates_timed_out := [], cs_disputes_seen := [], cs_current_hashes := [h],
        cs_authors_missing := [], cs_current_number := n\<rparr>\<rparr>)"
    using assms by (simp add: update_state_def Let_def send_subscribed_open broadcast_heads_open clear_state_def)
  fix p assume b: "co_broadcast_channels c \<noteq> []"
  have "p \<in> fst ` set (cs_paras_seen s1) \<longleftrightarrow> map_of (cs_paras_seen s1) p \<noteq> None"
    by (simp add: map_of_eq_None_iff)
  then show "p \<in> fst ` set (cs_paras_seen s1) \<longleftrightarrow> p \<in> fst ` set (cs_candidates_seen s) \<or>
      (\<exists>b. map_of (cs_paras_seen s) p = Some b \<and> cs_current_number s - b \<le> co_max_parachain_stall c)"
    using b map_of_refresh_paras [OF assms(3), of "co_max_parachain_stall c" p]
    by (auto simp: s1_def not_less split: option.splits if_splits)
qed

theorem new_block_notifications_witness:
  "fst (update_state 5 1 (sample_collector\<lparr>co_state := see_candidate 100 7 collector_state_default\<rparr>)) = Inr ()"
  using new_block_notifications [of "sample_collector\<lparr>co_state := see_candidate 100 7 collector_state_default\<rparr>" 5 1]
  by (simp add: sample_collector_def subscribe_broadcast_updates_def subscribe_parachain_updates_def
      collector_new_def bt_update_default_def sink_new_def see_candidate_def collector_state_default_def)

end
