(* ===== verification/Collector_Advance.thy ===== *)
theory Collector_Advance
  imports Collector_Head
begin

text \<open>
  What never goes back in the collector: the block it collects for, the hashes of that block, and the last
  finalized block; and when its loop ends.
\<close>

section \<open>The state moves forward\<close>

definition state_ok :: "collector_state \<Rightarrow> bool" where
  "state_ok s \<longleftrightarrow> bt_wf (cs_paras_seen s) \<and> bt_wf (cs_candidates_seen s) \<and> bt_wf (cs_disputes_seen s) \<and>
     (\<forall>(p, b) \<in> set (cs_paras_seen s). b \<le> cs_current_number s)"

definition state_le :: "collector_state \<Rightarrow> collector_state \<Rightarrow> bool" where
  "state_le s s' \<longleftrightarrow> cs_current_number s \<le> cs_current_number s' \<and>
     (cs_current_number s' = cs_current_number s \<longrightarrow> (\<exists>hs. cs_current_hashes s' = cs_current_hashes s @ hs)) \<and>
     (\<forall>f. cs_last_finalized s = Some f \<longrightarrow> (\<exists>f'. cs_last_finalized s' = Some f' \<and> f \<le> f'))"

definition advances :: "collector \<Rightarrow> collector \<Rightarrow> bool" where
  "advances c c' \<longleftrightarrow>
     (state_ok (co_state c) \<longrightarrow> state_ok (co_state c') \<and> state_le (co_state c) (co_state c'))"

lemma state_le_refl [simp]: "state_le s s"
  by (simp add: state_le_def)

lemma state_le_trans:
  assumes "state_le s s'" "state_le s' s''"
  shows "state_le s s''"
proof -
  have "\<exists>hs. cs_current_hashes s'' = cs_current_hashes s @ hs" if "cs_current_number s'' = cs_current_number s"
  proof -
    have "cs_current_number s' = cs_current_number s" using assms that by (auto simp: state_le_def)
    with assms that show ?thesis by (auto simp: state_le_def)
  qed
  moreover have "\<exists>f''. cs_last_finalized s'' = Some f'' \<and> f \<le> f''" if "cs_last_finalized s = Some f" for f
    using assms that unfolding state_le_def by (meson order_trans)
  ultimately show ?thesis using assms by (auto simp: state_le_def)
qed

interpretation adv: action_preorder advances
  by unfold_locales (auto simp: advances_def intro: state_le_trans)

lemma adv_same_state: "(\<And>c. co_state (snd (m c)) = co_state c) \<Longrightarrow> keeps advances m"
  by (simp add: keeps_def advances_def)

lemma adv_set_state:
  "(\<And>s. state_ok s \<Longrightarrow> state_ok (f s) \<and> state_le s (f s)) \<Longrightarrow> keeps advances (set_state f)"
  by (simp add: keeps_def advances_def set_state_def change_def)

lemma adv_storage:
  "keeps advances (storage_read p k)" "keeps advances (storage_write p k e)"
  "keeps advances (storage_replace p k e)" "keeps advances (storage_delete p k)"
  by (auto intro!: adv_same_state
      simp: storage_read_def storage_write_def storage_replace_def storage_delete_def change_def
      split: prod.split sum.split)

lemma adv_decoded: "keeps advances (decoded e dec v)"
  by (auto simp: decoded_def adv.keeps_intros split: sum.split)

lemma adv_broadcast: "keeps advances (broadcast_event ev)"
  by (rule adv_same_state) (simp add: broadcast_event_def Let_def split: prod.split)

lemma adv_websocket: "keeps advances (notify_websocket ev)"
  by (rule adv_same_state) (simp add: notify_websocket_def split: option.split)

lemmas adv_intros =
  adv.keeps_intros adv_storage adv_decoded adv_broadcast adv_websocket

section \<open>A new block\<close>

lemma refresh_paras_le:
  assumes "state_ok s"
  shows "state_ok (s\<lparr>cs_paras_seen := refresh_paras stall s\<rparr>)"
proof -
  have wf: "bt_wf (cs_paras_seen s)" "bt_wf (refresh_paras stall s)"
    using assms refresh_paras_wf by (auto simp: state_ok_def)
  have "b \<le> cs_current_number s" if "(p, b) \<in> set (refresh_paras stall s)" for p b
  proof -
    have "map_of (refresh_paras stall s) p = Some b"
      using that map_of_eq_Some_iff [OF bt.wf_distinct [OF wf(2)]] by blast
    then show ?thesis
      using assms map_of_SomeD [of "cs_paras_seen s" p b]
      by (auto simp: map_of_refresh_paras [OF wf(1)] state_ok_def split: if_splits option.splits)
  qed
  with assms wf show ?thesis by (auto simp: state_ok_def)
qed

lemma broadcast_heads_adv:
  assumes "state_ok s" "broadcast_heads stall ks s = (sent, ks', s')"
  shows "state_ok s'" "state_le s s'" "cs_current_number s' = cs_current_number s"
proof -
  have "state_ok s' \<and> state_le s s' \<and> cs_current_number s' = cs_current_number s"
    using assms
  proof (induction ks arbitrary: s sent ks')
    case (Cons k ks)
    let ?s1 = "s\<lparr>cs_paras_seen := refresh_paras stall s\<rparr>"
    have s1: "state_ok ?s1" "state_le s ?s1" using refresh_paras_le [OF Cons.prems(1)] by (simp_all add: state_le_def)
    show ?case
      using Cons.prems(2) Cons.IH [OF s1(1)] s1
      by (auto simp: Let_def split: prod.splits if_splits intro: state_le_trans)
  qed simp
  then show "state_ok s'" "state_le s s'" "cs_current_number s' = cs_current_number s" by auto
qed

lemma adv_update_state:
  assumes "cs_current_number (co_state c) < n"
  shows "advances c (snd (update_state n h c))"
proof -
  let ?s = "co_state c"
  obtain sent subs where subs: "send_subscribed (head_event ?s (cs_authors_missing ?s)) (co_subscribe_channels c) = (sent, subs)"
    by force
  obtain sent' bs s' where bs: "broadcast_heads (co_max_parachain_stall c) (co_broadcast_channels c) ?s = (sent', bs, s')"
    by (metis prod_cases3)
  have "state_ok s' \<and> state_le ?s s' \<and> state_ok (clear_state n h s') \<and> state_le ?s (clear_state n h s')" if "state_ok ?s"
    using broadcast_heads_adv [OF that bs] assms by (auto simp: state_ok_def state_le_def clear_state_def)
  with subs bs show ?thesis by (auto simp: update_state_def advances_def Let_def)
qed

definition same_state :: "collector \<Rightarrow> collector \<Rightarrow> bool" where
  "same_state c c' \<longleftrightarrow> co_state c' = co_state c"

interpretation same_state: action_preorder same_state
  by unfold_locales (auto simp: same_state_def)

lemma write_hrmp_state: "keeps same_state (write_hrmp_channels node h n ts)"
proof -
  have "keeps same_state (storage_write p k e)" for p k e
    by (simp add: keeps_def same_state_def storage_write_def split: prod.split sum.split)
  then show ?thesis
    by (auto simp: write_hrmp_channels_def Let_def intro!: same_state.keeps_intros)
qed

lemma adv_enter_block: "keeps advances (enter_block node h ts n)"
  unfolding keeps_def
proof
  fix c :: collector
  let ?s = "co_state c"
  consider "cs_current_number ?s < n" | "n = cs_current_number ?s" | "n < cs_current_number ?s" by fastforce
  then show "advances c (snd (enter_block node h ts n c))"
  proof cases
    case 1
    obtain r c1 where c1: "write_hrmp_channels node h n ts c = (r, c1)" by force
    then have s: "co_state c1 = co_state c" using keepsD [OF write_hrmp_state c1] by (simp add: same_state_def)
    with 1 adv_update_state [of c1 n h] have "advances c (snd (update_state n h c1))" by (simp add: advances_def)
    with 1 c1 s show ?thesis by (cases r) (auto simp: enter_block_def reading_def advances_def)
  next
    case 2
    then show ?thesis
      by (auto simp: enter_block_def reading_def set_state_def change_def advances_def state_ok_def state_le_def)
  qed (auto simp: enter_block_def action_defs advances_def)
qed

section \<open>The other handlers\<close>

lemma adv_store_session: "keeps advances (store_session node h n ts i)"
  by (auto simp: store_session_def Let_def intro!: adv_intros)

lemma adv_enter_session: "keeps advances (enter_session i)"
  by (auto simp: enter_session_def state_ok_def state_le_def intro!: adv_intros adv_set_state)

lemma adv_authors: "keeps advances (authors_missing_their_slots node h ph)"
proof -
  have "keeps advances (missing_authors node k r auths p m acc)" for k r auths p m acc
    by (rule adv_same_state) (simp only: missing_authors_pure)
  then show ?thesis
    by (auto simp: authors_missing_their_slots_def intro!: adv_intros split: option.split)
qed

lemma adv_process_new_head: "keeps advances (process_new_head node h header ts n)"
  unfolding process_new_head_def write_parainherent_data_def write_ts_def write_occupied_cores_def
    write_backing_groups_def write_core_assignments_def
  by (auto simp: state_ok_def state_le_def intro!: adv_intros adv_enter_block adv_store_session adv_enter_session
      adv_authors adv_set_state)

lemma adv_best_head: "keeps advances (process_new_best_head node h header)"
  by (auto simp: process_new_best_head_def intro!: adv_intros adv_process_new_head)

lemma adv_finalized_head: "keeps advances (process_new_finalized_head node h header)"
  by (auto simp: process_new_finalized_head_def state_ok_def state_le_def
      intro!: adv_intros adv_process_new_head adv_set_state split: option.split)

lemma adv_read_or_fetch: "keeps advances (read_or_fetch_header node h)"
  by (auto simp: read_or_fetch_header_def intro!: adv_intros)

lemma adv_find_candidate: "keeps advances (find_candidate_by_hash h)"
  by (auto simp: find_candidate_by_hash_def intro!: adv_intros)

lemma adv_initiators: "keeps advances (extract_dispute_initiators d)"
  by (auto simp: extract_dispute_initiators_def Let_def intro!: adv_intros)

lemma adv_see_candidate: "state_ok s \<Longrightarrow> state_ok (see_candidate p h s) \<and> state_le s (see_candidate p h s)"
  by (simp add: see_candidate_def state_ok_def state_le_def)

lemma adv_see_dispute: "state_ok s \<Longrightarrow> state_ok (see_dispute p d s) \<and> state_le s (see_dispute p d s)"
  by (simp add: see_dispute_def state_ok_def state_le_def)

lemma adv_candidate_backed: "keeps advances (candidate_backed node now ev)"
  by (auto simp: candidate_backed_def Let_def see_candidate_def state_ok_def state_le_def
      intro!: adv_intros adv_read_or_fetch adv_set_state)

lemma adv_candidate_settled:
  assumes "\<And>h s. state_ok s \<Longrightarrow> state_ok (note h s) \<and> state_le s (note h s)"
  shows "keeps advances (candidate_settled mark ws note now ev)"
proof -
  have "state_ok (note k (see_candidate p k s)) \<and> state_le s (note k (see_candidate p k s))" if "state_ok s" for p k s
    using adv_see_candidate [OF that] assms state_le_trans by blast
  then show ?thesis
    by (auto simp: candidate_settled_def Let_def intro!: adv_intros adv_set_state)
qed

lemma adv_candidate_change: "keeps advances (process_candidate_change node now ev)"
  by (auto simp: process_candidate_change_def adv_candidate_backed state_ok_def state_le_def
      intro!: adv_candidate_settled split: candidate_event_type.split)

lemma adv_dispute_initiated: "keeps advances (process_dispute_initiated now d)"
  by (auto simp: process_dispute_initiated_def Let_def adv_see_dispute
      intro!: adv_intros adv_find_candidate adv_initiators adv_set_state)

lemma adv_dispute_concluded: "keeps advances (process_dispute_concluded now d outcome)"
  by (auto simp: process_dispute_concluded_def Let_def adv_see_dispute
      intro!: adv_intros adv_find_candidate adv_set_state)

lemma adv_chain_event: "keeps advances (process_chain_event node now ev)"
  by (auto simp: process_chain_event_def adv_best_head adv_finalized_head adv_candidate_change
      adv_dispute_initiated adv_dispute_concluded split: chain_event.split)

section \<open>The loop\<close>

definition loop_advances :: "collector \<Rightarrow> loop_state \<Rightarrow> bool" where
  "loop_advances c l = (case l of Looping c' \<Rightarrow> advances c c' | Stopped _ c' \<Rightarrow> advances c c' | Exited \<Rightarrow> True)"

lemma loop_advances_simps [simp]:
  "loop_advances c (Looping c') = advances c c'" "loop_advances c (Stopped sd c') = advances c c'"
  "loop_advances c Exited"
  by (simp_all add: loop_advances_def)

lemma loop_advances_trans: "advances c c' \<Longrightarrow> loop_advances c' l \<Longrightarrow> loop_advances c l"
  by (cases l) (auto intro: adv.le_trans)

lemma advances_terminate [simp]: "advances c (terminate reason c') = advances c c'"
  by (simp add: advances_def terminate_def broadcast_event_priority_def)

lemma events_advance: "loop_advances c (process_events node clock evs c)"
proof (induction evs arbitrary: c)
  case (Cons ev evs)
  obtain r c' where ev: "process_chain_event node (clock ev) ev c = (r, c')" by force
  have "advances c c'" using keepsD [OF adv_chain_event ev] .
  with ev Cons.IH show ?case
    by (auto split: sum.split collector_error.split intro: loop_advances_trans)
qed (simp add: adv.le_refl)

lemma step_advances: "loop_advances c (collector_step node clock shadow i c)"
  by (auto simp: collector_step_def events_advance adv.le_refl
      split: loop_input.split subscription_event.split collected.split)

lemma run_advances: "loop_advances c (collector_run node clock shadow is c)"
proof (induction "is" arbitrary: c)
  case (Cons i "is")
  have "loop_advances c (collector_step node clock shadow i c)" by (rule step_advances)
  with Cons.IH show ?case
    by (cases "collector_step node clock shadow i c") (auto intro: loop_advances_trans)
qed (simp add: adv.le_refl)

text \<open>C14: The collector never goes back: whatever arrives and whatever fails, the number of the block it
  collects for does not decrease, as long as that number stays the same it only adds hashes of
  competing blocks, the last finalized block does not decrease, and no parachain is recorded as seen
  after the current block.\<close>

theorem collector_never_goes_back:
  assumes "collector_run node clock shadow inputs c \<in> {Looping c', Stopped sd c'}" "state_ok (co_state c)"
  defines "s \<equiv> co_state c" and "s' \<equiv> co_state c'"
  shows "cs_current_number s \<le> cs_current_number s' \<and>
    (cs_current_number s' = cs_current_number s \<longrightarrow> (\<exists>hs. cs_current_hashes s' = cs_current_hashes s @ hs)) \<and>
    (\<forall>f. cs_last_finalized s = Some f \<longrightarrow> (\<exists>f'. cs_last_finalized s' = Some f' \<and> f \<le> f')) \<and>
    (\<forall>(p, b) \<in> set (cs_paras_seen s'). b \<le> cs_current_number s')"
proof -
  have "advances c c'" using run_advances [of c node clock shadow inputs] assms(1) by auto
  with assms(2) show ?thesis by (simp add: s_def s'_def advances_def state_ok_def state_le_def)
qed

lemma state_ok_default: "state_ok collector_state_default"
  by (simp add: state_ok_def collector_state_default_def)

theorem collector_never_goes_back_witness: "cs_current_number (co_state sample_collector) \<le> cs_current_number (co_state sample_after)"
proof -
  have "state_ok (co_state sample_collector)"
    using state_ok_default
    by (simp add: sample_collector_def subscribe_broadcast_updates_def subscribe_parachain_updates_def collector_new_def)
  with collector_never_goes_back [of sample_node "\<lambda>_. 7" None "[Message (SubNewBestHead 1 sample_header)]"
      sample_collector sample_after] sample_loop show ?thesis by simp
qed

section \<open>Panics and stopping\<close>

text \<open>Safe from panics, as long as the storage is in order.\<close>

definition safe :: "'a handler \<Rightarrow> bool" where
  "safe m \<longleftrightarrow> (\<forall>c. co_ok c \<longrightarrow> fst (m c) \<noteq> Inl Panicked)"

lemma safe_done: "safe (done_with x)" "e \<noteq> Panicked \<Longrightarrow> safe (fail_with e)" "safe (change f)"
  by (simp_all add: safe_def action_defs)

lemma safe_answer: "e \<noteq> Panicked \<Longrightarrow> safe (answer e m)"
  by (cases m) (simp_all add: safe_done)

lemma safe_andthen: "safe m \<Longrightarrow> ok m \<Longrightarrow> (\<And>x. safe (f x)) \<Longrightarrow> safe (andthen m f)"
  by (fastforce simp: safe_def keeps_def preserving_def andthen_def split: prod.split sum.split)

lemma safe_answer_andthen: "e \<noteq> Panicked \<Longrightarrow> (\<And>x. m = Some x \<Longrightarrow> safe (f x)) \<Longrightarrow> safe (andthen (answer e m) f)"
  by (cases m) (simp_all add: safe_def andthen_def action_defs)

lemma safe_reading: "(\<And>c. safe (f c)) \<Longrightarrow> safe (reading f)"
  by (simp add: safe_def reading_def)

lemma safe_each: "(\<And>x. safe (f x)) \<Longrightarrow> (\<And>x. ok (f x)) \<Longrightarrow> safe (each f xs)"
  by (induction xs) (simp_all add: safe_done safe_andthen)

lemma safe_read_andthen:
  assumes "\<And>m. (\<And>v. m = Some v \<Longrightarrow> entry_ok p (se_data v)) \<Longrightarrow> safe (f m)"
  shows "safe (andthen (storage_read p k) f)"
  unfolding safe_def
proof (intro allI impI)
  fix c assume c: "co_ok c"
  let ?m = "pf_get_prefix p k (co_storage c)"
  have "safe (f ?m)" using c by (intro assms) (auto simp: co_ok_def storage_ok_def)
  with c show "fst (andthen (storage_read p k) f c) \<noteq> Inl Panicked"
    by (simp add: storage_read_def safe_def)
qed

lemma safe_decoded_andthen:
  "(\<And>x. dec (se_data v) = Some x \<Longrightarrow> safe (f x)) \<Longrightarrow> (e = Panicked \<Longrightarrow> dec (se_data v) \<noteq> None) \<Longrightarrow>
   safe (andthen (decoded e dec v) f)"
  by (cases "dec (se_data v)") (auto simp: decoded_def into_inner_def safe_def andthen_def action_defs)

lemma safe_if: "(b \<Longrightarrow> safe m) \<Longrightarrow> (\<not> b \<Longrightarrow> safe m') \<Longrightarrow> safe (if b then m else m')"
  by simp

lemma safe_case_option:
  "(z = None \<Longrightarrow> safe m) \<Longrightarrow> (\<And>x. z = Some x \<Longrightarrow> safe (f x)) \<Longrightarrow> safe (case z of None \<Rightarrow> m | Some x \<Rightarrow> f x)"
  by (cases z) simp_all

lemma safe_basics:
  "safe (set_state f)" "safe (storage_write p k e)" "safe (storage_replace p k e)" "safe (storage_delete p k)"
  "safe (broadcast_event ev)" "safe (notify_websocket w)" "safe (update_state n h)"
  by (auto simp: safe_def set_state_def storage_write_def storage_replace_def storage_delete_def change_def
      broadcast_event_def notify_websocket_def update_state_def Let_def split: prod.split sum.split option.split)

lemmas safe_intros =
  safe_done safe_answer_andthen safe_reading safe_each safe_read_andthen safe_decoded_andthen safe_if
  safe_case_option safe_basics safe_andthen

lemma safe_missing_authors:
  "auths \<noteq> [] \<Longrightarrow> safe (missing_authors node h r auths p m acc)"
proof (induction node h r auths p m acc rule: missing_authors.induct)
  case (1 node h r auths p m acc)
  show ?case
  proof (cases "m > p")
    case True
    show ?thesis
    proof (cases r)
      case None
      with True 1 show ?thesis by (subst missing_authors.simps) simp
    next
      case (Some x)
      with True 1 show ?thesis
        by (subst missing_authors.simps) (auto simp: Let_def intro!: safe_answer_andthen)
    qed
  qed (subst missing_authors.simps, simp add: safe_done)
qed

lemma safe_authors:
  assumes "rpc_babe_authorities node h \<noteq> Some []"
  shows "safe (authors_missing_their_slots node h ph)"
  unfolding authors_missing_their_slots_def
  by (intro safe_answer_andthen)
    (use assms in \<open>auto intro!: safe_done safe_answer_andthen safe_missing_authors split: option.split\<close>)

lemma safe_enter_block: "safe (enter_block node h ts n)"
  unfolding enter_block_def write_hrmp_channels_def Let_def
  by (intro safe_intros) (auto simp: safe_basics Let_def intro!: ok_intros)

lemma safe_store_session: "safe (store_session node h n ts i)"
  unfolding store_session_def Let_def
  by (intro safe_intros) (auto simp: safe_basics Let_def intro!: ok_intros)

lemma safe_enter_session: "safe (enter_session i)"
  unfolding enter_session_def Let_def
  by (intro safe_intros) (auto simp: safe_basics Let_def intro!: ok_intros)

lemma safe_process_new_head:
  assumes "rpc_babe_authorities node h \<noteq> Some []"
  shows "safe (process_new_head node h header ts n)"
  unfolding process_new_head_def write_parainherent_data_def write_ts_def write_occupied_cores_def
    write_backing_groups_def write_core_assignments_def
  by (intro safe_answer_andthen safe_andthen)
    (auto simp: safe_basics assms intro!: ok_intros safe_answer_andthen safe_enter_block ok_enter_block safe_store_session
      ok_store_session safe_enter_session ok_enter_session safe_authors ok_authors)

lemma safe_best_head:
  "rpc_babe_authorities node h \<noteq> Some [] \<Longrightarrow> safe (process_new_best_head node h header)"
  unfolding process_new_best_head_def
  by (intro safe_intros) (auto simp: safe_basics safe_process_new_head intro!: ok_intros safe_done split: option.split)

lemma safe_finalized_head:
  "rpc_babe_authorities node h \<noteq> Some [] \<Longrightarrow> safe (process_new_finalized_head node h header)"
  unfolding process_new_finalized_head_def
  by (intro safe_intros) (auto simp: safe_basics safe_process_new_head intro!: ok_intros safe_done)

lemma safe_read_or_fetch: "safe (read_or_fetch_header node h)"
  unfolding read_or_fetch_header_def
  by (intro safe_intros) (auto simp: safe_basics intro!: ok_intros)

lemma safe_find_candidate: "safe (find_candidate_by_hash h)"
  unfolding find_candidate_by_hash_def
  by (intro safe_read_andthen safe_case_option safe_done safe_decoded_andthen)
    (auto split: option.splits)

lemma safe_initiators: "safe (extract_dispute_initiators d)"
  unfolding extract_dispute_initiators_def Let_def
  by (intro safe_intros) auto

lemma safe_candidate_backed: "safe (candidate_backed node now ev)"
  unfolding candidate_backed_def Let_def
  by (intro safe_intros safe_read_or_fetch)
    (auto simp: safe_basics safe_read_or_fetch cr_parachain_id_def Let_def intro!: ok_intros ok_read_or_fetch)

lemma safe_candidate_settled:
  "safe (candidate_settled mark ws note now ev)"
  unfolding candidate_settled_def Let_def
  by (intro safe_intros) (auto simp: safe_basics intro!: ok_intros)

lemma safe_candidate_change: "safe (process_candidate_change node now ev)"
  by (simp add: process_candidate_change_def safe_candidate_backed safe_candidate_settled
      split: candidate_event_type.split)

lemma safe_dispute_initiated: "safe (process_dispute_initiated now d)"
  unfolding process_dispute_initiated_def Let_def split_def
  by (rule safe_andthen [OF safe_find_candidate ok_find_candidate], intro safe_answer_andthen safe_reading,
      simp, rule safe_andthen [OF safe_initiators ok_initiators])
    (auto intro!: safe_andthen safe_basics ok_intros)

lemma safe_dispute_concluded: "safe (process_dispute_concluded now d outcome)"
  unfolding process_dispute_concluded_def Let_def
  by (rule safe_andthen [OF safe_find_candidate ok_find_candidate], intro safe_answer_andthen safe_reading,
      simp, rule safe_andthen, rule safe_basics, rule ok_websocket, rule safe_read_andthen, rule safe_andthen)
    (auto intro!: safe_done safe_andthen safe_decoded_andthen safe_basics ok_intros split: option.split)

lemma safe_chain_event:
  "(\<And>h. rpc_babe_authorities node h \<noteq> Some []) \<Longrightarrow> safe (process_chain_event node now ev)"
  by (simp add: process_chain_event_def safe_best_head safe_finalized_head safe_candidate_change
      safe_dispute_initiated safe_dispute_concluded split: chain_event.split)

definition told :: "update_event \<Rightarrow> collector \<Rightarrow> collector \<Rightarrow> bool" where
  "told ev c c' \<longleftrightarrow>
     (let tell = map (\<lambda>k. if sk_open k then k\<lparr>sk_urgent := sk_urgent k @ [ev]\<rparr> else k)
      in co_subscribe_channels c' = map (\<lambda>(p, ks). (p, tell ks)) (co_subscribe_channels c) \<and>
         co_broadcast_channels c' = tell (co_broadcast_channels c) \<and>
         co_storage c' = co_storage c \<and> co_state c' = co_state c)"

lemma told_terminate: "told (Termination reason) c (terminate reason c)"
  by (simp add: told_def terminate_def broadcast_event_priority_def hm_map_values_def sink_push_urgent_def [abs_def])

lemma events_stop:
  assumes "\<And>h. rpc_babe_authorities node h \<noteq> Some []" "co_ok c" "process_events node clock evs c = Stopped sd c'"
  shows "\<not> sd \<and> (\<exists>c1. c' = terminate AbnormalEnd c1)"
  using assms(2,3)
proof (induction evs arbitrary: c)
  case (Cons ev evs)
  obtain r c1 where ev: "process_chain_event node (clock ev) ev c = (r, c1)" by force
  have "co_ok c1" using keepsD [OF ok_chain_event ev] Cons.prems(1) by (simp add: preserving_def)
  moreover have "r \<noteq> Inl Panicked"
    using safe_chain_event [OF assms(1), of "clock ev" ev] Cons.prems(1) ev by (auto simp: safe_def)
  ultimately show ?case
    using Cons.IH [of c1] Cons.prems(2) ev by (auto split: sum.splits collector_error.splits)
qed simp

text \<open>C10: When the loop stops, every subscriber hears of it: the collector does not panic as long as the node
  answers no empty authority list, and a stop puts one \<open>Termination\<close> with priority into every open
  channel and changes nothing else, with the normal reason exactly if the subscription has ended or
  the shutdown was asked for, and the abnormal one after a fatal error. The other tasks are told to
  shut down exactly if the subscription has ended.\<close>

theorem collector_stop_is_announced:
  assumes "\<And>h. rpc_babe_authorities node h \<noteq> Some []" "co_ok c"
    and "collector_step node clock shadow input c = Stopped sd c'"
  shows "(sd \<longleftrightarrow> input \<in> {SubscriptionClosed, Message SubTermination}) \<and> (\<exists>c1. told (Termination (if input \<in> {SubscriptionClosed, Shutdown, Message SubTermination}
      then NormalEnd else AbnormalEnd)) c1 c')"
proof -
  have "(sd \<longleftrightarrow> input \<in> {SubscriptionClosed, Message SubTermination}) \<and> (\<exists>c1. c' = terminate (if input \<in> {SubscriptionClosed, Shutdown, Message SubTermination}
      then NormalEnd else AbnormalEnd) c1)"
    using assms(3) events_stop [OF assms(1,2), of clock]
    by (auto simp: collector_step_def split: loop_input.splits subscription_event.splits collected.splits)
  with told_terminate show ?thesis by blast
qed

theorem collector_stop_is_announced_witness:
  "\<exists>c1. told (Termination NormalEnd) c1 (terminate NormalEnd sample_after)"
proof -
  have "co_ok sample_after"
    using keepsD [OF ok_process_new_head sample_head_done] sample_collector_ok by (simp add: preserving_def)
  then show ?thesis
    using collector_stop_is_announced [of sample_node sample_after "\<lambda>_. 7" None Shutdown False]
    by (simp add: collector_step_def sample_node_def)
qed

end
