(* ===== verification/Collector_Candidates.thy ===== *)
theory Collector_Candidates
  imports Collector_Head
begin

text \<open>
  What a candidate event and a dispute event do to the record of a candidate, and whom the collector
  blames for a missed slot.
\<close>

section \<open>Known candidates\<close>

lemma replace_reads:
  assumes "pf_inv s" "pf_get_prefix p k s = Some v"
  shows "pf_get_prefix q j (snd (pf_replace_prefixed p k e s)) = (if q = p \<and> j = k then Some e else pf_get_prefix q j s)"
  using pfx.rep_get [OF assms(1), of "(q, j)" "(p, k)" e] assms(2) by (simp add: pf_rep_def pf_read_def)

definition ws_ready :: "collector \<Rightarrow> bool" where
  "ws_ready c \<longleftrightarrow> (case co_websocket c of None \<Rightarrow> True | Some k \<Rightarrow> sk_open k)"

lemma notify_ready:
  assumes "ws_ready c"
  shows "notify_websocket ev c = (Inr (), c\<lparr>co_websocket := map_option (sink_push ev) (co_websocket c)\<rparr>)"
  using assms by (cases "co_websocket c") (simp_all add: ws_ready_def notify_websocket_def)

lemma settled_run:
  fixes mark
  assumes "pf_get_prefix (PrCandidate (ce_parachain_id ev)) (ce_candidate_hash ev) (co_storage c) = Some v"
    and "de_candidate (se_data v) = Some r" and "ws_ready c"
  defines "n \<equiv> cs_current_number (co_state c)"
  defines "r' \<equiv> r\<lparr>cr_inclusion := mark (cr_inclusion r) n\<rparr>"
  shows "candidate_settled mark ws note now ev c = (Inr (), c\<lparr>
    co_storage := snd (pf_replace_prefixed (PrCandidate (ce_parachain_id ev)) (ce_candidate_hash ev)
      (onchain n now (PlCandidate r')) (co_storage c)),
    co_websocket := map_option (sink_push \<lparr>we_event = ws (now - cr_first_seen r),
      we_candidate_hash = ce_candidate_hash ev, we_ts = now, we_parachain_id = ce_parachain_id ev\<rparr>) (co_websocket c),
    co_state := note (ce_candidate_hash ev) (see_candidate (ce_parachain_id ev) (ce_candidate_hash ev) (co_state c))\<rparr>)"
  using assms
  by (simp add: candidate_settled_def storage_read_def reading_def decoded_def into_inner_def done_with_def
      andthen_def notify_ready set_state_def change_def storage_replace_def Let_def)

text \<open>When a known candidate is included or times out, exactly its own record changes, at exactly that fact:
  the block of the event is noted in it, everything else in it and in the storage stays, the candidate
  is listed as seen and as included (or timed out) for the next report, and an open websocket is told
  the time since it was first seen. An event for a candidate that is not in the storage changes nothing.\<close>

theorem candidate_settled_exact:
  fixes c ev
  defines "p \<equiv> ce_parachain_id ev" and "h \<equiv> ce_candidate_hash ev" and "n \<equiv> cs_current_number (co_state c)"
  assumes "pf_inv (co_storage c)" "ws_ready c" "ce_event_type ev \<in> {CandidateIncluded, CandidateTimedOut}"
    and "\<And>v. pf_get_prefix (PrCandidate p) h (co_storage c) = Some v \<Longrightarrow> de_candidate (se_data v) \<noteq> None"
  shows "case pf_get_prefix (PrCandidate p) h (co_storage c) of
      None \<Rightarrow> process_candidate_change node now ev c = (Inr (), c)
    | Some v \<Rightarrow>
        \<exists>r c'. de_candidate (se_data v) = Some r \<and> process_candidate_change node now ev c = (Inr (), c') \<and>
          (\<forall>q k. pf_get_prefix q k (co_storage c') =
            (if q = PrCandidate p \<and> k = h
             then Some (onchain n now (PlCandidate (r\<lparr>cr_inclusion :=
               (if ce_event_type ev = CandidateIncluded then (cr_inclusion r)\<lparr>ci_included := Some n\<rparr>
                else (cr_inclusion r)\<lparr>ci_timedout := Some n\<rparr>)\<rparr>)))
             else pf_get_prefix q k (co_storage c))) \<and>
          co_state c' = (let s = see_candidate p h (co_state c) in
            if ce_event_type ev = CandidateIncluded
            then s\<lparr>cs_candidates_included := cs_candidates_included s @ [h]\<rparr>
            else s\<lparr>cs_candidates_timed_out := cs_candidates_timed_out s @ [h]\<rparr>) \<and>
          co_websocket c' = map_option (sink_push
            \<lparr>we_event = (if ce_event_type ev = CandidateIncluded then WsIncluded else WsTimedOut) (now - cr_first_seen r),
             we_candidate_hash = h, we_ts = now, we_parachain_id = p\<rparr>) (co_websocket c)"
proof (cases "pf_get_prefix (PrCandidate p) h (co_storage c)")
  case None
  then show ?thesis
    using assms(6)
    by (auto simp: p_def h_def process_candidate_change_def candidate_settled_def storage_read_def action_defs)
next
  case (Some v)
  then obtain r where r: "de_candidate (se_data v) = Some r" using assms(7) by blast
  note run = settled_run [OF Some [unfolded p_def h_def] r assms(5)]
  note reads = replace_reads [OF assms(4) Some]
  consider "ce_event_type ev = CandidateIncluded" | "ce_event_type ev = CandidateTimedOut" using assms(6) by auto
  then show ?thesis
    using Some r reads by cases (simp_all add: p_def h_def n_def process_candidate_change_def run Let_def)
qed

definition sample_record :: candidate_record where
  "sample_record =
     \<lparr>cr_first_seen = 3,
      cr_inclusion = \<lparr>ci_parachain_id = 100, ci_backed = 5, ci_included = None, ci_timedout = None,
        ci_core_idx = 0, ci_relay_parent = 0, ci_relay_parent_number = 4\<rparr>,
      cr_disputed = None\<rparr>"

definition sample_event_of :: "candidate_event_type \<Rightarrow> candidate_event" where
  "sample_event_of t = \<lparr>ce_candidate_hash = 7, ce_relay_parent = 0, ce_parachain_id = 100, ce_event_type = t, ce_core_idx = 0\<rparr>"

definition sample_knows :: collector where
  "sample_knows = sample_collector\<lparr>co_storage :=
     snd (pf_insert_prefix PrCandidatesParachains 7 (onchain 5 3 (PlParaId 100))
       (snd (pf_insert_prefix (PrCandidate 100) 7 (onchain 5 3 (PlCandidate sample_record)) (pf_new 4))))\<rparr>"

lemma sample_knows_inv: "pf_inv (co_storage sample_knows)"
  by (simp add: sample_knows_def pf_inv_ops)

lemma sample_knows_reads:
  "pf_get_prefix (PrCandidate 100) 7 (co_storage sample_knows) = Some (onchain 5 3 (PlCandidate sample_record))"
  "pf_get_prefix PrCandidatesParachains 7 (co_storage sample_knows) = Some (onchain 5 3 (PlParaId 100))"
  by code_simp+

lemma sample_knows_ready: "ws_ready sample_knows"
  by code_simp

theorem candidate_settled_exact_witness:
  "\<exists>c'. process_candidate_change sample_node 9 (sample_event_of CandidateIncluded) sample_knows = (Inr (), c') \<and>
     pf_get_prefix (PrCandidate 100) 7 (co_storage c') = Some (onchain 0 9 (PlCandidate
       (sample_record\<lparr>cr_inclusion := (cr_inclusion sample_record)\<lparr>ci_included := Some 0\<rparr>\<rparr>)))"
proof -
  have n: "cs_current_number (co_state sample_knows) = 0" by code_simp
  show ?thesis
    using candidate_settled_exact [of sample_knows "sample_event_of CandidateIncluded" sample_node 9]
    by (auto simp: sample_knows_inv sample_knows_ready sample_event_of_def sample_knows_reads n)
qed

section \<open>Concluded disputes\<close>

lemma found_candidate:
  assumes "pf_get_prefix PrCandidatesParachains h (co_storage c) = Some w" "de_para_id (se_data w) = Some p"
    "pf_get_prefix (PrCandidate p) h (co_storage c) = Some v" "de_candidate (se_data v) = Some r"
  shows "find_candidate_by_hash h c = (Inr (Some r), c)"
  using assms by (simp add: find_candidate_by_hash_def storage_read_def decoded_def into_inner_def andthen_def action_defs)



section \<open>Missed slots\<close>

definition slot_author :: "node \<Rightarrow> h256 \<Rightarrow> h256 \<Rightarrow> (authority \<times> u64) list \<Rightarrow> nat \<Rightarrow> account_id option option" where
  "slot_author node parent_hash r auths i =
     rpc_babe_key_owner node parent_hash (fst (auths ! (node_slot_random node r (word_of_nat i) mod length auths)))"

lemma missing_authors_exact:
  assumes "auths \<noteq> []"
  shows "(\<And>i. unat p < i \<Longrightarrow> i \<le> unat m \<Longrightarrow> slot_author node h r auths i \<noteq> None) \<Longrightarrow>
    missing_authors node h (Some r) auths p m acc c =
      (Inr (acc @ List.map_filter (\<lambda>i. the (slot_author node h r auths i)) (rev [Suc (unat p)..<Suc (unat m)])), c)"
proof (induction "unat m" arbitrary: m acc)
  case 0
  then show ?case
    by (subst missing_authors.simps) (simp add: done_with_def map_filter_def word_less_nat_alt)
next
  case (Suc l)
  show ?case
  proof (cases "m > p")
    case True
    have l: "unat (m - 1) = l" using Suc.hyps(2) by (metis unat_minus_one diff_Suc_1 unat_0 nat.distinct(1))
    from True have pl: "unat p \<le> l" using Suc.hyps(2) by (simp add: word_less_nat_alt)
    obtain a where a: "slot_author node h r auths (unat m) = Some a"
      using Suc.prems [of "unat m"] True by (auto simp: word_less_nat_alt)
    have "[Suc (unat p)..<Suc (unat m)] = [Suc (unat p)..<Suc l] @ [unat m]"
      using pl by (simp flip: Suc.hyps(2))
    moreover have "missing_authors node h (Some r) auths p (m - 1) (acc @ (case a of None \<Rightarrow> [] | Some x \<Rightarrow> [x])) c =
      (Inr ((acc @ (case a of None \<Rightarrow> [] | Some x \<Rightarrow> [x])) @
         List.map_filter (\<lambda>i. the (slot_author node h r auths i)) (rev [Suc (unat p)..<Suc (unat (m - 1))])), c)"
      using Suc.hyps(2) l by (intro Suc.hyps(1) Suc.prems) simp_all
    ultimately show ?thesis
      using True a assms l
      by (subst missing_authors.simps)
        (auto simp: slot_author_def Let_def andthen_def done_with_def map_filter_def split: option.split)
  next
    case False
    then show ?thesis
      by (subst missing_authors.simps) (simp add: done_with_def map_filter_def word_less_nat_alt)
  qed
qed

text \<open>The authors that the collector reports for a block are exactly the owners of the slots strictly between
  the slot of the parent and the slot of the block, newest slot first, and nobody when no slot lies
  between; the loop ends and leaves the collector as it was.\<close>

theorem missed_slot_authors_exact:
  assumes "rpc_babe_current_slot node h = Some (Some current)" "rpc_babe_current_slot node ph = Some (Some parent)"
    and "rpc_babe_randomness node h = Some (Some r)" "rpc_babe_authorities node h = Some auths" "auths \<noteq> []"
    and "\<And>i. unat parent < i \<Longrightarrow> i < unat current \<Longrightarrow> slot_author node ph r auths i \<noteq> None"
  shows "authors_missing_their_slots node h ph c =
    (Inr (List.map_filter (\<lambda>i. the (slot_author node ph r auths i)) (rev [Suc (unat parent)..<unat current])), c)"
proof (cases "saturating_sub current 1 > parent")
  case True
  then have m: "unat parent < unat current - 1" by (simp add: word_less_nat_alt unat_saturating_sub)
  then have c: "unat (current - 1) = unat current - 1" by (simp add: unat_sub word_le_nat_alt)
  have "missing_authors node ph (Some r) auths parent (current - 1) [] c =
      (Inr ([] @ List.map_filter (\<lambda>i. the (slot_author node ph r auths i)) (rev [Suc (unat parent)..<Suc (unat (current - 1))])), c)"
    using m c by (intro missing_authors_exact assms(5,6)) auto
  moreover have "Suc (unat (current - 1)) = unat current" using m c by simp
  ultimately show ?thesis
    using True assms by (simp add: authors_missing_their_slots_def andthen_def done_with_def)
next
  case False
  then have "unat current \<le> Suc (unat parent)" by (simp add: word_less_nat_alt unat_saturating_sub not_less)
  with False assms show ?thesis
    by (simp add: authors_missing_their_slots_def andthen_def done_with_def map_filter_def)
qed

theorem missed_slot_authors_exact_witness:
  "fst (authors_missing_their_slots sample_node 1 0 sample_collector) = Inr [11, 12]"
proof -
  have "List.map_filter (\<lambda>i. the (slot_author sample_node 0 0 [([1], 1), ([2], 1)] i)) (rev [Suc (unat (18::u64))..<unat (21::u64)]) = [11, 12]"
    by code_simp
  then show ?thesis
    using missed_slot_authors_exact [of sample_node 1 21 0 18 0 "[([1], 1), ([2], 1)]" sample_collector]
    by (simp add: sample_node_def slot_author_def)
qed

end
