(* ===== verification/Stats.thy ===== *)
theory Stats
  imports Complex_Main Tracker_Progress
begin

text \<open>
  The statistics of a parachain, \<^verbatim>\<open>parachain-tracer/src/stats.rs\<close>. An \<^verbatim>\<open>f64\<close> is an exact rational here:
  rounding is left out; the text is in \<open>Tracer_Text\<close>. The result of \<^verbatim>\<open>value\<close> without samples, not a
  number, is \<open>None\<close>.
\<close>

section \<open>Buckets\<close>

record 'n avg_bucket =
  ab_avg :: rat
  ab_max :: 'n
  ab_min :: 'n
  ab_num_samples :: nat

definition bucket_default :: "'n \<Rightarrow> 'n \<Rightarrow> 'n avg_bucket" where
  "bucket_default ty_min ty_max = \<lparr>ab_avg = 0, ab_max = ty_min, ab_min = ty_max, ab_num_samples = 0\<rparr>"

definition bucket_update :: "('n::linorder \<Rightarrow> rat) \<Rightarrow> 'n \<Rightarrow> 'n avg_bucket \<Rightarrow> 'n avg_bucket" where
  "bucket_update into new_value b =
     (let n = Suc (ab_num_samples b)
      in \<lparr>ab_avg = ab_avg b + (into new_value - ab_avg b) / of_nat n,
          ab_max = (if ab_max b < new_value then new_value else ab_max b),
          ab_min = (if ab_min b > new_value then new_value else ab_min b),
          ab_num_samples = n\<rparr>)"

definition bucket_value :: "'n avg_bucket \<Rightarrow> rat option" where
  "bucket_value b = (if ab_num_samples b > 0 then Some (ab_avg b) else None)"

definition bucket_count :: "'n avg_bucket \<Rightarrow> nat" where
  "bucket_count b = ab_num_samples b"

definition of_word :: "'a::len word \<Rightarrow> rat" where
  "of_word w = of_nat (unat w)"

definition word_bucket :: "'a::len word avg_bucket" where
  "word_bucket = bucket_default 0 (- 1)"

section \<open>Statistics\<close>

record disputes_stats =
  ds_disputed_count :: u32
  ds_concluded_valid :: u32
  ds_concluded_invalid :: u32
  ds_concluded_timed_out :: u32
  ds_misbehaving :: "u32 avg_bucket"
  ds_resolution_time :: "u32 avg_bucket"

record skipped_slot_block =
  sb_block_number :: u32
  sb_block_hash :: h256

definition skipped_slot_block_new :: "progress_update \<Rightarrow> skipped_slot_block" where
  "skipped_slot_block_new u = \<lparr>sb_block_number = pu_block_number u, sb_block_hash = pu_block_hash u\<rparr>"

text \<open>A \<^verbatim>\<open>VecDeque\<close> with its capacity, which a push on a full deque doubles, from at least four.\<close>

record 'a deque =
  dq_items :: "'a list"
  dq_capacity :: nat

definition deque_pop_front :: "'a deque \<Rightarrow> 'a deque" where
  "deque_pop_front d = d\<lparr>dq_items := tl (dq_items d)\<rparr>"

definition deque_push_back :: "'a \<Rightarrow> 'a deque \<Rightarrow> 'a deque" where
  "deque_push_back x d =
     \<lparr>dq_items = dq_items d @ [x],
      dq_capacity = (if length (dq_items d) = dq_capacity d then max 4 (2 * dq_capacity d) else dq_capacity d)\<rparr>"

text \<open>The block times are \<^verbatim>\<open>f32\<close> seconds; the least and the largest of that type are the parameters
  \<open>f32_min\<close> and \<open>f32_max\<close> of a new bucket.\<close>

record parachain_stats =
  st_para_id :: u32
  st_backed_count :: u32
  st_skipped_slots :: u32
  st_last_skipped :: "skipped_slot_block deque"
  st_included_count :: u32
  st_disputes :: disputes_stats
  st_block_times :: "rat avg_bucket"
  st_slow_avail_count :: u32
  st_low_bitfields_count :: u32
  st_bitfields :: "u32 avg_bucket"
  st_included_times :: "u16 avg_bucket"
  st_backed_times :: "u16 avg_bucket"

definition f32_max :: rat where
  "f32_max = (2 ^ 24 - 1) * 2 ^ 104"

definition parachain_stats_new :: "u32 \<Rightarrow> nat \<Rightarrow> parachain_stats" where
  "parachain_stats_new para_id last_skipped_slot_blocks =
     \<lparr>st_para_id = para_id, st_backed_count = 0, st_skipped_slots = 0,
      st_last_skipped = \<lparr>dq_items = [], dq_capacity = last_skipped_slot_blocks\<rparr>, st_included_count = 0,
      st_disputes = \<lparr>ds_disputed_count = 0, ds_concluded_valid = 0, ds_concluded_invalid = 0,
        ds_concluded_timed_out = 0, ds_misbehaving = word_bucket, ds_resolution_time = word_bucket\<rparr>,
      st_block_times = bucket_default (- f32_max) f32_max, st_slow_avail_count = 0,
      st_low_bitfields_count = 0, st_bitfields = word_bucket, st_included_times = word_bucket,
      st_backed_times = word_bucket\<rparr>"

definition on_backed :: "parachain_stats \<Rightarrow> parachain_stats" where
  "on_backed s = s\<lparr>st_backed_count := st_backed_count s + 1\<rparr>"

definition on_included :: "u32 \<Rightarrow> u32 option \<Rightarrow> u32 option \<Rightarrow> parachain_stats \<Rightarrow> parachain_stats" where
  "on_included relay_parent_number previous_included backed_in s =
     (let s1 = s\<lparr>st_included_count := st_included_count s + 1\<rparr>;
          s2 = (case previous_included of
                  None \<Rightarrow> s1
                | Some previous_block_number \<Rightarrow>
                    s1\<lparr>st_included_times := bucket_update of_word
                         (ucast (saturating_sub relay_parent_number previous_block_number)) (st_included_times s1)\<rparr>)
      in (case backed_in of
            None \<Rightarrow> s2
          | Some n \<Rightarrow> s2\<lparr>st_backed_times := bucket_update of_word (ucast n) (st_backed_times s2)\<rparr>))"

definition on_disputed :: "disputes_tracker \<Rightarrow> parachain_stats \<Rightarrow> parachain_stats" where
  "on_disputed outcome s =
     (let d = st_disputes s;
          d1 = d\<lparr>ds_disputed_count := ds_disputed_count d + 1\<rparr>;
          d2 = (case dt_outcome outcome of
                  DValid \<Rightarrow> d1\<lparr>ds_concluded_valid := ds_concluded_valid d1 + 1\<rparr>
                | DInvalid \<Rightarrow> d1\<lparr>ds_concluded_invalid := ds_concluded_invalid d1 + 1\<rparr>
                | DTimedOut \<Rightarrow> d1\<lparr>ds_concluded_timed_out := ds_concluded_timed_out d1 + 1\<rparr>);
          d3 = d2\<lparr>ds_misbehaving :=
                 bucket_update of_word (usize_as_u32 (length (dt_misbehaving_validators outcome))) (ds_misbehaving d2)\<rparr>
      in s\<lparr>st_disputes := d3\<lparr>ds_resolution_time :=
             bucket_update of_word (dt_resolve_time outcome) (ds_resolution_time d3)\<rparr>\<rparr>)"

definition as_secs :: "duration \<Rightarrow> rat" where
  "as_secs d = of_nat d / 1000000000"

definition on_block :: "duration \<Rightarrow> parachain_stats \<Rightarrow> parachain_stats" where
  "on_block time s = s\<lparr>st_block_times := bucket_update id (as_secs time) (st_block_times s)\<rparr>"

definition on_bitfields :: "u32 \<Rightarrow> bool \<Rightarrow> parachain_stats \<Rightarrow> parachain_stats" where
  "on_bitfields nbits is_low s =
     (let s1 = s\<lparr>st_bitfields := bucket_update of_word nbits (st_bitfields s)\<rparr>
      in if is_low then s1\<lparr>st_low_bitfields_count := st_low_bitfields_count s1 + 1\<rparr> else s1)"

definition on_slow_availability :: "parachain_stats \<Rightarrow> parachain_stats" where
  "on_slow_availability s = s\<lparr>st_slow_avail_count := st_slow_avail_count s + 1\<rparr>"

definition on_skipped_slot :: "progress_update \<Rightarrow> parachain_stats \<Rightarrow> parachain_stats" where
  "on_skipped_slot update s =
     (let s1 = s\<lparr>st_skipped_slots := st_skipped_slots s + 1\<rparr>;
          d = st_last_skipped s1;
          d1 = (if length (dq_items d) \<ge> dq_capacity d then deque_pop_front d else d)
      in s1\<lparr>st_last_skipped := deque_push_back (skipped_slot_block_new update) d1\<rparr>)"

text \<open>The calls that a progress report makes on the statistics.\<close>

fun apply_stats :: "stats_call \<Rightarrow> parachain_stats \<Rightarrow> parachain_stats" where
  "apply_stats (OnBlock time) = on_block time"
| "apply_stats (OnBitfields nbits is_low) = on_bitfields nbits is_low"
| "apply_stats (OnSkippedSlot u) = on_skipped_slot u"
| "apply_stats OnBacked = on_backed"
| "apply_stats OnSlowAvailability = on_slow_availability"
| "apply_stats (OnIncluded n previous backed_in) = on_included n previous backed_in"
| "apply_stats (OnDisputed d) = on_disputed d"

section \<open>What a bucket holds\<close>

lemma bucket_fold:
  "ab_num_samples (fold (bucket_update into) xs b) = ab_num_samples b + length xs \<and>
    ab_avg (fold (bucket_update into) xs b) * of_nat (ab_num_samples b + length xs) =
      ab_avg b * of_nat (ab_num_samples b) + sum_list (map into xs)"
proof (induction xs arbitrary: b)
  case (Cons x xs)
  let ?b = "bucket_update into x b" and ?n = "of_nat (ab_num_samples b) :: rat"
  have n: "ab_num_samples ?b = Suc (ab_num_samples b)" by (simp add: bucket_update_def Let_def)
  have "0 < 1 + ?n" by (simp add: add_pos_nonneg)
  then have nz: "1 + ?n \<noteq> 0" by simp
  have "ab_avg ?b = ab_avg b + (into x - ab_avg b) / (1 + ?n)" by (simp add: bucket_update_def Let_def)
  then have "ab_avg ?b * (1 + ?n) = ab_avg b * (1 + ?n) + (into x - ab_avg b)"
    using nz by (simp only: distrib_right) simp
  also have "\<dots> = ab_avg b * ?n + into x" by (simp add: distrib_left)
  finally have avg: "ab_avg ?b * of_nat (Suc (ab_num_samples b)) = ab_avg b * ?n + into x" by simp
  show ?case using Cons.IH [of ?b] by (simp add: n avg [simplified])
qed simp

lemma bucket_bounds:
  "ab_max (fold (bucket_update into) xs b) = fold max xs (ab_max b)"
  "ab_min (fold (bucket_update into) xs b) = fold min xs (ab_min b)"
  by (induction xs arbitrary: b) (auto simp: bucket_update_def Let_def max_def min_def)

text \<open>A bucket that summarises a list of samples: their number, mean, largest and smallest.\<close>

definition summarises :: "('n::linorder \<Rightarrow> rat) \<Rightarrow> 'n list \<Rightarrow> 'n avg_bucket \<Rightarrow> bool" where
  "summarises into xs b \<longleftrightarrow>
     bucket_count b = length xs \<and>
     bucket_value b = (if xs = [] then None else Some (sum_list (map into xs) / of_nat (length xs))) \<and>
     (xs \<noteq> [] \<longrightarrow> ab_max b = Max (set xs) \<and> ab_min b = Min (set xs))"

lemma fold_extremes:
  fixes xs :: "'n::linorder list"
  assumes "xs \<noteq> []"
  shows "(\<And>x. x \<in> set xs \<Longrightarrow> lo \<le> x) \<Longrightarrow> fold max xs lo = Max (set xs)"
    and "(\<And>x. x \<in> set xs \<Longrightarrow> x \<le> hi) \<Longrightarrow> fold min xs hi = Min (set xs)"
proof -
  have "fold max xs lo = Max (insert lo (set xs))" by (simp flip: Max.set_eq_fold)
  then show "fold max xs lo = Max (set xs)" if "\<And>x. x \<in> set xs \<Longrightarrow> lo \<le> x"
    using assms that by (simp add: max_absorb2 Max_ge_iff ex_in_conv)
  have "fold min xs hi = Min (insert hi (set xs))" by (simp flip: Min.set_eq_fold)
  then show "fold min xs hi = Min (set xs)" if "\<And>x. x \<in> set xs \<Longrightarrow> x \<le> hi"
    using assms that by (simp add: min_absorb2 Min_le_iff ex_in_conv)
qed

lemma summarises_fold:
  assumes "\<And>x. x \<in> set xs \<Longrightarrow> lo \<le> x \<and> x \<le> hi"
  shows "summarises into xs (fold (bucket_update into) xs (bucket_default lo hi))"
proof -
  let ?b = "fold (bucket_update into) xs (bucket_default lo hi)"
  have n: "ab_num_samples ?b = length xs" "ab_avg ?b * of_nat (length xs) = sum_list (map into xs)"
    using bucket_fold [of into xs "bucket_default lo hi"] by (simp_all add: bucket_default_def)
  then have "xs \<noteq> [] \<Longrightarrow> ab_avg ?b = sum_list (map into xs) / of_nat (length xs)"
    by (simp add: eq_divide_eq)
  with n(1) assms show ?thesis
    by (auto simp: summarises_def bucket_count_def bucket_value_def bucket_bounds bucket_default_def fold_extremes)
qed

lemma summarises_words: "summarises of_word xs (fold (bucket_update of_word) xs word_bucket)"
  unfolding word_bucket_def by (rule summarises_fold) simp

section \<open>The statistics of a sequence of calls\<close>

text \<open>A field that every call changes on its own is a fold over what the calls bring to it.\<close>

lemma fold_field:
  assumes "\<And>c s. f (h c s) = fold g (sel c) (f s)"
  shows "f (fold h cs s) = fold g (concat (map sel cs)) (f s)"
  by (induction cs arbitrary: s) (simp_all add: assms)

lemma fold_counter: "fold (\<lambda>_ n. n + 1) xs (n :: 'a::len word) = n + of_nat (length xs)"
  by (induction xs arbitrary: n) simp_all

definition bitfield_samples :: "stats_call list \<Rightarrow> u32 list" where
  "bitfield_samples cs = concat (map (\<lambda>c. case c of OnBitfields n _ \<Rightarrow> [n] | _ \<Rightarrow> []) cs)"

definition inclusion_samples :: "stats_call list \<Rightarrow> u16 list" where
  "inclusion_samples cs =
     concat (map (\<lambda>c. case c of OnIncluded n (Some m) _ \<Rightarrow> [ucast (saturating_sub n m)] | _ \<Rightarrow> []) cs)"

definition backing_samples :: "stats_call list \<Rightarrow> u16 list" where
  "backing_samples cs = concat (map (\<lambda>c. case c of OnIncluded _ _ (Some k) \<Rightarrow> [ucast k] | _ \<Rightarrow> []) cs)"

definition block_time_samples :: "stats_call list \<Rightarrow> rat list" where
  "block_time_samples cs = concat (map (\<lambda>c. case c of OnBlock t \<Rightarrow> [as_secs t] | _ \<Rightarrow> []) cs)"

definition disputes_of :: "stats_call list \<Rightarrow> disputes_tracker list" where
  "disputes_of cs = concat (map (\<lambda>c. case c of OnDisputed d \<Rightarrow> [d] | _ \<Rightarrow> []) cs)"

definition skipped_of :: "stats_call list \<Rightarrow> skipped_slot_block list" where
  "skipped_of cs = concat (map (\<lambda>c. case c of OnSkippedSlot u \<Rightarrow> [skipped_slot_block_new u] | _ \<Rightarrow> []) cs)"

definition how_many :: "('c \<Rightarrow> bool) \<Rightarrow> 'c list \<Rightarrow> u32" where
  "how_many P cs = of_nat (length (filter P cs))"

lemma concat_if: "concat (map (\<lambda>c. if P c then [x] else []) cs) = replicate (length (filter P cs)) x"
  by (induction cs) simp_all

lemmas apply_stats_defs =
  on_backed_def on_included_def on_disputed_def on_block_def on_bitfields_def on_slow_availability_def
  on_skipped_slot_def Let_def

lemma counter_field:
  assumes "\<And>c s. f (h c s) = (if P c then f s + 1 else f s :: u32)"
  shows "f (fold h cs s) = f s + how_many P cs"
proof -
  have "f (fold h cs s) = fold (\<lambda>_ n. n + 1) (concat (map (\<lambda>c. if P c then [()] else []) cs)) (f s)"
    by (rule fold_field) (simp add: assms)
  then show ?thesis by (simp only: fold_counter concat_if how_many_def length_replicate)
qed

lemma counters_exact:
  "st_backed_count (fold apply_stats cs s) = st_backed_count s + how_many (\<lambda>c. c = OnBacked) cs"
  "st_slow_avail_count (fold apply_stats cs s) = st_slow_avail_count s + how_many (\<lambda>c. c = OnSlowAvailability) cs"
  "st_included_count (fold apply_stats cs s) =
     st_included_count s + how_many (\<lambda>c. case c of OnIncluded _ _ _ \<Rightarrow> True | _ \<Rightarrow> False) cs"
  "st_skipped_slots (fold apply_stats cs s) =
     st_skipped_slots s + how_many (\<lambda>c. case c of OnSkippedSlot _ \<Rightarrow> True | _ \<Rightarrow> False) cs"
  "st_low_bitfields_count (fold apply_stats cs s) =
     st_low_bitfields_count s + how_many (\<lambda>c. case c of OnBitfields _ low \<Rightarrow> low | _ \<Rightarrow> False) cs"
proof -
  have *: "st_backed_count (apply_stats c s) = (if c = OnBacked then st_backed_count s + 1 else st_backed_count s)"
    "st_slow_avail_count (apply_stats c s) =
       (if c = OnSlowAvailability then st_slow_avail_count s + 1 else st_slow_avail_count s)"
    "st_included_count (apply_stats c s) =
       (if case c of OnIncluded _ _ _ \<Rightarrow> True | _ \<Rightarrow> False then st_included_count s + 1 else st_included_count s)"
    "st_skipped_slots (apply_stats c s) =
       (if case c of OnSkippedSlot _ \<Rightarrow> True | _ \<Rightarrow> False then st_skipped_slots s + 1 else st_skipped_slots s)"
    "st_low_bitfields_count (apply_stats c s) =
       (if case c of OnBitfields _ low \<Rightarrow> low | _ \<Rightarrow> False then st_low_bitfields_count s + 1 else st_low_bitfields_count s)"
    for c s by (cases c; simp add: apply_stats_defs split: option.split)+
  show "st_backed_count (fold apply_stats cs s) = st_backed_count s + how_many (\<lambda>c. c = OnBacked) cs"
    by (rule counter_field) (rule *)
  show "st_slow_avail_count (fold apply_stats cs s) = st_slow_avail_count s + how_many (\<lambda>c. c = OnSlowAvailability) cs"
    by (rule counter_field) (rule *)
  show "st_included_count (fold apply_stats cs s) =
     st_included_count s + how_many (\<lambda>c. case c of OnIncluded _ _ _ \<Rightarrow> True | _ \<Rightarrow> False) cs"
    by (rule counter_field) (rule *)
  show "st_skipped_slots (fold apply_stats cs s) =
     st_skipped_slots s + how_many (\<lambda>c. case c of OnSkippedSlot _ \<Rightarrow> True | _ \<Rightarrow> False) cs"
    by (rule counter_field) (rule *)
  show "st_low_bitfields_count (fold apply_stats cs s) =
     st_low_bitfields_count s + how_many (\<lambda>c. case c of OnBitfields _ low \<Rightarrow> low | _ \<Rightarrow> False) cs"
    by (rule counter_field) (rule *)
qed

lemma samples_exact:
  "st_bitfields (fold apply_stats cs s) = fold (bucket_update of_word) (bitfield_samples cs) (st_bitfields s)"
  "st_included_times (fold apply_stats cs s) = fold (bucket_update of_word) (inclusion_samples cs) (st_included_times s)"
  "st_backed_times (fold apply_stats cs s) = fold (bucket_update of_word) (backing_samples cs) (st_backed_times s)"
  "st_block_times (fold apply_stats cs s) = fold (bucket_update id) (block_time_samples cs) (st_block_times s)"
  "st_disputes (fold apply_stats cs s) =
     fold (\<lambda>d x. st_disputes (on_disputed d (s\<lparr>st_disputes := x\<rparr>))) (disputes_of cs) (st_disputes s)"
  "st_last_skipped (fold apply_stats cs s) =
     fold (\<lambda>b d. deque_push_back b (if length (dq_items d) \<ge> dq_capacity d then deque_pop_front d else d))
       (skipped_of cs) (st_last_skipped s)"
  unfolding bitfield_samples_def inclusion_samples_def backing_samples_def block_time_samples_def disputes_of_def
    skipped_of_def
  by (rule fold_field, case_tac c, simp_all add: apply_stats_defs split: option.split dispute_result.split)+

lemma disputes_fold:
  fixes ds and s0 :: parachain_stats and x0 :: disputes_stats
  defines "x \<equiv> fold (\<lambda>d x. st_disputes (on_disputed d (s0\<lparr>st_disputes := x\<rparr>))) ds x0"
  shows "ds_disputed_count x = ds_disputed_count x0 + of_nat (length ds)"
    and "ds_concluded_valid x = ds_concluded_valid x0 + how_many (\<lambda>d. dt_outcome d = DValid) ds"
    and "ds_concluded_invalid x = ds_concluded_invalid x0 + how_many (\<lambda>d. dt_outcome d = DInvalid) ds"
    and "ds_concluded_timed_out x = ds_concluded_timed_out x0 + how_many (\<lambda>d. dt_outcome d = DTimedOut) ds"
    and "ds_resolution_time x = fold (bucket_update of_word) (map dt_resolve_time ds) (ds_resolution_time x0)"
    and "ds_misbehaving x = fold (bucket_update of_word)
      (map (\<lambda>d. usize_as_u32 (length (dt_misbehaving_validators d))) ds) (ds_misbehaving x0)"
  unfolding x_def
  by (induction ds arbitrary: x0)
    (simp_all add: on_disputed_def Let_def how_many_def split: dispute_result.split)

text \<open>A deque that was given room keeps the newest entries, in order.\<close>

lemma deque_fold:
  assumes "length (dq_items d) \<le> dq_capacity d" "0 < dq_capacity d"
  shows "fold (\<lambda>b d. deque_push_back b (if length (dq_items d) \<ge> dq_capacity d then deque_pop_front d else d)) bs d =
    d\<lparr>dq_items := drop (length (dq_items d @ bs) - dq_capacity d) (dq_items d @ bs)\<rparr>"
  using assms
proof (induction bs arbitrary: d)
  case (Cons b bs)
  let ?push = "\<lambda>b d. deque_push_back b (if length (dq_items d) \<ge> dq_capacity d then deque_pop_front d else d)"
  define e where "e = ?push b d"
  have step: "fold ?push (b # bs) d = fold ?push bs e" by (simp add: e_def)
  show ?case
  proof (cases "length (dq_items d) = dq_capacity d")
    case True
    then obtain x xs where x: "dq_items d = x # xs" using Cons.prems by (cases "dq_items d") auto
    have e: "e = d\<lparr>dq_items := xs @ [b]\<rparr>"
      using True x unfolding e_def by (auto simp: deque_push_back_def deque_pop_front_def)
    have "fold ?push bs e = e\<lparr>dq_items := drop (length (dq_items e @ bs) - dq_capacity e) (dq_items e @ bs)\<rparr>"
      using True x Cons.prems by (intro Cons.IH) (simp_all add: e)
    with True x show ?thesis unfolding step by (simp add: e Suc_diff_le)
  next
    case False
    with Cons.prems have e: "e = d\<lparr>dq_items := dq_items d @ [b]\<rparr>"
      unfolding e_def by (simp add: deque_push_back_def)
    have "fold ?push bs e = e\<lparr>dq_items := drop (length (dq_items e @ bs) - dq_capacity e) (dq_items e @ bs)\<rparr>"
      using False Cons.prems by (intro Cons.IH) (simp_all add: e)
    with False show ?thesis unfolding step by (simp add: e)
  qed
qed simp

text \<open>The statistics after any sequence of calls, in closed form: every counter is the number of its calls
  (modulo its width), every bucket has the number, the mean, the largest and the smallest of its samples
  and no value without samples, and the last blocks with skipped slots are the newest ones, at most as
  many as asked for, oldest first. The inclusion and backing times are cut to 16 bits.\<close>

theorem stats_summary:
  fixes cs para_id cap
  assumes "0 < cap" "\<And>t. OnBlock t \<in> set cs \<Longrightarrow> as_secs t \<le> f32_max"
  defines "s \<equiv> fold apply_stats cs (parachain_stats_new para_id cap)"
  shows "st_backed_count s = how_many (\<lambda>c. c = OnBacked) cs \<and>
    st_slow_avail_count s = how_many (\<lambda>c. c = OnSlowAvailability) cs \<and>
    st_included_count s = how_many (\<lambda>c. case c of OnIncluded _ _ _ \<Rightarrow> True | _ \<Rightarrow> False) cs \<and>
    st_skipped_slots s = how_many (\<lambda>c. case c of OnSkippedSlot _ \<Rightarrow> True | _ \<Rightarrow> False) cs \<and>
    st_low_bitfields_count s = how_many (\<lambda>c. case c of OnBitfields _ low \<Rightarrow> low | _ \<Rightarrow> False) cs \<and>
    summarises of_word (bitfield_samples cs) (st_bitfields s) \<and>
    summarises of_word (inclusion_samples cs) (st_included_times s) \<and>
    summarises of_word (backing_samples cs) (st_backed_times s) \<and>
    summarises id (block_time_samples cs) (st_block_times s) \<and>
    dq_items (st_last_skipped s) = drop (length (skipped_of cs) - cap) (skipped_of cs)"
proof -
  have "- f32_max \<le> x \<and> x \<le> f32_max" if "x \<in> set (block_time_samples cs)" for x
  proof -
    from that obtain t where t: "OnBlock t \<in> set cs" "x = as_secs t"
      by (auto simp: block_time_samples_def split: stats_call.splits)
    have "0 \<le> as_secs t" "0 \<le> f32_max" by (simp_all add: as_secs_def f32_max_def)
    with t assms(2) [OF t(1)] show ?thesis by auto
  qed
  note times = summarises_fold [OF this, of "block_time_samples cs" id]
  show ?thesis
    unfolding s_def counters_exact samples_exact
    using assms(1) times by (simp add: parachain_stats_new_def summarises_words deque_fold)
qed

theorem stats_summary_witness:
  "st_backed_count (fold apply_stats [OnBacked, OnBitfields 3 True, OnBacked] (parachain_stats_new 100 2)) = 2"
proof -
  have "how_many (\<lambda>c. c = OnBacked) [OnBacked, OnBitfields 3 True, OnBacked] = 2" by (simp add: how_many_def)
  then show ?thesis using stats_summary [of 2 "[OnBacked, OnBitfields 3 True, OnBacked]" 100] by simp
qed

text \<open>The dispute statistics: every tracked dispute is counted once in total and once under its outcome, so the
  three outcomes add up to the total, and resolution times and numbers of misbehaving validators
  are summarised over all of them.\<close>

theorem dispute_stats_summary:
  fixes cs para_id cap
  defines "d \<equiv> st_disputes (fold apply_stats cs (parachain_stats_new para_id cap))" and "ds \<equiv> disputes_of cs"
  shows "ds_disputed_count d = of_nat (length ds) \<and>
    ds_concluded_valid d = how_many (\<lambda>d. dt_outcome d = DValid) ds \<and>
    ds_concluded_invalid d = how_many (\<lambda>d. dt_outcome d = DInvalid) ds \<and>
    ds_concluded_timed_out d = how_many (\<lambda>d. dt_outcome d = DTimedOut) ds \<and>
    ds_concluded_valid d + ds_concluded_invalid d + ds_concluded_timed_out d = ds_disputed_count d \<and>
    summarises of_word (map dt_resolve_time ds) (ds_resolution_time d) \<and>
    summarises of_word (map (\<lambda>d. usize_as_u32 (length (dt_misbehaving_validators d))) ds) (ds_misbehaving d)"
proof -
  have sum: "how_many (\<lambda>d. dt_outcome d = DValid) ds + how_many (\<lambda>d. dt_outcome d = DInvalid) ds +
      how_many (\<lambda>d. dt_outcome d = DTimedOut) ds = of_nat (length ds)" for ds
  proof (induction ds)
    case (Cons d ds)
    then show ?case by (cases "dt_outcome d") (simp_all add: how_many_def algebra_simps)
  qed (simp add: how_many_def)
  show ?thesis
    unfolding d_def ds_def samples_exact disputes_fold
    using sum [of "disputes_of cs"] by (simp add: parachain_stats_new_def summarises_words)
qed

end
