(* ===== verification/Channel.thy ===== *)
theory Channel
  imports Complex_Main Prelude
begin

text \<open>
  The two-lane channel, \<^verbatim>\<open>priority-channel/src/lib.rs\<close>: a bulk lane and a priority lane, each a bounded
  channel of the crate \<^verbatim>\<open>async_channel\<close>. That crate is a parameter: a record of its operations on the
  state \<open>'q\<close> of one channel. The predicate \<open>lawful\<close> states what its documentation promises: bounded FIFO
  queues, whose receivers drain what is left after the senders are gone. Sender and receiver are the two
  ends of one pair of lanes.
\<close>

section \<open>The channels of the library\<close>

datatype try_recv_error = Empty | Closed
datatype 'm try_send_error = Full 'm | Disconnected 'm
datatype 'a poll = Ready 'a | Pending

record ('q, 'm) channel_ops =
  op_bounded :: "nat \<Rightarrow> 'q"
  op_try_send :: "'m \<Rightarrow> 'q \<Rightarrow> ('m try_send_error + unit) \<times> 'q"
  op_send :: "'m \<Rightarrow> 'q \<Rightarrow> ('m + unit) poll \<times> 'q"
  op_try_recv :: "'q \<Rightarrow> (try_recv_error + 'm) \<times> 'q"
  op_poll_next :: "'q \<Rightarrow> 'm option poll \<times> 'q"
  op_recv :: "'q \<Rightarrow> 'm option poll \<times> 'q"
  op_len :: "'q \<Rightarrow> nat"
  op_is_empty :: "'q \<Rightarrow> bool"
  op_is_terminated :: "'q \<Rightarrow> bool"
  op_size_hint :: "'q \<Rightarrow> nat \<times> nat option"

section \<open>The two-lane channel\<close>

record 'q lanes =
  ln_inner :: 'q
  ln_priority :: 'q

definition channel_with_capacities :: "('q, 'm) channel_ops \<Rightarrow> nat \<Rightarrow> nat \<Rightarrow> 'q lanes" where
  "channel_with_capacities ops bulk_capacity priority_capacity =
     \<lparr>ln_inner = op_bounded ops bulk_capacity, ln_priority = op_bounded ops priority_capacity\<rparr>"

definition channel :: "('q, 'm) channel_ops \<Rightarrow> nat \<Rightarrow> 'q lanes" where
  "channel ops capacity =
     \<lparr>ln_inner = op_bounded ops capacity, ln_priority = op_bounded ops capacity\<rparr>"

text \<open>The stream side: the bulk lane is polled while the priority lane is pending.\<close>

definition poll_next :: "('q, 'm) channel_ops \<Rightarrow> 'q lanes \<Rightarrow> 'm option poll \<times> 'q lanes" where
  "poll_next ops l =
     (case op_poll_next ops (ln_priority l) of
        (Ready maybe_value, q) \<Rightarrow> (Ready maybe_value, l\<lparr>ln_priority := q\<rparr>)
      | (Pending, q) \<Rightarrow>
          (case op_poll_next ops (ln_inner l) of
             (Ready maybe_value, q') \<Rightarrow> (Ready maybe_value, \<lparr>ln_inner = q', ln_priority = q\<rparr>)
           | (Pending, q') \<Rightarrow> (Pending, \<lparr>ln_inner = q', ln_priority = q\<rparr>)))"

definition size_hint :: "('q, 'm) channel_ops \<Rightarrow> 'q lanes \<Rightarrow> nat \<times> nat option" where
  "size_hint ops l = op_size_hint ops (ln_inner l)"

text \<open>A strategy is whether the priority lane is tried first; \<open>draw\<close> is the random number of the
  probabilistic one.\<close>

definition priority_first :: bool where
  "priority_first = True"

definition probabilistic_threshold :: rat where
  "probabilistic_threshold = 9 / 10"

definition probabilistic :: "rat \<Rightarrow> bool" where
  "probabilistic draw \<longleftrightarrow> draw < probabilistic_threshold"

definition try_next_with_strategy ::
  "('q, 'm) channel_ops \<Rightarrow> bool \<Rightarrow> 'q lanes \<Rightarrow> (try_recv_error + 'm) \<times> 'q lanes" where
  "try_next_with_strategy ops try_priority l =
     (let (first, set_first, second, set_second) =
            (if try_priority
             then (ln_priority l, \<lambda>q l. l\<lparr>ln_priority := q\<rparr>, ln_inner l, \<lambda>q l. l\<lparr>ln_inner := q\<rparr>)
             else (ln_inner l, \<lambda>q l. l\<lparr>ln_inner := q\<rparr>, ln_priority l, \<lambda>q l. l\<lparr>ln_priority := q\<rparr>))
      in case op_try_recv ops first of
           (Inr v, q) \<Rightarrow> (Inr v, set_first q l)
         | (Inl Empty, q) \<Rightarrow>
             (case op_try_recv ops second of
                (Inr v, q') \<Rightarrow> (Inr v, set_second q' (set_first q l))
              | (Inl e, q') \<Rightarrow> (Inl e, set_second q' (set_first q l)))
         | (Inl e, q) \<Rightarrow> (Inl e, set_first q l))"

definition try_next :: "('q, 'm) channel_ops \<Rightarrow> 'q lanes \<Rightarrow> (try_recv_error + 'm) \<times> 'q lanes" where
  "try_next ops = try_next_with_strategy ops priority_first"

definition lanes_len :: "('q, 'm) channel_ops \<Rightarrow> 'q lanes \<Rightarrow> nat" where
  "lanes_len ops l = op_len ops (ln_inner l) + op_len ops (ln_priority l)"

definition lanes_is_empty :: "('q, 'm) channel_ops \<Rightarrow> 'q lanes \<Rightarrow> bool" where
  "lanes_is_empty ops l \<longleftrightarrow> op_is_empty ops (ln_inner l) \<and> op_is_empty ops (ln_priority l)"

definition is_terminated :: "('q, 'm) channel_ops \<Rightarrow> 'q lanes \<Rightarrow> bool" where
  "is_terminated ops l \<longleftrightarrow> op_is_terminated ops (ln_inner l) \<or> op_is_terminated ops (ln_priority l)"

text \<open>\<open>Pending\<close> while the lane is full: the caller waits.\<close>

datatype send_error = SendDisconnected

definition send :: "('q, 'm) channel_ops \<Rightarrow> 'm \<Rightarrow> 'q lanes \<Rightarrow> (send_error + unit) poll \<times> 'q lanes" where
  "send ops m l =
     (case op_send ops m (ln_inner l) of
        (Pending, q) \<Rightarrow> (Pending, l\<lparr>ln_inner := q\<rparr>)
      | (Ready r, q) \<Rightarrow>
          (Ready (case r of Inl _ \<Rightarrow> Inl SendDisconnected | Inr u \<Rightarrow> Inr u), l\<lparr>ln_inner := q\<rparr>))"

definition send_priority :: "('q, 'm) channel_ops \<Rightarrow> 'm \<Rightarrow> 'q lanes \<Rightarrow> (send_error + unit) poll \<times> 'q lanes" where
  "send_priority ops m l =
     (case op_send ops m (ln_priority l) of
        (Pending, q) \<Rightarrow> (Pending, l\<lparr>ln_priority := q\<rparr>)
      | (Ready r, q) \<Rightarrow>
          (Ready (case r of Inl _ \<Rightarrow> Inl SendDisconnected | Inr u \<Rightarrow> Inr u), l\<lparr>ln_priority := q\<rparr>))"

definition try_send :: "('q, 'm) channel_ops \<Rightarrow> 'm \<Rightarrow> 'q lanes \<Rightarrow> ('m try_send_error + unit) \<times> 'q lanes" where
  "try_send ops m l = (let (r, q) = op_try_send ops m (ln_inner l) in (r, l\<lparr>ln_inner := q\<rparr>))"

definition try_send_priority ::
  "('q, 'm) channel_ops \<Rightarrow> 'm \<Rightarrow> 'q lanes \<Rightarrow> ('m try_send_error + unit) \<times> 'q lanes" where
  "try_send_priority ops m l = (let (r, q) = op_try_send ops m (ln_priority l) in (r, l\<lparr>ln_priority := q\<rparr>))"

text \<open>A receiver dereferences to its bulk lane, so a call of a method that only the library's receiver has,
  such as \<^verbatim>\<open>recv\<close>, is a call on that lane.\<close>

definition deref :: "'q lanes \<Rightarrow> 'q" where
  "deref l = ln_inner l"

definition recv :: "('q, 'm) channel_ops \<Rightarrow> 'q lanes \<Rightarrow> 'm option poll \<times> 'q lanes" where
  "recv ops l = (let (r, q) = op_recv ops (deref l) in (r, l\<lparr>ln_inner := q\<rparr>))"

section \<open>What the library promises\<close>

text \<open>A channel seen from outside: what it holds, whether the other end is gone, and its capacity.\<close>

record ('q, 'm) channel_view =
  vw_items :: "'q \<Rightarrow> 'm list"
  vw_closed :: "'q \<Rightarrow> bool"
  vw_cap :: "'q \<Rightarrow> nat"

definition holds :: "('q, 'm) channel_view \<Rightarrow> 'q \<Rightarrow> 'q \<Rightarrow> 'm list \<Rightarrow> bool" where
  "holds vw q q' xs \<longleftrightarrow> vw_items vw q' = xs \<and> vw_closed vw q' = vw_closed vw q \<and> vw_cap vw q' = vw_cap vw q"

fun send_law :: "('q, 'm) channel_view \<Rightarrow> 'm \<Rightarrow> 'q \<Rightarrow> ('m try_send_error + unit) \<times> 'q \<Rightarrow> bool" where
  "send_law vw m q (Inr _, q') \<longleftrightarrow>
     \<not> vw_closed vw q \<and> length (vw_items vw q) < vw_cap vw q \<and> holds vw q q' (vw_items vw q @ [m])"
| "send_law vw m q (Inl (Disconnected m'), q') \<longleftrightarrow> vw_closed vw q \<and> m' = m \<and> holds vw q q' (vw_items vw q)"
| "send_law vw m q (Inl (Full m'), q') \<longleftrightarrow>
     \<not> vw_closed vw q \<and> vw_cap vw q \<le> length (vw_items vw q) \<and> m' = m \<and> holds vw q q' (vw_items vw q)"

fun recv_law :: "('q, 'm) channel_view \<Rightarrow> 'q \<Rightarrow> (try_recv_error + 'm) \<times> 'q \<Rightarrow> bool" where
  "recv_law vw q (Inr m, q') \<longleftrightarrow> (\<exists>xs. vw_items vw q = m # xs \<and> holds vw q q' xs)"
| "recv_law vw q (Inl e, q') \<longleftrightarrow>
     vw_items vw q = [] \<and> e = (if vw_closed vw q then Closed else Empty) \<and> holds vw q q' []"

fun poll_law :: "('q, 'm) channel_view \<Rightarrow> 'q \<Rightarrow> 'm option poll \<times> 'q \<Rightarrow> bool" where
  "poll_law vw q (Ready (Some m), q') \<longleftrightarrow> (\<exists>xs. vw_items vw q = m # xs \<and> holds vw q q' xs)"
| "poll_law vw q (Ready None, q') \<longleftrightarrow> vw_items vw q = [] \<and> vw_closed vw q \<and> holds vw q q' []"
| "poll_law vw q (Pending, q') \<longleftrightarrow> vw_items vw q = [] \<and> \<not> vw_closed vw q \<and> holds vw q q' []"

definition lawful :: "('q, 'm) channel_ops \<Rightarrow> ('q, 'm) channel_view \<Rightarrow> bool" where
  "lawful ops vw \<longleftrightarrow>
     (\<forall>n. vw_items vw (op_bounded ops n) = [] \<and> \<not> vw_closed vw (op_bounded ops n) \<and> vw_cap vw (op_bounded ops n) = n) \<and>
     (\<forall>m q. send_law vw m q (op_try_send ops m q)) \<and>
     (\<forall>q. recv_law vw q (op_try_recv ops q)) \<and>
     (\<forall>q. poll_law vw q (op_poll_next ops q) \<and> poll_law vw q (op_recv ops q)) \<and>
     (\<forall>q. op_len ops q = length (vw_items vw q) \<and> (op_is_empty ops q \<longleftrightarrow> vw_items vw q = []))"

lemma recv_law_cases:
  assumes "recv_law vw q r"
  obtains m xs q' where "r = (Inr m, q')" "vw_items vw q = m # xs" "holds vw q q' xs"
  | q' where "r = (Inl (if vw_closed vw q then Closed else Empty), q')" "vw_items vw q = []" "holds vw q q' []"
proof (cases r)
  case (Pair a q')
  with assms that show thesis by (cases a) auto
qed

lemma poll_law_cases:
  assumes "poll_law vw q r"
  obtains m xs q' where "r = (Ready (Some m), q')" "vw_items vw q = m # xs" "holds vw q q' xs"
  | q' where "r = (if vw_closed vw q then Ready None else Pending, q')" "vw_items vw q = []" "holds vw q q' []"
proof (cases r)
  case (Pair a q')
  with assms that show thesis by (cases "(vw, q, r)" rule: poll_law.cases) auto
qed

lemma lawful_laws:
  assumes "lawful ops vw"
  shows "vw_items vw (op_bounded ops n) = []" "\<not> vw_closed vw (op_bounded ops n)" "vw_cap vw (op_bounded ops n) = n"
    and "send_law vw m q (op_try_send ops m q)" "recv_law vw q (op_try_recv ops q)"
    and "poll_law vw q (op_poll_next ops q)" "poll_law vw q (op_recv ops q)"
    and "op_len ops q = length (vw_items vw q)" "op_is_empty ops q \<longleftrightarrow> vw_items vw q = []"
  using assms by (simp_all add: lawful_def)

text \<open>A queue as the documentation describes it, to show that the promises can be kept.\<close>

record 'm fifo =
  ff_items :: "'m list"
  ff_closed :: bool
  ff_cap :: nat

definition fifo_view :: "('m fifo, 'm) channel_view" where
  "fifo_view = \<lparr>vw_items = ff_items, vw_closed = ff_closed, vw_cap = ff_cap\<rparr>"

definition fifo_next :: "'m fifo \<Rightarrow> 'm option poll \<times> 'm fifo" where
  "fifo_next q = (case ff_items q of
     m # xs \<Rightarrow> (Ready (Some m), q\<lparr>ff_items := xs\<rparr>)
   | [] \<Rightarrow> (if ff_closed q then Ready None else Pending, q))"

definition fifo_ops :: "('m fifo, 'm) channel_ops" where
  "fifo_ops =
     \<lparr>op_bounded = (\<lambda>n. \<lparr>ff_items = [], ff_closed = False, ff_cap = n\<rparr>),
      op_try_send = (\<lambda>m q.
        if ff_closed q then (Inl (Disconnected m), q)
        else if ff_cap q \<le> length (ff_items q) then (Inl (Full m), q)
        else (Inr (), q\<lparr>ff_items := ff_items q @ [m]\<rparr>)),
      op_send = (\<lambda>m q.
        if ff_closed q then (Ready (Inl m), q)
        else if ff_cap q \<le> length (ff_items q) then (Pending, q)
        else (Ready (Inr ()), q\<lparr>ff_items := ff_items q @ [m]\<rparr>)),
      op_try_recv = (\<lambda>q. case ff_items q of
        m # xs \<Rightarrow> (Inr m, q\<lparr>ff_items := xs\<rparr>)
      | [] \<Rightarrow> (Inl (if ff_closed q then Closed else Empty), q)),
      op_poll_next = fifo_next, op_recv = fifo_next,
      op_len = (\<lambda>q. length (ff_items q)), op_is_empty = (\<lambda>q. ff_items q = []),
      op_is_terminated = (\<lambda>q. ff_closed q \<and> ff_items q = []),
      op_size_hint = (\<lambda>q. (0, None))\<rparr>"

lemma fifo_lawful: "lawful fifo_ops fifo_view"
  by (auto simp: lawful_def holds_def fifo_ops_def fifo_view_def fifo_next_def split: list.splits)

section \<open>What the two lanes promise\<close>

datatype 'm lane_op = TrySend 'm | TrySendPriority 'm | TryNext bool | PollNext

record 'm history =
  hs_bulk :: "'m list"
  hs_priority :: "'m list"
  hs_received :: "'m list"

text \<open>One operation, and what it adds to what was accepted on each lane and to what was received.\<close>

fun lane_step :: "('q, 'm) channel_ops \<Rightarrow> 'm lane_op \<Rightarrow> 'q lanes \<times> 'm history \<Rightarrow> 'q lanes \<times> 'm history" where
  "lane_step ops (TrySend m) (l, h) =
     (case try_send ops m l of
        (Inr _, l') \<Rightarrow> (l', h\<lparr>hs_bulk := hs_bulk h @ [m]\<rparr>) | (Inl _, l') \<Rightarrow> (l', h))"
| "lane_step ops (TrySendPriority m) (l, h) =
     (case try_send_priority ops m l of
        (Inr _, l') \<Rightarrow> (l', h\<lparr>hs_priority := hs_priority h @ [m]\<rparr>) | (Inl _, l') \<Rightarrow> (l', h))"
| "lane_step ops (TryNext strategy) (l, h) =
     (case try_next_with_strategy ops strategy l of
        (Inr m, l') \<Rightarrow> (l', h\<lparr>hs_received := hs_received h @ [m]\<rparr>) | (Inl _, l') \<Rightarrow> (l', h))"
| "lane_step ops PollNext (l, h) =
     (case poll_next ops l of
        (Ready (Some m), l') \<Rightarrow> (l', h\<lparr>hs_received := hs_received h @ [m]\<rparr>) | (_, l') \<Rightarrow> (l', h))"

definition history_new :: "'m history" where
  "history_new = \<lparr>hs_bulk = [], hs_priority = [], hs_received = []\<rparr>"

definition lanes_ok :: "('q, 'm) channel_view \<Rightarrow> 'q lanes \<times> 'm history \<Rightarrow> bool" where
  "lanes_ok vw = (\<lambda>(l, h).
     \<exists>ps bs. hs_received h \<in> shuffles ps bs \<and>
       hs_priority h = ps @ vw_items vw (ln_priority l) \<and> hs_bulk h = bs @ vw_items vw (ln_inner l) \<and>
       \<not> vw_closed vw (ln_priority l) \<and> \<not> vw_closed vw (ln_inner l) \<and>
       length (vw_items vw (ln_priority l)) \<le> vw_cap vw (ln_priority l) \<and>
       length (vw_items vw (ln_inner l)) \<le> vw_cap vw (ln_inner l))"

lemma shuffles_snoc:
  assumes "zs \<in> shuffles xs ys"
  shows "zs @ [x] \<in> shuffles (xs @ [x]) ys" "zs @ [y] \<in> shuffles xs (ys @ [y])"
proof -
  have "zs @ [x] \<in> shuffles (xs @ [x]) ys" if "zs \<in> shuffles xs ys" for xs ys zs :: "'a list" and x
    using that
  proof (induction zs arbitrary: xs ys)
    case (Cons z zs)
    then consider xs' where "xs = z # xs'" "zs \<in> shuffles xs' ys" | ys' where "ys = z # ys'" "zs \<in> shuffles xs ys'"
      by (auto simp: Cons_in_shuffles_iff) (metis list.collapse)+
    then show ?case
      by cases (use Cons.IH in \<open>auto intro: Cons_in_shuffles_leftI Cons_in_shuffles_rightI\<close>)
  qed simp
  then show "zs @ [x] \<in> shuffles (xs @ [x]) ys" "zs @ [y] \<in> shuffles xs (ys @ [y])"
    using assms shuffles_commutes by blast+
qed

lemma lanes_ok_receive:
  assumes "lanes_ok vw (l, h)"
  shows "vw_items vw (ln_priority l) = m # xs \<Longrightarrow> holds vw (ln_priority l) q xs \<Longrightarrow> holds vw (ln_inner l) q' (vw_items vw (ln_inner l)) \<Longrightarrow>
      lanes_ok vw (\<lparr>ln_inner = q', ln_priority = q\<rparr>, h\<lparr>hs_received := hs_received h @ [m]\<rparr>)"
    and "vw_items vw (ln_inner l) = m # xs \<Longrightarrow> holds vw (ln_inner l) q' xs \<Longrightarrow> holds vw (ln_priority l) q (vw_items vw (ln_priority l)) \<Longrightarrow>
      lanes_ok vw (\<lparr>ln_inner = q', ln_priority = q\<rparr>, h\<lparr>hs_received := hs_received h @ [m]\<rparr>)"
    and "holds vw (ln_inner l) q' (vw_items vw (ln_inner l)) \<Longrightarrow> holds vw (ln_priority l) q (vw_items vw (ln_priority l)) \<Longrightarrow>
      lanes_ok vw (\<lparr>ln_inner = q', ln_priority = q\<rparr>, h)"
proof -
  from assms obtain ps bs where *: "hs_received h \<in> shuffles ps bs"
      "hs_priority h = ps @ vw_items vw (ln_priority l)" "hs_bulk h = bs @ vw_items vw (ln_inner l)"
      "\<not> vw_closed vw (ln_priority l)" "\<not> vw_closed vw (ln_inner l)"
      "length (vw_items vw (ln_priority l)) \<le> vw_cap vw (ln_priority l)"
      "length (vw_items vw (ln_inner l)) \<le> vw_cap vw (ln_inner l)"
    by (auto simp: lanes_ok_def)
  show "lanes_ok vw (\<lparr>ln_inner = q', ln_priority = q\<rparr>, h\<lparr>hs_received := hs_received h @ [m]\<rparr>)"
    if "vw_items vw (ln_priority l) = m # xs" "holds vw (ln_priority l) q xs" "holds vw (ln_inner l) q' (vw_items vw (ln_inner l))"
    using * that shuffles_snoc(1) [OF *(1), of m] unfolding lanes_ok_def holds_def
    by (auto intro!: exI [of _ "ps @ [m]"] exI [of _ bs])
  show "lanes_ok vw (\<lparr>ln_inner = q', ln_priority = q\<rparr>, h\<lparr>hs_received := hs_received h @ [m]\<rparr>)"
    if "vw_items vw (ln_inner l) = m # xs" "holds vw (ln_inner l) q' xs" "holds vw (ln_priority l) q (vw_items vw (ln_priority l))"
    using * that shuffles_snoc(2) [OF *(1), of m] unfolding lanes_ok_def holds_def
    by (auto intro!: exI [of _ ps] exI [of _ "bs @ [m]"])
  show "lanes_ok vw (\<lparr>ln_inner = q', ln_priority = q\<rparr>, h)"
    if "holds vw (ln_inner l) q' (vw_items vw (ln_inner l))" "holds vw (ln_priority l) q (vw_items vw (ln_priority l))"
    using * that unfolding lanes_ok_def holds_def by auto
qed

lemma holds_same [simp]: "holds vw q q xs \<longleftrightarrow> vw_items vw q = xs"
  by (simp add: holds_def)

lemma lanes_eta [simp]: "\<lparr>ln_inner = ln_inner l, ln_priority = ln_priority l\<rparr> = (l :: 'q lanes)"
  by simp

lemma lane_update:
  "l\<lparr>ln_inner := q\<rparr> = \<lparr>ln_inner = q, ln_priority = ln_priority l\<rparr>"
  "l\<lparr>ln_priority := q\<rparr> = \<lparr>ln_inner = ln_inner l, ln_priority = q\<rparr>" for l :: "'q lanes"
  by simp_all

lemma lanes_ok_send:
  assumes "lanes_ok vw (l, h)" "send_law vw m (ln_inner l) (r, q)" "send_law vw m (ln_priority l) (r', q')"
  shows "lanes_ok vw (l\<lparr>ln_inner := q\<rparr>, case r of Inr _ \<Rightarrow> h\<lparr>hs_bulk := hs_bulk h @ [m]\<rparr> | Inl _ \<Rightarrow> h)"
    and "lanes_ok vw (l\<lparr>ln_priority := q'\<rparr>, case r' of Inr _ \<Rightarrow> h\<lparr>hs_priority := hs_priority h @ [m]\<rparr> | Inl _ \<Rightarrow> h)"
proof -
  show "lanes_ok vw (l\<lparr>ln_inner := q\<rparr>, case r of Inr _ \<Rightarrow> h\<lparr>hs_bulk := hs_bulk h @ [m]\<rparr> | Inl _ \<Rightarrow> h)"
    using assms(1,2) by (cases "(vw, m, ln_inner l, r, q)" rule: send_law.cases) (auto simp: lanes_ok_def holds_def)
  show "lanes_ok vw (l\<lparr>ln_priority := q'\<rparr>, case r' of Inr _ \<Rightarrow> h\<lparr>hs_priority := hs_priority h @ [m]\<rparr> | Inl _ \<Rightarrow> h)"
    using assms(1,3) by (cases "(vw, m, ln_priority l, r', q')" rule: send_law.cases) (auto simp: lanes_ok_def holds_def)
qed

lemma lanes_ok_try_next:
  assumes "lawful ops vw" "lanes_ok vw (l, h)"
  shows "lanes_ok vw (lane_step ops (TryNext strategy) (l, h))"
proof -
  let ?p = "ln_priority l" and ?b = "ln_inner l"
  have open_lanes: "\<not> vw_closed vw ?p" "\<not> vw_closed vw ?b" using assms(2) by (auto simp: lanes_ok_def)
  have law: "recv_law vw ?p (op_try_recv ops ?p)" "recv_law vw ?b (op_try_recv ops ?b)"
    using lawful_laws(5) [OF assms(1)] by blast+
  note receive = lanes_ok_receive [OF assms(2)]
  from law(1) show ?thesis
  proof (cases rule: recv_law_cases)
    case p: (1 m xs q)
    from law(2) show ?thesis
      by (cases rule: recv_law_cases)
        (use p open_lanes receive in \<open>auto simp: try_next_with_strategy_def Let_def lane_update\<close>)
  next
    case p: (2 q)
    from law(2) show ?thesis
      by (cases rule: recv_law_cases)
        (use p open_lanes receive in \<open>auto simp: try_next_with_strategy_def Let_def lane_update\<close>)
  qed
qed

lemma lanes_ok_poll_next:
  assumes "lawful ops vw" "lanes_ok vw (l, h)"
  shows "lanes_ok vw (lane_step ops PollNext (l, h))"
proof -
  let ?p = "ln_priority l" and ?b = "ln_inner l"
  have open_lanes: "\<not> vw_closed vw ?p" "\<not> vw_closed vw ?b" using assms(2) by (auto simp: lanes_ok_def)
  have law: "poll_law vw ?p (op_poll_next ops ?p)" "poll_law vw ?b (op_poll_next ops ?b)"
    using lawful_laws(6) [OF assms(1)] by blast+
  note receive = lanes_ok_receive [OF assms(2)]
  from law(1) show ?thesis
  proof (cases rule: poll_law_cases)
    case p: (1 m xs q)
    then show ?thesis using receive(1) [of m xs q] by (simp add: poll_next_def lane_update)
  next
    case p: (2 q)
    from law(2) show ?thesis
      by (cases rule: poll_law_cases) (use p open_lanes receive in \<open>auto simp: poll_next_def lane_update\<close>)
  qed
qed

lemma lanes_ok_step:
  assumes "lawful ops vw" "lanes_ok vw lh"
  shows "lanes_ok vw (lane_step ops op lh)"
proof -
  obtain l h where lh: "lh = (l, h)" by force
  have law: "send_law vw m q (fst (op_try_send ops m q), snd (op_try_send ops m q))" for m q
    using lawful_laws(4) [OF assms(1)] by simp
  show ?thesis
  proof (cases op)
    case (TrySend m)
    then show ?thesis
      using lanes_ok_send(1) [OF assms(2) [unfolded lh] law law, of m]
      by (auto simp: lh try_send_def split: prod.splits sum.splits)
  next
    case (TrySendPriority m)
    then show ?thesis
      using lanes_ok_send(2) [OF assms(2) [unfolded lh] law law, of m]
      by (auto simp: lh try_send_priority_def split: prod.splits sum.splits)
  next
    case (TryNext strategy)
    then show ?thesis using lanes_ok_try_next [OF assms(1)] assms(2) by (simp add: lh)
  next
    case PollNext
    then show ?thesis using lanes_ok_poll_next [OF assms(1)] assms(2) by (simp add: lh)
  qed
qed

lemma lanes_ok_run: "lawful ops vw \<Longrightarrow> lanes_ok vw lh \<Longrightarrow> lanes_ok vw (fold (lane_step ops) xs lh)"
  by (induction xs arbitrary: lh) (simp_all add: lanes_ok_step)

lemma lanes_ok_new:
  "lawful ops vw \<Longrightarrow> lanes_ok vw (channel_with_capacities ops b p, history_new)"
  by (simp add: lanes_ok_def channel_with_capacities_def history_new_def lawful_laws)



text \<open>What the default receive returns, exactly. A message on the priority lane comes first; while that lane is
  empty and open the next bulk message comes. When the senders are gone and the priority lane is empty
  the receiver reports the end at once, also as a stream, although bulk messages may be left; a plain
  \<open>recv\<close>, which goes to the bulk lane, still returns those, and it never returns a priority message.\<close>

theorem default_receive_exact:
  assumes "lawful ops vw"
  shows "(\<forall>m xs. vw_items vw (ln_priority l) = m # xs \<longrightarrow>
      fst (try_next ops l) = Inr m \<and> fst (poll_next ops l) = Ready (Some m)) \<and>
    (\<forall>m xs. vw_items vw (ln_priority l) = [] \<and> \<not> vw_closed vw (ln_priority l) \<and> vw_items vw (ln_inner l) = m # xs \<longrightarrow>
      fst (try_next ops l) = Inr m \<and> fst (poll_next ops l) = Ready (Some m)) \<and>
    (vw_items vw (ln_priority l) = [] \<and> vw_closed vw (ln_priority l) \<longrightarrow>
      fst (try_next ops l) = Inl Closed \<and> fst (poll_next ops l) = Ready None) \<and>
    (\<forall>m xs. vw_items vw (ln_inner l) = m # xs \<longrightarrow>
      fst (recv ops l) = Ready (Some m) \<and> ln_priority (snd (recv ops l)) = ln_priority l) \<and>
    (vw_items vw (ln_inner l) = [] \<longrightarrow> fst (recv ops l) \<in> {Ready None, Pending})"
proof -
  let ?p = "ln_priority l" and ?b = "ln_inner l"
  have law: "recv_law vw ?p (op_try_recv ops ?p)" "recv_law vw ?b (op_try_recv ops ?b)"
      "poll_law vw ?p (op_poll_next ops ?p)" "poll_law vw ?b (op_poll_next ops ?b)" "poll_law vw ?b (op_recv ops ?b)"
    using lawful_laws(5-7) [OF assms] by blast+
  have "fst (try_next ops l) = (case vw_items vw ?p of m # _ \<Rightarrow> Inr m
      | [] \<Rightarrow> if vw_closed vw ?p then Inl Closed
          else (case vw_items vw ?b of m # _ \<Rightarrow> Inr m | [] \<Rightarrow> Inl (if vw_closed vw ?b then Closed else Empty)))"
    by (rule recv_law_cases [OF law(1)]; rule recv_law_cases [OF law(2)])
      (auto simp: try_next_def try_next_with_strategy_def priority_first_def Let_def)
  moreover have "fst (poll_next ops l) = (case vw_items vw ?p of m # _ \<Rightarrow> Ready (Some m)
      | [] \<Rightarrow> if vw_closed vw ?p then Ready None
          else (case vw_items vw ?b of m # _ \<Rightarrow> Ready (Some m) | [] \<Rightarrow> if vw_closed vw ?b then Ready None else Pending))"
    by (rule poll_law_cases [OF law(3)]; rule poll_law_cases [OF law(4)]) (auto simp: poll_next_def)
  moreover have "fst (recv ops l) = (case vw_items vw ?b of m # _ \<Rightarrow> Ready (Some m)
      | [] \<Rightarrow> if vw_closed vw ?b then Ready None else Pending)" "ln_priority (snd (recv ops l)) = ?p"
    by (rule poll_law_cases [OF law(5)]; auto simp: recv_def deref_def)+
  ultimately show ?thesis by auto
qed

theorem default_receive_exact_witness:
  "fst (poll_next fifo_ops \<lparr>ln_inner = \<lparr>ff_items = [7::nat], ff_closed = True, ff_cap = 5\<rparr>,
      ln_priority = \<lparr>ff_items = [], ff_closed = True, ff_cap = 5\<rparr>\<rparr>) = Ready None"
  using default_receive_exact [OF fifo_lawful, of "\<lparr>ln_inner = \<lparr>ff_items = [7::nat], ff_closed = True, ff_cap = 5\<rparr>,
      ln_priority = \<lparr>ff_items = [], ff_closed = True, ff_cap = 5\<rparr>\<rparr>"]
  by (simp add: fifo_view_def)

end
