(* ===== verification/Kvdb_Decode.thy ===== *)
theory Kvdb_Decode
  imports Prelude
begin

text \<open>
  Decoding of database keys by a format string, \<^verbatim>\<open>kvdb/src/decode.rs\<close>. A \<^verbatim>\<open>&str\<close> is the list of its
  UTF-8 bytes, so positions are byte positions as in the source. The database is the list of entries
  that its prefixed iterator yields; \<open>hex_encode\<close> stands for the function of the crate \<^verbatim>\<open>hex\<close>.
\<close>


definition is_ascii_digit :: "u8 \<Rightarrow> bool" where
  "is_ascii_digit b \<longleftrightarrow> 48 \<le> b \<and> b \<le> 57"

section \<open>Strings of the standard library\<close>

definition is_continuation :: "u8 \<Rightarrow> bool" where
  "is_continuation b \<longleftrightarrow> 128 \<le> b \<and> b < 192"

text \<open>\<open>s.get(a..b)\<close>: a slice between two character boundaries.\<close>

definition is_char_boundary :: "nat \<Rightarrow> bytes \<Rightarrow> bool" where
  "is_char_boundary i s \<longleftrightarrow> i \<le> length s \<and> (i < length s \<longrightarrow> \<not> is_continuation (s ! i))"

definition str_get :: "nat \<Rightarrow> nat \<Rightarrow> bytes \<Rightarrow> bytes option" where
  "str_get a b s =
     (if a \<le> b \<and> is_char_boundary a s \<and> is_char_boundary b s then Some (take (b - a) (drop a s)) else None)"

definition str_find :: "u8 \<Rightarrow> bytes \<Rightarrow> nat option" where
  "str_find c s = (if c \<in> set s then Some (length (takeWhile (\<lambda>b. b \<noteq> c) s)) else None)"

text \<open>\<open>s.parse::<usize>()\<close> of digits: empty and too large numbers are errors.\<close>

definition digits_value :: "bytes \<Rightarrow> nat" where
  "digits_value ds = foldl (\<lambda>n d. 10 * n + unat (d - 48)) 0 ds"

definition parse_usize :: "bytes \<Rightarrow> nat option" where
  "parse_usize ds = (if ds = [] \<or> digits_value ds \<ge> 2 ^ 64 then None else Some (digits_value ds))"

text \<open>The next character of a byte string: whether it is well-formed and how many bytes it spans, for a
  malformed one up to the byte that breaks it.\<close>

definition utf8_step :: "bytes \<Rightarrow> bool \<times> nat" where
  "utf8_step s =
     (let b = s ! 0;
          at = (\<lambda>i. if i < length s then s ! i else 0);
          cont = (\<lambda>i. is_continuation (at i))
      in if b < 128 then (True, 1)
         else if 194 \<le> b \<and> b \<le> 223 then (if cont 1 then (True, 2) else (False, 1))
         else if 224 \<le> b \<and> b \<le> 239 then
           (if (if b = 224 then 160 \<le> at 1 \<and> at 1 \<le> 191
                else if b = 237 then 128 \<le> at 1 \<and> at 1 \<le> 159 else cont 1)
            then (if cont 2 then (True, 3) else (False, 2)) else (False, 1))
         else if 240 \<le> b \<and> b \<le> 244 then
           (if (if b = 240 then 144 \<le> at 1 \<and> at 1 \<le> 191
                else if b = 244 then 128 \<le> at 1 \<and> at 1 \<le> 143 else cont 1)
            then (if cont 2 then (if cont 3 then (True, 4) else (False, 3)) else (False, 2)) else (False, 1))
         else (False, 1))"

lemma utf8_step_pos: "0 < snd (utf8_step s)"
  by (simp add: utf8_step_def Let_def)

text \<open>\<open>String::from_utf8_lossy\<close>: malformed parts become the replacement character.\<close>

function from_utf8_lossy :: "bytes \<Rightarrow> bytes" where
  "from_utf8_lossy s =
     (if s = [] then []
      else (if fst (utf8_step s) then take (snd (utf8_step s)) s else [239, 191, 189]) @
        from_utf8_lossy (drop (snd (utf8_step s)) s))"
  by pat_completeness auto
termination
  by (relation "measure length") (auto simp: utf8_step_pos)

declare from_utf8_lossy.simps [simp del]

definition from_be_bytes :: "bytes \<Rightarrow> 'a::len word" where
  "from_be_bytes bs = foldl (\<lambda>n b. 256 * n + ucast b) 0 bs"

section \<open>Elements\<close>

datatype decode_result = ResI32 "32 word" | ResU64 u64 | ResString bytes

datatype key_decode_error =
    InvalidPercent
  | InvalidStringFormat
  | ParseIntError
  | UnmatchedString
  | TruncatedInput
  | InvalidKeySize
  | DatabaseError
  | DecodePanic

record decode_element =
  de_decoder :: "bytes \<Rightarrow> key_decode_error + decode_result"
  de_consume_size :: nat

definition split_at :: "nat \<Rightarrow> bytes \<Rightarrow> key_decode_error + bytes \<times> bytes" where
  "split_at n s = (if n \<le> length s then Inr (take n s, drop n s) else Inl DecodePanic)"

definition consume_bigendian_i32 :: decode_element where
  "consume_bigendian_i32 =
     \<lparr>de_decoder = (\<lambda>input. rbind (split_at 4 input) (\<lambda>(int_bytes, _). Inr (ResI32 (from_be_bytes int_bytes)))),
      de_consume_size = 4\<rparr>"

definition consume_bigendian_timestamp :: decode_element where
  "consume_bigendian_timestamp =
     \<lparr>de_decoder = (\<lambda>input. rbind (split_at 8 input) (\<lambda>(ts_bytes, _). Inr (ResU64 (from_be_bytes ts_bytes)))),
      de_consume_size = 8\<rparr>"

definition consume_blake2b_hash :: "(bytes \<Rightarrow> bytes) \<Rightarrow> decode_element" where
  "consume_blake2b_hash hex_encode =
     \<lparr>de_decoder = (\<lambda>input. rbind (split_at 32 input) (\<lambda>(hash_bytes, _). Inr (ResString (hex_encode hash_bytes)))),
      de_consume_size = 32\<rparr>"

definition consume_known_string :: "bytes \<Rightarrow> decode_element" where
  "consume_known_string pat =
     \<lparr>de_decoder = (\<lambda>input. rbind (split_at (length pat) input) (\<lambda>(str_bytes, _).
        let parsed_string = from_utf8_lossy str_bytes in
        if parsed_string \<noteq> pat then Inl UnmatchedString else Inr (ResString parsed_string))),
      de_consume_size = length pat\<rparr>"

definition consume_unknown_string :: "nat \<Rightarrow> decode_element" where
  "consume_unknown_string len =
     \<lparr>de_decoder = (\<lambda>input. rbind (split_at len input) (\<lambda>(str_bytes, _).
        Inr (ResString (from_utf8_lossy str_bytes)))),
      de_consume_size = len\<rparr>"

section \<open>The format string\<close>

text \<open>One element after a percent sign: \<open>leftover\<close> starts with it. The result is the element and the position
  after it.\<close>

definition parse_percent :: "(bytes \<Rightarrow> bytes) \<Rightarrow> bytes \<Rightarrow> key_decode_error + decode_element \<times> nat" where
  "parse_percent hex_encode leftover =
     (if length leftover < 2 then Inl InvalidPercent
      else case str_get 1 2 leftover of
        None \<Rightarrow> Inl DecodePanic
      | Some percent_char \<Rightarrow>
          if percent_char = ascii ''i'' then Inr (consume_bigendian_i32, 2)
          else if percent_char = ascii ''t'' then Inr (consume_bigendian_timestamp, 2)
          else if percent_char = ascii ''h'' then Inr (consume_blake2b_hash hex_encode, 2)
          else if percent_char = ascii ''s'' then
            let string_size_format = takeWhile is_ascii_digit (drop 2 leftover) in
            (case parse_usize string_size_format of
               None \<Rightarrow> Inl ParseIntError
             | Some string_size \<Rightarrow>
                 if string_size = 0 then Inl InvalidStringFormat
                 else Inr (consume_unknown_string string_size, 2 + length string_size_format))
          else Inl InvalidPercent)"

lemma parse_percent_pos: "parse_percent hex s = Inr (e, pos) \<Longrightarrow> 0 < pos \<and> s \<noteq> []"
  by (auto simp: parse_percent_def Let_def split: if_splits option.splits)

definition percent :: u8 where
  "percent = 37"

function parse_format_string :: "(bytes \<Rightarrow> bytes) \<Rightarrow> bytes \<Rightarrow> key_decode_error + decode_element list" where
  "parse_format_string hex_encode str_remain =
     (if str_remain = [] then Inr []
      else case str_find percent str_remain of
        None \<Rightarrow> Inr [consume_known_string []]
      | Some pos \<Rightarrow>
          (let plain_string = take pos str_remain; leftover = drop pos str_remain in
           case parse_percent hex_encode leftover of
             Inl e \<Rightarrow> Inl e
           | Inr (decoder, n) \<Rightarrow>
               rbind (parse_format_string hex_encode (drop n leftover)) (\<lambda>rest.
                 Inr ((if plain_string \<noteq> [] then [consume_known_string plain_string] else []) @ decoder # rest))))"
  by pat_completeness auto
termination
  by (relation "measure (\<lambda>(_, s). length s)") (auto dest: parse_percent_pos)

declare parse_format_string.simps [simp del]

section \<open>Decoding\<close>

fun process_decoders_pipeline :: "bytes \<Rightarrow> decode_element list \<Rightarrow> key_decode_error + decode_result list" where
  "process_decoders_pipeline remain [] = Inr []"
| "process_decoders_pipeline remain (d # ds) =
     (if length remain \<ge> de_consume_size d then
        rbind (de_decoder d (take (de_consume_size d) remain)) (\<lambda>r.
        rbind (process_decoders_pipeline (drop (de_consume_size d) remain) ds) (\<lambda>rs. Inr (r # rs)))
      else Inl TruncatedInput)"

record key_decode_result =
  kd_fields :: "decode_result list"
  kd_value_size :: nat

record key_decode_options =
  ko_lim :: "nat option"
  ko_ignore_failures :: bool
  ko_column :: bytes
  ko_decode_fmt :: bytes

text \<open>The sum of the sizes is a \<^verbatim>\<open>usize\<close>, which wraps around.\<close>

definition expected_key_len :: "decode_element list \<Rightarrow> nat" where
  "expected_key_len decoders = sum_list (map de_consume_size decoders) mod 2 ^ 64"

fun decode_entries ::
  "key_decode_options \<Rightarrow> decode_element list \<Rightarrow> (bytes \<times> bytes) list \<Rightarrow> key_decode_result list \<Rightarrow>
   key_decode_error + key_decode_result list" where
  "decode_entries opts decoders [] final_result = Inr final_result"
| "decode_entries opts decoders ((k, v) # entries) final_result =
     (if length k \<noteq> expected_key_len decoders \<and> \<not> ko_ignore_failures opts then Inl InvalidKeySize
      else rbind (process_decoders_pipeline k decoders) (\<lambda>cur.
        let results = final_result @ [\<lparr>kd_fields = cur, kd_value_size = length v\<rparr>] in
        case ko_lim opts of
          None \<Rightarrow> decode_entries opts decoders entries results
        | Some lim \<Rightarrow>
            if length results > lim then Inr (take lim results)
            else decode_entries opts decoders entries results))"

definition decode_keys ::
  "(bytes \<Rightarrow> bytes) \<Rightarrow> (bytes \<Rightarrow> bytes \<Rightarrow> (bytes \<times> bytes) list option) \<Rightarrow> key_decode_options \<Rightarrow>
   key_decode_error + key_decode_result list" where
  "decode_keys hex_encode prefixed_iter_values opts =
     (case str_find percent (ko_decode_fmt opts) of
        None \<Rightarrow> Inr []
      | Some pos \<Rightarrow>
          rbind (parse_format_string hex_encode (ko_decode_fmt opts)) (\<lambda>decoders.
            case prefixed_iter_values (ko_column opts) (take pos (ko_decode_fmt opts)) of
              None \<Rightarrow> Inl DatabaseError
            | Some entries \<Rightarrow> decode_entries opts decoders entries []))"

section \<open>Formats and what they mean\<close>

text \<open>The formats that the documentation of the module describes, with their text, their elements and the
  keys that they stand for.\<close>

datatype item = Lit bytes | IntItem | TimeItem | HashItem | StrItem nat

definition show_size :: "nat \<Rightarrow> bytes" where
  "show_size n = map (\<lambda>d. 48 + of_nat d) (digits10 n)"

fun show_item :: "item \<Rightarrow> bytes" where
  "show_item (Lit s) = s"
| "show_item IntItem = ascii ''%i''"
| "show_item TimeItem = ascii ''%t''"
| "show_item HashItem = ascii ''%h''"
| "show_item (StrItem n) = ascii ''%s'' @ show_size n"

fun item_element :: "(bytes \<Rightarrow> bytes) \<Rightarrow> item \<Rightarrow> decode_element" where
  "item_element hex (Lit s) = consume_known_string s"
| "item_element hex IntItem = consume_bigendian_i32"
| "item_element hex TimeItem = consume_bigendian_timestamp"
| "item_element hex HashItem = consume_blake2b_hash hex"
| "item_element hex (StrItem n) = consume_unknown_string n"

definition literal_ok :: "bytes \<Rightarrow> bool" where
  "literal_ok s \<longleftrightarrow> percent \<notin> set s \<and> (s \<noteq> [] \<longrightarrow> \<not> is_continuation (hd s))"

definition after_size_ok :: "bytes \<Rightarrow> bool" where
  "after_size_ok s \<longleftrightarrow> (s \<noteq> [] \<longrightarrow> \<not> is_ascii_digit (hd s))"

text \<open>Formats without ambiguity, followed by the plain text \<open>tail\<close>: no two literals in a row, and no digit after
  a size.\<close>

fun format_ok :: "bytes \<Rightarrow> item list \<Rightarrow> bool" where
  "format_ok tail [] \<longleftrightarrow> literal_ok tail"
| "format_ok tail (Lit s # items) \<longleftrightarrow>
     s \<noteq> [] \<and> literal_ok s \<and> (case items of [] \<Rightarrow> False | Lit _ # _ \<Rightarrow> False | _ \<Rightarrow> True) \<and> format_ok tail items"
| "format_ok tail (StrItem n # items) \<longleftrightarrow>
     0 < n \<and> n < 2 ^ 64 \<and> after_size_ok (concat (map show_item items) @ tail) \<and> format_ok tail items"
| "format_ok tail (_ # items) \<longleftrightarrow> format_ok tail items"

lemma ascii_codes [simp]:
  "ascii ''%i'' = [37, 105]" "ascii ''%t'' = [37, 116]" "ascii ''%h'' = [37, 104]" "ascii ''%s'' = [37, 115]"
  "ascii ''i'' = [105]" "ascii ''t'' = [116]" "ascii ''h'' = [104]" "ascii ''s'' = [115]"
  by (simp_all add: ascii_def of_char_def)

lemma digit_byte: "d < 10 \<Longrightarrow> is_ascii_digit (48 + of_nat d) \<and> unat (48 + of_nat d - 48 :: u8) = d"
  by (auto simp: is_ascii_digit_def word_le_nat_alt unat_word_ariths unat_of_nat)

lemma show_size_digits: "b \<in> set (show_size n) \<Longrightarrow> is_ascii_digit b"
  by (auto simp: show_size_def digit_byte dest!: digits10_less)

lemma foldl_cong_set:
  "(\<And>m x. x \<in> set xs \<Longrightarrow> f m x = g m x) \<Longrightarrow> foldl f a xs = foldl g a xs"
  by (induction xs arbitrary: a) simp_all

lemma show_size_value: "digits_value (show_size n) = n"
proof -
  have "digits_value (show_size n) = foldl (\<lambda>m d. 10 * m + unat (48 + of_nat d - 48 :: u8)) 0 (digits10 n)"
    by (simp add: digits_value_def show_size_def foldl_map)
  also have "\<dots> = foldl (\<lambda>m d. 10 * m + d) 0 (digits10 n)"
  proof (rule foldl_cong_set)
    fix m d assume "d \<in> set (digits10 n)"
    then show "10 * m + unat (48 + of_nat d - 48 :: u8) = 10 * m + d"
      using digit_byte [of d] digits10_less by metis
  qed
  finally show ?thesis by (simp add: digits10_value)
qed

lemma takeWhile_size: "after_size_ok s \<Longrightarrow> takeWhile is_ascii_digit (show_size n @ s) = show_size n"
  by (cases s) (auto simp: after_size_ok_def takeWhile_append2 show_size_digits)

lemma str_find_percent: "percent \<notin> set s \<Longrightarrow> str_find percent (s @ percent # r) = Some (length s)"
  by (induction s) (auto simp: str_find_def)

lemma str_get_second: "(r = [] \<or> \<not> is_continuation (hd r)) \<Longrightarrow> b < 128 \<Longrightarrow> str_get (Suc 0) 2 (37 # b # r) = Some [b]"
  by (cases r) (auto simp: str_get_def is_char_boundary_def is_continuation_def)

definition starts_ok :: "bytes \<Rightarrow> bool" where
  "starts_ok r \<longleftrightarrow> r = [] \<or> \<not> is_continuation (hd r)"

lemma starts_ok_size: "starts_ok (show_size n @ r)"
proof -
  have "show_size n \<noteq> []" by (simp add: show_size_def)
  then obtain b bs where b: "show_size n = b # bs" by (cases "show_size n") auto
  then have "is_ascii_digit b" using show_size_digits [of b n] by simp
  with b show ?thesis by (auto simp: starts_ok_def is_ascii_digit_def is_continuation_def word_le_nat_alt)
qed

lemma parse_percent_item:
  assumes "starts_ok r"
  shows "parse_percent hex (show_item IntItem @ r) = Inr (consume_bigendian_i32, 2)"
    and "parse_percent hex (show_item TimeItem @ r) = Inr (consume_bigendian_timestamp, 2)"
    and "parse_percent hex (show_item HashItem @ r) = Inr (consume_blake2b_hash hex, 2)"
    and "0 < n \<Longrightarrow> n < 2 ^ 64 \<Longrightarrow> after_size_ok r \<Longrightarrow>
      parse_percent hex (show_item (StrItem n) @ r) = Inr (consume_unknown_string n, 2 + length (show_size n))"
proof -
  show "parse_percent hex (show_item IntItem @ r) = Inr (consume_bigendian_i32, 2)"
    "parse_percent hex (show_item TimeItem @ r) = Inr (consume_bigendian_timestamp, 2)"
    "parse_percent hex (show_item HashItem @ r) = Inr (consume_blake2b_hash hex, 2)"
    using assms by (simp_all add: parse_percent_def str_get_second starts_ok_def)
  assume n: "0 < n" "n < 2 ^ 64" "after_size_ok r"
  have "str_get (Suc 0) 2 (37 # 115 # show_size n @ r) = Some [115]"
    using starts_ok_size [of n r] by (intro str_get_second) (auto simp: starts_ok_def)
  moreover have "parse_usize (show_size n) = Some n"
    using n by (simp add: parse_usize_def show_size_value) (simp add: show_size_def)
  ultimately show "parse_percent hex (show_item (StrItem n) @ r) = Inr (consume_unknown_string n, 2 + length (show_size n))"
    using n by (simp add: parse_percent_def takeWhile_size)
qed

lemma starts_ok_items: "format_ok tail items \<Longrightarrow> starts_ok (concat (map show_item items) @ tail)"
  by (induction tail items rule: format_ok.induct)
    (auto simp: starts_ok_def literal_ok_def is_continuation_def split: list.splits item.splits)

text \<open>Where the text of an item that is not a literal begins.\<close>

lemma parse_format_item:
  assumes "literal_ok plain" "parse_percent hex (show_item item @ r) = Inr (e, length (show_item item))"
    "show_item item = percent # x"
  shows "parse_format_string hex (plain @ show_item item @ r) =
    rbind (parse_format_string hex r) (\<lambda>rest. Inr ((if plain \<noteq> [] then [consume_known_string plain] else []) @ e # rest))"
proof -
  have "str_find percent (plain @ show_item item @ r) = Some (length plain)"
    using assms(1,3) by (simp add: str_find_percent literal_ok_def)
  then show ?thesis
    using assms(2,3) by (subst parse_format_string.simps) simp
qed

lemma parse_format_step:
  assumes "literal_ok plain" "format_ok tail (item # items)" "\<forall>s. item \<noteq> Lit s"
  shows "parse_format_string hex (plain @ show_item item @ concat (map show_item items) @ tail) =
    rbind (parse_format_string hex (concat (map show_item items) @ tail)) (\<lambda>rest.
      Inr ((if plain \<noteq> [] then [consume_known_string plain] else []) @ item_element hex item # rest))"
proof -
  let ?r = "concat (map show_item items) @ tail"
  have items: "format_ok tail items" using assms(2,3) by (cases item) auto
  note step = parse_percent_item [OF starts_ok_items [OF items]]
  have pp: "parse_percent hex (show_item item @ ?r) = Inr (item_element hex item, length (show_item item))"
    using assms(2,3) step by (cases item) (simp_all only: format_ok.simps, simp_all)
  obtain x where "show_item item = percent # x" using assms(3) by (cases item) (simp_all add: percent_def)
  from parse_format_item [OF assms(1) pp this] show ?thesis by simp
qed

lemma parse_format_tail:
  assumes "literal_ok tail"
  shows "parse_format_string hex tail = Inr (if tail = [] then [] else [consume_known_string []])"
  using assms by (subst parse_format_string.simps) (simp add: literal_ok_def str_find_def)

lemma parse_format_items:
  assumes "format_ok tail items"
  shows "parse_format_string hex (concat (map show_item items) @ tail) =
    Inr (map (item_element hex) items @ (if tail = [] then [] else [consume_known_string []]))"
  using assms
proof (induction items rule: length_induct)
  case (1 items)
  show ?case
  proof (cases items)
    case Nil
    with 1 show ?thesis by (simp add: parse_format_tail)
  next
    case (Cons item rest)
    show ?thesis
    proof (cases "\<exists>s. item = Lit s")
      case True
      then obtain s where s: "item = Lit s" ..
      with Cons "1.prems" obtain item' rest' where rest: "rest = item' # rest'" "\<forall>s. item' \<noteq> Lit s"
        by (auto split: list.splits item.splits)
      have ok: "literal_ok s" "s \<noteq> []" "format_ok tail rest" using Cons "1.prems" s by simp_all
      then have "format_ok tail rest'" using rest by (cases item') auto
      then show ?thesis
        using parse_format_step [OF ok(1) ok(3) [unfolded rest(1)] rest(2)] "1.IH" Cons s rest ok(2) by simp
    next
      case False
      have "literal_ok []" by (simp add: literal_ok_def)
      moreover have "format_ok tail rest" using Cons "1.prems" False by (cases item) auto
      ultimately show ?thesis
        using parse_format_step [of "[]" tail item rest] False "1.IH" "1.prems" Cons by simp
    qed
  qed
qed

text \<open>Parsing undoes printing: the text of a format gives exactly its elements, in order, for every format
  without ambiguity. Plain text after the last percent sequence is not kept: whatever it says, it
  becomes the empty pattern, which every key matches.\<close>

theorem parse_format_roundtrip:
  assumes "format_ok tail items"
  shows "parse_format_string hex (concat (map show_item items) @ tail) =
    Inr (map (item_element hex) items @ (if tail = [] then [] else [consume_known_string []]))"
  using assms by (rule parse_format_items)

theorem parse_format_roundtrip_witness:
  "parse_format_string id (ascii ''!!%i%s12-%h.'') =
     Inr [consume_known_string [33, 33], consume_bigendian_i32, consume_unknown_string 12, consume_known_string [45],
       consume_blake2b_hash id, consume_known_string []]"
proof -
  have "format_ok [46] [Lit [33, 33], IntItem, StrItem 12, Lit [45], HashItem]"
    "concat (map show_item [Lit [33, 33], IntItem, StrItem 12, Lit [45], HashItem]) @ [46] = ascii ''!!%i%s12-%h.''"
    by (simp_all add: literal_ok_def after_size_ok_def percent_def is_continuation_def is_ascii_digit_def show_size_def
        digits10.simps ascii_def of_char_def)
  with parse_format_roundtrip [of "[46]" "[Lit [33, 33], IntItem, StrItem 12, Lit [45], HashItem]" id]
  show ?thesis by simp
qed

section \<open>Keys\<close>

fun be_bytes :: "nat \<Rightarrow> 'a::len word \<Rightarrow> bytes" where
  "be_bytes 0 w = []"
| "be_bytes (Suc n) w = be_bytes n (drop_bit 8 w) @ [ucast w]"

lemma length_be_bytes [simp]: "length (be_bytes n w) = n"
  by (induction n arbitrary: w) simp_all

lemma from_be_bytes_take: "from_be_bytes (be_bytes n w) = (take_bit (8 * n) w :: 'a::len word)"
proof (induction n arbitrary: w)
  case (Suc n)
  let ?a = "take_bit (8 * Suc n) w"
  have "256 * from_be_bytes (be_bytes n (drop_bit 8 w)) = push_bit 8 (drop_bit 8 ?a)"
    by (simp add: Suc push_bit_eq_mult drop_bit_take_bit mult.commute)
  moreover have "ucast (ucast w :: u8) = take_bit 8 ?a"
    by (rule bit_word_eqI) (auto simp: bit_ucast_iff bit_take_bit_iff)
  ultimately show ?case
    using bits_ident [of 8 ?a] by (simp add: from_be_bytes_def)
qed (simp add: from_be_bytes_def)

text \<open>The keys that an item stands for, with the result they decode to.\<close>

fun item_key :: "(bytes \<Rightarrow> bytes) \<Rightarrow> item \<Rightarrow> bytes \<Rightarrow> decode_result \<Rightarrow> bool" where
  "item_key hex (Lit s) k r \<longleftrightarrow> k = s \<and> from_utf8_lossy s = s \<and> r = ResString s"
| "item_key hex IntItem k r \<longleftrightarrow> (\<exists>w. k = be_bytes 4 w \<and> r = ResI32 w)"
| "item_key hex TimeItem k r \<longleftrightarrow> (\<exists>w. k = be_bytes 8 w \<and> r = ResU64 w)"
| "item_key hex HashItem k r \<longleftrightarrow> length k = 32 \<and> r = ResString (hex k)"
| "item_key hex (StrItem n) k r \<longleftrightarrow> length k = n \<and> r = ResString (from_utf8_lossy k)"

lemma item_key_element:
  assumes "item_key hex i k r"
  shows "de_consume_size (item_element hex i) = length k" "de_decoder (item_element hex i) k = Inr r"
proof -
  have w: "from_be_bytes (be_bytes 4 w) = w" "from_be_bytes (be_bytes 8 w') = w'" for w :: "32 word" and w' :: u64
    by (simp_all add: from_be_bytes_take take_bit_word_eq_self)
  show "de_consume_size (item_element hex i) = length k"
    using assms by (cases i) (auto simp: consume_known_string_def consume_bigendian_i32_def
        consume_bigendian_timestamp_def consume_blake2b_hash_def consume_unknown_string_def)
  show "de_decoder (item_element hex i) k = Inr r"
    using assms by (cases i) (auto simp: w consume_known_string_def consume_bigendian_i32_def split_at_def
        consume_bigendian_timestamp_def consume_blake2b_hash_def consume_unknown_string_def)
qed

lemma pipeline_items:
  assumes "list_all2 (\<lambda>i (k, r). item_key hex i k r) items krs"
  shows "process_decoders_pipeline (concat (map fst krs) @ extra) (map (item_element hex) items) = Inr (map snd krs)"
    and "sum_list (map de_consume_size (map (item_element hex) items)) = length (concat (map fst krs))"
  using assms by (induction rule: list_all2_induct) (auto simp: item_key_element)

lemma decode_entries_limited:
  assumes "\<And>k v. (k, v) \<in> set es \<Longrightarrow>
      length k = expected_key_len ds \<and> process_decoders_pipeline k ds = Inr (fld k)"
    and "case ko_lim opts of None \<Rightarrow> True | Some n \<Rightarrow> length acc \<le> n"
  shows "decode_entries opts ds es acc =
    Inr ((case ko_lim opts of None \<Rightarrow> id | Some n \<Rightarrow> take n)
      (acc @ map (\<lambda>(k, v). \<lparr>kd_fields = fld k, kd_value_size = length v\<rparr>) es))"
  using assms
proof (induction es arbitrary: acc)
  case (Cons e es)
  obtain k v where e: "e = (k, v)" by force
  have k: "length k = expected_key_len ds" "process_decoders_pipeline k ds = Inr (fld k)"
    using Cons.prems(1) [of k v] by (simp_all add: e)
  let ?acc = "acc @ [\<lparr>kd_fields = fld k, kd_value_size = length v\<rparr>]"
  have es: "decode_entries opts ds es ?acc =
      Inr ((case ko_lim opts of None \<Rightarrow> id | Some n \<Rightarrow> take n)
        (?acc @ map (\<lambda>(k, v). \<lparr>kd_fields = fld k, kd_value_size = length v\<rparr>) es))"
    if "case ko_lim opts of None \<Rightarrow> True | Some n \<Rightarrow> length ?acc \<le> n"
    using that Cons.prems(1) by (intro Cons.IH) auto
  show ?case
    using es Cons.prems(2) by (auto simp: e k Let_def not_less split: option.splits)
qed (auto split: option.split)

lemma items_have_percent:
  assumes "format_ok [] items" "items \<noteq> []"
  shows "percent \<in> set (concat (map show_item items))"
  using assms
proof (induction items)
  case (Cons i items)
  then show ?case by (cases i) (auto simp: percent_def split: list.splits)
qed simp



text \<open>The entries before the one that fails.\<close>

lemma decode_entries_append:
  assumes "\<And>k v. (k, v) \<in> set es \<Longrightarrow>
      (length k = expected_key_len ds \<or> ko_ignore_failures opts) \<and> \<not> isl (process_decoders_pipeline k ds)"
    and "case ko_lim opts of None \<Rightarrow> True | Some n \<Rightarrow> length acc + length es \<le> n"
  shows "\<exists>res. length res = length es \<and>
    decode_entries opts ds (es @ later) acc = decode_entries opts ds later (acc @ res)"
  using assms
proof (induction es arbitrary: acc)
  case (Cons e es)
  obtain k v where e: "e = (k, v)" by force
  then obtain r where r: "process_decoders_pipeline k ds = Inr r" "length k = expected_key_len ds \<or> ko_ignore_failures opts"
    using Cons.prems(1) [of k v] by (cases "process_decoders_pipeline k ds") auto
  let ?r = "\<lparr>kd_fields = r, kd_value_size = length v\<rparr>"
  have "\<exists>res. length res = length es \<and>
      decode_entries opts ds (es @ later) (acc @ [?r]) = decode_entries opts ds later ((acc @ [?r]) @ res)"
    using Cons.prems by (intro Cons.IH) (auto split: option.splits)
  then obtain res where "length res = length es"
    "decode_entries opts ds (es @ later) (acc @ [?r]) = decode_entries opts ds later (acc @ ?r # res)"
    by auto
  then show ?case
    using Cons.prems(2) r by (intro exI [of _ "?r # res"]) (auto simp: e Let_def split: option.splits)
qed simp

text \<open>One bad key spoils the whole answer: when a key has not the size of the format and failures are not
  ignored, decoding ends with that error and the entries decoded before it are lost. With a limit this
  holds for the first entry beyond the limit too, which is decoded before the results are cut.\<close>

theorem decode_keys_invalid_size:
  assumes "parse_format_string hex (ko_decode_fmt opts) = Inr ds" "percent \<in> set (ko_decode_fmt opts)"
    and "prefixed_iter_values (ko_column opts) (takeWhile (\<lambda>b. b \<noteq> percent) (ko_decode_fmt opts)) =
      Some (es @ (k, v) # later)"
    and "\<And>k v. (k, v) \<in> set es \<Longrightarrow> length k = expected_key_len ds \<and> \<not> isl (process_decoders_pipeline k ds)"
    and "length k \<noteq> expected_key_len ds" "\<not> ko_ignore_failures opts"
    and "case ko_lim opts of None \<Rightarrow> True | Some n \<Rightarrow> length es \<le> n"
  shows "decode_keys hex prefixed_iter_values opts = Inl InvalidKeySize"
proof -
  obtain res where "decode_entries opts ds (es @ (k, v) # later) [] = decode_entries opts ds ((k, v) # later) ([] @ res)"
  proof -
    have "\<exists>res. length res = length es \<and>
        decode_entries opts ds (es @ (k, v) # later) [] = decode_entries opts ds ((k, v) # later) ([] @ res)"
      using assms(4,7) by (intro decode_entries_append) (auto split: option.split)
    then show thesis using that by blast
  qed
  then have "decode_entries opts ds (es @ (k, v) # later) [] = Inl InvalidKeySize"
    using assms(5,6) by simp
  moreover have "take (length (takeWhile (\<lambda>b. b \<noteq> percent) (ko_decode_fmt opts))) (ko_decode_fmt opts) =
      takeWhile (\<lambda>b. b \<noteq> percent) (ko_decode_fmt opts)"
    by (metis append_eq_conv_conj takeWhile_dropWhile_id)
  ultimately show ?thesis
    using assms(1-3) by (simp add: decode_keys_def str_find_def)
qed

theorem decode_keys_invalid_size_witness:
  "decode_keys id (\<lambda>col prefix. Some [([65, 66], [1]), ([65, 66, 67], [])])
      \<lparr>ko_lim = Some 1, ko_ignore_failures = False, ko_column = [], ko_decode_fmt = ascii ''%s2''\<rparr> = Inl InvalidKeySize"
proof -
  let ?opts = "\<lparr>ko_lim = Some 1, ko_ignore_failures = False, ko_column = [], ko_decode_fmt = ascii ''%s2''\<rparr>"
  have fmt: "ko_decode_fmt ?opts = [37, 115, 50]" by (simp add: ascii_def of_char_def)
  have "format_ok [] [StrItem 2]" by (simp add: after_size_ok_def literal_ok_def)
  moreover have "concat (map show_item [StrItem 2]) @ [] = [37, 115, 50]"
    by (simp add: show_size_def digits10.simps)
  ultimately have ds: "parse_format_string id (ko_decode_fmt ?opts) = Inr [consume_unknown_string 2]"
    using parse_format_items [of "[]" "[StrItem 2]" id] fmt by simp
  show ?thesis
    by (rule decode_keys_invalid_size [OF ds, where es = "[([65, 66], [1])]" and k = "[65, 66, 67]" and v = "[]"
          and later = "[]"])
      (unfold fmt, auto simp: percent_def expected_key_len_def consume_unknown_string_def split_at_def)
qed

end
