(* ===== verification/Metrics.thy ===== *)
theory Metrics
  imports Stats
begin

text \<open>
  The Prometheus metrics of the tracer, \<^verbatim>\<open>parachain-tracer/src/prometheus.rs\<close>. The metrics library is not part
  of the repository: a method is the list of the calls that it makes on the metric families, in order, and
  \<open>counter_value\<close> reads a counter off such a log as the library documents it. An \<^verbatim>\<open>f64\<close> is an exact
  rational. Registering a family is a parameter of \<open>register_metrics\<close>.
\<close>

section \<open>Families\<close>

datatype family =
    DisputedCount | ConcludedValid | ConcludedInvalid | ConcludedTimedOut | ResolutionTime | Initiators
  | MisbehavingValidators
  | BackedCount | SkippedSlots | IncludedCount | RelayBlockTimes | RelaySkippedSlots | RelayAuthorsMissingSlots
  | RelayCandidateStatuses | SlowAvailCount | LowBitfieldsCount | Bitfields | ParaBlockTimes | ParaBlockTimesSec
  | ParaBackingTimes | FinalityLag | Session

datatype metric_kind = IntCounterVec | IntGaugeVec | HistogramVec "rat list" | Gauge

record metric_desc =
  md_family :: family
  md_kind :: metric_kind
  md_name :: string
  md_labels :: "string list"

definition HISTOGRAM_TIME_BUCKETS_BLOCKS :: "rat list" where
  "HISTOGRAM_TIME_BUCKETS_BLOCKS = [0, 1, 2, 3, 4, 5, 6, 7, 8, 9, 10, 12, 15, 25, 35, 50]"

definition HISTOGRAM_TIME_BUCKETS_SECONDS :: "rat list" where
  "HISTOGRAM_TIME_BUCKETS_SECONDS = [3, 6, 12, 18, 24, 30, 36, 48, 60, 90, 120]"

definition HISTOGRAM_CANDIDATES_BUCKETS :: "rat list" where
  "HISTOGRAM_CANDIDATES_BUCKETS =
     [0, 10, 20, 30, 40, 50, 60, 70, 80, 90, 100, 110, 120, 130, 140, 150, 160, 170, 180, 190, 200]"

definition desc :: "family \<Rightarrow> metric_kind \<Rightarrow> string \<Rightarrow> string list \<Rightarrow> metric_desc" where
  "desc f k n ls = \<lparr>md_family = f, md_kind = k, md_name = n, md_labels = ls\<rparr>"

definition disputes_metrics :: "metric_desc list" where
  "disputes_metrics =
     [desc DisputedCount IntCounterVec ''pc_disputed_count'' [''parachain_id''],
      desc ConcludedValid IntCounterVec ''pc_disputed_valid_count'' [''parachain_id''],
      desc ConcludedInvalid IntCounterVec ''pc_disputed_invalid_count'' [''parachain_id''],
      desc ConcludedTimedOut IntCounterVec ''pc_disputed_timed_out_count'' [''parachain_id''],
      desc ResolutionTime (HistogramVec HISTOGRAM_TIME_BUCKETS_BLOCKS) ''pc_disputed_resolve_time'' [''parachain_id''],
      desc Initiators IntCounterVec ''pc_disputed_initiators''
        [''parachain_id'', ''validator_index'', ''session_index'', ''validator_address''],
      desc MisbehavingValidators IntCounterVec ''pc_disputed_misbehaving_validators''
        [''parachain_id'', ''validator_index'', ''session_index'', ''validator_address'']]"

definition metrics_inner :: "metric_desc list" where
  "metrics_inner =
     disputes_metrics @
     [desc BackedCount IntCounterVec ''pc_backed_count'' [''parachain_id''],
      desc SkippedSlots IntCounterVec ''pc_skipped_slots'' [''parachain_id''],
      desc IncludedCount IntCounterVec ''pc_included_count'' [''parachain_id''],
      desc RelayBlockTimes (HistogramVec HISTOGRAM_TIME_BUCKETS_SECONDS) ''pc_relay_block_time'' [''parachain_id''],
      desc RelaySkippedSlots IntCounterVec ''pc_relay_skipped_slots'' [''parachain_id''],
      desc RelayAuthorsMissingSlots IntCounterVec ''pc_relay_authors_missing_slots''
        [''block_number'', ''author_account''],
      desc RelayCandidateStatuses (HistogramVec HISTOGRAM_CANDIDATES_BUCKETS) ''pc_relay_candidates'' [''status''],
      desc SlowAvailCount IntCounterVec ''pc_slow_available_count'' [''parachain_id''],
      desc LowBitfieldsCount IntCounterVec ''pc_low_bitfields_count'' [''parachain_id''],
      desc Bitfields IntGaugeVec ''pc_bitfields_count'' [''parachain_id''],
      desc ParaBlockTimes (HistogramVec HISTOGRAM_TIME_BUCKETS_BLOCKS) ''pc_para_block_time'' [''parachain_id''],
      desc ParaBlockTimesSec (HistogramVec HISTOGRAM_TIME_BUCKETS_SECONDS) ''pc_para_block_time_sec''
        [''parachain_id''],
      desc ParaBackingTimes (HistogramVec HISTOGRAM_TIME_BUCKETS_BLOCKS) ''pc_para_backing_time'' [''parachain_id''],
      desc FinalityLag Gauge ''pc_finality_lag'' [],
      desc Session Gauge ''pc_session'' []]"

text \<open>\<open>Metrics(Option<MetricsInner>)\<close>: nothing is recorded without an endpoint.\<close>

type_synonym metrics = "metric_desc list option"

fun register_all :: "(metric_desc \<Rightarrow> 'r \<Rightarrow> 'r option) \<Rightarrow> metric_desc list \<Rightarrow> 'r \<Rightarrow> 'r option" where
  "register_all register [] r = Some r"
| "register_all register (d # ds) r = (case register d r of None \<Rightarrow> None | Some r' \<Rightarrow> register_all register ds r')"

definition register_metrics :: "(metric_desc \<Rightarrow> 'r \<Rightarrow> 'r option) \<Rightarrow> 'r \<Rightarrow> (metrics \<times> 'r) option" where
  "register_metrics register r =
     (case register_all register metrics_inner r of None \<Rightarrow> None | Some r' \<Rightarrow> Some (Some metrics_inner, r'))"

section \<open>Calls on the families\<close>

datatype metric_op =
    Inc family "string list"
  | IncBy family "string list" u64
  | Reset family "string list"
  | SetIntGauge family "string list" "64 word"
  | Observe family "string list" rat
  | SetGauge family rat

text \<open>\<open>with_label_values\<close> panics unless there is one value for each label of the family; a call has to fit the
  kind of the family.\<close>

fun op_fits :: "metric_op \<Rightarrow> metric_desc \<Rightarrow> bool" where
  "op_fits (Inc f ls) d \<longleftrightarrow> md_family d = f \<and> md_kind d = IntCounterVec \<and> length ls = length (md_labels d)"
| "op_fits (IncBy f ls _) d \<longleftrightarrow> md_family d = f \<and> md_kind d = IntCounterVec \<and> length ls = length (md_labels d)"
| "op_fits (Reset f ls) d \<longleftrightarrow> md_family d = f \<and> md_kind d = IntCounterVec \<and> length ls = length (md_labels d)"
| "op_fits (SetIntGauge f ls _) d \<longleftrightarrow> md_family d = f \<and> md_kind d = IntGaugeVec \<and> length ls = length (md_labels d)"
| "op_fits (Observe f ls _) d \<longleftrightarrow>
     md_family d = f \<and> (case md_kind d of HistogramVec _ \<Rightarrow> True | _ \<Rightarrow> False) \<and> length ls = length (md_labels d)"
| "op_fits (SetGauge f _) d \<longleftrightarrow> md_family d = f \<and> md_kind d = Gauge \<and> md_labels d = []"

definition op_ok :: "metric_desc list \<Rightarrow> metric_op \<Rightarrow> bool" where
  "op_ok ds op \<longleftrightarrow> list_ex (op_fits op) ds"

fun counter_op :: "family \<Rightarrow> string list \<Rightarrow> metric_op \<Rightarrow> u64 \<Rightarrow> u64" where
  "counter_op f ls (Inc f' ls') n = (if f' = f \<and> ls' = ls then n + 1 else n)"
| "counter_op f ls (IncBy f' ls' k) n = (if f' = f \<and> ls' = ls then n + k else n)"
| "counter_op f ls (Reset f' ls') n = (if f' = f \<and> ls' = ls then 0 else n)"
| "counter_op f ls _ n = n"

definition counter_value :: "family \<Rightarrow> string list \<Rightarrow> metric_op list \<Rightarrow> u64" where
  "counter_value f ls ops = fold (counter_op f ls) ops 0"

section \<open>Methods\<close>

definition if_registered :: "metrics \<Rightarrow> metric_op list \<Rightarrow> metric_op list" where
  "if_registered m ops = (case m of None \<Rightarrow> [] | Some _ \<Rightarrow> ops)"

definition show_u32 :: "u32 \<Rightarrow> string" where
  "show_u32 n = show_nat (unat n)"

definition RELAY_CHAIN_ID_STR :: string where
  "RELAY_CHAIN_ID_STR = ''0''"

definition STANDARD_BLOCK_TIME :: rat where
  "STANDARD_BLOCK_TIME = 6"

text \<open>\<open>f64::round\<close>, half-way cases away from zero, and the saturating \<open>as u64\<close>.\<close>

definition f64_round :: "rat \<Rightarrow> rat" where
  "f64_round x = (if x < 0 then of_int \<lceil>x - 1 / 2\<rceil> else of_int \<lfloor>x + 1 / 2\<rfloor>)"

definition f64_as_u64 :: "rat \<Rightarrow> u64" where
  "f64_as_u64 x = (if x < 0 then 0 else if x \<ge> 2 ^ 64 then - 1 else word_of_int \<lfloor>x\<rfloor>)"

definition metrics_on_backed :: "metrics \<Rightarrow> u32 \<Rightarrow> metric_op list" where
  "metrics_on_backed m para_id = if_registered m [Inc BackedCount [show_u32 para_id]]"

definition metrics_on_new_relay_block ::
  "metrics \<Rightarrow> nat \<Rightarrow> nat \<Rightarrow> nat \<Rightarrow> duration option \<Rightarrow> u32 \<Rightarrow> string list \<Rightarrow> metric_op list" where
  "metrics_on_new_relay_block m backed included timed_out block_time block_number missing_authors =
     if_registered m
       ([Observe RelayCandidateStatuses [''backed''] (of_nat backed),
         Observe RelayCandidateStatuses [''included''] (of_nat included),
         Observe RelayCandidateStatuses [''timed_out''] (of_nat timed_out)] @
        (case block_time of
           None \<Rightarrow> []
         | Some t \<Rightarrow>
             let time = f64_round (as_secs t);
                 skipped_slots = saturating_sub (f64_as_u64 (f64_round (time / STANDARD_BLOCK_TIME))) 1
             in Observe RelayBlockTimes [RELAY_CHAIN_ID_STR] time #
                (if skipped_slots > 0 then [IncBy RelaySkippedSlots [RELAY_CHAIN_ID_STR] skipped_slots] else [])) @
        map (\<lambda>missing_author. Inc RelayAuthorsMissingSlots [show_u32 block_number, missing_author]) missing_authors)"

definition metrics_on_slow_availability :: "metrics \<Rightarrow> u32 \<Rightarrow> metric_op list" where
  "metrics_on_slow_availability m para_id = if_registered m [Inc SlowAvailCount [show_u32 para_id]]"

definition metrics_on_bitfields :: "metrics \<Rightarrow> u32 \<Rightarrow> bool \<Rightarrow> u32 \<Rightarrow> metric_op list" where
  "metrics_on_bitfields m nbitfields is_low para_id =
     if_registered m
       (SetIntGauge Bitfields [show_u32 para_id] (ucast nbitfields) #
        (if is_low then [Inc LowBitfieldsCount [show_u32 para_id]] else []))"

definition metrics_on_skipped_slot :: "metrics \<Rightarrow> progress_update \<Rightarrow> metric_op list" where
  "metrics_on_skipped_slot m update = if_registered m [Inc SkippedSlots [show_u32 (pu_para_id update)]]"

definition init_counters :: "metrics \<Rightarrow> u32 \<Rightarrow> metric_op list" where
  "init_counters m para_id =
     if_registered m
       (map (\<lambda>f. Reset f [show_u32 para_id])
          [BackedCount, IncludedCount, LowBitfieldsCount, SlowAvailCount, SkippedSlots, RelaySkippedSlots,
           DisputedCount, ConcludedValid, ConcludedInvalid, ConcludedTimedOut])"

definition metrics_on_disputed :: "metrics \<Rightarrow> disputes_tracker \<Rightarrow> u32 \<Rightarrow> metric_op list" where
  "metrics_on_disputed m dispute_outcome para_id =
     (let para_string = show_u32 para_id;
          validator = (\<lambda>f (index, address).
            Inc f [para_string, show_u32 index, show_u32 (dt_session_index dispute_outcome), address])
      in if_registered m
           ([Inc DisputedCount [para_string],
             Observe ResolutionTime [para_string] (of_word (dt_resolve_time dispute_outcome)),
             (case dt_outcome dispute_outcome of
                DValid \<Rightarrow> Inc ConcludedValid [para_string]
              | DInvalid \<Rightarrow> Inc ConcludedInvalid [para_string]
              | DTimedOut \<Rightarrow> Inc ConcludedTimedOut [para_string])] @
            map (validator Initiators) (dt_initiators dispute_outcome) @
            map (validator MisbehavingValidators) (dt_misbehaving_validators dispute_outcome)))"

definition metrics_on_included ::
  "metrics \<Rightarrow> u32 \<Rightarrow> u32 option \<Rightarrow> u32 option \<Rightarrow> duration option \<Rightarrow> u32 \<Rightarrow> metric_op list" where
  "metrics_on_included m relay_parent_number previous_included backed_in para_block_time_sec para_id =
     (let para_str = show_u32 para_id
      in if_registered m
           (Inc IncludedCount [para_str] #
            (case previous_included of
               None \<Rightarrow> []
             | Some previous \<Rightarrow>
                 [Observe ParaBlockTimes [para_str] (of_word (saturating_sub relay_parent_number previous))]) @
            (case para_block_time_sec of
               None \<Rightarrow> []
             | Some time \<Rightarrow> [Observe ParaBlockTimesSec [para_str] (f64_round (as_secs time))]) @
            (case backed_in of
               None \<Rightarrow> []
             | Some backed_in \<Rightarrow> [Observe ParaBackingTimes [para_str] (of_word backed_in)])))"

definition metrics_on_finality_lag :: "metrics \<Rightarrow> u32 \<Rightarrow> metric_op list" where
  "metrics_on_finality_lag m lag = if_registered m [SetGauge FinalityLag (of_word lag)]"

definition metrics_on_new_session :: "metrics \<Rightarrow> u32 \<Rightarrow> metric_op list" where
  "metrics_on_new_session m session = if_registered m [SetGauge Session (of_word session)]"

text \<open>The calls of a progress report.\<close>

fun apply_metrics :: "metrics \<Rightarrow> metrics_call \<Rightarrow> metric_op list" where
  "apply_metrics m (MBitfields n is_low para_id) = metrics_on_bitfields m n is_low para_id"
| "apply_metrics m (MSkippedSlot update) = metrics_on_skipped_slot m update"
| "apply_metrics m (MBacked para_id) = metrics_on_backed m para_id"
| "apply_metrics m (MSlowAvailability para_id) = metrics_on_slow_availability m para_id"
| "apply_metrics m (MIncluded n previous backed_in time para_id) =
     metrics_on_included m n previous backed_in time para_id"
| "apply_metrics m (MDisputed d para_id) = metrics_on_disputed m d para_id"
| "apply_metrics m (MFinalityLag lag) = metrics_on_finality_lag m lag"

text \<open>All methods of the metrics.\<close>

datatype metrics_method =
    MethodInit u32
  | MethodRelayBlock nat nat nat "duration option" u32 "string list"
  | MethodNewSession u32
  | MethodReport metrics_call

fun call_method :: "metrics \<Rightarrow> metrics_method \<Rightarrow> metric_op list" where
  "call_method m (MethodInit para_id) = init_counters m para_id"
| "call_method m (MethodRelayBlock backed included timed_out block_time n authors) =
     metrics_on_new_relay_block m backed included timed_out block_time n authors"
| "call_method m (MethodNewSession session) = metrics_on_new_session m session"
| "call_method m (MethodReport c) = apply_metrics m c"

definition metrics_log :: "metrics \<Rightarrow> metrics_method list \<Rightarrow> metric_op list" where
  "metrics_log m cs = concat (map (call_method m) cs)"

lemmas metrics_method_defs =
  metrics_on_backed_def metrics_on_new_relay_block_def metrics_on_slow_availability_def metrics_on_bitfields_def
  metrics_on_skipped_slot_def init_counters_def metrics_on_disputed_def metrics_on_included_def
  metrics_on_finality_lag_def metrics_on_new_session_def

section \<open>Registration and labels\<close>

lemma if_registered_simps [simp]: "if_registered None ops = []" "if_registered (Some ds) ops = ops"
  by (simp_all add: if_registered_def)

lemma inner_ops_ok [simp]:
  "f \<in> {BackedCount, IncludedCount, LowBitfieldsCount, SlowAvailCount, SkippedSlots, RelaySkippedSlots,
      DisputedCount, ConcludedValid, ConcludedInvalid, ConcludedTimedOut} \<Longrightarrow>
    op_ok metrics_inner (Inc f [a]) \<and> op_ok metrics_inner (IncBy f [a] k) \<and> op_ok metrics_inner (Reset f [a])"
  "op_ok metrics_inner (Inc Initiators [a, b, c, d])" "op_ok metrics_inner (Inc MisbehavingValidators [a, b, c, d])"
  "op_ok metrics_inner (Inc RelayAuthorsMissingSlots [a, b])" "op_ok metrics_inner (SetIntGauge Bitfields [a] i)"
  "f \<in> {ResolutionTime, RelayBlockTimes, RelayCandidateStatuses, ParaBlockTimes, ParaBlockTimesSec, ParaBackingTimes} \<Longrightarrow>
    op_ok metrics_inner (Observe f [a] x)"
  "f \<in> {FinalityLag, Session} \<Longrightarrow> op_ok metrics_inner (SetGauge f x)"
  by (auto simp: op_ok_def metrics_inner_def disputes_metrics_def desc_def)

lemma report_ops_ok: "list_all (op_ok metrics_inner) (apply_metrics m c)"
proof (cases m)
  case (Some ds)
  show ?thesis
  proof (cases c)
    case (MDisputed d p)
    then show ?thesis
      using Some by (cases "dt_outcome d") (auto simp: metrics_method_defs Let_def list_all_iff)
  qed (simp_all add: Some metrics_method_defs Let_def split: option.split)
qed (cases c; simp add: metrics_method_defs Let_def)

lemma method_ops_ok: "list_all (op_ok metrics_inner) (call_method m c)"
proof (cases m)
  case (Some ds)
  show ?thesis
  proof (cases c)
    case (MethodReport c')
    then show ?thesis by (simp add: report_ops_ok)
  next
    case MethodRelayBlock
    then show ?thesis
      by (auto simp: Some metrics_method_defs Let_def list_all_iff split: option.splits)
  qed (simp_all add: Some metrics_method_defs)
qed (cases c; simp add: report_ops_ok metrics_method_defs Let_def)

lemma call_method_None [simp]: "call_method None c = []"
proof (cases c)
  case (MethodReport c')
  then show ?thesis by (cases c') (simp_all add: metrics_method_defs Let_def)
qed (simp_all add: metrics_method_defs)

text \<open>A description that the library accepts: a name of letters, digits and underscores that does not begin
  with a digit, and distinct labels.\<close>

definition name_char :: "char \<Rightarrow> bool" where
  "name_char c \<longleftrightarrow> c \<in> set ''abcdefghijklmnopqrstuvwxyz_0123456789''"

definition well_formed :: "metric_desc \<Rightarrow> bool" where
  "well_formed d \<longleftrightarrow>
     md_name d \<noteq> [] \<and> hd (md_name d) \<notin> set ''0123456789'' \<and> list_all name_char (md_name d) \<and>
     list_all (list_all name_char) (md_labels d) \<and> distinct (md_labels d)"

lemma metrics_inner_well_formed: "list_all well_formed metrics_inner" "distinct (map md_name metrics_inner)"
  by code_simp+

lemma register_all_ok:
  assumes "\<And>d r. well_formed d \<Longrightarrow> md_name d \<notin> names r \<Longrightarrow>
      \<exists>r'. register d r = Some r' \<and> names r' = insert (md_name d) (names r)"
    and "list_all well_formed ds" "distinct (map md_name ds)" "names r \<inter> set (map md_name ds) = {}"
  shows "\<exists>r'. register_all register ds r = Some r' \<and> names r' = names r \<union> set (map md_name ds)"
  using assms(2-4)
proof (induction ds arbitrary: r)
  case (Cons d ds)
  from Cons.prems assms(1) [of d r] obtain r1 where
    r1: "register d r = Some r1" "names r1 = insert (md_name d) (names r)" by auto
  with Cons.prems Cons.IH [of r1] show ?case by auto
qed simp

text \<open>The metrics of the tracer never panic: with a registry that accepts well-formed descriptions under new
  names, as the library documents, all families are registered, and every call that any method makes on
  them names a registered family of the right kind and gives one value for each of its labels.\<close>

theorem metrics_never_panic:
  assumes "\<And>d r. well_formed d \<Longrightarrow> md_name d \<notin> names r \<Longrightarrow>
      \<exists>r'. register d r = Some r' \<and> names r' = insert (md_name d) (names r)"
    and "names r = {}"
  shows "\<exists>m r'. register_metrics register r = Some (m, r') \<and> m \<noteq> None \<and>
    names r' = set (map md_name (the m)) \<and> list_all (op_ok (the m)) (metrics_log m cs)"
proof -
  have "\<exists>r'. register_all register metrics_inner r = Some r' \<and> names r' = names r \<union> set (map md_name metrics_inner)"
    using assms(2) metrics_inner_well_formed by (intro register_all_ok assms(1)) auto
  moreover have "list_all (op_ok metrics_inner) (metrics_log m cs)" for m
    using method_ops_ok [of m] by (auto simp: metrics_log_def list_all_iff)
  ultimately show ?thesis
    using assms(2) by (auto simp: register_metrics_def)
qed

theorem metrics_never_panic_witness:
  "\<exists>m r'. register_metrics (\<lambda>d r. if md_name d \<in> set r then None else Some (md_name d # r)) [] = Some (m, r') \<and>
     list_all (op_ok (the m)) (metrics_log m [MethodInit 100, MethodReport (MBacked 100)])"
proof -
  have law: "\<exists>r'. (if md_name d \<in> set r then None else Some (md_name d # r)) = Some r' \<and>
      set r' = insert (md_name d) (set r)" if "md_name d \<notin> set r" for d r
    using that by simp
  show ?thesis
    using metrics_never_panic [of set "\<lambda>d r. if md_name d \<in> set r then None else Some (md_name d # r)" "[]"
        "[MethodInit 100, MethodReport (MBacked 100)]", OF law] by auto
qed

section \<open>Counters\<close>

lemma counter_value_append: "counter_value f ls (xs @ ys) = fold (counter_op f ls) ys (counter_value f ls xs)"
  by (simp add: counter_value_def)

lemma metrics_log_simps [simp]:
  "metrics_log m [] = []" "metrics_log m (cs @ ds) = metrics_log m cs @ metrics_log m ds"
  "metrics_log m [c] = call_method m c"
  by (simp_all add: metrics_log_def)

lemma counter_op_other [simp]:
  "f \<noteq> g \<Longrightarrow> fold (counter_op f ls) (map (\<lambda>x. Inc g (l x)) xs) n = n"
  by (induction xs) simp_all

lemma counter_op_validators [simp]:
  "f \<noteq> g \<Longrightarrow> fold (counter_op f ls) (map (\<lambda>(i, a). Inc g (l i a)) xs) n = n"
  by (induction xs) auto

lemma show_u32_eq [simp]: "show_u32 a = show_u32 b \<longleftrightarrow> a = b"
proof -
  have "inj_on (\<lambda>d :: nat. char_of (48 + d) :: char) {..<10}"
    by (rule inj_on_inverseI [where g = "\<lambda>c. of_char c - 48"]) simp
  then have "inj_on (\<lambda>d :: nat. char_of (48 + d) :: char) (set (digits10 m) \<union> set (digits10 n))" for m n
    by (rule inj_on_subset) (auto dest: digits10_less)
  then have "map (\<lambda>d. char_of (48 + d) :: char) (digits10 m) = map (\<lambda>d. char_of (48 + d)) (digits10 n) \<longleftrightarrow>
      digits10 m = digits10 n" for m n
    by (rule inj_on_map_eq_map)
  then show ?thesis
    by (simp add: show_u32_def show_nat_def digits10_inject word_unat_eq_iff)
qed

text \<open>The dispute counters of a parachain add up: after any calls of the methods, counters being reset by the
  start of a tracker included, the number of disputed candidates of each parachain is the number of those
  concluded valid, invalid and timed out together.\<close>

theorem dispute_counters_add_up:
  fixes m cs para_id
  defines "count \<equiv> \<lambda>f. counter_value f [show_u32 para_id] (metrics_log m cs)"
  shows "count DisputedCount = count ConcludedValid + count ConcludedInvalid + count ConcludedTimedOut"
proof -
  let ?sums = "\<lambda>ops. counter_value DisputedCount [show_u32 para_id] ops =
      counter_value ConcludedValid [show_u32 para_id] ops + counter_value ConcludedInvalid [show_u32 para_id] ops +
      counter_value ConcludedTimedOut [show_u32 para_id] ops"
  have step: "?sums (xs @ call_method m c)" if "?sums xs" for xs c
  proof (cases m)
    case (Some ds)
    show ?thesis
    proof (cases c)
      case (MethodReport c')
      show ?thesis
      proof (cases c')
        case (MDisputed d p)
        with that Some MethodReport show ?thesis
          by (cases "dt_outcome d") (simp_all add: counter_value_append metrics_method_defs Let_def)
      qed (use that Some MethodReport in
          \<open>simp_all add: counter_value_append metrics_method_defs Let_def split: option.split\<close>)
    qed (use that Some in \<open>simp_all add: counter_value_append metrics_method_defs Let_def split: option.split\<close>)
  qed (use that in simp)
  show ?thesis
    unfolding count_def by (induction cs rule: rev_induct) (simp_all add: step, simp add: counter_value_def)
qed

section \<open>Skipped slots of the relay chain\<close>

lemma f64_round_nonneg: "0 \<le> x \<Longrightarrow> f64_round x = of_int \<lfloor>x + 1 / 2\<rfloor>"
  by (simp add: f64_round_def)

lemma rounded_secs: "f64_round (as_secs t) = of_nat ((t + 500000000) div 1000000000)"
proof -
  have "\<lfloor>as_secs t + 1 / 2\<rfloor> = \<lfloor>of_nat (t + 500000000) / (of_nat 1000000000 :: rat)\<rfloor>"
    by (simp add: as_secs_def field_simps)
  also have "\<dots> = int ((t + 500000000) div 1000000000)" by (rule floor_divide_of_nat_eq)
  finally show ?thesis by (simp add: f64_round_nonneg as_secs_def)
qed

lemma relay_slots:
  "f64_round (f64_round (as_secs t) / STANDARD_BLOCK_TIME) = of_nat (((t + 500000000) div 1000000000 + 3) div 6)"
proof -
  let ?n = "(t + 500000000) div 1000000000"
  have "\<lfloor>of_nat ?n / (6 :: rat) + 1 / 2\<rfloor> = \<lfloor>of_nat (?n + 3) / (of_nat 6 :: rat)\<rfloor>"
    by (simp add: field_simps)
  also have "\<dots> = int ((?n + 3) div 6)" by (rule floor_divide_of_nat_eq)
  finally show ?thesis
    unfolding rounded_secs STANDARD_BLOCK_TIME_def by (simp add: f64_round_nonneg)
qed

lemma f64_as_u64_of_nat: "n < 2 ^ 64 \<Longrightarrow> f64_as_u64 (of_nat n) = of_nat n"
proof -
  assume n: "n < 2 ^ 64"
  have "(2 ^ 64 \<le> (of_nat n :: rat)) \<longleftrightarrow> of_nat (2 ^ 64) \<le> (of_nat n :: rat)" by simp
  also have "\<dots> \<longleftrightarrow> 2 ^ 64 \<le> n" by (rule of_nat_le_iff)
  finally show ?thesis using n by (simp add: f64_as_u64_def)
qed

text \<open>The number of slots that the relay chain skipped before a block, as counted: the block time is rounded to
  whole seconds and then to whole slots of six seconds, less one. So a block counts as on time while it comes
  less than eight and a half seconds after the last one, and there is no wrap-around.\<close>

theorem relay_skipped_slots_exact:
  assumes "t < 2 ^ 64"
  shows "metrics_on_new_relay_block (Some ds) backed included timed_out (Some t) n authors =
      metrics_on_new_relay_block (Some ds) backed included timed_out None n [] @
      Observe RelayBlockTimes [RELAY_CHAIN_ID_STR] (of_nat ((t + 500000000) div 1000000000)) #
      (let skipped = ((t + 500000000) div 1000000000 + 3) div 6 - 1
       in if skipped = 0 then [] else [IncBy RelaySkippedSlots [RELAY_CHAIN_ID_STR] (of_nat skipped)]) @
      map (\<lambda>a. Inc RelayAuthorsMissingSlots [show_u32 n, a]) authors \<and>
    (((t + 500000000) div 1000000000 + 3) div 6 - 1 = 0 \<longleftrightarrow> t < 8500000000)"
proof -
  let ?secs = "(t + 500000000) div 1000000000"
  let ?q = "(?secs + 3) div 6"
  define k where "k = ?q - 1"
  have q: "?q < 2 ^ 64" using assms by simp
  have "saturating_sub (f64_as_u64 (f64_round (f64_round (as_secs t) / STANDARD_BLOCK_TIME))) 1 = of_nat k"
    unfolding relay_slots f64_as_u64_of_nat [OF q] k_def using q
    by (simp only: word_unat_eq_iff unat_saturating_sub unat_of_nat) (simp add: take_bit_nat_eq_self)
  moreover have "(0 :: u64) < of_nat k \<longleftrightarrow> k \<noteq> 0"
  proof -
    have "k < 2 ^ 64" using q by (simp add: k_def)
    then show ?thesis by (simp add: word_less_nat_alt unat_of_nat take_bit_nat_eq_self)
  qed
  moreover have "k = 0 \<longleftrightarrow> t < 8500000000"
    unfolding k_def by linarith
  ultimately show ?thesis
    unfolding k_def [symmetric] by (simp add: metrics_on_new_relay_block_def rounded_secs Let_def)
qed

theorem relay_skipped_slots_exact_witness:
  "metrics_on_new_relay_block (Some []) 0 0 0 (Some 18200000000) 7 [''a''] =
     metrics_on_new_relay_block (Some []) 0 0 0 None 7 [] @
     [Observe RelayBlockTimes [RELAY_CHAIN_ID_STR] 18, IncBy RelaySkippedSlots [RELAY_CHAIN_ID_STR] 2,
      Inc RelayAuthorsMissingSlots [show_u32 7, ''a'']]"
  using relay_skipped_slots_exact [of 18200000000 "[]" 0 0 0 7 "[''a'']"] by simp

end
