(* ===== verification/Tracer_Main.thy ===== *)
theory Tracer_Main
  imports Tracker_Report Tracker_Total Collector_Types Metrics Channel
begin

text \<open>
  The loops of the tracer, \<^verbatim>\<open>parachain-tracer/src/main.rs\<close>: the watcher of the relay chain, the watcher of one
  parachain, which runs its tracker, and the watcher of all parachains, which starts and evicts trackers.
  A loop is a fold of its body over what \<^verbatim>\<open>select!\<close> yields; messages from the collector come with the storage
  as it is when each relay chain block is read. Futures that the loop spawns and what it prints are
  recorded.
\<close>

section \<open>Options\<close>

datatype mode = Cli | Prometheus

record tracer_options =
  to_para_ids :: "u32 list"
  to_all :: bool
  to_last_skipped_slot_blocks :: nat
  to_is_historical :: bool
  to_from :: "u32 option"
  to_to :: "u32 option"
  to_mode :: "mode option"

definition tracer_new :: "tracer_options \<Rightarrow> tracer_options" where
  "tracer_new opts = opts\<lparr>to_mode := (case to_mode opts of None \<Rightarrow> Some Cli | Some m \<Rightarrow> Some m)\<rparr>"

definition is_cli :: "tracer_options \<Rightarrow> bool" where
  "is_cli opts \<longleftrightarrow> to_mode opts = Some Cli"

text \<open>\<open>Inl Fail\<close> is the exit with a usage error.\<close>

definition historical_bounds :: "tracer_options \<Rightarrow> fault + u32 \<times> u32" where
  "historical_bounds opts =
     rbind (expect (to_from opts)) (\<lambda>from_block_number.
     rbind (expect (to_to opts)) (\<lambda>to_block_number.
       if from_block_number \<ge> to_block_number then Inl Fail else Inr (from_block_number, to_block_number)))"

definition RELAY_CHAIN_ID :: u32 where
  "RELAY_CHAIN_ID = 0"

text \<open>The tasks of a tracer, and their channels from the collector.\<close>

datatype watcher = WatchRelayChain | WatchBroadcast | WatchParachain u32

definition tracer_subscribe :: "tracer_options \<Rightarrow> collector \<Rightarrow> collector \<times> watcher list" where
  "tracer_subscribe opts c =
     (let c1 = subscribe_parachain_updates RELAY_CHAIN_ID c
      in if to_all opts then (subscribe_broadcast_updates c1, [WatchRelayChain, WatchBroadcast])
         else (fold subscribe_parachain_updates (to_para_ids opts) c1,
               WatchRelayChain # map WatchParachain (to_para_ids opts)))"

section \<open>What a loop sees and does\<close>

datatype watch_input =
    Received update_event "h256 \<Rightarrow> collector_storage"
  | InputClosed
  | ShutdownSignal

datatype printed =
    PrintedBlock u32 nat nat nat "string list"
  | PrintedSession u32
  | PrintedProgress progress_update
  | PrintedStats

text \<open>The task goes on, has ended, or has panicked.\<close>

datatype 's watching = Watching 's | Ended 's | Crashed 's

fun run_watcher :: "('s \<Rightarrow> 'i \<Rightarrow> 's watching) \<Rightarrow> 'i list \<Rightarrow> 's \<Rightarrow> 's watching" where
  "run_watcher step [] s = Watching s"
| "run_watcher step (i # is) s = (case step s i of Watching s' \<Rightarrow> run_watcher step is s' | r \<Rightarrow> r)"

section \<open>The relay chain\<close>

record relay_watcher =
  rw_last_ts :: "timestamp option"
  rw_metrics :: "metric_op list"
  rw_printed :: "printed list"
  rw_shutdown_sent :: bool

definition relay_watcher_new :: relay_watcher where
  "relay_watcher_new = \<lparr>rw_last_ts = None, rw_metrics = [], rw_printed = [], rw_shutdown_sent = False\<rparr>"

definition watch_relay_head ::
  "(account_id \<Rightarrow> string) \<Rightarrow> metrics \<Rightarrow> bool \<Rightarrow> (u8 list \<Rightarrow> h256) \<Rightarrow> new_head_event \<Rightarrow> (h256 \<Rightarrow> collector_storage) \<Rightarrow>
   relay_watcher \<Rightarrow> relay_watcher watching" where
  "watch_relay_head ss58 metrics cli hasher new_head storage w =
     (if nh_relay_parent_number new_head = 0 then Watching w
      else case nh_relay_parent_hashes new_head of
        [] \<Rightarrow> Crashed w
      | h # _ \<Rightarrow>
          (case ts_block_timestamp h (tracker_storage_new 0 (storage h) hasher) of
             Inl _ \<Rightarrow> Crashed w
           | Inr curr_ts \<Rightarrow>
               let block_time = map_option from_millis
                     (Option.bind (rw_last_ts w) (\<lambda>last. map_option (\<lambda>curr. saturating_sub curr last) curr_ts));
                   backed = length (nh_candidates_backed new_head);
                   included = length (nh_candidates_included new_head);
                   timed_out = length (nh_candidates_timed_out new_head);
                   number = nh_relay_parent_number new_head;
                   authors = map ss58 (nh_authors_missing_their_slots new_head)
               in Watching (w\<lparr>rw_last_ts := curr_ts,
                    rw_metrics := rw_metrics w @
                      metrics_on_new_relay_block metrics backed included timed_out block_time number authors,
                    rw_printed := rw_printed w @
                      (if cli then [PrintedBlock number backed included timed_out authors] else [])\<rparr>)))"

definition watch_relay_step ::
  "(account_id \<Rightarrow> string) \<Rightarrow> metrics \<Rightarrow> bool \<Rightarrow> (u8 list \<Rightarrow> h256) \<Rightarrow> relay_watcher \<Rightarrow> watch_input \<Rightarrow>
   relay_watcher watching" where
  "watch_relay_step ss58 metrics cli hasher w i =
     (case i of
        Received (NewHead new_head) storage \<Rightarrow> watch_relay_head ss58 metrics cli hasher new_head storage w
      | Received (NewSession session_id) _ \<Rightarrow>
          Watching (w\<lparr>rw_metrics := rw_metrics w @ metrics_on_new_session metrics session_id,
                      rw_printed := rw_printed w @ (if cli then [PrintedSession session_id] else [])\<rparr>)
      | Received (Termination NormalEnd) _ \<Rightarrow> Ended w
      | Received (Termination AbnormalEnd) _ \<Rightarrow> Ended (w\<lparr>rw_shutdown_sent := True\<rparr>)
      | InputClosed \<Rightarrow> Ended w
      | ShutdownSignal \<Rightarrow> Ended w)"

section \<open>One parachain\<close>

record para_watcher =
  pw_tracker :: subxt_tracker
  pw_stats :: parachain_stats
  pw_metrics :: "metric_op list"
  pw_printed :: "printed list"
  pw_shutdown_sent :: bool

definition para_watcher_new :: "metrics \<Rightarrow> nat \<Rightarrow> u32 \<Rightarrow> para_watcher" where
  "para_watcher_new metrics last_skipped_slot_blocks para_id =
     \<lparr>pw_tracker = tracker_new para_id, pw_stats = parachain_stats_new para_id last_skipped_slot_blocks,
      pw_metrics = init_counters metrics para_id, pw_printed = [], pw_shutdown_sent = False\<rparr>"

text \<open>The report of a block reaches the statistics, the metrics and, in the terminal mode, the screen.\<close>

definition deliver_report :: "metrics \<Rightarrow> bool \<Rightarrow> report option \<Rightarrow> para_watcher \<Rightarrow> para_watcher" where
  "deliver_report metrics cli m w =
     (case m of
        None \<Rightarrow> w
      | Some r \<Rightarrow>
          w\<lparr>pw_stats := fold apply_stats (rp_stats r) (pw_stats w),
            pw_metrics := pw_metrics w @ concat (map (apply_metrics metrics) (rp_metrics r)),
            pw_printed := pw_printed w @ (if cli then [PrintedProgress (rp_progress r)] else [])\<rparr>)"

fun watch_forks ::
  "(account_id \<Rightarrow> string) \<Rightarrow> metrics \<Rightarrow> bool \<Rightarrow> (h256 \<Rightarrow> tracker_storage) \<Rightarrow> new_head_event \<Rightarrow> h256 list \<Rightarrow>
   para_watcher \<Rightarrow> para_watcher watching" where
  "watch_forks ss58 metrics cli storage new_head [] w = Watching w"
| "watch_forks ss58 metrics cli storage new_head (relay_fork # forks) w =
     (case inject_block ss58 relay_fork new_head (storage relay_fork) (pw_tracker w) of
        Inl Panic \<Rightarrow> Crashed w
      | Inl Fail \<Rightarrow> Watching (w\<lparr>pw_shutdown_sent := True\<rparr>)
      | Inr t \<Rightarrow>
          (case progress (storage relay_fork) t of
             Inl _ \<Rightarrow> Crashed (w\<lparr>pw_tracker := t\<rparr>)
           | Inr m \<Rightarrow>
               watch_forks ss58 metrics cli storage new_head forks
                 ((deliver_report metrics cli m w)\<lparr>pw_tracker := maybe_reset_state t\<rparr>)))"

definition print_stats :: "bool \<Rightarrow> para_watcher \<Rightarrow> para_watcher" where
  "print_stats cli w = (if cli then w\<lparr>pw_printed := pw_printed w @ [PrintedStats]\<rparr> else w)"

definition watch_para_step ::
  "(account_id \<Rightarrow> string) \<Rightarrow> metrics \<Rightarrow> bool \<Rightarrow> (u8 list \<Rightarrow> h256) \<Rightarrow> para_watcher \<Rightarrow> watch_input \<Rightarrow>
   para_watcher watching" where
  "watch_para_step ss58 metrics cli hasher w i =
     (case i of
        Received (NewHead new_head) storage \<Rightarrow>
          watch_forks ss58 metrics cli
            (\<lambda>h. tracker_storage_new (tk_para_id (pw_tracker w)) (storage h) hasher) new_head
            (nh_relay_parent_hashes new_head) w
      | Received (NewSession idx) _ \<Rightarrow> Watching (w\<lparr>pw_tracker := inject_new_session idx (pw_tracker w)\<rparr>)
      | Received (Termination NormalEnd) _ \<Rightarrow> Ended (print_stats cli w)
      | Received (Termination AbnormalEnd) _ \<Rightarrow> Ended (print_stats cli (w\<lparr>pw_shutdown_sent := True\<rparr>))
      | InputClosed \<Rightarrow> Ended (print_stats cli w)
      | ShutdownSignal \<Rightarrow> Ended (print_stats cli w))"

section \<open>All parachains\<close>

record broadcast_watcher =
  bw_trackers :: "(u32, update_event sink) alist"
  bw_last_blocks :: "(u32, u32) alist"
  bw_best_known_block :: u32
  bw_spawned :: "u32 list"
  bw_shutdown_sent :: bool

definition broadcast_watcher_new :: broadcast_watcher where
  "broadcast_watcher_new =
     \<lparr>bw_trackers = [], bw_last_blocks = [], bw_best_known_block = 0, bw_spawned = [], bw_shutdown_sent = False\<rparr>"

definition evict_stalled ::
  "(u32, 't) alist \<Rightarrow> (u32, u32) alist \<Rightarrow> (u32, 't) alist \<times> (u32, u32) alist" where
  "evict_stalled trackers last_blocks =
     (let max_block = (if last_blocks = [] then 0 else Max (snd ` set last_blocks));
          threshold = saturating_sub max_block 10;
          to_evict = map fst (filter (\<lambda>(para_id, last_block). threshold > last_block) last_blocks)
      in (fold hm_del to_evict trackers, fold hm_del to_evict last_blocks))"

datatype broadcast_input =
    BroadcastReceived update_event
  | BroadcastClosed
  | TrackerEnded u32
  | BroadcastShutdown

definition broadcast_head :: "new_head_event \<Rightarrow> broadcast_watcher \<Rightarrow> broadcast_watcher watching" where
  "broadcast_head new_head w =
     (let para_id = nh_para_id new_head;
          last_known_block = nh_relay_parent_number new_head;
          w1 = (case map_of (bw_trackers w) para_id of
                  Some _ \<Rightarrow> w
                | None \<Rightarrow> w\<lparr>bw_trackers := hm_put para_id sink_new (bw_trackers w),
                              bw_spawned := bw_spawned w @ [para_id]\<rparr>)
      in case map_of (bw_trackers w1) para_id of
           None \<Rightarrow> Crashed w1
         | Some to_tracker \<Rightarrow>
             if \<not> sk_open to_tracker then Crashed w1
             else
               let w2 = w1\<lparr>bw_trackers := hm_put para_id (sink_push (NewHead new_head) to_tracker) (bw_trackers w1),
                           bw_last_blocks := hm_put para_id last_known_block (bw_last_blocks w1)\<rparr>
               in if last_known_block > bw_best_known_block w2 then
                    let (trackers, last_blocks) = evict_stalled (bw_trackers w2) (bw_last_blocks w2)
                    in Watching (w2\<lparr>bw_best_known_block := last_known_block, bw_trackers := trackers,
                                    bw_last_blocks := last_blocks\<rparr>)
                  else Watching w2)"

definition watch_broadcast_step :: "broadcast_watcher \<Rightarrow> broadcast_input \<Rightarrow> broadcast_watcher watching" where
  "watch_broadcast_step w i =
     (case i of
        BroadcastReceived (NewHead new_head) \<Rightarrow> broadcast_head new_head w
      | BroadcastReceived (NewSession idx) \<Rightarrow>
          (let (ok, sinks) = send_each (NewSession idx) (map snd (bw_trackers w));
               w1 = w\<lparr>bw_trackers := zip (map fst (bw_trackers w)) sinks\<rparr>
           in if ok then Watching w1 else Crashed w1)
      | BroadcastReceived (Termination NormalEnd) \<Rightarrow> Ended (w\<lparr>bw_trackers := []\<rparr>)
      | BroadcastReceived (Termination AbnormalEnd) \<Rightarrow> Ended (w\<lparr>bw_shutdown_sent := True, bw_trackers := []\<rparr>)
      | BroadcastClosed \<Rightarrow> Ended (w\<lparr>bw_trackers := []\<rparr>)
      | TrackerEnded para_id \<Rightarrow>
          Watching (w\<lparr>bw_trackers := hm_modify para_id (\<lambda>k. k\<lparr>sk_open := False\<rparr>) (bw_trackers w)\<rparr>)
      | BroadcastShutdown \<Rightarrow> Ended (w\<lparr>bw_trackers := []\<rparr>))"

fun state_of :: "'s watching \<Rightarrow> 's" where
  "state_of (Watching s) = s"
| "state_of (Ended s) = s"
| "state_of (Crashed s) = s"

lemma run_watcher_invariant:
  assumes "I s" "\<And>s i. I s \<Longrightarrow> I (state_of (step s i))"
  shows "I (state_of (run_watcher step is s))"
  using assms(1)
proof (induction "is" arbitrary: s)
  case (Cons i "is")
  with assms(2) [of s i] show ?case by (cases "step s i") auto
qed simp

section \<open>Statistics and metrics of a parachain\<close>

lemma ucast_Suc [simp]: "(ucast (n + 1 :: u64) :: u32) = ucast n + 1"
proof -
  have "take_bit 32 (take_bit 64 n + 1) = take_bit 32 (n + 1)" for n :: int
    using take_bit_add [of 32 "take_bit 64 n" 1] take_bit_add [of 32 n 1] by (simp add: take_bit_take_bit)
  then show ?thesis by transfer simp
qed

lemma ucast_Suc' [simp]: "(ucast (1 + n :: u64) :: u32) = 1 + ucast n"
  using ucast_Suc [of n] by (simp add: add.commute)

definition stats_agree :: "u32 \<Rightarrow> parachain_stats \<Rightarrow> metric_op list \<Rightarrow> bool" where
  "stats_agree para_id s ops \<longleftrightarrow>
     (let count = (\<lambda>f. ucast (counter_value f [show_u32 para_id] ops) :: u32)
      in st_backed_count s = count BackedCount \<and> st_skipped_slots s = count SkippedSlots \<and>
         st_included_count s = count IncludedCount \<and> st_slow_avail_count s = count SlowAvailCount \<and>
         st_low_bitfields_count s = count LowBitfieldsCount \<and>
         ds_disputed_count (st_disputes s) = count DisputedCount \<and>
         ds_concluded_valid (st_disputes s) = count ConcludedValid \<and>
         ds_concluded_invalid (st_disputes s) = count ConcludedInvalid \<and>
         ds_concluded_timed_out (st_disputes s) = count ConcludedTimedOut)"

lemma agree_start: "stats_agree para_id (parachain_stats_new para_id n) (init_counters (Some ds) para_id)"
  by (simp add: stats_agree_def init_counters_def parachain_stats_new_def counter_value_def Let_def)

lemmas stats_defs = on_backed_def on_included_def on_disputed_def on_block_def on_bitfields_def
  on_slow_availability_def on_skipped_slot_def

lemma agree_call:
  assumes "stats_agree para_id s ops" "tk_para_id t = para_id" "\<And>p. c = OnSkippedSlot p \<Longrightarrow> pu_para_id p = para_id"
  shows "stats_agree para_id (apply_stats c s) (ops @ concat (map (apply_metrics (Some ds)) (metrics_of t c)))"
proof (cases c)
  case (OnDisputed d)
  with assms show ?thesis
    by (cases "dt_outcome d")
      (simp_all add: stats_agree_def counter_value_append metrics_method_defs stats_defs Let_def)
qed (use assms in \<open>simp_all add: stats_agree_def counter_value_append metrics_method_defs stats_defs Let_def
    split: option.split\<close>)

lemma agree_calls:
  assumes "stats_agree para_id s ops" "tk_para_id t = para_id"
    "\<And>p. OnSkippedSlot p \<in> set cs \<Longrightarrow> pu_para_id p = para_id"
  shows "stats_agree para_id (fold apply_stats cs s)
    (ops @ concat (map (apply_metrics (Some ds)) (concat (map (metrics_of t) cs))))"
  using assms
proof (induction cs arbitrary: s ops)
  case (Cons c cs)
  have "stats_agree para_id (apply_stats c s) (ops @ concat (map (apply_metrics (Some ds)) (metrics_of t c)))"
    using Cons.prems by (intro agree_call) auto
  from Cons.IH [OF this] Cons.prems show ?case by simp
qed simp

lemma inject_block_para_id:
  assumes "inject_block ss58 h ev st t = Inr t'"
  shows "tk_para_id t' = tk_para_id t"
  using assms
proof (cases rule: inject_block_cases)
  case (data ih t1 t2 t3 t4 t5 t6 t7)
  have "relay_frame t3 t'"
    unfolding data(9)
    by (rule frame.le_trans [OF frame_backed frame.le_trans [OF quiet_frame [OF quiet_core_assignment [OF data(5)]]
        frame.le_trans [OF quiet_frame [OF quiet_disputes [OF data(6)]]
        frame.le_trans [OF quiet_frame [OF quiet_hrmp [OF data(7)]]
        frame.le_trans [OF quiet_frame [OF quiet_pending [OF data(8)]] quiet_frame [OF quiet_dropped]]]]]])
  then show ?thesis
    using set_relay_block_candidates [OF data(2)] set_cores_fields [OF data(3)] quiet_included [OF data(4)]
    by (auto simp: quiet_def relay_frame_def set_forks_def)
qed simp

definition para_watcher_ok :: "u32 \<Rightarrow> para_watcher \<Rightarrow> bool" where
  "para_watcher_ok para_id w \<longleftrightarrow>
     tk_para_id (pw_tracker w) = para_id \<and> stats_agree para_id (pw_stats w) (pw_metrics w)"

lemma deliver_report_ok:
  assumes "para_watcher_ok para_id w" "progress st t = Inr m" "tk_para_id t = para_id"
  shows "stats_agree para_id (pw_stats (deliver_report (Some ds) cli m w)) (pw_metrics (deliver_report (Some ds) cli m w))"
proof (cases m)
  case (Some r)
  have "stats_agree para_id (fold apply_stats (rp_stats r) (pw_stats w))
      (pw_metrics w @ concat (map (apply_metrics (Some ds)) (concat (map (metrics_of t) (rp_stats r)))))"
    using assms Some progress_mirrored(2) [of st t r] by (intro agree_calls) (auto simp: para_watcher_ok_def)
  then show ?thesis
    using Some assms(2) progress_mirrored(1) [of st t r]
    by (auto simp: deliver_report_def stats_agree_def counter_value_def metrics_on_finality_lag_def split: option.splits)
qed (use assms in \<open>simp add: deliver_report_def para_watcher_ok_def\<close>)

lemma watch_forks_ok:
  "para_watcher_ok para_id w \<Longrightarrow>
    para_watcher_ok para_id (state_of (watch_forks ss58 (Some ds) cli storage new_head forks w))"
proof (induction forks arbitrary: w)
  case (Cons h forks)
  show ?case
  proof (cases "inject_block ss58 h new_head (storage h) (pw_tracker w)")
    case (Inl e)
    then show ?thesis using Cons.prems by (cases e) (simp_all add: para_watcher_ok_def)
  next
    case (Inr t)
    then have t: "tk_para_id t = para_id"
      using inject_block_para_id Cons.prems by (auto simp: para_watcher_ok_def)
    show ?thesis
    proof (cases "progress (storage h) t")
      case (Inr m)
      have "para_watcher_ok para_id ((deliver_report (Some ds) cli m w)\<lparr>pw_tracker := maybe_reset_state t\<rparr>)"
        using deliver_report_ok [OF Cons.prems Inr t] t by (simp add: para_watcher_ok_def maybe_reset_state_def)
      then show ?thesis using Cons.IH Inr \<open>inject_block _ _ _ _ _ = Inr t\<close> by simp
    qed (use Inr Cons.prems t in \<open>simp add: para_watcher_ok_def\<close>)
  qed
qed simp

lemma print_stats_ok [simp]:
  "para_watcher_ok para_id (print_stats cli w) = para_watcher_ok para_id w"
  "para_watcher_ok para_id (w\<lparr>pw_shutdown_sent := b\<rparr>) = para_watcher_ok para_id w"
  by (simp_all add: print_stats_def para_watcher_ok_def)

lemma watch_para_step_ok:
  assumes "para_watcher_ok para_id w"
  shows "para_watcher_ok para_id (state_of (watch_para_step ss58 (Some ds) cli hasher w i))"
proof -
  have "para_watcher_ok para_id (w\<lparr>pw_tracker := inject_new_session n (pw_tracker w)\<rparr>)" for n
    using assms by (simp add: para_watcher_ok_def inject_new_session_def)
  then show ?thesis
    using assms watch_forks_ok
    by (auto simp: watch_para_step_def split: watch_input.split update_event.split termination_reason.split)
qed

text \<open>What a parachain watcher prints at its end and what Prometheus serves are the same numbers: after any
  messages from the collector, in whatever state of the storage, and however the task ends, the counters of
  backed and included candidates, skipped slots, slow availability, low bitfields and disputes in the
  statistics are the values of the metrics counters under the label of the parachain, as \<^verbatim>\<open>u32\<close>.\<close>

theorem watcher_stats_match_metrics:
  fixes ss58 ds cli hasher "is" last_skipped para_id
  defines "w \<equiv> state_of (run_watcher (watch_para_step ss58 (Some ds) cli hasher) is
      (para_watcher_new (Some ds) last_skipped para_id))"
  shows "stats_agree para_id (pw_stats w) (pw_metrics w) \<and> tk_para_id (pw_tracker w) = para_id"
proof -
  have "para_watcher_ok para_id w"
    unfolding w_def
  proof (rule run_watcher_invariant)
    show "para_watcher_ok para_id (para_watcher_new (Some ds) last_skipped para_id)"
      by (simp add: para_watcher_ok_def para_watcher_new_def agree_start tracker_new_def)
  qed (rule watch_para_step_ok)
  then show ?thesis by (simp add: para_watcher_ok_def)
qed

section \<open>Trackers of all parachains\<close>

definition broadcast_ok :: "broadcast_watcher \<Rightarrow> bool" where
  "broadcast_ok w \<longleftrightarrow>
     hm_wf (bw_trackers w) \<and> hm_wf (bw_last_blocks w) \<and> dom (map_of (bw_trackers w)) = dom (map_of (bw_last_blocks w)) \<and>
     (\<forall>p n. map_of (bw_last_blocks w) p = Some n \<longrightarrow> n \<le> bw_best_known_block w)"

lemma evict_stalled_maps:
  assumes "hm_wf last_blocks" "map_of last_blocks q = Some n" "\<And>p k. map_of last_blocks p = Some k \<Longrightarrow> k \<le> n"
    and "evict_stalled trackers last_blocks = (ts, ls)"
  shows "map_of ls p = (case map_of last_blocks p of
      Some k \<Rightarrow> if unat k + 10 < unat n then None else Some k | None \<Rightarrow> None)"
    and "map_of ts p = (case map_of last_blocks p of
      Some k \<Rightarrow> if unat k + 10 < unat n then None else map_of trackers p | None \<Rightarrow> map_of trackers p)"
    and "hm_wf trackers \<Longrightarrow> hm_wf ts" "hm_wf ls"
proof -
  have entries: "(p, k) \<in> set last_blocks \<longleftrightarrow> map_of last_blocks p = Some k" for p k
    using assms(1) by (simp add: hm_wf_def)
  have "Max (snd ` set last_blocks) = n"
  proof (rule Max_eqI)
    show "n \<in> snd ` set last_blocks" using entries assms(2) by force
  qed (use assms(3) entries in auto)
  moreover have "last_blocks \<noteq> []" using assms(2) by auto
  moreover have "k < saturating_sub n 10 \<longleftrightarrow> unat k + 10 < unat n" for k
    by (simp add: word_less_nat_alt unat_saturating_sub) linarith
  ultimately have evict: "ts = fold hm_del (map fst (filter (\<lambda>(_, k). unat k + 10 < unat n) last_blocks)) trackers"
      "ls = fold hm_del (map fst (filter (\<lambda>(_, k). unat k + 10 < unat n) last_blocks)) last_blocks"
    using assms(4) by (simp_all add: evict_stalled_def Let_def)
  have gone: "p \<in> set (map fst (filter (\<lambda>(_, k). unat k + 10 < unat n) last_blocks)) \<longleftrightarrow>
      (\<exists>k. map_of last_blocks p = Some k \<and> unat k + 10 < unat n)" for p
    by (force simp: entries)
  show "map_of ls p = (case map_of last_blocks p of
      Some k \<Rightarrow> if unat k + 10 < unat n then None else Some k | None \<Rightarrow> None)"
    "map_of ts p = (case map_of last_blocks p of
      Some k \<Rightarrow> if unat k + 10 < unat n then None else map_of trackers p | None \<Rightarrow> map_of trackers p)"
    unfolding evict map_of_fold_hm_del gone by (auto split: option.splits)
  show "hm_wf trackers \<Longrightarrow> hm_wf ts" "hm_wf ls"
    using assms(1) by (simp_all add: evict hm_wf_fold_del)
qed

lemma broadcast_head_maps:
  fixes w h
  defines "n \<equiv> nh_relay_parent_number h" and "q \<equiv> nh_para_id h"
  assumes "broadcast_ok w" "broadcast_head h w = Watching w'"
  shows "map_of (bw_last_blocks w') p =
      (if p = q then Some n
       else case map_of (bw_last_blocks w) p of
         Some k \<Rightarrow> if n > bw_best_known_block w \<and> unat k + 10 < unat n then None else Some k
       | None \<Rightarrow> None)"
    and "map_of (bw_trackers w') p =
      (if p = q then Some (sink_push (NewHead h) (the_default sink_new (map_of (bw_trackers w) q)))
       else if map_of (bw_last_blocks w') p = None then None else map_of (bw_trackers w) p)"
    and "bw_best_known_block w' = max n (bw_best_known_block w)"
    and "hm_wf (bw_trackers w')" "hm_wf (bw_last_blocks w')"
proof -
  let ?sink = "sink_push (NewHead h) (the_default sink_new (map_of (bw_trackers w) q))"
  define ls where "ls = hm_put q n (bw_last_blocks w)"
  define ts where "ts = bw_trackers (w\<lparr>bw_trackers := hm_put q ?sink (case map_of (bw_trackers w) q of
      Some _ \<Rightarrow> bw_trackers w | None \<Rightarrow> hm_put q sink_new (bw_trackers w))\<rparr>)"
  have wf: "hm_wf ts" "hm_wf ls"
    using assms(3) by (auto simp: broadcast_ok_def ts_def ls_def hm.wf_put split: option.split)
  have dom: "map_of (bw_trackers w) p = None \<longleftrightarrow> map_of (bw_last_blocks w) p = None" for p
    using assms(3) unfolding broadcast_ok_def by (metis domIff)
  have ls: "map_of ls = (map_of (bw_last_blocks w))(q \<mapsto> n)" and ts: "map_of ts = (map_of (bw_trackers w))(q \<mapsto> ?sink)"
    by (auto simp: ls_def ts_def map_of_hm_put split: option.split)
  have w': "w' = (if n > bw_best_known_block w then
      (case evict_stalled ts ls of (ts', ls') \<Rightarrow> w'\<lparr>bw_best_known_block := n, bw_trackers := ts', bw_last_blocks := ls'\<rparr>)
      else w'\<lparr>bw_best_known_block := bw_best_known_block w, bw_trackers := ts, bw_last_blocks := ls\<rparr>)"
    using assms(4) unfolding broadcast_head_def n_def q_def ls_def ts_def
    by (auto simp: Let_def map_of_hm_put split: option.splits if_splits prod.splits)
  show "map_of (bw_last_blocks w') p =
      (if p = q then Some n
       else case map_of (bw_last_blocks w) p of
         Some k \<Rightarrow> if n > bw_best_known_block w \<and> unat k + 10 < unat n then None else Some k
       | None \<Rightarrow> None)"
    "map_of (bw_trackers w') p =
      (if p = q then Some ?sink
       else if map_of (bw_last_blocks w') p = None then None else map_of (bw_trackers w) p)"
    "bw_best_known_block w' = max n (bw_best_known_block w)"
    "hm_wf (bw_trackers w')" "hm_wf (bw_last_blocks w')"
  proof -
    have old: "k \<le> bw_best_known_block w" if "map_of (bw_last_blocks w) p = Some k" for p k
      using that assms(3) by (auto simp: broadcast_ok_def)
    have le: "k \<le> n" if "map_of ls p = Some k" "n > bw_best_known_block w" for p k
    proof (cases "p = q")
      case False
      then show ?thesis using old [of p k] that by (simp add: ls)
    qed (use that in \<open>simp add: ls\<close>)
    obtain ts' ls' where ev: "evict_stalled ts ls = (ts', ls')" by force
    have maps: "map_of ls' p = (case map_of ls p of Some k \<Rightarrow> if unat k + 10 < unat n then None else Some k | None \<Rightarrow> None)"
        "map_of ts' p = (case map_of ls p of Some k \<Rightarrow> if unat k + 10 < unat n then None else map_of ts p | None \<Rightarrow> map_of ts p)"
        "hm_wf ts'" "hm_wf ls'" if "n > bw_best_known_block w"
      using evict_stalled_maps [OF wf(2) _ _ ev, of q n] le [OF _ that] wf(1) by (simp_all add: ls)
    have fields: "bw_last_blocks w' = (if n > bw_best_known_block w then ls' else ls)"
        "bw_trackers w' = (if n > bw_best_known_block w then ts' else ts)"
        "bw_best_known_block w' = (if n > bw_best_known_block w then n else bw_best_known_block w)"
      by (subst w', simp add: ev)+
    show best: "bw_best_known_block w' = max n (bw_best_known_block w)"
      by (auto simp: fields max_def dest: leD)
    show "hm_wf (bw_trackers w')" "hm_wf (bw_last_blocks w')"
      using wf maps by (simp_all add: fields)
    show last: "map_of (bw_last_blocks w') p =
      (if p = q then Some n
       else case map_of (bw_last_blocks w) p of
         Some k \<Rightarrow> if n > bw_best_known_block w \<and> unat k + 10 < unat n then None else Some k
       | None \<Rightarrow> None)"
      using maps(1) by (cases "p = q") (auto simp: fields ls split: option.split)
    show "map_of (bw_trackers w') p =
      (if p = q then Some ?sink
       else if map_of (bw_last_blocks w') p = None then None else map_of (bw_trackers w) p)"
      unfolding last using maps(2) dom [of p] by (cases "p = q") (auto simp: fields ls ts split: option.split)
  qed
qed

lemma broadcast_ok_head:
  assumes "broadcast_ok w" "broadcast_head h w = Watching w'"
  shows "broadcast_ok w'"
proof -
  note maps = broadcast_head_maps [OF assms]
  have old: "k \<le> bw_best_known_block w" if "map_of (bw_last_blocks w) p = Some k" for p k
    using that assms(1) by (auto simp: broadcast_ok_def)
  have dom: "map_of (bw_trackers w) p = None \<longleftrightarrow> map_of (bw_last_blocks w) p = None" for p
    using assms(1) unfolding broadcast_ok_def by (metis domIff)
  have "map_of (bw_trackers w') p = None \<longleftrightarrow> map_of (bw_last_blocks w') p = None" for p
    using dom [of p] by (auto simp: maps(1,2) split: option.splits if_splits)
  then have "dom (map_of (bw_trackers w')) = dom (map_of (bw_last_blocks w'))"
    by (intro set_eqI) (simp only: domIff)
  moreover have "k \<le> bw_best_known_block w'" if "map_of (bw_last_blocks w') p = Some k" for p k
    using that old [of p] by (auto simp: maps(1,3) le_max_iff_disj split: if_splits option.splits)
  ultimately show ?thesis using maps(4,5) by (simp add: broadcast_ok_def)
qed

lemma length_send_each: "length (snd (send_each m ks)) = length ks"
  by (induction ks) (auto split: prod.splits)

lemma broadcast_ok_step:
  assumes "broadcast_ok w" "watch_broadcast_step w i = Watching w'"
  shows "broadcast_ok w'"
proof (cases i)
  case (BroadcastReceived e)
  show ?thesis
  proof (cases e)
    case (NewSession n)
    obtain ok sinks where sent: "send_each (NewSession n) (map snd (bw_trackers w)) = (ok, sinks)" by force
    then have "length sinks = length (bw_trackers w)"
      using length_send_each [of "NewSession n" "map snd (bw_trackers w)"] by simp
    then have "map fst (zip (map fst (bw_trackers w)) sinks) = map fst (bw_trackers w)" by simp
    moreover from this have "dom (map_of (zip (map fst (bw_trackers w)) sinks)) = dom (map_of (bw_trackers w))"
      by (metis dom_map_of_conv_image_fst list.set_map)
    moreover have "w' = w\<lparr>bw_trackers := zip (map fst (bw_trackers w)) sinks\<rparr>"
      using assms(2) BroadcastReceived NewSession sent by (simp add: watch_broadcast_step_def Let_def split: if_splits)
    ultimately show ?thesis
      using assms(1) by (simp add: broadcast_ok_def hm_wf_def)
  qed (use assms BroadcastReceived broadcast_ok_head in
      \<open>auto simp: watch_broadcast_step_def split: termination_reason.splits\<close>)
next
  case (TrackerEnded p)
  let ?ts = "hm_modify p (\<lambda>k. k\<lparr>sk_open := False\<rparr>) (bw_trackers w)"
  have "dom (map_of ?ts) = dom (map_of (bw_trackers w))"
    by (intro set_eqI) (simp add: domIff map_of_hm_modify)
  moreover have "w' = w\<lparr>bw_trackers := ?ts\<rparr>" using assms(2) TrackerEnded by (simp add: watch_broadcast_step_def)
  ultimately show ?thesis using assms(1) by (simp add: broadcast_ok_def)
qed (use assms in \<open>simp_all add: watch_broadcast_step_def\<close>)

lemma broadcast_ok_run:
  "broadcast_ok w \<Longrightarrow> run_watcher watch_broadcast_step is w = Watching w' \<Longrightarrow> broadcast_ok w'"
proof (induction "is" arbitrary: w)
  case (Cons i "is")
  then show ?case using broadcast_ok_step [of w i] by (cases "watch_broadcast_step w i") simp_all
qed simp

lemma broadcast_ok_new: "broadcast_ok broadcast_watcher_new"
  by (simp add: broadcast_ok_def broadcast_watcher_new_def)

text \<open>C20: A head for a parachain reaches exactly its tracker, which is started if there is none. When the head is of
  a new best block, the parachains whose last head is more than ten blocks behind are forgotten and their
  trackers dropped; no other one is, and never the one that has just been seen. So the trackers running
  are always those of the remembered parachains, none of which is ahead of the best block.\<close>

theorem broadcast_tracks_recent:
  fixes w h
  defines "n \<equiv> nh_relay_parent_number h" and "q \<equiv> nh_para_id h"
  assumes "run_watcher watch_broadcast_step is broadcast_watcher_new = Watching w"
    and "watch_broadcast_step w (BroadcastReceived (NewHead h)) = Watching w'"
  shows "broadcast_ok w' \<and>
    map_of (bw_last_blocks w') =
      (\<lambda>p. if p = q then Some n
       else case map_of (bw_last_blocks w) p of
         Some k \<Rightarrow> if n > bw_best_known_block w \<and> unat k + 10 < unat n then None else Some k
       | None \<Rightarrow> None) \<and>
    map_of (bw_trackers w') =
      (\<lambda>p. if p = q then Some (sink_push (NewHead h) (the_default sink_new (map_of (bw_trackers w) q)))
       else if map_of (bw_last_blocks w') p = None then None else map_of (bw_trackers w) p)"
proof -
  have ok: "broadcast_ok w" using broadcast_ok_run [OF broadcast_ok_new assms(3)] .
  have head: "broadcast_head h w = Watching w'" using assms(4) by (simp add: watch_broadcast_step_def)
  show ?thesis
    using broadcast_ok_head [OF ok head] broadcast_head_maps(1,2) [OF ok head] unfolding n_def q_def by auto
qed

definition sample_para_head :: "u32 \<Rightarrow> u32 \<Rightarrow> new_head_event" where
  "sample_para_head para_id n =
     \<lparr>nh_relay_parent_number = n, nh_relay_parent_hashes = [of_nat (unat n)], nh_para_id = para_id,
      nh_candidates_seen = [], nh_candidates_backed = [], nh_candidates_included = [], nh_candidates_timed_out = [],
      nh_disputes_concluded = [], nh_authors_missing_their_slots = []\<rparr>"

theorem broadcast_tracks_recent_witness:
  "map_of (bw_last_blocks (state_of (watch_broadcast_step (state_of (run_watcher watch_broadcast_step
     [BroadcastReceived (NewHead (sample_para_head 100 5)), BroadcastReceived (NewHead (sample_para_head 200 15))]
     broadcast_watcher_new)) (BroadcastReceived (NewHead (sample_para_head 200 16)))))) = [200 \<mapsto> 16]"
proof -
  let ?is = "[BroadcastReceived (NewHead (sample_para_head 100 5)), BroadcastReceived (NewHead (sample_para_head 200 15))]"
  let ?w = "state_of (run_watcher watch_broadcast_step ?is broadcast_watcher_new)"
  let ?h = "sample_para_head 200 16"
  let ?w' = "state_of (watch_broadcast_step ?w (BroadcastReceived (NewHead ?h)))"
  have run: "run_watcher watch_broadcast_step ?is broadcast_watcher_new = Watching ?w" by code_simp
  have step: "watch_broadcast_step ?w (BroadcastReceived (NewHead ?h)) = Watching ?w'" by code_simp
  have w: "bw_last_blocks ?w = [(100, 5), (200, 15)]" "bw_best_known_block ?w = 15" by code_simp+
  show ?thesis
    unfolding conjunct1 [OF conjunct2 [OF broadcast_tracks_recent [OF run step]]] w
    by (auto simp: sample_para_head_def)
qed

section \<open>Watchers and their channels\<close>

text \<open>A watcher that receives with \<^verbatim>\<open>recv\<close>: each turn of the loop has the storage as it is then.\<close>

fun watch_channel ::
  "('q, update_event) channel_ops \<Rightarrow> ('s \<Rightarrow> watch_input \<Rightarrow> 's watching) \<Rightarrow> (h256 \<Rightarrow> collector_storage) list \<Rightarrow>
   'q lanes \<Rightarrow> 's \<Rightarrow> 's watching \<times> 'q lanes" where
  "watch_channel ops step [] l s = (Watching s, l)"
| "watch_channel ops step (storage # storages) l s =
     (case recv ops l of
        (Pending, l') \<Rightarrow> (Watching s, l')
      | (Ready None, l') \<Rightarrow> (step s InputClosed, l')
      | (Ready (Some m), l') \<Rightarrow>
          (case step s (Received m storage) of
             Watching s' \<Rightarrow> watch_channel ops step storages l' s'
           | r \<Rightarrow> (r, l')))"

text \<open>C21: What a watcher hears: with the channels of the library as documented, a watcher that receives with
  \<^verbatim>\<open>recv\<close> sees the messages of the bulk lane in order and then the closed channel, whatever is on the
  priority lane, which stays there. The collector sends \<open>Termination\<close> on the priority lane, so the watchers
  of the relay chain and of a parachain never see one, and never ask the other tasks to shut down because
  the collector failed.\<close>

theorem watcher_hears_bulk_only:
  assumes "lawful ops vw" "vw_closed vw (ln_inner l)"
    and "length (vw_items vw (ln_inner l)) < length storages"
  shows "\<exists>l'. watch_channel ops step storages l s =
      (run_watcher step (map2 Received (vw_items vw (ln_inner l)) storages @ [InputClosed]) s, l') \<and>
    ln_priority l' = ln_priority l"
  using assms(2,3)
proof (induction storages arbitrary: l s)
  case (Cons storage storages)
  have "poll_law vw (ln_inner l) (op_recv ops (ln_inner l))" using lawful_laws(7) [OF assms(1)] .
  then show ?case
  proof (cases rule: poll_law_cases)
    case (1 m xs q)
    let ?l = "l\<lparr>ln_inner := q\<rparr>"
    have "recv ops l = (Ready (Some m), ?l)" using 1 by (simp add: recv_def deref_def)
    moreover have "vw_closed vw (ln_inner ?l)" "vw_items vw (ln_inner ?l) = xs" "length xs < length storages"
      using 1 Cons.prems by (simp_all add: holds_def)
    ultimately show ?thesis
      using Cons.IH [of ?l] 1 by (cases "step s (Received m storage)") auto
  next
    case (2 q)
    then show ?thesis
      using Cons.prems by (cases "step s InputClosed") (simp_all add: recv_def deref_def)
  qed
qed simp

theorem watcher_hears_bulk_only_witness:
  "fst (watch_channel fifo_ops (watch_para_step (\<lambda>_. []) None True (\<lambda>_. 0)) (replicate 2 (\<lambda>_. ts_storage sample_storage))
     \<lparr>ln_inner = \<lparr>ff_items = [NewSession 4], ff_closed = True, ff_cap = 32\<rparr>,
      ln_priority = \<lparr>ff_items = [Termination AbnormalEnd], ff_closed = True, ff_cap = 32\<rparr>\<rparr> (para_watcher_new None 10 100)) =
   Ended (print_stats True ((para_watcher_new None 10 100)\<lparr>pw_tracker := inject_new_session 4 (tracker_new 100)\<rparr>))"
proof -
  let ?l = "\<lparr>ln_inner = \<lparr>ff_items = [NewSession 4], ff_closed = True, ff_cap = 32\<rparr>,
      ln_priority = \<lparr>ff_items = [Termination AbnormalEnd], ff_closed = True, ff_cap = 32\<rparr>\<rparr>"
  let ?step = "watch_para_step (\<lambda>_. []) None True (\<lambda>_. 0)" and ?store = "\<lambda>_ :: h256. ts_storage sample_storage"
  have "vw_closed fifo_view (ln_inner ?l)" "length (vw_items fifo_view (ln_inner ?l)) < length (replicate 2 ?store)"
    by (simp_all add: fifo_view_def)
  from watcher_hears_bulk_only [OF fifo_lawful this, of ?step "para_watcher_new None 10 100"]
  have "fst (watch_channel fifo_ops ?step (replicate 2 ?store) ?l (para_watcher_new None 10 100)) =
      run_watcher ?step (map2 Received (vw_items fifo_view (ln_inner ?l)) (replicate 2 ?store) @ [InputClosed])
        (para_watcher_new None 10 100)"
    by (metis fst_conv)
  then show ?thesis
    by (simp add: fifo_view_def watch_para_step_def para_watcher_new_def print_stats_def numeral_2_eq_2)
qed

end
