(* ===== verification/Telemetry_Feed.thy ===== *)
theory Telemetry_Feed
  imports Complex_Main Chain_Types
begin

text \<open>
  Messages of a telemetry server, \<^verbatim>\<open>essentials/src/telemetry_feed.rs\<close>. Reading JSON is the business of the crate
  \<^verbatim>\<open>serde_json\<close>, a parameter: a record of its readers, one for each type that the code reads, on the raw values \<open>'raw\<close> that
  it splits an array into. Floating-point numbers are rationals; the text is in \<open>Telemetry_Text\<close>.
\<close>

section \<open>Data\<close>

type_synonym feed_node_id = nat

record tm_block =
  tb_hash :: h256
  tb_height :: u32

record block_details =
  bd_block :: tm_block
  bd_block_time :: u64
  bd_block_timestamp :: timestamp
  bd_propagation_time :: "u64 option"

record node_sys_info =
  ns_cpu :: "string option"
  ns_memory :: "u64 option"
  ns_core_count :: "u32 option"
  ns_linux_kernel :: "string option"
  ns_linux_distro :: "string option"
  ns_is_virtual_machine :: "bool option"

record node_details =
  nd_name :: string
  nd_implementation :: string
  nd_version :: string
  nd_validator :: "string option"
  nd_network_id :: "string option"
  nd_ip :: "string option"
  nd_sysinfo :: "node_sys_info option"

record node_stats =
  ns_peers :: u64
  ns_txcount :: u64

record node_location =
  nl_lat :: rat
  nl_long :: rat
  nl_city :: string

record node_io =
  io_used_state_cache_size :: "rat list"

record node_hardware =
  hw_upload :: "rat list"
  hw_download :: "rat list"
  hw_chart_stamps :: "rat list"

record node_hw_bench =
  hb_cpu_hashrate_score :: u64
  hb_memory_memcpy_score :: u64
  hb_disk_sequential_write_score :: "u64 option"
  hb_disk_random_write_score :: "u64 option"

record 'k ranking =
  rk_list :: "('k \<times> u64) list"
  rk_other :: u64
  rk_unknown :: u64

type_synonym score_ranking = "(u32 \<times> u32 option) ranking"

record chain_stats =
  ct_version :: "string ranking"
  ct_target_os :: "string ranking"
  ct_target_arch :: "string ranking"
  ct_cpu :: "string ranking"
  ct_memory :: score_ranking
  ct_core_count :: "u32 ranking"
  ct_linux_kernel :: "string ranking"
  ct_linux_distro :: "string ranking"
  ct_is_virtual_machine :: "bool ranking"
  ct_cpu_hashrate_score :: score_ranking
  ct_memory_memcpy_score :: score_ranking
  ct_disk_sequential_write_score :: score_ranking
  ct_disk_random_write_score :: score_ranking

record added_node =
  an_node_id :: feed_node_id
  an_details :: node_details
  an_stats :: node_stats
  an_io :: node_io
  an_hardware :: node_hardware
  an_block_details :: block_details
  an_location :: "node_location option"
  an_startup_time :: "timestamp option"
  an_hwbench :: "node_hw_bench option"

record added_chain =
  ac_name :: string
  ac_genesis_hash :: h256
  ac_node_count :: nat

datatype telemetry_feed =
    Version nat
  | BestBlock u32 timestamp "u64 option"
  | BestFinalized u32 h256
  | AddedNode added_node
  | RemovedNode feed_node_id
  | LocatedNode feed_node_id rat rat string
  | ImportedBlock feed_node_id block_details
  | FinalizedBlock feed_node_id u32 h256
  | NodeStatsUpdate feed_node_id node_stats
  | Hardware feed_node_id node_hardware
  | TimeSync timestamp
  | AddedChain added_chain
  | RemovedChain h256
  | SubscribedTo h256
  | UnsubscribedFrom h256
  | Pong string
  | StaleNode feed_node_id
  | NodeIOUpdate feed_node_id node_io
  | ChainStatsUpdate chain_stats
  | UnknownValue u8 string

section \<open>Reading\<close>

type_synonym block_tuple = "u32 \<times> h256 \<times> u64 \<times> timestamp \<times> u64 option"
type_synonym hardware_tuple = "rat list \<times> rat list \<times> rat list"
type_synonym details_tuple =
  "string \<times> string \<times> string \<times> string option \<times> string option \<times> string option \<times> node_sys_info option \<times>
   node_hw_bench option"
type_synonym node_tuple =
  "feed_node_id \<times> details_tuple \<times> (u64 \<times> u64) \<times> rat list \<times> hardware_tuple \<times> block_tuple \<times>
   node_location option \<times> timestamp option"

record 'raw json_readers =
  rd_values :: "u8 list \<Rightarrow> 'raw list option"
  rd_text :: "'raw \<Rightarrow> string"
  rd_u8 :: "'raw \<Rightarrow> u8 option"
  rd_usize :: "'raw \<Rightarrow> nat option"
  rd_u64 :: "'raw \<Rightarrow> u64 option"
  rd_string :: "'raw \<Rightarrow> string option"
  rd_hash :: "'raw \<Rightarrow> h256 option"
  rd_best_block :: "'raw \<Rightarrow> (u32 \<times> timestamp \<times> u64 option) option"
  rd_best_finalized :: "'raw \<Rightarrow> (u32 \<times> h256) option"
  rd_added_node :: "'raw \<Rightarrow> node_tuple option"
  rd_located_node :: "'raw \<Rightarrow> (feed_node_id \<times> rat \<times> rat \<times> string) option"
  rd_imported_block :: "'raw \<Rightarrow> (feed_node_id \<times> block_tuple) option"
  rd_finalized_block :: "'raw \<Rightarrow> (feed_node_id \<times> u32 \<times> h256) option"
  rd_node_stats :: "'raw \<Rightarrow> (feed_node_id \<times> u64 \<times> u64) option"
  rd_hardware :: "'raw \<Rightarrow> (feed_node_id \<times> hardware_tuple) option"
  rd_added_chain :: "'raw \<Rightarrow> (string \<times> h256 \<times> nat) option"
  rd_node_io :: "'raw \<Rightarrow> (feed_node_id \<times> rat list) option"
  rd_chain_stats :: "'raw \<Rightarrow> chain_stats option"

definition block_details_of :: "block_tuple \<Rightarrow> block_details" where
  "block_details_of = (\<lambda>(height, hash, block_time, block_timestamp, propagation_time).
     \<lparr>bd_block = \<lparr>tb_hash = hash, tb_height = height\<rparr>, bd_block_time = block_time,
      bd_block_timestamp = block_timestamp, bd_propagation_time = propagation_time\<rparr>)"

definition hardware_of :: "hardware_tuple \<Rightarrow> node_hardware" where
  "hardware_of = (\<lambda>(upload, download, chart_stamps).
     \<lparr>hw_upload = upload, hw_download = download, hw_chart_stamps = chart_stamps\<rparr>)"

definition added_node_of :: "node_tuple \<Rightarrow> added_node" where
  "added_node_of = (\<lambda>(node_id, (name, implementation, version, validator, network_id, ip, sysinfo, hwbench),
       (peers, txcount), used_state_cache_size, hardware, block, location, startup_time).
     \<lparr>an_node_id = node_id,
      an_details = \<lparr>nd_name = name, nd_implementation = implementation, nd_version = version,
        nd_validator = validator, nd_network_id = network_id, nd_ip = ip, nd_sysinfo = sysinfo\<rparr>,
      an_stats = \<lparr>ns_peers = peers, ns_txcount = txcount\<rparr>,
      an_io = \<lparr>io_used_state_cache_size = used_state_cache_size\<rparr>,
      an_hardware = hardware_of hardware, an_block_details = block_details_of block,
      an_location = location, an_startup_time = startup_time, an_hwbench = hwbench\<rparr>)"

definition decode_feed :: "'raw json_readers \<Rightarrow> u8 \<Rightarrow> 'raw \<Rightarrow> telemetry_feed option" where
  "decode_feed rd action raw =
     (if action = 0 then map_option Version (rd_usize rd raw)
      else if action = 1 then map_option (\<lambda>(n, ts, avg). BestBlock n ts avg) (rd_best_block rd raw)
      else if action = 2 then map_option (\<lambda>(n, h). BestFinalized n h) (rd_best_finalized rd raw)
      else if action = 3 then map_option (AddedNode \<circ> added_node_of) (rd_added_node rd raw)
      else if action = 4 then map_option RemovedNode (rd_usize rd raw)
      else if action = 5 then map_option (\<lambda>(i, lat, long, city). LocatedNode i lat long city) (rd_located_node rd raw)
      else if action = 6 then map_option (\<lambda>(i, b). ImportedBlock i (block_details_of b)) (rd_imported_block rd raw)
      else if action = 7 then map_option (\<lambda>(i, n, h). FinalizedBlock i n h) (rd_finalized_block rd raw)
      else if action = 8 then
        map_option (\<lambda>(i, p, t). NodeStatsUpdate i \<lparr>ns_peers = p, ns_txcount = t\<rparr>) (rd_node_stats rd raw)
      else if action = 9 then map_option (\<lambda>(i, h). Hardware i (hardware_of h)) (rd_hardware rd raw)
      else if action = 10 then map_option TimeSync (rd_u64 rd raw)
      else if action = 11 then
        map_option (\<lambda>(name, h, n). AddedChain \<lparr>ac_name = name, ac_genesis_hash = h, ac_node_count = n\<rparr>)
          (rd_added_chain rd raw)
      else if action = 12 then map_option RemovedChain (rd_hash rd raw)
      else if action = 13 then map_option SubscribedTo (rd_hash rd raw)
      else if action = 14 then map_option UnsubscribedFrom (rd_hash rd raw)
      else if action = 15 then map_option Pong (rd_string rd raw)
      else if action = 20 then map_option StaleNode (rd_usize rd raw)
      else if action = 21 then
        map_option (\<lambda>(i, io). NodeIOUpdate i \<lparr>io_used_state_cache_size = io\<rparr>) (rd_node_io rd raw)
      else if action = 22 then map_option ChainStatsUpdate (rd_chain_stats rd raw)
      else Some (UnknownValue action (rd_text rd raw)))"

text \<open>\<open>chunks_exact(2)\<close>: an odd last value is left out.\<close>

fun chunks2 :: "'a list \<Rightarrow> ('a \<times> 'a) list" where
  "chunks2 (x # y # xs) = (x, y) # chunks2 xs"
| "chunks2 _ = []"

fun decode_chunks :: "'raw json_readers \<Rightarrow> ('raw \<times> 'raw) list \<Rightarrow> telemetry_feed list option" where
  "decode_chunks rd [] = Some []"
| "decode_chunks rd ((a, raw) # chunks) =
     (case rd_u8 rd a of
        None \<Rightarrow> None
      | Some action \<Rightarrow>
          (case decode_feed rd action raw of
             None \<Rightarrow> None
           | Some msg \<Rightarrow> (case decode_chunks rd chunks of None \<Rightarrow> None | Some msgs \<Rightarrow> Some (msg # msgs))))"

definition from_bytes :: "'raw json_readers \<Rightarrow> u8 list \<Rightarrow> telemetry_feed list option" where
  "from_bytes rd bytes =
     (case rd_values rd bytes of None \<Rightarrow> None | Some v \<Rightarrow> decode_chunks rd (chunks2 v))"

section \<open>All or nothing\<close>

lemma length_chunks2: "length (chunks2 xs) = length xs div 2"
  by (induction xs rule: chunks2.induct) simp_all

lemma nth_chunks2: "i < length xs div 2 \<Longrightarrow> chunks2 xs ! i = (xs ! (2 * i), xs ! Suc (2 * i))"
proof (induction xs arbitrary: i rule: chunks2.induct)
  case (1 x y xs)
  then show ?case by (cases i) simp_all
qed simp_all

lemma decode_chunks_Some:
  "decode_chunks rd cs = Some msgs \<longleftrightarrow>
    list_all2 (\<lambda>(a, raw) msg. \<exists>action. rd_u8 rd a = Some action \<and> decode_feed rd action raw = Some msg) cs msgs"
proof (induction cs arbitrary: msgs)
  case (Cons c cs)
  obtain a raw where c: "c = (a, raw)" by force
  show ?case
    by (cases msgs) (auto simp: c Cons.IH [symmetric] split: option.split)
qed auto

lemma decode_chunks_None:
  "decode_chunks rd cs = None \<longleftrightarrow>
    (\<exists>(a, raw) \<in> set cs. rd_u8 rd a = None \<or> decode_feed rd (the (rd_u8 rd a)) raw = None)"
proof (induction cs)
  case (Cons c cs)
  obtain a raw where c: "c = (a, raw)" by force
  from Cons.IH show ?case by (cases "decode_chunks rd cs") (auto simp: c split: option.split)
qed simp

text \<open>A text of the telemetry server is read as a whole or not at all. It gives one message for each pair of
  values, in order, each read from its action code and payload; a last value without a partner is
  dropped silently; one value that cannot be read loses all messages of the text.\<close>

theorem from_bytes_exact:
  assumes "rd_values rd bytes = Some v"
  shows "(from_bytes rd bytes = Some msgs \<longleftrightarrow>
      length msgs = length v div 2 \<and>
      (\<forall>i < length v div 2. \<exists>action. rd_u8 rd (v ! (2 * i)) = Some action \<and>
        decode_feed rd action (v ! Suc (2 * i)) = Some (msgs ! i))) \<and>
    (from_bytes rd bytes = None \<longleftrightarrow>
      (\<exists>i < length v div 2. rd_u8 rd (v ! (2 * i)) = None \<or>
        decode_feed rd (the (rd_u8 rd (v ! (2 * i)))) (v ! Suc (2 * i)) = None))"
proof
  show "from_bytes rd bytes = Some msgs \<longleftrightarrow>
      length msgs = length v div 2 \<and>
      (\<forall>i < length v div 2. \<exists>action. rd_u8 rd (v ! (2 * i)) = Some action \<and>
        decode_feed rd action (v ! Suc (2 * i)) = Some (msgs ! i))"
    using assms by (auto simp: from_bytes_def decode_chunks_Some list_all2_conv_all_nth length_chunks2 nth_chunks2)
  have "(\<exists>c \<in> set (chunks2 v). P c) \<longleftrightarrow> (\<exists>i < length v div 2. P (v ! (2 * i), v ! Suc (2 * i)))" for P
    by (force simp: in_set_conv_nth length_chunks2 nth_chunks2)
  then show "from_bytes rd bytes = None \<longleftrightarrow>
      (\<exists>i < length v div 2. rd_u8 rd (v ! (2 * i)) = None \<or>
        decode_feed rd (the (rd_u8 rd (v ! (2 * i)))) (v ! Suc (2 * i)) = None)"
    using assms by (simp add: from_bytes_def decode_chunks_None)
qed

section \<open>What the server writes\<close>

text \<open>The text of a payload for each type, and what it means that the readers read it back.\<close>

record 'raw json_writers =
  wr_text :: "string \<Rightarrow> 'raw"
  wr_u8 :: "u8 \<Rightarrow> 'raw"
  wr_usize :: "nat \<Rightarrow> 'raw"
  wr_u64 :: "u64 \<Rightarrow> 'raw"
  wr_string :: "string \<Rightarrow> 'raw"
  wr_hash :: "h256 \<Rightarrow> 'raw"
  wr_best_block :: "u32 \<times> timestamp \<times> u64 option \<Rightarrow> 'raw"
  wr_best_finalized :: "u32 \<times> h256 \<Rightarrow> 'raw"
  wr_added_node :: "node_tuple \<Rightarrow> 'raw"
  wr_located_node :: "feed_node_id \<times> rat \<times> rat \<times> string \<Rightarrow> 'raw"
  wr_imported_block :: "feed_node_id \<times> block_tuple \<Rightarrow> 'raw"
  wr_finalized_block :: "feed_node_id \<times> u32 \<times> h256 \<Rightarrow> 'raw"
  wr_node_stats :: "feed_node_id \<times> u64 \<times> u64 \<Rightarrow> 'raw"
  wr_hardware :: "feed_node_id \<times> hardware_tuple \<Rightarrow> 'raw"
  wr_added_chain :: "string \<times> h256 \<times> nat \<Rightarrow> 'raw"
  wr_node_io :: "feed_node_id \<times> rat list \<Rightarrow> 'raw"
  wr_chain_stats :: "chain_stats \<Rightarrow> 'raw"

definition reads_back :: "'raw json_readers \<Rightarrow> 'raw json_writers \<Rightarrow> bool" where
  "reads_back rd wr \<longleftrightarrow>
     (\<forall>x. rd_text rd (wr_text wr x) = x) \<and> (\<forall>x. rd_u8 rd (wr_u8 wr x) = Some x) \<and> (\<forall>x. rd_usize rd (wr_usize wr x) = Some x) \<and>
     (\<forall>x. rd_u64 rd (wr_u64 wr x) = Some x) \<and> (\<forall>x. rd_string rd (wr_string wr x) = Some x) \<and>
     (\<forall>x. rd_hash rd (wr_hash wr x) = Some x) \<and> (\<forall>x. rd_best_block rd (wr_best_block wr x) = Some x) \<and>
     (\<forall>x. rd_best_finalized rd (wr_best_finalized wr x) = Some x) \<and>
     (\<forall>x. rd_added_node rd (wr_added_node wr x) = Some x) \<and>
     (\<forall>x. rd_located_node rd (wr_located_node wr x) = Some x) \<and>
     (\<forall>x. rd_imported_block rd (wr_imported_block wr x) = Some x) \<and>
     (\<forall>x. rd_finalized_block rd (wr_finalized_block wr x) = Some x) \<and>
     (\<forall>x. rd_node_stats rd (wr_node_stats wr x) = Some x) \<and> (\<forall>x. rd_hardware rd (wr_hardware wr x) = Some x) \<and>
     (\<forall>x. rd_added_chain rd (wr_added_chain wr x) = Some x) \<and> (\<forall>x. rd_node_io rd (wr_node_io wr x) = Some x) \<and>
     (\<forall>x. rd_chain_stats rd (wr_chain_stats wr x) = Some x)"

definition block_tuple_of :: "block_details \<Rightarrow> block_tuple" where
  "block_tuple_of b =
     (tb_height (bd_block b), tb_hash (bd_block b), bd_block_time b, bd_block_timestamp b, bd_propagation_time b)"

definition hardware_tuple_of :: "node_hardware \<Rightarrow> hardware_tuple" where
  "hardware_tuple_of h = (hw_upload h, hw_download h, hw_chart_stamps h)"

definition node_tuple_of :: "added_node \<Rightarrow> node_tuple" where
  "node_tuple_of n =
     (an_node_id n,
      (nd_name (an_details n), nd_implementation (an_details n), nd_version (an_details n),
       nd_validator (an_details n), nd_network_id (an_details n), nd_ip (an_details n),
       nd_sysinfo (an_details n), an_hwbench n),
      (ns_peers (an_stats n), ns_txcount (an_stats n)), io_used_state_cache_size (an_io n),
      hardware_tuple_of (an_hardware n), block_tuple_of (an_block_details n), an_location n, an_startup_time n)"

fun write_feed :: "'raw json_writers \<Rightarrow> telemetry_feed \<Rightarrow> u8 \<times> 'raw" where
  "write_feed wr (Version v) = (0, wr_usize wr v)"
| "write_feed wr (BestBlock n ts avg) = (1, wr_best_block wr (n, ts, avg))"
| "write_feed wr (BestFinalized n h) = (2, wr_best_finalized wr (n, h))"
| "write_feed wr (AddedNode node) = (3, wr_added_node wr (node_tuple_of node))"
| "write_feed wr (RemovedNode i) = (4, wr_usize wr i)"
| "write_feed wr (LocatedNode i lat long city) = (5, wr_located_node wr (i, lat, long, city))"
| "write_feed wr (ImportedBlock i b) = (6, wr_imported_block wr (i, block_tuple_of b))"
| "write_feed wr (FinalizedBlock i n h) = (7, wr_finalized_block wr (i, n, h))"
| "write_feed wr (NodeStatsUpdate i s) = (8, wr_node_stats wr (i, ns_peers s, ns_txcount s))"
| "write_feed wr (Hardware i h) = (9, wr_hardware wr (i, hardware_tuple_of h))"
| "write_feed wr (TimeSync ts) = (10, wr_u64 wr ts)"
| "write_feed wr (AddedChain c) = (11, wr_added_chain wr (ac_name c, ac_genesis_hash c, ac_node_count c))"
| "write_feed wr (RemovedChain h) = (12, wr_hash wr h)"
| "write_feed wr (SubscribedTo h) = (13, wr_hash wr h)"
| "write_feed wr (UnsubscribedFrom h) = (14, wr_hash wr h)"
| "write_feed wr (Pong msg) = (15, wr_string wr msg)"
| "write_feed wr (StaleNode i) = (20, wr_usize wr i)"
| "write_feed wr (NodeIOUpdate i io) = (21, wr_node_io wr (i, io_used_state_cache_size io))"
| "write_feed wr (ChainStatsUpdate s) = (22, wr_chain_stats wr s)"
| "write_feed wr (UnknownValue action text) = (action, wr_text wr text)"

definition unknown_action :: "u8 \<Rightarrow> bool" where
  "unknown_action a \<longleftrightarrow> a \<notin> {0, 1, 2, 3, 4, 5, 6, 7, 8, 9, 10, 11, 12, 13, 14, 15, 20, 21, 22}"

lemma decode_write_feed:
  assumes "reads_back rd wr" "case msg of UnknownValue a _ \<Rightarrow> unknown_action a | _ \<Rightarrow> True"
  shows "decode_feed rd (fst (write_feed wr msg)) (snd (write_feed wr msg)) = Some msg"
  using assms
  by (cases msg) (simp_all add: decode_feed_def reads_back_def node_tuple_of_def added_node_of_def hardware_of_def
      hardware_tuple_of_def block_details_of_def block_tuple_of_def unknown_action_def)


text \<open>A reader for which the values are of the types that are read.\<close>

datatype sample_raw =
    RText string | RU8 u8 | RUsize nat | RU64 u64 | RString string | RHash h256
  | RBestBlock "u32 \<times> timestamp \<times> u64 option" | RBestFinalized "u32 \<times> h256" | RAddedNode node_tuple
  | RLocatedNode "feed_node_id \<times> rat \<times> rat \<times> string" | RImportedBlock "feed_node_id \<times> block_tuple"
  | RFinalizedBlock "feed_node_id \<times> u32 \<times> h256" | RNodeStats "feed_node_id \<times> u64 \<times> u64"
  | RHardware "feed_node_id \<times> hardware_tuple" | RAddedChain "string \<times> h256 \<times> nat"
  | RNodeIo "feed_node_id \<times> rat list" | RChainStats chain_stats

definition sample_writers :: "sample_raw json_writers" where
  "sample_writers =
     \<lparr>wr_text = RText, wr_u8 = RU8, wr_usize = RUsize, wr_u64 = RU64, wr_string = RString, wr_hash = RHash,
      wr_best_block = RBestBlock, wr_best_finalized = RBestFinalized, wr_added_node = RAddedNode,
      wr_located_node = RLocatedNode, wr_imported_block = RImportedBlock, wr_finalized_block = RFinalizedBlock,
      wr_node_stats = RNodeStats, wr_hardware = RHardware, wr_added_chain = RAddedChain, wr_node_io = RNodeIo,
      wr_chain_stats = RChainStats\<rparr>"

definition sample_readers :: "sample_raw list \<Rightarrow> sample_raw json_readers" where
  "sample_readers v =
     \<lparr>rd_values = (\<lambda>_. Some v), rd_text = (\<lambda>r. case r of RText x \<Rightarrow> x | _ \<Rightarrow> []),
      rd_u8 = (\<lambda>r. case r of RU8 x \<Rightarrow> Some x | _ \<Rightarrow> None),
      rd_usize = (\<lambda>r. case r of RUsize x \<Rightarrow> Some x | _ \<Rightarrow> None),
      rd_u64 = (\<lambda>r. case r of RU64 x \<Rightarrow> Some x | _ \<Rightarrow> None),
      rd_string = (\<lambda>r. case r of RString x \<Rightarrow> Some x | _ \<Rightarrow> None),
      rd_hash = (\<lambda>r. case r of RHash x \<Rightarrow> Some x | _ \<Rightarrow> None),
      rd_best_block = (\<lambda>r. case r of RBestBlock x \<Rightarrow> Some x | _ \<Rightarrow> None),
      rd_best_finalized = (\<lambda>r. case r of RBestFinalized x \<Rightarrow> Some x | _ \<Rightarrow> None),
      rd_added_node = (\<lambda>r. case r of RAddedNode x \<Rightarrow> Some x | _ \<Rightarrow> None),
      rd_located_node = (\<lambda>r. case r of RLocatedNode x \<Rightarrow> Some x | _ \<Rightarrow> None),
      rd_imported_block = (\<lambda>r. case r of RImportedBlock x \<Rightarrow> Some x | _ \<Rightarrow> None),
      rd_finalized_block = (\<lambda>r. case r of RFinalizedBlock x \<Rightarrow> Some x | _ \<Rightarrow> None),
      rd_node_stats = (\<lambda>r. case r of RNodeStats x \<Rightarrow> Some x | _ \<Rightarrow> None),
      rd_hardware = (\<lambda>r. case r of RHardware x \<Rightarrow> Some x | _ \<Rightarrow> None),
      rd_added_chain = (\<lambda>r. case r of RAddedChain x \<Rightarrow> Some x | _ \<Rightarrow> None),
      rd_node_io = (\<lambda>r. case r of RNodeIo x \<Rightarrow> Some x | _ \<Rightarrow> None),
      rd_chain_stats = (\<lambda>r. case r of RChainStats x \<Rightarrow> Some x | _ \<Rightarrow> None)\<rparr>"

lemma sample_reads_back: "reads_back (sample_readers v) sample_writers"
  by (simp add: reads_back_def sample_readers_def sample_writers_def)


theorem from_bytes_exact_witness:
  "from_bytes (sample_readers [RU8 0, RUsize 32, RU8 10, RText ''soon'', RU8 4]) [] = None"
proof -
  let ?v = "[RU8 0, RUsize 32, RU8 10, RText ''soon'', RU8 4]"
  have "decode_feed (sample_readers ?v) 10 (RText ''soon'') = None" "rd_u8 (sample_readers ?v) (RU8 10) = Some 10"
    by (simp_all add: decode_feed_def sample_readers_def)
  then have "\<exists>i < length ?v div 2. rd_u8 (sample_readers ?v) (?v ! (2 * i)) = None \<or>
      decode_feed (sample_readers ?v) (the (rd_u8 (sample_readers ?v) (?v ! (2 * i)))) (?v ! Suc (2 * i)) = None"
    by (intro exI [of _ 1]) simp
  moreover have "rd_values (sample_readers ?v) [] = Some ?v" by (simp add: sample_readers_def)
  ultimately show ?thesis using from_bytes_exact by blast
qed

end
