(* ===== verification/Telemetry_Subscription.thy ===== *)
theory Telemetry_Subscription
  imports Telemetry_Feed Collector_Types "HOL-Library.Multiset"
begin

text \<open>
  The subscription to a telemetry server, \<^verbatim>\<open>essentials/src/telemetry_subscription.rs\<close>: the choice of a chain,
  by name or by asking the user, and the loop that forwards messages. Lines that the user types are a
  list, in ASCII; at the end of the standard input every further line is empty.
\<close>

section \<open>Lines of the user\<close>

definition is_space :: "char \<Rightarrow> bool" where
  "is_space c \<longleftrightarrow> of_char c \<in> {9, 10, 11, 12, 13, 32 :: nat}"

definition trim :: "string \<Rightarrow> string" where
  "trim s = rev (dropWhile is_space (rev (dropWhile is_space s)))"

definition to_lower :: "char \<Rightarrow> char" where
  "to_lower c = (let n = of_char c :: nat in if 65 \<le> n \<and> n \<le> 90 then char_of (n + 32) else c)"

definition is_digit :: "char \<Rightarrow> bool" where
  "is_digit c \<longleftrightarrow> 48 \<le> (of_char c :: nat) \<and> (of_char c :: nat) \<le> 57"

definition read_digits :: "string \<Rightarrow> nat" where
  "read_digits s = foldl (\<lambda>n c. 10 * n + (of_char c - 48)) 0 s"

text \<open>\<open>parse::<usize>()\<close>: digits after an optional plus sign, below \<open>2 ^ 64\<close>.\<close>

definition parse_number :: "string \<Rightarrow> nat option" where
  "parse_number s =
     (let ds = (case s of c # cs \<Rightarrow> if c = CHR ''+'' then cs else s | [] \<Rightarrow> [])
      in if ds \<noteq> [] \<and> list_all is_digit ds \<and> read_digits ds < 2 ^ 64 then Some (read_digits ds) else None)"

section \<open>Choosing a chain\<close>

datatype choose_chain_error = NoChains | NoChain string | NoChoice

definition CHAINS_CHUNK_SIZE :: nat where
  "CHAINS_CHUNK_SIZE = 10"

definition EXIT_COMMAND :: string where
  "EXIT_COMMAND = ''q''"

type_synonym chains = "(h256, added_chain) alist"

definition sorted_chains :: "chains \<Rightarrow> added_chain list" where
  "sorted_chains known = sort_key (\<lambda>c. - int (ac_node_count c)) (map snd known)"

text \<open>The chains of one screen, with their numbers. \<open>None\<close> is the panic of a slice out of range.\<close>

definition shown_chains :: "added_chain list \<Rightarrow> nat \<Rightarrow> (nat \<times> added_chain) list option" where
  "shown_chains cs cursor =
     (let upto = min (cursor + CHAINS_CHUNK_SIZE) (length cs)
      in if cursor \<le> upto then Some (take (upto - cursor) (drop cursor (zip [1..<Suc (length cs)] cs))) else None)"

text \<open>What comes of the lines typed so far: the user is still being asked, a choice, or a panic.\<close>

datatype choice = Asking | ChoicePanic | Choice "choose_chain_error + nat"

fun ask_chain :: "added_chain list \<Rightarrow> nat \<Rightarrow> string list \<Rightarrow> choice" where
  "ask_chain cs cursor [] = (case shown_chains cs cursor of None \<Rightarrow> ChoicePanic | Some _ \<Rightarrow> Asking)"
| "ask_chain cs cursor (line # lines) =
     (case shown_chains cs cursor of
        None \<Rightarrow> ChoicePanic
      | Some _ \<Rightarrow>
          (let buf = map to_lower (trim line) in
           if buf = [] then
             ask_chain cs (if cursor + CHAINS_CHUNK_SIZE < length cs then cursor + CHAINS_CHUNK_SIZE else 0) lines
           else if buf = EXIT_COMMAND then Choice (Inl NoChoice)
           else case parse_number buf of
             None \<Rightarrow> ask_chain cs cursor lines
           | Some num \<Rightarrow>
               if 1 \<le> num \<and> num < length cs then Choice (Inr (num - 1)) else ask_chain cs cursor lines))"

datatype chosen = StillAsking | ChoosePanic | Chosen "choose_chain_error + h256"

definition choose_chain :: "chains \<Rightarrow> string option \<Rightarrow> string list \<Rightarrow> chosen" where
  "choose_chain known maybe_chain_name lines =
     (let cs = sorted_chains known in
      if cs = [] then Chosen (Inl NoChains)
      else case maybe_chain_name of
        Some chain_name \<Rightarrow>
          (case find (\<lambda>c. ac_name c = chain_name) cs of
             Some c \<Rightarrow> Chosen (Inr (ac_genesis_hash c))
           | None \<Rightarrow> Chosen (Inl (NoChain chain_name)))
      | None \<Rightarrow>
          if length cs = 1 then Chosen (Inr (ac_genesis_hash (cs ! 0)))
          else case ask_chain cs 0 lines of
            Asking \<Rightarrow> StillAsking
          | ChoicePanic \<Rightarrow> ChoosePanic
          | Choice (Inl e) \<Rightarrow> Chosen (Inl e)
          | Choice (Inr i) \<Rightarrow> Chosen (Inr (ac_genesis_hash (cs ! i))))"

section \<open>The loop\<close>

record telemetry_state =
  tl_subscribed :: bool
  tl_chains :: chains
  tl_consumer :: "telemetry_feed sink"
  tl_asked :: "h256 list"

definition telemetry_state_new :: "telemetry_feed sink \<Rightarrow> telemetry_state" where
  "telemetry_state_new consumer = \<lparr>tl_subscribed = False, tl_chains = [], tl_consumer = consumer, tl_asked = []\<rparr>"

text \<open>What the loop waits for: a text or binary message, with the lines that the user types while it is
  handled and whether the server takes the subscription; another message; the end of the stream or an
  error in it, after which only the shutdown is waited for; the shutdown.\<close>

datatype telemetry_input =
    Data "u8 list" "string list" bool
  | OtherMessage
  | StreamOver
  | TelemetryShutdown

datatype telemetry_end = ConsumerGone | NotChosen choose_chain_error | Interrupted | TelemetryPanic

datatype telemetry_step =
    Running telemetry_state
  | AwaitingShutdown telemetry_state
  | AskingUser telemetry_state
  | Finished telemetry_end telemetry_state

fun forward :: "telemetry_feed list \<Rightarrow> telemetry_state \<Rightarrow> bool \<times> telemetry_state" where
  "forward [] s = (True, s)"
| "forward (message # messages) s =
     (let s1 = (case message of
                  AddedChain chain \<Rightarrow>
                    if tl_subscribed s then s else s\<lparr>tl_chains := hm_put (ac_genesis_hash chain) chain (tl_chains s)\<rparr>
                | _ \<Rightarrow> s)
      in if sk_open (tl_consumer s1) then forward messages (s1\<lparr>tl_consumer := sink_push message (tl_consumer s1)\<rparr>)
         else (False, s1))"

definition subscribe_chain :: "string option \<Rightarrow> string list \<Rightarrow> bool \<Rightarrow> telemetry_state \<Rightarrow> telemetry_step" where
  "subscribe_chain maybe_chain_name lines accepted s =
     (if tl_subscribed s then Running s
      else case choose_chain (tl_chains s) maybe_chain_name lines of
        StillAsking \<Rightarrow> AskingUser s
      | ChoosePanic \<Rightarrow> Finished TelemetryPanic s
      | Chosen (Inl e) \<Rightarrow> Finished (NotChosen e) s
      | Chosen (Inr hash) \<Rightarrow>
          Running (s\<lparr>tl_asked := tl_asked s @ [hash], tl_subscribed := accepted\<rparr>))"

definition telemetry_loop_body ::
  "'raw json_readers \<Rightarrow> string option \<Rightarrow> telemetry_state \<Rightarrow> telemetry_input \<Rightarrow> telemetry_step" where
  "telemetry_loop_body rd maybe_chain_name s i =
     (case i of
        Data bytes lines accepted \<Rightarrow>
          (case from_bytes rd bytes of
             None \<Rightarrow> Running s
           | Some feed \<Rightarrow>
               (case forward feed s of
                  (False, s') \<Rightarrow> Finished ConsumerGone s'
                | (True, s') \<Rightarrow> subscribe_chain maybe_chain_name lines accepted s'))
      | OtherMessage \<Rightarrow> Running s
      | StreamOver \<Rightarrow> AwaitingShutdown s
      | TelemetryShutdown \<Rightarrow> Finished Interrupted s)"

fun run_per_consumer ::
  "'raw json_readers \<Rightarrow> string option \<Rightarrow> telemetry_input list \<Rightarrow> telemetry_state \<Rightarrow> telemetry_step" where
  "run_per_consumer rd maybe_chain_name [] s = Running s"
| "run_per_consumer rd maybe_chain_name (i # is) s =
     (case telemetry_loop_body rd maybe_chain_name s i of
        Running s' \<Rightarrow> run_per_consumer rd maybe_chain_name is s'
      | AwaitingShutdown s' \<Rightarrow>
          (if TelemetryShutdown \<in> set is then Finished Interrupted s' else AwaitingShutdown s')
      | r \<Rightarrow> r)"

section \<open>The choice of the user\<close>

lemma shown_chains_Some: "cursor < length cs \<Longrightarrow> shown_chains cs cursor \<noteq> None"
  by (simp add: shown_chains_def CHAINS_CHUNK_SIZE_def)

lemma ask_chain_range:
  "cursor < length cs \<Longrightarrow>
    ask_chain cs cursor lines \<noteq> ChoicePanic \<and> (\<forall>i. ask_chain cs cursor lines = Choice (Inr i) \<longrightarrow> Suc i < length cs)"
proof (induction lines arbitrary: cursor)
  case (Cons line lines)
  let ?next = "if cursor + CHAINS_CHUNK_SIZE < length cs then cursor + CHAINS_CHUNK_SIZE else 0"
  have "?next < length cs" using Cons.prems by auto
  from Cons.IH [OF this] Cons.IH [OF Cons.prems] shown_chains_Some [OF Cons.prems] show ?case
    by (auto simp: Let_def split: option.split)
qed (use shown_chains_Some in \<open>auto split: option.splits\<close>)

lemma digit_chars:
  fixes d :: nat
  assumes "d < 10"
  shows "is_digit (char_of (48 + d))" "to_lower (char_of (48 + d)) = char_of (48 + d)"
    "\<not> is_space (char_of (48 + d))" "char_of (48 + d) \<noteq> CHR ''+''" "char_of (48 + d) \<noteq> CHR ''q''"
proof -
  have d: "of_char (char_of (48 + d) :: char) = 48 + d" using assms by simp
  show "is_digit (char_of (48 + d))" "to_lower (char_of (48 + d)) = char_of (48 + d)" "\<not> is_space (char_of (48 + d))"
    using assms unfolding is_digit_def to_lower_def is_space_def Let_def d by auto
  have "of_char CHR ''+'' = (43 :: nat)" "of_char CHR ''q'' = (113 :: nat)" by simp_all
  with d assms show "char_of (48 + d) \<noteq> CHR ''+''" "char_of (48 + d) \<noteq> CHR ''q''" by force+
qed

lemma show_nat_chars: "c \<in> set (show_nat n) \<Longrightarrow>
    is_digit c \<and> to_lower c = c \<and> \<not> is_space c \<and> c \<noteq> CHR ''+'' \<and> c \<noteq> CHR ''q''"
proof -
  assume "c \<in> set (show_nat n)"
  then obtain d where "d \<in> set (digits10 n)" "c = char_of (48 + d)" by (auto simp: show_nat_def)
  with digit_chars [OF digits10_less] show ?thesis by simp
qed

lemma read_digits_show: "read_digits (show_nat n) = n"
proof -
  have "foldl (\<lambda>n c. 10 * n + (of_char c - 48)) k (map (\<lambda>d. char_of (48 + d)) ds) = foldl (\<lambda>m d. 10 * m + d) k ds"
    if "\<forall>d \<in> set ds. d < 10" for k :: nat and ds :: "nat list"
    using that by (induction ds arbitrary: k) simp_all
  then show ?thesis
    using digits10_less [of _ n] by (simp add: read_digits_def show_nat_def digits10_value)
qed

lemma dropWhile_none: "\<forall>x \<in> set xs. \<not> P x \<Longrightarrow> dropWhile P xs = xs"
  by (cases xs) auto

lemma typed_number:
  assumes "n < 2 ^ 64"
  shows "map to_lower (trim (show_nat n @ [CHR 0x0A])) = show_nat n" "show_nat n \<noteq> []" "show_nat n \<noteq> ''q''"
    "parse_number (show_nat n) = Some n"
proof -
  have ne: "show_nat n \<noteq> []" by (simp add: show_nat_def)
  then obtain c cs where c: "show_nat n = c # cs" by (cases "show_nat n") auto
  have "dropWhile is_space (show_nat n @ [CHR 0x0A]) = show_nat n @ [CHR 0x0A]"
    using show_nat_chars [of c n] by (simp add: c)
  moreover have "dropWhile is_space (rev (show_nat n)) = rev (show_nat n)"
    using show_nat_chars by (intro dropWhile_none) auto
  ultimately have "trim (show_nat n @ [CHR 0x0A]) = show_nat n"
    by (simp add: trim_def is_space_def)
  then show "map to_lower (trim (show_nat n @ [CHR 0x0A])) = show_nat n"
    using show_nat_chars by (simp add: map_idI)
  show "show_nat n \<noteq> []" by (rule ne)
  show "show_nat n \<noteq> ''q''" using show_nat_chars [of "CHR ''q''" n] by auto
  have "list_all is_digit (show_nat n)" using show_nat_chars by (auto simp: list_all_iff)
  then show "parse_number (show_nat n) = Some n"
    using assms show_nat_chars [of c n] read_digits_show [of n]
    by (simp add: parse_number_def c Let_def)
qed

lemma ask_chain_number:
  assumes "Suc i < length cs" "length cs < 2 ^ 64"
  shows "ask_chain cs 0 (((show_nat (Suc i)) @ [CHR 0x0A]) # lines) = Choice (Inr i)"
proof -
  have "shown_chains cs 0 \<noteq> None" using assms by (intro shown_chains_Some) auto
  then show ?thesis
    using typed_number [of "Suc i"] assms by (auto simp: Let_def EXIT_COMMAND_def)
qed

text \<open>What the user can choose: with two chains or more and no name given, the dialogue never panics, whatever
  is typed; the chains are listed by falling number of nodes; typing the number of a chain chooses it,
  for all chains but the last; and no input ever chooses the last one of the list, whose number the
  prompt offers.\<close>

theorem choose_chain_interactive:
  assumes "2 \<le> length known" "length known < 2 ^ 64"
  shows "sorted_wrt (\<lambda>a b. ac_node_count b \<le> ac_node_count a) (sorted_chains known) \<and>
    mset (sorted_chains known) = mset (map snd known) \<and>
    choose_chain known None lines \<noteq> ChoosePanic \<and>
    (\<forall>i. Suc i < length known \<longrightarrow>
      choose_chain known None [show_nat (Suc i) @ [CHR 0x0A]] =
        Chosen (Inr (ac_genesis_hash (sorted_chains known ! i)))) \<and>
    (\<forall>h. choose_chain known None lines = Chosen (Inr h) \<longrightarrow>
      (\<exists>i. Suc i < length known \<and> h = ac_genesis_hash (sorted_chains known ! i)))"
proof -
  let ?cs = "sorted_chains known"
  have len: "length ?cs = length known" by (simp add: sorted_chains_def)
  have "sorted (map (\<lambda>c. - int (ac_node_count c)) ?cs)" by (simp add: sorted_chains_def)
  then have "sorted_wrt (\<lambda>a b. ac_node_count b \<le> ac_node_count a) ?cs" by (simp add: sorted_map)
  moreover have "mset ?cs = mset (map snd known)" by (simp add: sorted_chains_def)
  moreover have ask: "choose_chain known None ls =
      (case ask_chain ?cs 0 ls of
         Asking \<Rightarrow> StillAsking | ChoicePanic \<Rightarrow> ChoosePanic | Choice (Inl e) \<Rightarrow> Chosen (Inl e)
       | Choice (Inr i) \<Rightarrow> Chosen (Inr (ac_genesis_hash (?cs ! i))))" for ls
    using assms len by (cases "?cs = []") (auto simp: choose_chain_def Let_def)
  moreover have "0 < length ?cs" using assms len by linarith
  note range = ask_chain_range [OF this, of lines]
  moreover have "\<exists>i. Suc i < length known \<and> h = ac_genesis_hash (?cs ! i)"
    if "choose_chain known None lines = Chosen (Inr h)" for h
    using that range len unfolding ask by (auto split: choice.splits sum.splits)
  moreover have "choose_chain known None lines \<noteq> ChoosePanic"
    using range unfolding ask by (auto split: choice.splits sum.splits)
  moreover have "choose_chain known None [show_nat (Suc i) @ [CHR 0x0A]] = Chosen (Inr (ac_genesis_hash (?cs ! i)))"
    if "Suc i < length known" for i
    using ask_chain_number [of i ?cs "[]"] that assms(2) len unfolding ask by (simp del: ask_chain.simps)
  ultimately show ?thesis by blast
qed

definition sample_chains :: chains where
  "sample_chains =
     [(1, \<lparr>ac_name = ''a'', ac_genesis_hash = 1, ac_node_count = 5\<rparr>),
      (2, \<lparr>ac_name = ''b'', ac_genesis_hash = 2, ac_node_count = 9\<rparr>)]"

theorem choose_chain_interactive_witness:
  "choose_chain sample_chains None [show_nat 1 @ [CHR 0x0A]] = Chosen (Inr 2) \<and>
   choose_chain sample_chains None [show_nat 2 @ [CHR 0x0A]] \<noteq> Chosen (Inr 1)"
proof -
  have len: "2 \<le> length sample_chains" "length sample_chains < 2 ^ 64" by (simp_all add: sample_chains_def)
  have "sorted_chains sample_chains =
      [\<lparr>ac_name = ''b'', ac_genesis_hash = 2, ac_node_count = 9\<rparr>, \<lparr>ac_name = ''a'', ac_genesis_hash = 1, ac_node_count = 5\<rparr>]"
    by (simp add: sorted_chains_def sample_chains_def)
  then show ?thesis
    using choose_chain_interactive [OF len, where lines = "[show_nat 2 @ [CHR 0x0A]]"] by (auto simp: sample_chains_def)
qed

section \<open>What the consumer gets\<close>

definition readable :: "'raw json_readers \<Rightarrow> telemetry_input \<Rightarrow> telemetry_feed list" where
  "readable rd i = (case i of Data bytes _ _ \<Rightarrow> the_default [] (from_bytes rd bytes) | _ \<Rightarrow> [])"

definition announced :: "telemetry_feed list \<Rightarrow> h256 set" where
  "announced msgs = {h. \<exists>c. AddedChain c \<in> set msgs \<and> h = ac_genesis_hash c}"

lemma forward_open:
  assumes "sk_open (tl_consumer s)"
  shows "\<exists>s'. forward feed s = (True, s') \<and> tl_subscribed s' = tl_subscribed s \<and> tl_asked s' = tl_asked s \<and>
    tl_consumer s' = (tl_consumer s)\<lparr>sk_sent := sk_sent (tl_consumer s) @ feed\<rparr> \<and>
    (\<forall>(h, c) \<in> set (tl_chains s'). (h, c) \<in> set (tl_chains s) \<or> AddedChain c \<in> set feed \<and> h = ac_genesis_hash c)"
  using assms
proof (induction feed arbitrary: s)
  case (Cons m feed)
  define s1 where "s1 = (case m of
      AddedChain chain \<Rightarrow>
        if tl_subscribed s then s else s\<lparr>tl_chains := hm_put (ac_genesis_hash chain) chain (tl_chains s)\<rparr>
    | _ \<Rightarrow> s)"
  have s1: "tl_consumer s1 = tl_consumer s" "tl_subscribed s1 = tl_subscribed s" "tl_asked s1 = tl_asked s"
    by (simp_all add: s1_def split: telemetry_feed.split)
  have put: "(h, c) \<in> set (hm_put k v kvs) \<Longrightarrow> (h, c) \<in> set kvs \<or> (h, c) = (k, v)" for h c k v and kvs :: chains
    by (induction kvs) (auto split: if_splits)
  have chains: "(h, c) \<in> set (tl_chains s) \<or> AddedChain c = m \<and> h = ac_genesis_hash c"
    if "(h, c) \<in> set (tl_chains s1)" for h c
    using that by (auto simp: s1_def dest!: put split: telemetry_feed.splits if_splits)
  let ?s1 = "s1\<lparr>tl_consumer := sink_push m (tl_consumer s1)\<rparr>"
  have "sk_open (tl_consumer ?s1)" using Cons.prems s1 by (simp add: sink_push_def)
  from Cons.IH [OF this] obtain s' where s': "forward feed ?s1 = (True, s')"
    "tl_subscribed s' = tl_subscribed s" "tl_asked s' = tl_asked s"
    "tl_consumer s' = (tl_consumer s)\<lparr>sk_sent := sk_sent (tl_consumer s) @ m # feed\<rparr>"
    "\<forall>(h, c) \<in> set (tl_chains s'). (h, c) \<in> set (tl_chains s1) \<or> AddedChain c \<in> set feed \<and> h = ac_genesis_hash c"
    by (auto simp: s1 sink_push_def)
  moreover have "forward (m # feed) s = forward feed ?s1"
    using Cons.prems s1 by (simp add: Let_def flip: s1_def)
  ultimately show ?case using chains by fastforce
qed auto

lemma find_in: "find P xs = Some x \<Longrightarrow> x \<in> set xs"
  by (auto simp: find_Some_iff)

lemma choose_chain_known:
  assumes "choose_chain known name lines = Chosen (Inr h)"
  shows "\<exists>c \<in> snd ` set known. h = ac_genesis_hash c"
proof -
  let ?cs = "sorted_chains known"
  have mem: "set ?cs = snd ` set known" by (simp add: sorted_chains_def)
  have at: "i < length ?cs \<Longrightarrow> \<exists>c \<in> snd ` set known. ac_genesis_hash (?cs ! i) = ac_genesis_hash c" for i
    using mem nth_mem by blast
  show ?thesis
  proof (cases name)
    case (Some n)
    with assms mem show ?thesis
      by (auto simp: choose_chain_def Let_def dest!: find_in split: option.splits if_splits)
  next
    case None
    show ?thesis
    proof (cases "length ?cs = 1")
      case True
      with assms None at [of 0] show ?thesis by (auto simp: choose_chain_def Let_def split: if_splits)
    next
      case False
      with assms None have "0 < length ?cs" by (auto simp: choose_chain_def Let_def split: if_splits)
      from ask_chain_range [OF this, of lines] False assms None at show ?thesis
        by (auto simp: choose_chain_def Let_def split: if_splits choice.splits sum.splits)
    qed
  qed
qed

definition telemetry_ok :: "telemetry_feed sink \<Rightarrow> telemetry_feed list \<Rightarrow> telemetry_state \<Rightarrow> bool" where
  "telemetry_ok k msgs s \<longleftrightarrow>
     tl_consumer s = k\<lparr>sk_sent := sk_sent k @ msgs\<rparr> \<and>
     (\<forall>(h, c) \<in> set (tl_chains s). AddedChain c \<in> set msgs \<and> h = ac_genesis_hash c) \<and>
     set (tl_asked s) \<subseteq> announced msgs \<and> (tl_subscribed s \<longrightarrow> tl_asked s \<noteq> [])"

fun telemetry_state_of :: "telemetry_step \<Rightarrow> telemetry_state" where
  "telemetry_state_of (Running s) = s"
| "telemetry_state_of (AwaitingShutdown s) = s"
| "telemetry_state_of (AskingUser s) = s"
| "telemetry_state_of (Finished _ s) = s"

lemma subscribe_chain_ok:
  assumes "telemetry_ok k msgs s"
  shows "telemetry_ok k msgs (telemetry_state_of (subscribe_chain name lines accepted s))"
proof (cases "\<exists>h. choose_chain (tl_chains s) name lines = Chosen (Inr h)")
  case True
  then obtain h where h: "choose_chain (tl_chains s) name lines = Chosen (Inr h)" ..
  then have "h \<in> announced msgs"
    using choose_chain_known [OF h] assms by (fastforce simp: telemetry_ok_def announced_def)
  with h assms show ?thesis by (auto simp: subscribe_chain_def telemetry_ok_def)
qed (use assms in \<open>auto simp: subscribe_chain_def split: chosen.split sum.split\<close>)

lemma telemetry_body_ok:
  assumes "telemetry_ok k msgs s" "sk_open k"
  shows "telemetry_ok k (msgs @ readable rd i) (telemetry_state_of (telemetry_loop_body rd name s i))"
proof (cases i)
  case (Data bytes lines accepted)
  show ?thesis
  proof (cases "from_bytes rd bytes")
    case (Some feed)
    have "sk_open (tl_consumer s)" using assms by (simp add: telemetry_ok_def)
    from forward_open [OF this, of feed] obtain s1 where s1: "forward feed s = (True, s1)"
      "tl_subscribed s1 = tl_subscribed s" "tl_asked s1 = tl_asked s"
      "tl_consumer s1 = (tl_consumer s)\<lparr>sk_sent := sk_sent (tl_consumer s) @ feed\<rparr>"
      and chains: "\<forall>(h, c) \<in> set (tl_chains s1). (h, c) \<in> set (tl_chains s) \<or> AddedChain c \<in> set feed \<and> h = ac_genesis_hash c"
      by blast
    have "AddedChain c \<in> set (msgs @ feed) \<and> h = ac_genesis_hash c" if "(h, c) \<in> set (tl_chains s1)" for h c
      using bspec [OF chains that] assms(1) by (auto simp: telemetry_ok_def)
    moreover have "announced msgs \<subseteq> announced (msgs @ feed)" by (auto simp: announced_def)
    ultimately have "telemetry_ok k (msgs @ feed) s1"
      using assms(1) by (auto simp: telemetry_ok_def s1)
    then show ?thesis
      using subscribe_chain_ok Data Some s1(1) by (simp add: telemetry_loop_body_def readable_def)
  qed (use assms Data in \<open>simp add: telemetry_loop_body_def readable_def\<close>)
qed (use assms in \<open>simp_all add: telemetry_loop_body_def readable_def\<close>)

lemma telemetry_run_ok:
  assumes "telemetry_ok k msgs s" "sk_open k" "run_per_consumer rd name is s = Running s'"
  shows "telemetry_ok k (msgs @ concat (map (readable rd) is)) s'"
  using assms(1,3)
proof (induction "is" arbitrary: msgs s)
  case (Cons i "is")
  from Cons.prems(2) obtain s1 where s1: "telemetry_loop_body rd name s i = Running s1"
    "run_per_consumer rd name is s1 = Running s'"
    by (auto split: telemetry_step.splits if_splits)
  with telemetry_body_ok [OF Cons.prems(1) assms(2), of rd i name] Cons.IH [of "msgs @ readable rd i" s1]
  show ?case by simp
qed simp

text \<open>What a consumer of the telemetry gets while the subscription runs: exactly the messages of the readable
  texts, in order; every chain that the server was asked for is one that it had announced before, and no
  subscription is noted without one.\<close>

theorem telemetry_forwards_all:
  assumes "sk_open k" "run_per_consumer rd name is (telemetry_state_new k) = Running s"
  shows "sk_sent (tl_consumer s) = sk_sent k @ concat (map (readable rd) is) \<and>
    set (tl_asked s) \<subseteq> announced (concat (map (readable rd) is)) \<and> (tl_subscribed s \<longrightarrow> tl_asked s \<noteq> [])"
proof -
  have "telemetry_ok k [] (telemetry_state_new k)"
    by (simp add: telemetry_ok_def telemetry_state_new_def)
  from telemetry_run_ok [OF this assms] show ?thesis by (simp add: telemetry_ok_def)
qed

theorem telemetry_forwards_all_witness:
  "sk_sent (tl_consumer (telemetry_state_of (run_per_consumer
      (sample_readers [RU8 0, RUsize 32, RU8 11, RAddedChain (''dot'', 7, 12)]) (Some ''dot'') [Data [] [] True]
      (telemetry_state_new sink_new)))) =
    [Version 32, AddedChain \<lparr>ac_name = ''dot'', ac_genesis_hash = 7, ac_node_count = 12\<rparr>]"
proof -
  let ?rd = "sample_readers [RU8 0, RUsize 32, RU8 11, RAddedChain (''dot'', 7, 12)]"
  let ?r = "run_per_consumer ?rd (Some ''dot'') [Data [] [] True] (telemetry_state_new sink_new)"
  let ?feed = "[Version 32, AddedChain \<lparr>ac_name = ''dot'', ac_genesis_hash = 7, ac_node_count = 12\<rparr>]"
  have read: "from_bytes ?rd [] = Some ?feed"
    by (simp add: from_bytes_def sample_readers_def decode_feed_def)
  have "?r = Running (telemetry_state_of ?r)"
    by (simp add: telemetry_loop_body_def read telemetry_state_new_def sink_new_def sink_push_def subscribe_chain_def
        choose_chain_def sorted_chains_def)
  from telemetry_forwards_all [OF _ this] show ?thesis
    by (simp add: readable_def read sink_new_def)
qed

end
