(* ===== verification/Whois.thy ===== *)
theory Whois
  imports Chain_Types Maps
begin

text \<open>
  The whois tool, \<^verbatim>\<open>whois/src/main.rs\<close>: which validators a command asks for, and what the cache of the peer to
  peer network knows of them. The answers of the node, the discovery of the network, the file system and the
  codec of the cache file are parameters; so are addresses, peer ids and peer details. A hash set is the list
  of its elements. What the tool prints is a list of lines.
\<close>

section \<open>The cache\<close>

type_synonym authority_key = "u8 list"

record ('addr, 'details) per_session_cache =
  pc_peer_details :: "(u8 list, 'details) alist"
  pc_peer_versions :: "(u8 list, string) alist"
  pc_authority_to_details :: "(authority_key, 'addr list) alist"

record ('addr, 'details) network_cache =
  nc_session_to_network_info :: "(u32, ('addr, 'details) per_session_cache) alist"

text \<open>The library of the network: addresses, peer ids, and what is known of a peer.\<close>

record ('addr, 'details, 'peer) network_lib =
  lib_get_peer_id :: "'addr \<Rightarrow> 'peer option"
  lib_to_bytes :: "'peer \<Rightarrow> u8 list"
  lib_authority_id :: "'details \<Rightarrow> authority_key"

datatype 'peer whois_error =
    NoSessionIndex
  | NoGenesisHash
  | NoChainName
  | InvalidSessionIndex u32 u32
  | SubxtError
  | NoParaSessionAccountKeys
  | NoSessionQueuedKeys
  | InvalidValidatorIndex nat
  | InvalidAuthorityDiscovery string
  | InvalidPeerId 'peer
  | InvalidPeerIdNoAuthority 'peer
  | InvalidP2PCache

definition get_closest_to_session ::
  "u32 \<Rightarrow> ('addr, 'details) network_cache \<Rightarrow> 'peer whois_error + ('addr, 'details) per_session_cache" where
  "get_closest_to_session session_index cache =
     (let sessions = map fst (nc_session_to_network_info cache);
          lower = filter (\<lambda>v. v \<le> session_index) sessions;
          larger = filter (\<lambda>v. v \<ge> session_index) sessions;
          get = (\<lambda>s. case map_of (nc_session_to_network_info cache) s of
                       None \<Rightarrow> Inl InvalidP2PCache | Some info \<Rightarrow> Inr info)
      in if lower \<noteq> [] then get (Max (set lower))
         else if larger \<noteq> [] then get (Min (set larger))
         else Inl InvalidP2PCache)"

definition get_details ::
  "('addr, 'details, 'peer) network_lib \<Rightarrow> ('addr, 'details) per_session_cache \<Rightarrow> authority_key \<Rightarrow>
   'details option \<times> string \<times> 'peer option" where
  "get_details lib c key =
     (case map_of (pc_authority_to_details c) key of
        None \<Rightarrow> (None, [], None)
      | Some [] \<Rightarrow> (None, [], None)
      | Some (addr # _) \<Rightarrow>
          let peer_id = lib_get_peer_id lib addr;
              serialized_key = the_default [] (map_option (lib_to_bytes lib) peer_id)
          in (map_of (pc_peer_details c) serialized_key,
              the_default ''unknown'' (map_of (pc_peer_versions c) serialized_key), peer_id))"

definition get_authority_key_from_peer_id ::
  "('addr, 'details, 'peer) network_lib \<Rightarrow> ('addr, 'details) per_session_cache \<Rightarrow> 'peer \<Rightarrow> authority_key option" where
  "get_authority_key_from_peer_id lib c peer_id =
     map_option (lib_authority_id lib) (map_of (pc_peer_details c) (lib_to_bytes lib peer_id))"

text \<open>Building the cache: the file is read and decoded, the network is discovered when asked for or when there
  is no file, and the whole cache is written back. \<open>create_ok\<close> says whether the file can be made and
  \<open>written\<close> how many bytes go into it before an error. The second component is what the file holds afterwards, if it was changed.\<close>

definition build_cache ::
  "(u8 list \<Rightarrow> ('addr, 'details) network_cache option) \<Rightarrow> (('addr, 'details) network_cache \<Rightarrow> u8 list option) \<Rightarrow>
   ('addr, 'details) per_session_cache option \<Rightarrow> bool \<Rightarrow> nat \<Rightarrow> u32 \<Rightarrow> bool \<Rightarrow> u8 list option \<Rightarrow>
   ('peer whois_error + ('addr, 'details) network_cache) \<times> u8 list option" where
  "build_cache from_vec to_vec discovered create_ok written session_index_now update_flag stored =
     (case (case stored of
              Some serialized \<Rightarrow>
                (case from_vec serialized of None \<Rightarrow> None | Some c \<Rightarrow> Some (c, update_flag))
            | None \<Rightarrow> Some (\<lparr>nc_session_to_network_info = []\<rparr>, True)) of
        None \<Rightarrow> (Inl InvalidP2PCache, None)
      | Some (cache, update_cache) \<Rightarrow>
          (case (if update_cache then
                   map_option (\<lambda>info. cache\<lparr>nc_session_to_network_info :=
                     hm_put session_index_now info (nc_session_to_network_info cache)\<rparr>) discovered
                 else Some cache) of
             None \<Rightarrow> (Inl InvalidP2PCache, None)
           | Some cache \<Rightarrow>
               (case to_vec cache of
                  None \<Rightarrow> (Inl InvalidP2PCache, None)
                | Some bytes \<Rightarrow>
                    if \<not> create_ok then (Inl InvalidP2PCache, None)
                    else if written < length bytes then (Inl InvalidP2PCache, Some (take written bytes))
                    else (Inr cache, Some bytes))))"

section \<open>Sanity checks\<close>

datatype 'peer sanity_warning =
    TooManyAddresses authority_key nat
  | MultiplePeerIds authority_key "'peer list"
  | NoPeerIds authority_key
  | ServesMultiple 'peer "authority_key list"

definition set_insert :: "'a \<Rightarrow> 'a list \<Rightarrow> 'a list" where
  "set_insert x xs = (if x \<in> set xs then xs else xs @ [x])"

definition MAX_ADDRESSES_PER_AUTHORITY :: nat where
  "MAX_ADDRESSES_PER_AUTHORITY = 10"

definition check_authority ::
  "('addr, 'details, 'peer) network_lib \<Rightarrow> authority_key \<Rightarrow> 'addr list \<Rightarrow>
   ('peer, authority_key list) alist \<Rightarrow> 'peer sanity_warning list \<times> ('peer, authority_key list) alist" where
  "check_authority lib authority_id addresses served =
     (let found = concat (map (\<lambda>a. case lib_get_peer_id lib a of None \<Rightarrow> [] | Some p \<Rightarrow> [p]) addresses);
          peer_ids = fold set_insert found [];
          served' = fold (\<lambda>p. hm_update_default [] p (set_insert authority_id)) found served
      in ((if length addresses > MAX_ADDRESSES_PER_AUTHORITY then [TooManyAddresses authority_id (length addresses)] else []) @
          (if length peer_ids > 1 then [MultiplePeerIds authority_id peer_ids] else []) @
          (if peer_ids = [] then [NoPeerIds authority_id] else []), served'))"

fun check_authorities ::
  "('addr, 'details, 'peer) network_lib \<Rightarrow> authority_key list \<Rightarrow> (authority_key, 'addr list) alist \<Rightarrow>
   ('peer, authority_key list) alist \<Rightarrow> 'peer sanity_warning list \<times> ('peer, authority_key list) alist" where
  "check_authorities lib current [] served = ([], served)"
| "check_authorities lib current ((authority_id, addresses) # rest) served =
     (if authority_id \<notin> set current then check_authorities lib current rest served
      else (let (ws, served1) = check_authority lib authority_id addresses served;
                (ws', served2) = check_authorities lib current rest served1
            in (ws @ ws', served2)))"

definition sanity_check ::
  "('addr, 'details, 'peer) network_lib \<Rightarrow> ('addr, 'details) per_session_cache \<Rightarrow> authority_key list \<Rightarrow>
   'peer sanity_warning list" where
  "sanity_check lib c current =
     (let (ws, served) = check_authorities lib current (pc_authority_to_details c) []
      in ws @ concat (map (\<lambda>(p, authorities).
           if length authorities > 1 then [ServesMultiple p authorities] else []) served))"

section \<open>The command\<close>

datatype 'peer whois_command =
    ByAccount "account_id list"
  | ByValidatorIndex "nat list"
  | ByAuthorityDiscovery "string list"
  | ByPeerId "'peer list"
  | DumpAll

record 'peer whois_options =
  wo_command :: "'peer whois_command"
  wo_session_index :: u32
  wo_at_block :: "h256 option"

text \<open>The answers of the node; \<open>Inl ()\<close> is a failed request.\<close>

record whois_node =
  wn_genesis_hash :: "unit + h256 option"
  wn_chain_name :: "unit + string"
  wn_session_index_now :: "unit + u32"
  wn_session_account_keys :: "unit + account_id list option"
  wn_session_queued_keys :: "unit + (account_id \<times> authority_key) list option"

datatype ('details, 'peer) whois_line =
    ValidatorLine nat account_id "'peer option" authority_key "'details option" string
  | NoInformation nat account_id
  | SanityLine "'peer sanity_warning"

definition NUMBER_OF_STORED_SESSIONS :: u32 where
  "NUMBER_OF_STORED_SESSIONS = 6"

definition USIZE_MAX :: nat where
  "USIZE_MAX = 2 ^ 64 - 1"

text \<open>\<open>iter().position(..)\<close>, and \<open>collect\<close> of fallible items, which stops at the first error.\<close>

fun position :: "('a \<Rightarrow> bool) \<Rightarrow> 'a list \<Rightarrow> nat option" where
  "position P [] = None"
| "position P (x # xs) = (if P x then Some 0 else map_option Suc (position P xs))"

definition accounts_to_discover ::
  "(authority_key \<Rightarrow> string) \<Rightarrow> ('addr, 'details, 'peer) network_lib \<Rightarrow> ('addr, 'details) per_session_cache \<Rightarrow>
   account_id list \<Rightarrow> (account_id \<times> authority_key) list \<Rightarrow> 'peer whois_command \<Rightarrow>
   'peer whois_error + (account_id \<times> nat option) list" where
  "accounts_to_discover hex lib c account_keys queued_keys command =
     (case command of
        ByAccount validators \<Rightarrow> Inr (map (\<lambda>v. (v, position (\<lambda>x. v = x) account_keys)) validators)
      | ByValidatorIndex indices \<Rightarrow>
          rmap (\<lambda>i. case get_index account_keys i of
                      None \<Rightarrow> Inl (InvalidValidatorIndex i)
                    | Some account \<Rightarrow> Inr (account, Some i)) indices
      | ByAuthorityDiscovery keys \<Rightarrow>
          rmap (\<lambda>k. case find (\<lambda>(_, key). ''0x'' @ hex key = k) queued_keys of
                      None \<Rightarrow> Inl (InvalidAuthorityDiscovery k)
                    | Some (account, _) \<Rightarrow> Inr (account, position (\<lambda>x. account = x) account_keys)) keys
      | ByPeerId peers \<Rightarrow>
          rmap (\<lambda>p. case get_authority_key_from_peer_id lib c p of
                      None \<Rightarrow> Inl (InvalidPeerId p)
                    | Some authority_key \<Rightarrow>
                        (case find (\<lambda>(_, key). key = authority_key) queued_keys of
                           None \<Rightarrow> Inl (InvalidPeerIdNoAuthority p)
                         | Some (account, _) \<Rightarrow> Inr (account, position (\<lambda>x. account = x) account_keys))) peers
      | DumpAll \<Rightarrow> Inr (map (\<lambda>(i, account). (account, Some i)) (zip [0..<length account_keys] account_keys)))"

definition validator_line ::
  "('addr, 'details, 'peer) network_lib \<Rightarrow> ('addr, 'details) per_session_cache \<Rightarrow>
   (account_id \<times> authority_key) list \<Rightarrow> account_id \<times> nat option \<Rightarrow> ('details, 'peer) whois_line" where
  "validator_line lib c queued_keys = (\<lambda>(validator, validator_index).
     case find (\<lambda>(account, _). account = validator) queued_keys of
       Some (_, key) \<Rightarrow>
         (case get_details lib c key of (details, info, peer_id) \<Rightarrow>
            ValidatorLine (the_default USIZE_MAX validator_index) validator peer_id key details info)
     | None \<Rightarrow> NoInformation (the_default USIZE_MAX validator_index) validator)"

definition current_keys :: "(account_id \<times> authority_key) list \<Rightarrow> (account_id \<times> nat option) list \<Rightarrow> authority_key list" where
  "current_keys queued_keys accounts =
     fold set_insert
       (concat (map (\<lambda>(validator, _). case find (\<lambda>(account, _). account = validator) queued_keys of
                                        Some (_, key) \<Rightarrow> [key] | None \<Rightarrow> []) accounts)) []"

text \<open>A run; \<open>build\<close> is \<open>build_cache\<close> at the session of now.\<close>

definition whois_run ::
  "(authority_key \<Rightarrow> string) \<Rightarrow> ('addr, 'details, 'peer) network_lib \<Rightarrow>
   (u32 \<Rightarrow> 'peer whois_error + ('addr, 'details) network_cache) \<Rightarrow> whois_node \<Rightarrow> 'peer whois_options \<Rightarrow>
   'peer whois_error + ('details, 'peer) whois_line list" where
  "whois_run hex lib build node opts =
     (case wn_genesis_hash node of
        Inr (Some _) \<Rightarrow>
          (case wn_chain_name node of
             Inl _ \<Rightarrow> Inl NoChainName
           | Inr _ \<Rightarrow>
               (case wn_session_index_now node of
                  Inl _ \<Rightarrow> Inl NoSessionIndex
                | Inr now \<Rightarrow>
                    if wo_at_block opts = None \<and>
                       (now < wo_session_index opts \<or> now - wo_session_index opts > NUMBER_OF_STORED_SESSIONS)
                    then Inl (InvalidSessionIndex (now - NUMBER_OF_STORED_SESSIONS) now)
                    else
                      (case wn_session_account_keys node of
                         Inl _ \<Rightarrow> Inl SubxtError
                       | Inr None \<Rightarrow> Inl NoParaSessionAccountKeys
                       | Inr (Some account_keys) \<Rightarrow>
                           (case wn_session_queued_keys node of
                              Inl _ \<Rightarrow> Inl SubxtError
                            | Inr None \<Rightarrow> Inl NoSessionQueuedKeys
                            | Inr (Some queued_keys) \<Rightarrow>
                                rbind (build now) (\<lambda>cache.
                                rbind (get_closest_to_session (wo_session_index opts) cache) (\<lambda>c.
                                rbind (accounts_to_discover hex lib c account_keys queued_keys (wo_command opts)) (\<lambda>accounts.
                                  Inr (map (validator_line lib c queued_keys) accounts @
                                       (if wo_command opts = DumpAll then
                                          map SanityLine (sanity_check lib c (current_keys queued_keys accounts))
                                        else []))))))))) 
      | _ \<Rightarrow> Inl NoGenesisHash)"

section \<open>Properties\<close>

text \<open>The cache that a run uses: an error exactly without any cached session; otherwise the newest session not
  after the one asked for, and only if there is none the oldest one after it. A later session is never
  used while an earlier one is cached, however much nearer it is.\<close>

theorem closest_session_exact:
  assumes "hm_wf (nc_session_to_network_info cache)"
  defines "sessions \<equiv> fst ` set (nc_session_to_network_info cache)"
  shows "get_closest_to_session n cache =
      (if sessions = {} then Inl InvalidP2PCache
       else Inr (the (map_of (nc_session_to_network_info cache)
         (if \<exists>s \<in> sessions. s \<le> n then Max {s \<in> sessions. s \<le> n} else Min sessions))))"
proof -
  let ?m = "nc_session_to_network_info cache"
  have fin: "finite sessions" by (simp add: sessions_def)
  have lower: "set (filter (\<lambda>v. v \<le> n) (map fst ?m)) = {s \<in> sessions. s \<le> n}"
    and larger: "set (filter (\<lambda>v. v \<ge> n) (map fst ?m)) = {s \<in> sessions. n \<le> s}"
    by (auto simp: sessions_def)
  have known: "map_of ?m s = Some (the (map_of ?m s))" if "s \<in> sessions" for s
  proof -
    from that obtain v where "map_of ?m s = Some v"
      using assms(1) by (force simp: sessions_def hm_wf_def)
    then show ?thesis by simp
  qed
  show ?thesis
  proof (cases "\<exists>s \<in> sessions. s \<le> n")
    case True
    then have "{s \<in> sessions. s \<le> n} \<noteq> {}" by blast
    then have "Max {s \<in> sessions. s \<le> n} \<in> {s \<in> sessions. s \<le> n}" using fin by (intro Max_in) auto
    then have "map_of ?m (Max {s \<in> sessions. s \<le> n}) = Some (the (map_of ?m (Max {s \<in> sessions. s \<le> n})))"
      by (intro known) simp
    moreover have "filter (\<lambda>v. v \<le> n) (map fst ?m) \<noteq> []" using True lower by (metis (lifting) empty_Collect_eq empty_set)
    ultimately show ?thesis
      using True unfolding get_closest_to_session_def Let_def lower by (auto split: option.splits)
  next
    case False
    then have none: "filter (\<lambda>v. v \<le> n) (map fst ?m) = []" and all: "{s \<in> sessions. n \<le> s} = sessions"
      by (auto simp: sessions_def filter_empty_conv)
    show ?thesis
    proof (cases "sessions = {}")
      case True
      then have "?m = []" by (simp add: sessions_def)
      then show ?thesis by (simp add: get_closest_to_session_def sessions_def)
    next
      case False
      then have "Min sessions \<in> sessions" using fin by (intro Min_in)
      then have "map_of ?m (Min sessions) = Some (the (map_of ?m (Min sessions)))" by (rule known)
      moreover have "filter (\<lambda>v. v \<ge> n) (map fst ?m) \<noteq> []" using False larger all by (metis empty_set)
      ultimately show ?thesis
        using False \<open>\<not> (\<exists>s \<in> sessions. s \<le> n)\<close> none larger all
        unfolding get_closest_to_session_def Let_def by (auto split: option.splits)
    qed
  qed
qed

text \<open>With the sessions 11 and 1 cached, session 10 is looked up in session 1.\<close>

theorem closest_session_exact_witness:
  "map_sum id pc_peer_versions (get_closest_to_session 10
     \<lparr>nc_session_to_network_info =
        [(11, \<lparr>pc_peer_details = [] :: (u8 list, nat) alist, pc_peer_versions = [([], ''b'')],
               pc_authority_to_details = [] :: (authority_key, nat list) alist\<rparr>),
         (1, \<lparr>pc_peer_details = [], pc_peer_versions = [([], ''a'')], pc_authority_to_details = []\<rparr>)]\<rparr>) =
    (Inr [([], ''a'')] :: nat whois_error + _)"
proof -
  let ?m = "[(11 :: u32, \<lparr>pc_peer_details = [] :: (u8 list, nat) alist, pc_peer_versions = [([], ''b'')],
        pc_authority_to_details = [] :: (authority_key, nat list) alist\<rparr>),
      (1, \<lparr>pc_peer_details = [], pc_peer_versions = [([], ''a'')], pc_authority_to_details = []\<rparr>)]"
  have "hm_wf (nc_session_to_network_info \<lparr>nc_session_to_network_info = ?m\<rparr>)" by (simp add: hm_wf_def)
  note exact = closest_session_exact [OF this, of 10]
  have "{s \<in> {11, 1 :: u32}. s \<le> 10} = {1}" by auto
  then show ?thesis unfolding exact by simp
qed

text \<open>The window of sessions: without a block of its own, a run that prints anything was asked for one of the
  last six sessions or the current one. The error names the current session as the upper end, and six
  sessions before as the lower one, which is wrong on a chain with fewer sessions: there the lower end
  wraps around and lies above the upper one.\<close>

theorem whois_session_window:
  assumes "wo_at_block opts = None" "wn_genesis_hash node = Inr (Some g)" "wn_chain_name node = Inr name"
    and "wn_session_index_now node = Inr now"
  defines "window \<equiv> unat (wo_session_index opts) \<le> unat now \<and> unat now \<le> unat (wo_session_index opts) + 6"
    and "oldest \<equiv> now - NUMBER_OF_STORED_SESSIONS"
  shows "(\<not> window \<longrightarrow> whois_run hex lib build node opts = Inl (InvalidSessionIndex oldest now)) \<and>
    (\<forall>ls. whois_run hex lib build node opts = Inr ls \<longrightarrow> window) \<and>
    (if 6 \<le> unat now then unat oldest + 6 = unat now else now < oldest)"
proof -
  let ?outside = "now < wo_session_index opts \<or> now - wo_session_index opts > NUMBER_OF_STORED_SESSIONS"
  have "?outside \<longleftrightarrow> \<not> window"
  proof (cases "now < wo_session_index opts")
    case False
    then have "unat (now - wo_session_index opts) = unat now - unat (wo_session_index opts)"
      by (simp add: unat_sub not_less)
    with False show ?thesis
      by (auto simp: window_def NUMBER_OF_STORED_SESSIONS_def word_less_nat_alt)
  qed (auto simp: window_def word_less_nat_alt)
  moreover have "if 6 \<le> unat now then unat oldest + 6 = unat now else now < oldest"
  proof (cases "6 \<le> unat now")
    case True
    then show ?thesis by (simp add: oldest_def NUMBER_OF_STORED_SESSIONS_def unat_sub word_le_nat_alt)
  next
    case False
    then have "now \<in> {0, 1, 2, 3, 4, 5}"
      by (simp add: word_unat_eq_iff) linarith
    moreover have "\<forall>n \<in> {0, 1, 2, 3, 4, 5 :: u32}. n < n - 6" by code_simp
    ultimately have "now < now - 6" by blast
    with False show ?thesis by (simp add: oldest_def NUMBER_OF_STORED_SESSIONS_def)
  qed
  ultimately show ?thesis
    using assms(1-4) by (auto simp: whois_run_def oldest_def)
qed

definition sample_lib :: "(nat, authority_key, nat) network_lib" where
  "sample_lib = \<lparr>lib_get_peer_id = (\<lambda>a. if a < 10 then Some (a div 2) else None), lib_to_bytes = (\<lambda>p. [of_nat p]),
     lib_authority_id = id\<rparr>"

definition sample_whois_node :: "u32 \<Rightarrow> whois_node" where
  "sample_whois_node now =
     \<lparr>wn_genesis_hash = Inr (Some 1), wn_chain_name = Inr ''Polkadot'', wn_session_index_now = Inr now,
      wn_session_account_keys = Inr (Some [5, 6]), wn_session_queued_keys = Inr (Some [(5, [1]), (6, [2])])\<rparr>"

theorem whois_session_window_witness:
  "whois_run (\<lambda>_. []) sample_lib (\<lambda>_. Inl InvalidP2PCache) (sample_whois_node 4)
     \<lparr>wo_command = DumpAll, wo_session_index = 5, wo_at_block = None\<rparr> = Inl (InvalidSessionIndex 4294967294 4)"
  using whois_session_window [of "\<lparr>wo_command = DumpAll, wo_session_index = 5, wo_at_block = None\<rparr>" "sample_whois_node 4"
      1 "''Polkadot''" 4 "\<lambda>_. []" sample_lib "\<lambda>_. Inl InvalidP2PCache"]
  by (simp add: sample_whois_node_def NUMBER_OF_STORED_SESSIONS_def)

section \<open>What the sanity checks report\<close>

lemma set_fold_insert [simp]: "set (fold set_insert xs ys) = set xs \<union> set ys"
  by (induction xs arbitrary: ys) (auto simp: set_insert_def)

lemma distinct_fold_insert [simp]: "distinct ys \<Longrightarrow> distinct (fold set_insert xs ys)"
  by (induction xs arbitrary: ys) (auto simp: set_insert_def)

text \<open>The peers of a list of addresses, and the authorities that a peer serves.\<close>

definition peers_of :: "('addr, 'details, 'peer) network_lib \<Rightarrow> 'addr list \<Rightarrow> 'peer set" where
  "peers_of lib addresses = {p. \<exists>a \<in> set addresses. lib_get_peer_id lib a = Some p}"

lemma found_peers: "set (concat (map (\<lambda>a. case lib_get_peer_id lib a of None \<Rightarrow> [] | Some p \<Rightarrow> [p]) as)) = peers_of lib as"
  by (auto simp: peers_of_def split: option.splits)

definition serving :: "('peer, authority_key list) alist \<Rightarrow> 'peer \<Rightarrow> authority_key set" where
  "serving served p = set (the_default [] (map_of served p))"

definition served_ok :: "('peer, authority_key list) alist \<Rightarrow> bool" where
  "served_ok served \<longleftrightarrow> hm_wf served \<and> (\<forall>p as. map_of served p = Some as \<longrightarrow> distinct as)"

lemma served_update:
  assumes "served_ok served"
  shows "served_ok (fold (\<lambda>p. hm_update_default [] p (set_insert a)) ps served) \<and>
    serving (fold (\<lambda>p. hm_update_default [] p (set_insert a)) ps served) q =
      serving served q \<union> (if q \<in> set ps then {a} else {})"
  using assms
proof (induction ps arbitrary: served)
  case (Cons p ps)
  let ?s = "hm_update_default [] p (set_insert a) served"
  have "served_ok ?s"
    using Cons.prems by (auto simp: served_ok_def hm_update_default_def map_of_hm_put set_insert_def hm.wf_put
        split: option.splits if_splits)
  moreover have "serving ?s q = serving served q \<union> (if q = p then {a} else {})"
    by (cases "map_of served p") (auto simp: serving_def hm_update_default_def map_of_hm_put set_insert_def)
  ultimately show ?case using Cons.IH [of ?s] by auto
qed simp

lemma check_authority_served:
  assumes "served_ok served" "check_authority lib a as served = (ws, served')"
  shows "served_ok served' \<and> serving served' q = serving served q \<union> (if q \<in> peers_of lib as then {a} else {})"
  using served_update [OF assms(1), of a "concat (map (\<lambda>a. case lib_get_peer_id lib a of None \<Rightarrow> [] | Some p \<Rightarrow> [p]) as)" q] assms(2)
  unfolding found_peers by (auto simp: check_authority_def Let_def)

lemma check_authorities_served:
  assumes "served_ok served" "check_authorities lib current details served = (ws, served')"
  shows "served_ok served' \<and>
    serving served' q = serving served q \<union> {a \<in> set current. \<exists>as. (a, as) \<in> set details \<and> q \<in> peers_of lib as}"
  using assms
proof (induction details arbitrary: served ws)
  case (Cons d details)
  obtain a as where d: "d = (a, as)" by force
  show ?case
  proof (cases "a \<in> set current")
    case True
    obtain ws1 served1 where c: "check_authority lib a as served = (ws1, served1)" by force
    note step = check_authority_served [OF Cons.prems(1) c]
    obtain ws2 where "check_authorities lib current details served1 = (ws2, served')"
      using Cons.prems(2) True by (auto simp: d c split: prod.splits)
    with Cons.IH [of served1 ws2] step True show ?thesis by (auto simp: d)
  qed (use Cons in \<open>auto simp: d\<close>)
qed simp

definition authority_warnings :: "('addr, 'details, 'peer) network_lib \<Rightarrow> authority_key \<Rightarrow> 'addr list \<Rightarrow> 'peer sanity_warning list" where
  "authority_warnings lib a as = fst (check_authority lib a as [])"

lemma check_authority_warnings: "fst (check_authority lib a as served) = authority_warnings lib a as"
  by (simp add: authority_warnings_def check_authority_def Let_def)

lemma check_authorities_warnings:
  "set (fst (check_authorities lib current details served)) =
    (\<Union>(a, as) \<in> {(a, as) \<in> set details. a \<in> set current}. set (authority_warnings lib a as))"
proof (induction details arbitrary: served)
  case (Cons d details)
  obtain a as where d: "d = (a, as)" by force
  show ?case
  proof (cases "a \<in> set current")
    case True
    then have "{(b, bs) \<in> set (d # details). b \<in> set current} = insert (a, as) {(b, bs) \<in> set details. b \<in> set current}"
      by (auto simp: d)
    moreover obtain ws1 served1 where c: "check_authority lib a as served = (ws1, served1)" by force
    moreover have "ws1 = authority_warnings lib a as" using check_authority_warnings [of lib a as served] c by simp
    moreover obtain ws2 served2 where "check_authorities lib current details served1 = (ws2, served2)" by force
    ultimately show ?thesis
      using Cons.IH [of served1] True by (simp add: d)
  next
    case False
    then have "{(b, bs) \<in> set (d # details). b \<in> set current} = {(b, bs) \<in> set details. b \<in> set current}"
      by (auto simp: d)
    with False show ?thesis using Cons.IH by (simp add: d)
  qed
qed simp

lemma authority_warnings_iff:
  "TooManyAddresses b n \<in> set (authority_warnings lib a as) \<longleftrightarrow> b = a \<and> n = length as \<and> 10 < n"
  "NoPeerIds b \<in> set (authority_warnings lib a as) \<longleftrightarrow> b = a \<and> peers_of lib as = {}"
  "(\<exists>ps. MultiplePeerIds b ps \<in> set (authority_warnings lib a as)) \<longleftrightarrow> b = a \<and> 1 < card (peers_of lib as)"
  "ServesMultiple q bs \<notin> set (authority_warnings lib a as)"
proof -
  let ?ids = "fold set_insert (concat (map (\<lambda>a. case lib_get_peer_id lib a of None \<Rightarrow> [] | Some p \<Rightarrow> [p]) as)) []"
  have ids: "set ?ids = peers_of lib as" unfolding set_fold_insert found_peers by simp
  have len: "length ?ids = card (peers_of lib as)"
    using distinct_card [of ?ids] ids by simp
  have "?ids = [] \<longleftrightarrow> peers_of lib as = {}" using ids by (metis set_empty)
  then show "TooManyAddresses b n \<in> set (authority_warnings lib a as) \<longleftrightarrow> b = a \<and> n = length as \<and> 10 < n"
    "NoPeerIds b \<in> set (authority_warnings lib a as) \<longleftrightarrow> b = a \<and> peers_of lib as = {}"
    "(\<exists>ps. MultiplePeerIds b ps \<in> set (authority_warnings lib a as)) \<longleftrightarrow> b = a \<and> 1 < card (peers_of lib as)"
    "ServesMultiple q bs \<notin> set (authority_warnings lib a as)"
    unfolding authority_warnings_def check_authority_def Let_def len
    by (auto simp: MAX_ADDRESSES_PER_AUTHORITY_def)
qed

text \<open>C23: The warnings of the sanity checks, exactly: of the current authorities, one with more than ten addresses,
  with two peer ids or more, or with none is reported; and a peer is reported exactly if it appears in the
  addresses of two current authorities or more.\<close>

theorem sanity_check_exact:
  fixes lib current c
  assumes "hm_wf (pc_authority_to_details c)"
  defines "ws \<equiv> set (sanity_check lib c current)"
    and "known \<equiv> \<lambda>a as. a \<in> set current \<and> map_of (pc_authority_to_details c) a = Some as"
  shows "(TooManyAddresses a n \<in> ws \<longleftrightarrow> (\<exists>as. known a as \<and> n = length as \<and> 10 < n)) \<and>
    (NoPeerIds a \<in> ws \<longleftrightarrow> (\<exists>as. known a as \<and> peers_of lib as = {})) \<and>
    ((\<exists>ps. MultiplePeerIds a ps \<in> ws) \<longleftrightarrow> (\<exists>as. known a as \<and> 1 < card (peers_of lib as))) \<and>
    ((\<exists>as. ServesMultiple p as \<in> ws) \<longleftrightarrow> 1 < card {a. \<exists>as. known a as \<and> p \<in> peers_of lib as})"
proof -
  let ?details = "pc_authority_to_details c"
  obtain ws1 served where run: "check_authorities lib current ?details [] = (ws1, served)" by force
  have entries: "(a, as) \<in> set ?details \<and> a \<in> set current \<longleftrightarrow> known a as" for a as
    using assms(1) by (auto simp: known_def hm_wf_def)
  have start: "served_ok []" by (simp add: served_ok_def)
  note final = check_authorities_served [OF start run]
  then have served: "serving served q = {a. \<exists>as. known a as \<and> q \<in> peers_of lib as}" for q
    by (auto simp: serving_def simp flip: entries)
  have ok: "hm_wf served" "map_of served q = Some as \<Longrightarrow> distinct as" for q as
    using final by (auto simp: served_ok_def)
  have ws1: "set ws1 = (\<Union>(a, as) \<in> {(a, as). known a as}. set (authority_warnings lib a as))"
    using check_authorities_warnings [of lib current ?details "[]"] run entries by auto
  have ws: "ws = set ws1 \<union> {ServesMultiple q as |q as. map_of served q = Some as \<and> 1 < length as}"
    using ok(1) by (force simp: ws_def sanity_check_def run hm_wf_def)
  have "(\<exists>as. map_of served p = Some as \<and> 1 < length as) \<longleftrightarrow> 1 < card (serving served p)"
  proof (cases "map_of served p")
    case (Some as)
    then show ?thesis using distinct_card [OF ok(2) [OF Some]] by (simp add: serving_def)
  qed (simp add: serving_def)
  then have peers: "(\<exists>as. ServesMultiple p as \<in> ws) \<longleftrightarrow> 1 < card {a. \<exists>as. known a as \<and> p \<in> peers_of lib as}"
    unfolding served by (auto simp: ws ws1 authority_warnings_iff)
  have "(\<exists>ps. MultiplePeerIds a ps \<in> ws) \<longleftrightarrow> (\<exists>b bs. known b bs \<and> (\<exists>ps. MultiplePeerIds a ps \<in> set (authority_warnings lib b bs)))"
    by (auto simp: ws ws1)
  then show ?thesis
    using peers by (auto simp: ws ws1 authority_warnings_iff)
qed

theorem sanity_check_exact_witness:
  "NoPeerIds [1] \<in> set (sanity_check sample_lib
      \<lparr>pc_peer_details = [], pc_peer_versions = [], pc_authority_to_details = [([1], [12, 18]), ([2], [3])]\<rparr> [[1], [2]]) \<and>
   NoPeerIds [2] \<notin> set (sanity_check sample_lib
      \<lparr>pc_peer_details = [], pc_peer_versions = [], pc_authority_to_details = [([1], [12, 18]), ([2], [3])]\<rparr> [[1], [2]])"
proof -
  let ?c = "\<lparr>pc_peer_details = [], pc_peer_versions = [], pc_authority_to_details = [([1], [12, 18]), ([2], [3])]\<rparr> ::
      (nat, authority_key) per_session_cache"
  have "hm_wf (pc_authority_to_details ?c)" by (simp add: hm_wf_def)
  note exact = sanity_check_exact [OF this, where lib = sample_lib and current = "[[1], [2]]"]
  show ?thesis
    using exact [where a = "[1]"] exact [where a = "[2]"] by (simp add: peers_of_def sample_lib_def)
qed

end
