(* ===== verification/Dynamic.thy ===== *)
theory Dynamic
  imports Chain_Types
begin

text \<open>
  Decoding the dynamic values of the metadata path, \<^verbatim>\<open>essentials/src/api/dynamic.rs\<close>. The type of the
  values is the one of the crate \<^verbatim>\<open>scale_value\<close>, without the type id, which the code never reads. Its
  field access \<^verbatim>\<open>At::at\<close> is the parameter \<open>at_field\<close>, \<^verbatim>\<open>H256::from\<close> of 32 bytes the parameter \<open>hash_of\<close>.
\<close>

section \<open>Values\<close>

datatype prim =
    PBool bool
  | PChar char
  | PString string
  | PU128 u128
  | PI128 u128
  | PU256 bytes
  | PI256 bytes

datatype sval =
    SComposite comp
  | SVariant string comp
  | SBits "bool list"
  | SPrim prim
and comp =
    Named "(string \<times> sval) list"
  | Unnamed "sval list"

fun comp_values :: "comp \<Rightarrow> sval list" where
  "comp_values (Named fs) = map snd fs"
| "comp_values (Unnamed vs) = vs"

datatype expectation =
    Expected string
  | U32Overflow u128
  | U8Overflow nat u128
  | U8At nat
  | Bytes32Got nat
  | FieldOf string
  | InnerOf string
  | KnownVariant string string

datatype dynamic_error =
    DecodeDynamicError expectation sval
  | EmptyResponseFromDynamicStorage string
  | SubxtError string

definition wrong :: "expectation \<Rightarrow> sval \<Rightarrow> dynamic_error + 'a" where
  "wrong e v = Inl (DecodeDynamicError e v)"

section \<open>Integers and hashes\<close>

definition decode_unnamed_composite :: "sval \<Rightarrow> dynamic_error + sval list" where
  "decode_unnamed_composite v =
     (case v of SComposite (Unnamed vs) \<Rightarrow> Inr vs | _ \<Rightarrow> wrong (Expected ''unnamed composite'') v)"

definition decode_u128_value :: "sval \<Rightarrow> dynamic_error + u128" where
  "decode_u128_value v = (case v of SPrim (PU128 n) \<Rightarrow> Inr n | _ \<Rightarrow> wrong (Expected ''u128'') v)"

definition decode_composite_u128_value :: "sval \<Rightarrow> dynamic_error + u128" where
  "decode_composite_u128_value v =
     rbind (decode_unnamed_composite v) (\<lambda>vs.
       case vs of first # _ \<Rightarrow> decode_u128_value first | [] \<Rightarrow> wrong (Expected ''vector of one element'') v)"

fun decode_dynamic_u32 :: "sval \<Rightarrow> dynamic_error + u32" where
  "decode_dynamic_u32 (SPrim (PU128 n)) =
     (if unat n < 2 ^ 32 then Inr (ucast n) else wrong (U32Overflow n) (SPrim (PU128 n)))"
| "decode_dynamic_u32 (SComposite (Unnamed (inner # rest))) = decode_dynamic_u32 inner"
| "decode_dynamic_u32 v = wrong (Expected ''u32-like value'') v"

definition decode_byte :: "nat \<times> sval \<Rightarrow> dynamic_error + u8" where
  "decode_byte = (\<lambda>(i, b).
     case b of
       SPrim (PU128 n) \<Rightarrow> (if unat n < 2 ^ 8 then Inr (ucast n) else wrong (U8Overflow i n) b)
     | _ \<Rightarrow> wrong (U8At i) b)"

definition decode_byte_slice :: "sval list \<Rightarrow> dynamic_error + bytes" where
  "decode_byte_slice bytes = rmap decode_byte (enumerate 0 bytes)"

definition decode_h256_from_bytes :: "(bytes \<Rightarrow> h256) \<Rightarrow> sval list \<Rightarrow> dynamic_error + h256" where
  "decode_h256_from_bytes hash_of bytes =
     rbind (decode_byte_slice bytes) (\<lambda>arr.
       if length arr \<noteq> 32 then wrong (Bytes32Got (length arr)) (SComposite (Unnamed bytes)) else Inr (hash_of arr))"

fun decode_h256 :: "(bytes \<Rightarrow> h256) \<Rightarrow> sval \<Rightarrow> dynamic_error + h256" where
  "decode_h256 hash_of (SComposite (Unnamed bytes)) =
     (if length bytes = 32 then decode_h256_from_bytes hash_of bytes
      else case bytes of
          [inner] \<Rightarrow> decode_h256 hash_of inner
        | _ \<Rightarrow> wrong (Expected ''H256 (32-byte composite)'') (SComposite (Unnamed bytes)))"
| "decode_h256 hash_of v = wrong (Expected ''H256 (32-byte composite)'') v"

section \<open>Groups, cores, candidate events\<close>

definition decode_validator_groups :: "sval \<Rightarrow> dynamic_error + u32 list list" where
  "decode_validator_groups raw_groups =
     rbind (decode_unnamed_composite raw_groups) (rmap (\<lambda>raw_group.
       rbind (decode_unnamed_composite raw_group) (rmap (\<lambda>raw_index.
         rbind (decode_composite_u128_value raw_index) (\<lambda>n. Inr (ucast n))))))"

definition decode_availability_cores :: "sval \<Rightarrow> dynamic_error + core_state list" where
  "decode_availability_cores raw =
     rbind (decode_unnamed_composite raw) (rmap (\<lambda>core.
       case core of
         SVariant name _ \<Rightarrow>
           if name = ''Free'' then Inr CoreFree
           else if name = ''Scheduled'' then Inr CoreScheduled
           else if name = ''Occupied'' then Inr CoreOccupied
           else wrong (KnownVariant ''CoreState'' name) core
       | _ \<Rightarrow> wrong (Expected ''variant for CoreState'') core))"

definition named_field :: "(sval \<Rightarrow> string \<Rightarrow> sval option) \<Rightarrow> sval \<Rightarrow> string \<Rightarrow> dynamic_error + sval" where
  "named_field at_field v name =
     (case at_field v name of None \<Rightarrow> wrong (FieldOf name) v | Some x \<Rightarrow> Inr x)"

definition decode_candidate_event ::
  "(sval \<Rightarrow> string \<Rightarrow> sval option) \<Rightarrow> (bytes \<Rightarrow> h256) \<Rightarrow> comp \<Rightarrow> dynamic_error + u32 \<times> h256 \<times> u32" where
  "decode_candidate_event at_field hash_of raw =
     rbind (case raw of Unnamed (first # _) \<Rightarrow> Inr first
        | _ \<Rightarrow> wrong (Expected ''unnamed composite with candidate receipt'') (SComposite raw)) (\<lambda>receipt.
     rbind (named_field at_field receipt ''descriptor'') (\<lambda>descriptor.
     rbind (named_field at_field descriptor ''para_id'') (\<lambda>raw_para_id.
     rbind (decode_dynamic_u32 raw_para_id) (\<lambda>para_id.
     rbind (named_field at_field descriptor ''relay_parent'') (\<lambda>raw_relay_parent.
     rbind (decode_h256 hash_of raw_relay_parent) (\<lambda>relay_parent.
     rbind (case raw of Unnamed (_ # _ # third # _) \<Rightarrow> decode_dynamic_u32 third
        | _ \<Rightarrow> wrong (Expected ''core_index field (3rd unnamed field)'') (SComposite raw)) (\<lambda>core_idx.
       Inr (para_id, relay_parent, core_idx))))))))"

section \<open>The inherent\<close>

definition find_named_field :: "(string \<times> sval) list \<Rightarrow> string \<Rightarrow> comp \<Rightarrow> dynamic_error + sval" where
  "find_named_field fs name ctx =
     (case List.find (\<lambda>(field, _). field = name) fs of
        Some (_, v) \<Rightarrow> Inr v
      | None \<Rightarrow> wrong (FieldOf name) (SComposite ctx))"

definition variant_inner_value :: "string \<times> comp \<Rightarrow> string \<Rightarrow> dynamic_error + sval" where
  "variant_inner_value = (\<lambda>(name, values) ctx.
     case comp_values values of first # _ \<Rightarrow> Inr first | [] \<Rightarrow> wrong (InnerOf ctx) (SVariant name values))"

definition decode_bit :: "sval \<Rightarrow> dynamic_error + bool" where
  "decode_bit b =
     (case b of
        SPrim (PBool v) \<Rightarrow> Inr v
      | SPrim (PU128 v) \<Rightarrow> Inr (v \<noteq> 0)
      | _ \<Rightarrow> wrong (Expected ''bool in bitfield'') b)"

fun decode_availability_bitfield :: "sval \<Rightarrow> dynamic_error + bitfield" where
  "decode_availability_bitfield (SBits bits) = Inr bits"
| "decode_availability_bitfield (SComposite (Unnamed [inner])) = decode_availability_bitfield inner"
| "decode_availability_bitfield (SComposite (Unnamed bits)) = rmap decode_bit bits"
| "decode_availability_bitfield v = wrong (Expected ''availability bitfield'') v"

definition decode_candidate_hash :: "(bytes \<Rightarrow> h256) \<Rightarrow> sval \<Rightarrow> dynamic_error + h256" where
  "decode_candidate_hash hash_of v =
     (case v of
        SComposite (Unnamed [inner]) \<Rightarrow> decode_h256 hash_of inner
      | SComposite (Named fs) \<Rightarrow>
          (case List.find (\<lambda>(name, _). name = ''0'') fs of
             Some (_, hash_val) \<Rightarrow> decode_h256 hash_of hash_val
           | None \<Rightarrow> wrong (FieldOf ''0'') v)
      | _ \<Rightarrow> wrong (Expected ''CandidateHash (unnamed 1-tuple or named composite)'') v)"

definition decode_valid_kind :: "(bytes \<Rightarrow> h256) \<Rightarrow> string \<times> comp \<Rightarrow> dynamic_error + valid_kind" where
  "decode_valid_kind hash_of variant =
     rbind (variant_inner_value variant ''ValidDisputeStatementKind'') (\<lambda>inner.
     case inner of
       SVariant name values \<Rightarrow>
         if name = ''Explicit'' then Inr VExplicit
         else if name = ''BackingSeconded'' then
           rbind (variant_inner_value (name, values) ''BackingSeconded'') (\<lambda>h.
           rbind (decode_h256 hash_of h) (\<lambda>h. Inr (BackingSeconded h)))
         else if name = ''BackingValid'' then
           rbind (variant_inner_value (name, values) ''BackingValid'') (\<lambda>h.
           rbind (decode_h256 hash_of h) (\<lambda>h. Inr (BackingValid h)))
         else if name = ''ApprovalChecking'' then Inr ApprovalChecking
         else if name = ''ApprovalCheckingMultipleCandidates'' then
           rbind (variant_inner_value (name, values) ''ApprovalCheckingMultipleCandidates'') (\<lambda>candidates.
           rbind (decode_unnamed_composite candidates) (\<lambda>vs.
           rbind (rmap (decode_candidate_hash hash_of) vs) (\<lambda>hs. Inr (ApprovalCheckingMultipleCandidates hs))))
         else wrong (KnownVariant ''ValidDisputeStatementKind'' name) inner
     | _ \<Rightarrow> wrong (Expected ''variant for ValidDisputeStatementKind'') inner)"

definition decode_invalid_kind :: "string \<times> comp \<Rightarrow> dynamic_error + invalid_kind" where
  "decode_invalid_kind variant =
     rbind (variant_inner_value variant ''InvalidDisputeStatementKind'') (\<lambda>inner.
     case inner of
       SVariant name values \<Rightarrow>
         if name = ''Explicit'' then Inr IExplicit
         else wrong (KnownVariant ''InvalidDisputeStatementKind'' name) inner
     | _ \<Rightarrow> wrong (Expected ''variant for InvalidDisputeStatementKind'') inner)"

definition decode_dispute_statement :: "(bytes \<Rightarrow> h256) \<Rightarrow> sval \<Rightarrow> dynamic_error + dispute_statement" where
  "decode_dispute_statement hash_of v =
     (case v of
        SVariant name values \<Rightarrow>
          if name = ''Valid'' then rbind (decode_valid_kind hash_of (name, values)) (\<lambda>k. Inr (ValidStatement k))
          else if name = ''Invalid'' then rbind (decode_invalid_kind (name, values)) (\<lambda>k. Inr (InvalidStatement k))
          else wrong (KnownVariant ''DisputeStatement'' name) v
      | _ \<Rightarrow> wrong (Expected ''variant for DisputeStatement'') v)"

definition decode_dispute_statement_set ::
  "(sval \<Rightarrow> string \<Rightarrow> sval option) \<Rightarrow> (bytes \<Rightarrow> h256) \<Rightarrow> sval \<Rightarrow> dynamic_error + dispute_statement_set" where
  "decode_dispute_statement_set at_field hash_of v =
     rbind (named_field at_field v ''candidate_hash'') (\<lambda>raw_candidate_hash.
     rbind (decode_candidate_hash hash_of raw_candidate_hash) (\<lambda>candidate_hash.
     rbind (named_field at_field v ''session'') (\<lambda>raw_session.
     rbind (decode_dynamic_u32 raw_session) (\<lambda>session.
     rbind (named_field at_field v ''statements'') (\<lambda>raw_statements.
     rbind (decode_unnamed_composite raw_statements) (\<lambda>statements_vec.
     rbind (rmap (\<lambda>raw_stmt.
         rbind (decode_unnamed_composite raw_stmt) (\<lambda>fs.
         case fs of
           first # second # third # _ \<Rightarrow>
             rbind (decode_dispute_statement hash_of first) (\<lambda>statement.
             rbind (decode_dynamic_u32 second) (\<lambda>index. Inr (statement, index)))
         | _ \<Rightarrow> wrong (Expected ''statement tuple with 3 elements'') raw_stmt)) statements_vec) (\<lambda>statements.
       Inr \<lparr>ds_candidate_hash = candidate_hash, ds_session = session, ds_statements = statements\<rparr>)))))))"

text \<open>The two vectors are collected before either error is returned.\<close>

definition decode_inherent_data ::
  "(sval \<Rightarrow> string \<Rightarrow> sval option) \<Rightarrow> (bytes \<Rightarrow> h256) \<Rightarrow> comp \<Rightarrow> dynamic_error + inherent_data" where
  "decode_inherent_data at_field hash_of raw =
     rbind (case raw of
         Named fs \<Rightarrow> find_named_field fs ''data'' raw
       | Unnamed (first # _) \<Rightarrow> Inr first
       | _ \<Rightarrow> wrong (Expected ''composite with inherent data'') (SComposite raw)) (\<lambda>data.
     rbind (named_field at_field data ''bitfields'') (\<lambda>raw_bitfields.
     rbind (decode_unnamed_composite raw_bitfields) (\<lambda>bitfield_vec.
     let bitfields = rmap (\<lambda>raw_signed.
         rbind (named_field at_field raw_signed ''payload'') decode_availability_bitfield) bitfield_vec in
     rbind (named_field at_field data ''disputes'') (\<lambda>raw_disputes.
     rbind (decode_unnamed_composite raw_disputes) (\<lambda>dispute_vec.
     let disputes = rmap (decode_dispute_statement_set at_field hash_of) dispute_vec in
     rbind bitfields (\<lambda>bs. rbind disputes (\<lambda>ds. Inr \<lparr>ih_bitfields = bs, ih_disputes = ds\<rparr>)))))))"

end
