(* ===== verification/Scale.thy ===== *)
theory Scale
  imports Chain_Types
begin

text \<open>
  SCALE, the encoding of the chain data that \<^verbatim>\<open>essentials/src/api/decode.rs\<close> reads. The crate
  \<^verbatim>\<open>parity_scale_codec\<close> is not part of the repository: its encoders and decoders of the integers, hashes,
  compact lengths, bit sequences and of the header, a type of \<^verbatim>\<open>subxt\<close>, are the parameter \<open>codec\<close>, of
  which \<open>lawful\<close> states the documented promise that decoding reads back what was encoded and leaves
  the rest of the input. Structures, tuples, enums, options and vectors are composed of these as
  \<^verbatim>\<open>#[derive(Decode)]\<close> does, in the format the sources describe: fields one after the other, a variant byte,
  a compact count. \<open>scale_codec\<close> is a codec of the documented format that the witnesses use.
\<close>

section \<open>Decoders\<close>

type_synonym 'a decoder = "bytes \<Rightarrow> ('a \<times> bytes) option"

definition dbind :: "'a decoder \<Rightarrow> ('a \<Rightarrow> 'b decoder) \<Rightarrow> 'b decoder" where
  "dbind d f bs = (case d bs of None \<Rightarrow> None | Some (x, rest) \<Rightarrow> f x rest)"

definition dret :: "'a \<Rightarrow> 'a decoder" where
  "dret x bs = Some (x, bs)"

definition dfail :: "'a decoder" where
  "dfail bs = None"

text \<open>A \<open>u8\<close> and a \<open>[u8; n]\<close> are the bytes themselves.\<close>

definition get_u8 :: "u8 decoder" where
  "get_u8 bs = (case bs of [] \<Rightarrow> None | b # rest \<Rightarrow> Some (b, rest))"

definition get_array :: "nat \<Rightarrow> bytes decoder" where
  "get_array n bs = (if n \<le> length bs then Some (take n bs, drop n bs) else None)"

record codec =
  put_u32 :: "u32 \<Rightarrow> bytes"
  get_u32 :: "u32 decoder"
  put_u64 :: "u64 \<Rightarrow> bytes"
  get_u64 :: "u64 decoder"
  put_u128 :: "u128 \<Rightarrow> bytes"
  get_u128 :: "u128 decoder"
  put_h256 :: "h256 \<Rightarrow> bytes"
  get_h256 :: "h256 decoder"
  put_compact :: "u32 \<Rightarrow> bytes"
  get_compact :: "u32 decoder"
  put_bits :: "bool list \<Rightarrow> bytes"
  get_bits :: "bool list decoder"
  put_header :: "header \<Rightarrow> bytes"
  get_header :: "header decoder"

definition reads :: "('a \<Rightarrow> bytes) \<Rightarrow> 'a decoder \<Rightarrow> 'a \<Rightarrow> bool" where
  "reads put get x \<longleftrightarrow> (\<forall>rest. get (put x @ rest) = Some (x, rest))"

text \<open>A bit sequence of the crate \<^verbatim>\<open>bitvec\<close> has less than \<open>2 ^ 29\<close> bits.\<close>

definition lawful :: "codec \<Rightarrow> bool" where
  "lawful c \<longleftrightarrow>
     (\<forall>x. reads (put_u32 c) (get_u32 c) x) \<and> (\<forall>x. reads (put_u64 c) (get_u64 c) x) \<and>
     (\<forall>x. reads (put_u128 c) (get_u128 c) x) \<and> (\<forall>x. reads (put_h256 c) (get_h256 c) x) \<and>
     (\<forall>x. reads (put_compact c) (get_compact c) x) \<and>
     (\<forall>bs. length bs < 2 ^ 29 \<longrightarrow> reads (put_bits c) (get_bits c) bs) \<and>
     (\<forall>h. reads (put_header c) (get_header c) h)"

section \<open>Composed decoders\<close>

fun get_repeat :: "nat \<Rightarrow> 'a decoder \<Rightarrow> 'a list decoder" where
  "get_repeat 0 d bs = Some ([], bs)"
| "get_repeat (Suc n) d bs = dbind d (\<lambda>x. dbind (get_repeat n d) (\<lambda>xs. dret (x # xs))) bs"

definition get_vec :: "codec \<Rightarrow> 'a decoder \<Rightarrow> 'a list decoder" where
  "get_vec c d = dbind (get_compact c) (\<lambda>n. get_repeat (unat n) d)"

definition get_option :: "'a decoder \<Rightarrow> 'a option decoder" where
  "get_option d = dbind get_u8 (\<lambda>tag.
     if tag = 0 then dret None else if tag = 1 then dbind d (\<lambda>x. dret (Some x)) else dfail)"

definition get_pair :: "'a decoder \<Rightarrow> 'b decoder \<Rightarrow> ('a \<times> 'b) decoder" where
  "get_pair d e = dbind d (\<lambda>x. dbind e (\<lambda>y. dret (x, y)))"

text \<open>\<open>T::decode_all(..)\<close>: the whole input or an error; \<open>T::decode(..)\<close> of a slice that is then dropped.\<close>

definition decode_all :: "'a decoder \<Rightarrow> bytes \<Rightarrow> 'a option" where
  "decode_all d bs = (case d bs of Some (x, []) \<Rightarrow> Some x | _ \<Rightarrow> None)"

definition decode_prefix :: "'a decoder \<Rightarrow> bytes \<Rightarrow> 'a option" where
  "decode_prefix d bs = map_option fst (d bs)"

section \<open>Encoders\<close>

definition put_vec :: "codec \<Rightarrow> ('a \<Rightarrow> bytes) \<Rightarrow> 'a list \<Rightarrow> bytes" where
  "put_vec c put xs = put_compact c (word_of_nat (length xs)) @ concat (map put xs)"

definition put_option :: "('a \<Rightarrow> bytes) \<Rightarrow> 'a option \<Rightarrow> bytes" where
  "put_option put m = (case m of None \<Rightarrow> [0] | Some x \<Rightarrow> 1 # put x)"

definition put_pair :: "('a \<Rightarrow> bytes) \<Rightarrow> ('b \<Rightarrow> bytes) \<Rightarrow> 'a \<times> 'b \<Rightarrow> bytes" where
  "put_pair p q = (\<lambda>(x, y). p x @ q y)"

section \<open>What is read back\<close>

lemma dbind_simps [simp]:
  "d bs = None \<Longrightarrow> dbind d f bs = None"
  "d bs = Some (x, rest) \<Longrightarrow> dbind d f bs = f x rest"
  by (simp_all add: dbind_def)

lemma dret_simp [simp]: "dret x bs = Some (x, bs)"
  by (simp add: dret_def)

lemma dfail_simp [simp]: "dfail bs = None"
  by (simp add: dfail_def)

lemma get_u8_Cons [simp]: "get_u8 (b # rest) = Some (b, rest)"
  by (simp add: get_u8_def)

lemma get_array_append [simp]: "length a = n \<Longrightarrow> get_array n (a @ rest) = Some (a, rest)"
  by (auto simp: get_array_def)

lemma readsI: "(\<And>rest. get (put x @ rest) = Some (x, rest)) \<Longrightarrow> reads put get x"
  by (simp add: reads_def)

lemma readsD: "reads put get x \<Longrightarrow> get (put x @ rest) = Some (x, rest)"
  by (simp add: reads_def)

lemma readsD0: "reads put get x \<Longrightarrow> get (put x) = Some (x, [])"
  using readsD [of put get x "[]"] by simp

lemma lawful_reads:
  assumes "lawful c"
  shows "reads (put_u32 c) (get_u32 c) w" "reads (put_u64 c) (get_u64 c) w'"
    "reads (put_u128 c) (get_u128 c) w''" "reads (put_h256 c) (get_h256 c) h"
    "reads (put_compact c) (get_compact c) n" "reads (put_header c) (get_header c) hdr"
    "length bs < 2 ^ 29 \<Longrightarrow> reads (put_bits c) (get_bits c) bs"
  using assms by (simp_all add: lawful_def)

lemma reads_id: "reads (\<lambda>b. [b]) get_u8 b" "length a = n \<Longrightarrow> reads id (get_array n) a"
  by (simp_all add: reads_def)

lemma reads_repeat:
  assumes "\<And>x. x \<in> set xs \<Longrightarrow> reads put get x"
  shows "get_repeat (length xs) get (concat (map put xs) @ rest) = Some (xs, rest)"
  using assms by (induction xs) (simp_all add: readsD)

lemma reads_vec:
  assumes "lawful c" "length xs < 2 ^ 32" "\<And>x. x \<in> set xs \<Longrightarrow> reads put get x"
  shows "reads (put_vec c put) (get_vec c get) xs"
proof -
  have "unat (word_of_nat (length xs) :: u32) = length xs"
    using assms(2) unat_usize_as_u32 [of "length xs"] by (simp add: usize_as_u32_def)
  with assms(1,3) show ?thesis
    by (intro readsI) (simp add: put_vec_def get_vec_def readsD [OF lawful_reads(5)] reads_repeat)
qed

lemma reads_option:
  assumes "\<And>x. m = Some x \<Longrightarrow> reads put get x"
  shows "reads (put_option put) (get_option get) m"
  using assms by (cases m) (simp_all add: reads_def put_option_def get_option_def)

lemma reads_pair:
  assumes "reads p d (fst xy)" "reads q e (snd xy)"
  shows "reads (put_pair p q) (get_pair d e) xy"
  using assms by (cases xy) (simp add: reads_def put_pair_def get_pair_def)

lemma decode_all_reads:
  assumes "reads put get x"
  shows "decode_all get (put x @ extra) = (if extra = [] then Some x else None)"
  using assms by (cases extra) (simp_all add: decode_all_def readsD readsD0)

lemma decode_prefix_reads:
  assumes "reads put get x"
  shows "decode_prefix get (put x @ extra) = Some x"
  using assms by (simp add: decode_prefix_def readsD)

lemma decode_all_prefix: "decode_all d bs = Some x \<Longrightarrow> decode_prefix d bs = Some x"
  by (auto simp: decode_all_def decode_prefix_def split: option.splits list.splits)

section \<open>The documented format\<close>

text \<open>Little-endian integers; a compact number below \<open>2 ^ 6\<close>, \<open>2 ^ 14\<close>, \<open>2 ^ 30\<close> in one, two, four bytes
  whose two low bits say how many, a larger one after a byte \<open>3\<close>; bits packed from the lowest on; of a
  header the parent hash and the compact number, then two roots and an empty digest.\<close>

fun le_bytes :: "nat \<Rightarrow> 'a::len word \<Rightarrow> bytes" where
  "le_bytes 0 w = []"
| "le_bytes (Suc n) w = ucast w # le_bytes n (drop_bit 8 w)"

definition from_le_bytes :: "bytes \<Rightarrow> 'a::len word" where
  "from_le_bytes bs = foldr (\<lambda>b n. ucast b + 256 * n) bs 0"

definition get_le :: "nat \<Rightarrow> 'a::len word decoder" where
  "get_le n = dbind (get_array n) (\<lambda>bs. dret (from_le_bytes bs))"

definition compact_bytes :: "u32 \<Rightarrow> bytes" where
  "compact_bytes n =
     (if n < 2 ^ 6 then le_bytes 1 (4 * n) else if n < 2 ^ 14 then le_bytes 2 (4 * n + 1)
      else if n < 2 ^ 30 then le_bytes 4 (4 * n + 2) else 3 # le_bytes 4 n)"

definition get_compact_bytes :: "u32 decoder" where
  "get_compact_bytes bs =
     (case bs of [] \<Rightarrow> None
      | b # rest \<Rightarrow>
          if b mod 4 = 3 then (if b = 3 then get_le 4 rest else None)
          else dbind (get_le (if b mod 4 = 0 then 1 else if b mod 4 = 1 then 2 else 4)) (\<lambda>w. dret (drop_bit 2 w)) bs)"

function pack_bits :: "bool list \<Rightarrow> bytes" where
  "pack_bits bs = (if bs = [] then [] else horner_sum of_bool 2 (take 8 bs) # pack_bits (drop 8 bs))"
  by pat_completeness auto
termination by (relation "measure length") auto

declare pack_bits.simps [simp del]

lemma pack_bits_Nil [simp]: "pack_bits [] = []"
  by (simp add: pack_bits.simps)

definition unpack_bits :: "bytes \<Rightarrow> bool list" where
  "unpack_bits bytes = concat (map (\<lambda>b. map (bit b) [0..<8]) bytes)"

definition scale_codec :: codec where
  "scale_codec =
     \<lparr>put_u32 = le_bytes 4, get_u32 = get_le 4, put_u64 = le_bytes 8, get_u64 = get_le 8,
      put_u128 = le_bytes 16, get_u128 = get_le 16, put_h256 = le_bytes 32, get_h256 = get_le 32,
      put_compact = compact_bytes, get_compact = get_compact_bytes,
      put_bits = (\<lambda>bs. compact_bytes (word_of_nat (length bs)) @ pack_bits bs),
      get_bits = dbind get_compact_bytes (\<lambda>n.
        dbind (get_array ((unat n + 7) div 8)) (\<lambda>bytes. dret (take (unat n) (unpack_bits bytes)))),
      put_header = (\<lambda>h. le_bytes 32 (hd_parent_hash h) @ compact_bytes (hd_number h) @ replicate 64 0 @ [0]),
      get_header = dbind (get_le 32) (\<lambda>parent. dbind get_compact_bytes (\<lambda>n. dbind (get_array 64) (\<lambda>_.
        dbind get_u8 (\<lambda>b. if b = 0 then dret \<lparr>hd_number = n, hd_parent_hash = parent\<rparr> else dfail))))\<rparr>"

lemma length_le_bytes [simp]: "length (le_bytes n w) = n"
  by (induction n arbitrary: w) simp_all

lemma from_le_bytes_take: "from_le_bytes (le_bytes n w) = (take_bit (8 * n) w :: 'a::len word)"
proof (induction n arbitrary: w)
  case (Suc n)
  let ?a = "take_bit (8 * Suc n) w"
  have "256 * from_le_bytes (le_bytes n (drop_bit 8 w)) = push_bit 8 (drop_bit 8 ?a)"
    by (simp add: Suc push_bit_eq_mult drop_bit_take_bit mult.commute)
  moreover have "ucast (ucast w :: u8) = take_bit 8 ?a"
    by (rule bit_word_eqI) (auto simp: bit_ucast_iff bit_take_bit_iff)
  ultimately show ?case
    using bits_ident [of 8 ?a] by (simp add: from_le_bytes_def add.commute)
qed (simp add: from_le_bytes_def)

lemma reads_le: "8 * n = LENGTH('a) \<Longrightarrow> reads (le_bytes n) (get_le n) (w :: 'a::len word)"
  by (simp add: reads_def get_le_def from_le_bytes_take take_bit_word_eq_self)

lemma get_le_small:
  "unat w < 2 ^ (8 * n) \<Longrightarrow> get_le n (le_bytes n w @ rest) = Some (w :: 'a::len word, rest)"
  by (simp add: get_le_def from_le_bytes_take word_unat_eq_iff unsigned_take_bit_eq take_bit_nat_eq_self)

lemma compact_mode:
  fixes n :: u32
  assumes "n < 2 ^ 30" "k \<le> 3"
  shows "unat (4 * n + k) = 4 * unat n + unat k" "drop_bit 2 (4 * n + k) = n"
    "unat (ucast (4 * n + k) mod 4 :: u8) = unat k"
proof -
  have n: "unat n < 2 ^ 30" "unat k \<le> 3" using assms by (simp_all add: word_less_nat_alt word_le_nat_alt)
  then show sum: "unat (4 * n + k) = 4 * unat n + unat k"
    by (simp add: unat_word_ariths)
  show "drop_bit 2 (4 * n + k) = n"
    using n by (simp add: word_unat_eq_iff unat_drop_bit_eq sum flip: drop_bit_eq_div)
      (simp add: drop_bit_eq_div)
  have "(4 * unat n + unat k) mod 256 mod 4 = unat k"
    using n(2) by (simp add: mod_mod_cancel)
  then show "unat (ucast (4 * n + k) mod 4 :: u8) = unat k"
    by (simp add: unat_mod unsigned_ucast_eq take_bit_eq_mod sum)
qed

lemma reads_compact: "reads compact_bytes get_compact_bytes n"
proof -
  have mode: "get_compact_bytes (le_bytes m (4 * n + k) @ rest) = Some (n, rest)"
    if "n < 2 ^ 30" "(k = 0 \<and> m = 1) \<or> (k = 1 \<and> m = 2) \<or> (k = 2 \<and> m = 4)" "unat (4 * n + k) < 2 ^ (8 * m)"
    for k m rest
  proof -
    have "k \<le> 3" using that(2) by auto
    note facts = compact_mode [OF that(1) this]
    have tag: "ucast (4 * n + k) mod 4 = (ucast k :: u8)"
      using facts(3) that(2) by (elim disjE conjE) (simp_all add: word_unat_eq_iff [where 'a = 8])
    have "le_bytes m (4 * n + k) = ucast (4 * n + k) # le_bytes (m - 1) (drop_bit 8 (4 * n + k))"
      using that(2) by (cases m) auto
    with tag that(2) get_le_small [OF that(3), of rest] facts(2) show ?thesis
      by (elim disjE conjE) (simp_all add: get_compact_bytes_def)
  qed
  have large: "get_compact_bytes (3 # le_bytes 4 n @ rest) = Some (n, rest)" for rest
    by (simp add: get_compact_bytes_def readsD [OF reads_le])
  show ?thesis
  proof (rule readsI)
    fix rest
    consider "n < 2 ^ 6" | "\<not> n < 2 ^ 6" "n < 2 ^ 14" | "\<not> n < 2 ^ 14" "n < 2 ^ 30" | "\<not> n < 2 ^ 30"
      by blast
    then show "get_compact_bytes (compact_bytes n @ rest) = Some (n, rest)"
    proof cases
      case 1
      with mode [of 0 1 rest] compact_mode(1) [of n 0] show ?thesis
        by (simp add: compact_bytes_def word_less_nat_alt)
    next
      case 2
      with mode [of 1 2 rest] compact_mode(1) [of n 1] show ?thesis
        by (simp add: compact_bytes_def word_less_nat_alt)
    next
      case 3
      with mode [of 2 4 rest] compact_mode(1) [of n 2] show ?thesis
        by (simp add: compact_bytes_def word_less_nat_alt)
    next
      case 4
      with large [of rest] show ?thesis by (simp add: compact_bytes_def word_less_nat_alt)
    qed
  qed
qed

lemma unpack_pack: "take (length bs) (unpack_bits (pack_bits bs)) = bs"
proof (induction bs rule: pack_bits.induct)
  case (1 bs)
  let ?byte = "horner_sum of_bool 2 (take 8 bs) :: u8"
  show ?case
  proof (cases "bs = []")
    case False
    have bits: "map (bit ?byte) [0..<8] = take 8 bs @ replicate (8 - length bs) False"
      by (rule nth_equalityI) (auto simp: bit_horner_sum_bit_word_iff nth_append)
    have "unpack_bits (pack_bits bs) =
        take 8 bs @ replicate (8 - length bs) False @ unpack_bits (pack_bits (drop 8 bs))"
      using False bits by (subst pack_bits.simps) (simp add: unpack_bits_def)
    then show ?thesis
      using 1 [OF False] by (cases "length bs \<le> 8") simp_all
  qed simp
qed

lemma length_pack_bits: "length (pack_bits bs) = (length bs + 7) div 8"
proof (induction bs rule: pack_bits.induct)
  case (1 bs)
  show ?case
  proof (cases "bs = []")
    case False
    have "(n + 7) div 8 = Suc ((n - 8 + 7) div 8)" if "0 < n" for n :: nat
    proof (cases "n \<le> 8")
      case True
      with that have "(n + 7) div 8 = 1" by (intro div_nat_eqI) auto
      with True show ?thesis by simp
    next
      case False
      then obtain m where "n = m + 8" by (metis le_add_diff_inverse2 nat_le_linear)
      then show ?thesis using div_add_self2 [of 8 "m + 7"] by simp
    qed
    from this [of "length bs"] 1 [OF False] False show ?thesis
      by (subst pack_bits.simps) (simp del: drop_eq_Nil)
  qed simp
qed

lemma scale_codec_lawful: "lawful scale_codec"
proof -
  have bits: "reads (put_bits scale_codec) (get_bits scale_codec) bs" if "length bs < 2 ^ 29" for bs
  proof (rule readsI)
    fix rest
    have "unat (word_of_nat (length bs) :: u32) = length bs"
      using that unat_usize_as_u32 [of "length bs"] by (simp add: usize_as_u32_def)
    then show "get_bits scale_codec (put_bits scale_codec bs @ rest) = Some (bs, rest)"
      by (simp add: scale_codec_def readsD [OF reads_compact] length_pack_bits unpack_pack)
  qed
  moreover have "reads (put_header scale_codec) (get_header scale_codec) h" for h
    by (rule readsI) (simp add: scale_codec_def readsD [OF reads_compact] readsD [OF reads_le])
  ultimately show ?thesis
    unfolding lawful_def by (intro conjI allI impI) (simp_all add: scale_codec_def reads_le reads_compact)
qed

end
