(* ===== verification/Decode.thy ===== *)
theory Decode
  imports Scale Disputes
begin

text \<open>
  The metadata-free decoders of \<^verbatim>\<open>essentials/src/api/decode.rs\<close> and the storage keys they go with, over a
  \<open>codec\<close>. A \<open>[u8; 32]\<close> that is read as a hash, an account or a key is an \<open>h256\<close>, other byte arrays are byte
  lists. An error of \<^verbatim>\<open>eyre\<close> is \<open>None\<close>, or \<open>Inl\<close> where the function tells the errors apart. The hash
  functions \<^verbatim>\<open>twox_64\<close>, \<^verbatim>\<open>twox_128\<close> and the hasher of the chain are parameters.
\<close>

section \<open>Candidate events\<close>

definition candidate_descriptor_size :: nat where
  "candidate_descriptor_size = 292"

definition candidate_receipt_size :: nat where
  "candidate_receipt_size = candidate_descriptor_size + 32"

definition receipt_tail_size :: nat where
  "receipt_tail_size = candidate_receipt_size - 4 - 32"

record raw_candidate_receipt =
  rr_para_id :: u32
  rr_relay_parent :: h256
  rr_tail :: bytes

definition put_receipt :: "codec \<Rightarrow> raw_candidate_receipt \<Rightarrow> bytes" where
  "put_receipt c r = put_u32 c (rr_para_id r) @ put_h256 c (rr_relay_parent r) @ rr_tail r"

definition get_receipt :: "codec \<Rightarrow> raw_candidate_receipt decoder" where
  "get_receipt c =
     dbind (get_u32 c) (\<lambda>para_id. dbind (get_h256 c) (\<lambda>relay_parent.
     dbind (get_array receipt_tail_size) (\<lambda>tail.
       dret \<lparr>rr_para_id = para_id, rr_relay_parent = relay_parent, rr_tail = tail\<rparr>)))"

datatype raw_candidate_event =
    RawBacked raw_candidate_receipt bytes u32 u32
  | RawIncluded raw_candidate_receipt bytes u32 u32
  | RawTimedOut raw_candidate_receipt bytes u32

definition get_candidate_event :: "codec \<Rightarrow> raw_candidate_event decoder" where
  "get_candidate_event c = dbind get_u8 (\<lambda>tag.
     if tag = 0 then dbind (get_receipt c) (\<lambda>r. dbind (get_vec c get_u8) (\<lambda>head.
       dbind (get_u32 c) (\<lambda>core. dbind (get_u32 c) (\<lambda>grp. dret (RawBacked r head core grp)))))
     else if tag = 1 then dbind (get_receipt c) (\<lambda>r. dbind (get_vec c get_u8) (\<lambda>head.
       dbind (get_u32 c) (\<lambda>core. dbind (get_u32 c) (\<lambda>grp. dret (RawIncluded r head core grp)))))
     else if tag = 2 then dbind (get_receipt c) (\<lambda>r. dbind (get_vec c get_u8) (\<lambda>head.
       dbind (get_u32 c) (\<lambda>core. dret (RawTimedOut r head core))))
     else dfail)"

definition candidate_event_of :: "codec \<Rightarrow> (bytes \<Rightarrow> h256) \<Rightarrow> raw_candidate_event \<Rightarrow> candidate_event" where
  "candidate_event_of c hash event =
     (let (receipt, event_type, core_idx) =
        (case event of
           RawBacked receipt _ core _ \<Rightarrow> (receipt, CandidateBacked, core)
         | RawIncluded receipt _ core _ \<Rightarrow> (receipt, CandidateIncluded, core)
         | RawTimedOut receipt _ core \<Rightarrow> (receipt, CandidateTimedOut, core))
      in \<lparr>ce_candidate_hash = hash (put_receipt c receipt), ce_relay_parent = rr_relay_parent receipt,
          ce_parachain_id = rr_para_id receipt, ce_event_type = event_type, ce_core_idx = core_idx\<rparr>)"

definition decode_candidate_events :: "codec \<Rightarrow> (bytes \<Rightarrow> h256) \<Rightarrow> bytes \<Rightarrow> candidate_event list option" where
  "decode_candidate_events c hash bytes =
     map_option (map (candidate_event_of c hash)) (decode_all (get_vec c (get_candidate_event c)) bytes)"

section \<open>Disputes\<close>

definition get_raw_dispute :: "codec \<Rightarrow> raw_dispute decoder" where
  "get_raw_dispute c =
     dbind (get_u32 c) (\<lambda>session. dbind (get_h256 c) (\<lambda>candidate_hash.
     dbind (get_bits c) (\<lambda>validators_for. dbind (get_bits c) (\<lambda>validators_against.
     dbind (get_u32 c) (\<lambda>start. dbind (get_option (get_u32 c)) (\<lambda>concluded_at.
       dret \<lparr>rd_session = session, rd_candidate_hash = candidate_hash, rd_validators_for = validators_for,
             rd_validators_against = validators_against, rd_start = start, rd_concluded_at = concluded_at\<rparr>))))))"

definition decode_disputes_bytes :: "codec \<Rightarrow> bytes \<Rightarrow> decode_error + decoded_dispute list" where
  "decode_disputes_bytes c bytes = decode_disputes (decode_all (get_vec c (get_raw_dispute c))) bytes"

section \<open>Cores, claim queue, groups, session\<close>

record raw_scheduled_core =
  rs_para_id :: u32
  rs_collator :: "h256 option"

definition get_scheduled_core :: "codec \<Rightarrow> raw_scheduled_core decoder" where
  "get_scheduled_core c =
     dbind (get_u32 c) (\<lambda>para_id. dbind (get_option (get_h256 c)) (\<lambda>collator.
       dret \<lparr>rs_para_id = para_id, rs_collator = collator\<rparr>))"

record raw_occupied_core =
  ro_next_up_on_available :: "raw_scheduled_core option"
  ro_occupied_since :: u32
  ro_time_out_at :: u32
  ro_next_up_on_time_out :: "raw_scheduled_core option"
  ro_availability :: "bool list"
  ro_group_responsible :: u32
  ro_candidate_hash :: h256
  ro_candidate_descriptor :: bytes

definition get_occupied_core :: "codec \<Rightarrow> raw_occupied_core decoder" where
  "get_occupied_core c =
     dbind (get_option (get_scheduled_core c)) (\<lambda>next_available. dbind (get_u32 c) (\<lambda>since.
     dbind (get_u32 c) (\<lambda>time_out_at. dbind (get_option (get_scheduled_core c)) (\<lambda>next_time_out.
     dbind (get_bits c) (\<lambda>availability. dbind (get_u32 c) (\<lambda>grp. dbind (get_h256 c) (\<lambda>candidate_hash.
     dbind (get_array candidate_descriptor_size) (\<lambda>descriptor.
       dret \<lparr>ro_next_up_on_available = next_available, ro_occupied_since = since, ro_time_out_at = time_out_at,
             ro_next_up_on_time_out = next_time_out, ro_availability = availability, ro_group_responsible = grp,
             ro_candidate_hash = candidate_hash, ro_candidate_descriptor = descriptor\<rparr>))))))))"

datatype raw_core_state = RawOccupied raw_occupied_core | RawScheduled raw_scheduled_core | RawFree

definition get_core_state :: "codec \<Rightarrow> raw_core_state decoder" where
  "get_core_state c = dbind get_u8 (\<lambda>tag.
     if tag = 0 then dbind (get_occupied_core c) (\<lambda>core. dret (RawOccupied core))
     else if tag = 1 then dbind (get_scheduled_core c) (\<lambda>core. dret (RawScheduled core))
     else if tag = 2 then dret RawFree
     else dfail)"

fun core_state_of :: "raw_core_state \<Rightarrow> core_state" where
  "core_state_of (RawOccupied _) = CoreOccupied"
| "core_state_of (RawScheduled _) = CoreScheduled"
| "core_state_of RawFree = CoreFree"

definition decode_availability_cores :: "codec \<Rightarrow> bytes \<Rightarrow> core_state list option" where
  "decode_availability_cores c bytes = map_option (map core_state_of) (decode_all (get_vec c (get_core_state c)) bytes)"

definition get_u32_lists :: "codec \<Rightarrow> (u32 \<times> u32 list) list decoder" where
  "get_u32_lists c = get_vec c (get_pair (get_u32 c) (get_vec c (get_u32 c)))"

definition decode_claim_queue :: "codec \<Rightarrow> bytes \<Rightarrow> claim_queue option" where
  "decode_claim_queue c = decode_all (get_u32_lists c)"

definition decode_validator_groups :: "codec \<Rightarrow> bytes \<Rightarrow> u32 list list option" where
  "decode_validator_groups c bytes =
     map_option fst (decode_all
       (get_pair (get_vec c (get_vec c (get_u32 c))) (get_pair (get_u32 c) (get_pair (get_u32 c) (get_u32 c)))) bytes)"

definition decode_session_index :: "codec \<Rightarrow> bytes \<Rightarrow> u32 option" where
  "decode_session_index c = decode_all (get_u32 c)"

definition decode_account_keys :: "codec \<Rightarrow> bytes \<Rightarrow> account_id list option" where
  "decode_account_keys c = decode_all (get_vec c (get_h256 c))"

section \<open>Babe\<close>

record raw_babe_epoch =
  be_epoch_index :: u64
  be_start_slot :: u64
  be_duration :: u64
  be_authorities :: "(h256 \<times> u64) list"
  be_randomness :: h256

record decoded_babe_epoch =
  de_authorities :: "(h256 \<times> u64) list"
  de_randomness :: h256

definition get_babe_epoch :: "codec \<Rightarrow> raw_babe_epoch decoder" where
  "get_babe_epoch c =
     dbind (get_u64 c) (\<lambda>index. dbind (get_u64 c) (\<lambda>start. dbind (get_u64 c) (\<lambda>duration.
     dbind (get_vec c (get_pair (get_h256 c) (get_u64 c))) (\<lambda>authorities. dbind (get_h256 c) (\<lambda>randomness.
       dret \<lparr>be_epoch_index = index, be_start_slot = start, be_duration = duration,
             be_authorities = authorities, be_randomness = randomness\<rparr>)))))"

definition decode_babe_epoch :: "codec \<Rightarrow> bytes \<Rightarrow> decoded_babe_epoch option" where
  "decode_babe_epoch c bytes =
     map_option (\<lambda>raw. \<lparr>de_authorities = be_authorities raw, de_randomness = be_randomness raw\<rparr>)
       (decode_prefix (get_babe_epoch c) bytes)"

definition decode_slot :: "codec \<Rightarrow> bytes \<Rightarrow> u64 option" where
  "decode_slot c = decode_all (get_u64 c)"

definition decode_timestamp :: "codec \<Rightarrow> bytes \<Rightarrow> timestamp option" where
  "decode_timestamp c = decode_all (get_u64 c)"

section \<open>HRMP channels and session keys\<close>

definition decode_para_ids :: "codec \<Rightarrow> bytes \<Rightarrow> u32 list option" where
  "decode_para_ids c = decode_all (get_vec c (get_u32 c))"

definition decode_hrmp_channel_digests :: "codec \<Rightarrow> bytes \<Rightarrow> (u32 \<times> u32 list) list option" where
  "decode_hrmp_channel_digests c = decode_all (get_u32_lists c)"

record raw_session_keys =
  ks_grandpa :: h256
  ks_babe :: h256
  ks_para_validator :: h256
  ks_para_assignment :: h256
  ks_authority_discovery :: h256
  ks_beefy :: bytes

definition get_session_keys :: "codec \<Rightarrow> raw_session_keys decoder" where
  "get_session_keys c =
     dbind (get_h256 c) (\<lambda>grandpa. dbind (get_h256 c) (\<lambda>babe. dbind (get_h256 c) (\<lambda>validator.
     dbind (get_h256 c) (\<lambda>assignment. dbind (get_h256 c) (\<lambda>discovery. dbind (get_array 33) (\<lambda>beefy.
       dret \<lparr>ks_grandpa = grandpa, ks_babe = babe, ks_para_validator = validator,
             ks_para_assignment = assignment, ks_authority_discovery = discovery, ks_beefy = beefy\<rparr>))))))"

definition decode_queued_authority_discovery_keys :: "codec \<Rightarrow> bytes \<Rightarrow> (account_id \<times> h256) list option" where
  "decode_queued_authority_discovery_keys c bytes =
     map_option (map (\<lambda>(account, keys). (account, ks_authority_discovery keys)))
       (decode_all (get_vec c (get_pair (get_h256 c) (get_session_keys c))) bytes)"

definition decode_account_id :: "codec \<Rightarrow> bytes \<Rightarrow> account_id option" where
  "decode_account_id c = decode_all (get_h256 c)"

definition get_hrmp_channel :: "codec \<Rightarrow> hrmp_channel decoder" where
  "get_hrmp_channel c =
     dbind (get_u32 c) (\<lambda>max_capacity. dbind (get_u32 c) (\<lambda>max_total_size. dbind (get_u32 c) (\<lambda>max_message_size.
     dbind (get_u32 c) (\<lambda>msg_count. dbind (get_u32 c) (\<lambda>total_size. dbind (get_option (get_h256 c)) (\<lambda>mqc_head.
     dbind (get_u128 c) (\<lambda>sender_deposit. dbind (get_u128 c) (\<lambda>recipient_deposit.
       dret \<lparr>ch_max_capacity = max_capacity, ch_max_total_size = max_total_size,
             ch_max_message_size = max_message_size, ch_msg_count = msg_count, ch_total_size = total_size,
             ch_mqc_head = mqc_head, ch_sender_deposit = sender_deposit,
             ch_recipient_deposit = recipient_deposit\<rparr>))))))))"

definition decode_hrmp_channel :: "codec \<Rightarrow> bytes \<Rightarrow> hrmp_channel option" where
  "decode_hrmp_channel c = decode_all (get_hrmp_channel c)"

section \<open>Storage keys\<close>

definition storage_prefix :: "(bytes \<Rightarrow> bytes) \<Rightarrow> bytes \<Rightarrow> bytes \<Rightarrow> bytes" where
  "storage_prefix twox_128 pallet storage = twox_128 pallet @ twox_128 storage"

definition twox64_concat_key ::
  "(bytes \<Rightarrow> bytes) \<Rightarrow> (bytes \<Rightarrow> bytes) \<Rightarrow> bytes \<Rightarrow> bytes \<Rightarrow> bytes \<Rightarrow> bytes" where
  "twox64_concat_key twox_128 twox_64 pallet storage encoded_key =
     storage_prefix twox_128 pallet storage @ twox_64 encoded_key @ encoded_key"

definition para_session_account_keys_key :: "codec \<Rightarrow> (bytes \<Rightarrow> bytes) \<Rightarrow> u32 \<Rightarrow> bytes" where
  "para_session_account_keys_key c twox_128 session_index =
     storage_prefix twox_128 (ascii ''ParaSessionInfo'') (ascii ''AccountKeys'') @ put_u32 c session_index"

definition babe_current_slot_key :: "(bytes \<Rightarrow> bytes) \<Rightarrow> bytes" where
  "babe_current_slot_key twox_128 = storage_prefix twox_128 (ascii ''Babe'') (ascii ''CurrentSlot'')"

definition timestamp_now_key :: "(bytes \<Rightarrow> bytes) \<Rightarrow> bytes" where
  "timestamp_now_key twox_128 = storage_prefix twox_128 (ascii ''Timestamp'') (ascii ''Now'')"

definition queued_keys_key :: "(bytes \<Rightarrow> bytes) \<Rightarrow> bytes" where
  "queued_keys_key twox_128 = storage_prefix twox_128 (ascii ''Session'') (ascii ''QueuedKeys'')"

definition hrmp_egress_channels_index_key ::
  "codec \<Rightarrow> (bytes \<Rightarrow> bytes) \<Rightarrow> (bytes \<Rightarrow> bytes) \<Rightarrow> u32 \<Rightarrow> bytes" where
  "hrmp_egress_channels_index_key c twox_128 twox_64 para_id =
     twox64_concat_key twox_128 twox_64 (ascii ''Hrmp'') (ascii ''HrmpEgressChannelsIndex'') (put_u32 c para_id)"

definition hrmp_channel_digests_key ::
  "codec \<Rightarrow> (bytes \<Rightarrow> bytes) \<Rightarrow> (bytes \<Rightarrow> bytes) \<Rightarrow> u32 \<Rightarrow> bytes" where
  "hrmp_channel_digests_key c twox_128 twox_64 para_id =
     twox64_concat_key twox_128 twox_64 (ascii ''Hrmp'') (ascii ''HrmpChannelDigests'') (put_u32 c para_id)"

definition hrmp_channels_key ::
  "codec \<Rightarrow> (bytes \<Rightarrow> bytes) \<Rightarrow> (bytes \<Rightarrow> bytes) \<Rightarrow> u32 \<Rightarrow> u32 \<Rightarrow> bytes" where
  "hrmp_channels_key c twox_128 twox_64 sender recipient =
     twox64_concat_key twox_128 twox_64 (ascii ''Hrmp'') (ascii ''HrmpChannels'')
       (put_pair (put_u32 c) (put_u32 c) (sender, recipient))"

definition session_key_owner_key ::
  "codec \<Rightarrow> (bytes \<Rightarrow> bytes) \<Rightarrow> (bytes \<Rightarrow> bytes) \<Rightarrow> bytes \<Rightarrow> bytes \<Rightarrow> bytes" where
  "session_key_owner_key c twox_128 twox_64 key_type_id public =
     twox64_concat_key twox_128 twox_64 (ascii ''Session'') (ascii ''KeyOwner'')
       (put_pair id (put_vec c (\<lambda>b. [b])) (key_type_id, public))"

end
