(* ===== verification/Parainherent.thy ===== *)
theory Parainherent
  imports Decode
begin

text \<open>
  Decoding the inherent of a block, \<^verbatim>\<open>decode_parainherent\<close> of \<^verbatim>\<open>essentials/src/api/decode.rs\<close>: the envelope
  of the extrinsic, then the sections of \<^verbatim>\<open>ParachainsInherentData\<close> one after the other.
\<close>

section \<open>Dispute statements\<close>

definition get_valid_kind :: "codec \<Rightarrow> valid_kind decoder" where
  "get_valid_kind c = dbind get_u8 (\<lambda>tag.
     if tag = 0 then dret VExplicit
     else if tag = 1 then dbind (get_h256 c) (\<lambda>h. dret (BackingSeconded h))
     else if tag = 2 then dbind (get_h256 c) (\<lambda>h. dret (BackingValid h))
     else if tag = 3 then dret ApprovalChecking
     else if tag = 4 then dbind (get_vec c (get_h256 c)) (\<lambda>hs. dret (ApprovalCheckingMultipleCandidates hs))
     else dfail)"

definition get_invalid_kind :: "invalid_kind decoder" where
  "get_invalid_kind = dbind get_u8 (\<lambda>tag. if tag = 0 then dret IExplicit else dfail)"

definition get_statement :: "codec \<Rightarrow> dispute_statement decoder" where
  "get_statement c = dbind get_u8 (\<lambda>tag.
     if tag = 0 then dbind (get_valid_kind c) (\<lambda>k. dret (ValidStatement k))
     else if tag = 1 then dbind get_invalid_kind (\<lambda>k. dret (InvalidStatement k))
     else dfail)"

record raw_statement_set =
  rt_candidate_hash :: h256
  rt_session :: u32
  rt_statements :: "(dispute_statement \<times> u32 \<times> bytes) list"

definition get_statement_set :: "codec \<Rightarrow> raw_statement_set decoder" where
  "get_statement_set c =
     dbind (get_h256 c) (\<lambda>candidate_hash. dbind (get_u32 c) (\<lambda>session.
     dbind (get_vec c (get_pair (get_statement c) (get_pair (get_u32 c) (get_array 64)))) (\<lambda>statements.
       dret \<lparr>rt_candidate_hash = candidate_hash, rt_session = session, rt_statements = statements\<rparr>)))"

section \<open>Backed candidates\<close>

record raw_commitments =
  rc_upward_messages :: "bytes list"
  rc_horizontal_messages :: "(u32 \<times> bytes) list"
  rc_new_validation_code :: "bytes option"
  rc_head_data :: bytes
  rc_processed_downward_messages :: u32
  rc_hrmp_watermark :: u32

definition get_commitments :: "codec \<Rightarrow> raw_commitments decoder" where
  "get_commitments c =
     dbind (get_vec c (get_vec c get_u8)) (\<lambda>upward.
     dbind (get_vec c (get_pair (get_u32 c) (get_vec c get_u8))) (\<lambda>horizontal.
     dbind (get_option (get_vec c get_u8)) (\<lambda>validation_code. dbind (get_vec c get_u8) (\<lambda>head_data.
     dbind (get_u32 c) (\<lambda>processed. dbind (get_u32 c) (\<lambda>watermark.
       dret \<lparr>rc_upward_messages = upward, rc_horizontal_messages = horizontal,
             rc_new_validation_code = validation_code, rc_head_data = head_data,
             rc_processed_downward_messages = processed, rc_hrmp_watermark = watermark\<rparr>))))))"

datatype raw_attestation = AttImplicit bytes | AttExplicit bytes

definition get_attestation :: "raw_attestation decoder" where
  "get_attestation = dbind get_u8 (\<lambda>tag.
     if tag = 1 then dbind (get_array 64) (\<lambda>signature. dret (AttImplicit signature))
     else if tag = 2 then dbind (get_array 64) (\<lambda>signature. dret (AttExplicit signature))
     else dfail)"

record raw_backed_candidate =
  rb_descriptor :: bytes
  rb_commitments :: raw_commitments
  rb_validity_votes :: "raw_attestation list"
  rb_validator_indices :: "bool list"

definition get_backed_candidate :: "codec \<Rightarrow> raw_backed_candidate decoder" where
  "get_backed_candidate c =
     dbind (get_array candidate_descriptor_size) (\<lambda>descriptor. dbind (get_commitments c) (\<lambda>commitments.
     dbind (get_vec c get_attestation) (\<lambda>votes. dbind (get_bits c) (\<lambda>validator_indices.
       dret \<lparr>rb_descriptor = descriptor, rb_commitments = commitments, rb_validity_votes = votes,
             rb_validator_indices = validator_indices\<rparr>))))"

section \<open>The extrinsic\<close>

datatype parainherent_error =
    NoLengthPrefix
  | LengthPrefix nat nat
  | NoVersionByte
  | NotBare u8
  | NoPalletIndex
  | NoCallIndex
  | NoBitfieldsLength
  | BadBitfield nat
  | NoValidatorIndex nat
  | NoSignature nat
  | BadBackedCandidates
  | BadDisputes
  | BadHeader
  | TrailingBytes nat

text \<open>\<open>T::decode(&mut input).map_err(e)\<close>.\<close>

definition take_part :: "'a decoder \<Rightarrow> 'e \<Rightarrow> bytes \<Rightarrow> 'e + 'a \<times> bytes" where
  "take_part d e input = (case d input of None \<Rightarrow> Inl e | Some r \<Rightarrow> Inr r)"

text \<open>The loop over the bitfields from number \<open>i\<close> on, \<open>n\<close> of them.\<close>

fun take_bitfields :: "codec \<Rightarrow> nat \<Rightarrow> nat \<Rightarrow> bytes \<Rightarrow> parainherent_error + bitfield list \<times> bytes" where
  "take_bitfields c i 0 input = Inr ([], input)"
| "take_bitfields c i (Suc n) input =
     rbind (take_part (get_bits c) (BadBitfield i) input) (\<lambda>(payload, input).
     rbind (take_part (get_u32 c) (NoValidatorIndex i) input) (\<lambda>(_, input).
     rbind (take_part (get_array 64) (NoSignature i) input) (\<lambda>(_, input).
     rbind (take_bitfields c (Suc i) n input) (\<lambda>(payloads, input).
       Inr (payload # payloads, input)))))"

definition statement_set_of :: "raw_statement_set \<Rightarrow> dispute_statement_set" where
  "statement_set_of s =
     \<lparr>ds_candidate_hash = rt_candidate_hash s, ds_session = rt_session s,
      ds_statements = map (\<lambda>(statement, index, _). (statement, index)) (rt_statements s)\<rparr>"

definition decode_parainherent :: "codec \<Rightarrow> bytes \<Rightarrow> parainherent_error + inherent_data" where
  "decode_parainherent c extrinsic =
     rbind (take_part (get_compact c) NoLengthPrefix extrinsic) (\<lambda>(len, input).
     if u32_as_usize len \<noteq> length input then Inl (LengthPrefix (u32_as_usize len) (length input)) else
     rbind (take_part get_u8 NoVersionByte input) (\<lambda>(version, input).
     if drop_bit 6 version \<noteq> 0 then Inl (NotBare version) else
     rbind (take_part get_u8 NoPalletIndex input) (\<lambda>(_, input).
     rbind (take_part get_u8 NoCallIndex input) (\<lambda>(_, input).
     rbind (take_part (get_compact c) NoBitfieldsLength input) (\<lambda>(count, input).
     rbind (take_bitfields c 0 (unat count) input) (\<lambda>(bitfields, input).
     rbind (take_part (get_vec c (get_backed_candidate c)) BadBackedCandidates input) (\<lambda>(_, input).
     rbind (take_part (get_vec c (get_statement_set c)) BadDisputes input) (\<lambda>(disputes, input).
     rbind (take_part (get_header c) BadHeader input) (\<lambda>(_, input).
     if input \<noteq> [] then Inl (TrailingBytes (length input)) else
     Inr \<lparr>ih_bitfields = bitfields, ih_disputes = map statement_set_of disputes\<rparr>)))))))))"

end
