(* ===== verification/Decode_Laws.thy ===== *)
theory Decode_Laws
  imports Decode
begin

text \<open>
  What the decoders of \<open>Decode\<close> promise: with encoders for the wire form that the sources describe, every
  decoder that uses \<^verbatim>\<open>decode_all\<close> reads back what was encoded and refuses trailing bytes, and the Babe
  epoch tolerates them.
\<close>

section \<open>Encoders\<close>

definition put_bytes :: "codec \<Rightarrow> bytes \<Rightarrow> bytes" where
  "put_bytes c = put_vec c (\<lambda>b. [b])"

fun put_candidate_event :: "codec \<Rightarrow> raw_candidate_event \<Rightarrow> bytes" where
  "put_candidate_event c (RawBacked r head core grp) =
     0 # put_receipt c r @ put_bytes c head @ put_u32 c core @ put_u32 c grp"
| "put_candidate_event c (RawIncluded r head core grp) =
     1 # put_receipt c r @ put_bytes c head @ put_u32 c core @ put_u32 c grp"
| "put_candidate_event c (RawTimedOut r head core) = 2 # put_receipt c r @ put_bytes c head @ put_u32 c core"

definition receipt_wf :: "raw_candidate_receipt \<Rightarrow> bool" where
  "receipt_wf r \<longleftrightarrow> length (rr_tail r) = receipt_tail_size"

fun candidate_event_wf :: "raw_candidate_event \<Rightarrow> bool" where
  "candidate_event_wf (RawBacked r head _ _) \<longleftrightarrow> receipt_wf r \<and> length head < 2 ^ 32"
| "candidate_event_wf (RawIncluded r head _ _) \<longleftrightarrow> receipt_wf r \<and> length head < 2 ^ 32"
| "candidate_event_wf (RawTimedOut r head _) \<longleftrightarrow> receipt_wf r \<and> length head < 2 ^ 32"

definition put_raw_dispute :: "codec \<Rightarrow> raw_dispute \<Rightarrow> bytes" where
  "put_raw_dispute c d =
     put_u32 c (rd_session d) @ put_h256 c (rd_candidate_hash d) @ put_bits c (rd_validators_for d) @
     put_bits c (rd_validators_against d) @ put_u32 c (rd_start d) @
     put_option (put_u32 c) (rd_concluded_at d)"

definition raw_dispute_wf :: "raw_dispute \<Rightarrow> bool" where
  "raw_dispute_wf d \<longleftrightarrow> length (rd_validators_for d) < 2 ^ 29 \<and> length (rd_validators_against d) < 2 ^ 29"

definition put_scheduled_core :: "codec \<Rightarrow> raw_scheduled_core \<Rightarrow> bytes" where
  "put_scheduled_core c s = put_u32 c (rs_para_id s) @ put_option (put_h256 c) (rs_collator s)"

definition put_occupied_core :: "codec \<Rightarrow> raw_occupied_core \<Rightarrow> bytes" where
  "put_occupied_core c k =
     put_option (put_scheduled_core c) (ro_next_up_on_available k) @ put_u32 c (ro_occupied_since k) @
     put_u32 c (ro_time_out_at k) @ put_option (put_scheduled_core c) (ro_next_up_on_time_out k) @
     put_bits c (ro_availability k) @ put_u32 c (ro_group_responsible k) @ put_h256 c (ro_candidate_hash k) @
     ro_candidate_descriptor k"

fun put_core_state :: "codec \<Rightarrow> raw_core_state \<Rightarrow> bytes" where
  "put_core_state c (RawOccupied k) = 0 # put_occupied_core c k"
| "put_core_state c (RawScheduled s) = 1 # put_scheduled_core c s"
| "put_core_state c RawFree = [2]"

fun core_wf :: "raw_core_state \<Rightarrow> bool" where
  "core_wf (RawOccupied k) \<longleftrightarrow>
     length (ro_availability k) < 2 ^ 29 \<and> length (ro_candidate_descriptor k) = candidate_descriptor_size"
| "core_wf _ \<longleftrightarrow> True"

definition put_u32_lists :: "codec \<Rightarrow> (u32 \<times> u32 list) list \<Rightarrow> bytes" where
  "put_u32_lists c = put_vec c (put_pair (put_u32 c) (put_vec c (put_u32 c)))"

definition put_babe_epoch :: "codec \<Rightarrow> raw_babe_epoch \<Rightarrow> bytes" where
  "put_babe_epoch c e =
     put_u64 c (be_epoch_index e) @ put_u64 c (be_start_slot e) @ put_u64 c (be_duration e) @
     put_vec c (put_pair (put_h256 c) (put_u64 c)) (be_authorities e) @ put_h256 c (be_randomness e)"

definition put_session_keys :: "codec \<Rightarrow> raw_session_keys \<Rightarrow> bytes" where
  "put_session_keys c k =
     put_h256 c (ks_grandpa k) @ put_h256 c (ks_babe k) @ put_h256 c (ks_para_validator k) @
     put_h256 c (ks_para_assignment k) @ put_h256 c (ks_authority_discovery k) @ ks_beefy k"

definition put_hrmp_channel :: "codec \<Rightarrow> hrmp_channel \<Rightarrow> bytes" where
  "put_hrmp_channel c h =
     put_u32 c (ch_max_capacity h) @ put_u32 c (ch_max_total_size h) @ put_u32 c (ch_max_message_size h) @
     put_u32 c (ch_msg_count h) @ put_u32 c (ch_total_size h) @ put_option (put_h256 c) (ch_mqc_head h) @
     put_u128 c (ch_sender_deposit h) @ put_u128 c (ch_recipient_deposit h)"

section \<open>Structure by structure\<close>

lemma lawful_get [simp]:
  assumes "lawful c"
  shows "get_u32 c (put_u32 c w @ rest) = Some (w, rest)" "get_u64 c (put_u64 c w' @ rest) = Some (w', rest)"
    "get_u128 c (put_u128 c w'' @ rest) = Some (w'', rest)" "get_h256 c (put_h256 c h @ rest) = Some (h, rest)"
    "get_compact c (put_compact c n @ rest) = Some (n, rest)"
    "get_header c (put_header c hdr @ rest) = Some (hdr, rest)"
    "length bs < 2 ^ 29 \<Longrightarrow> get_bits c (put_bits c bs @ rest) = Some (bs, rest)"
  by (rule readsD, rule lawful_reads, use assms in simp)+

lemma get_bytes [simp]:
  "lawful c \<Longrightarrow> length bs < 2 ^ 32 \<Longrightarrow> get_vec c get_u8 (put_bytes c bs @ rest) = Some (bs, rest)"
  unfolding put_bytes_def by (rule readsD, rule reads_vec) (simp_all add: reads_id)

lemma get_receipt_put [simp]:
  "lawful c \<Longrightarrow> receipt_wf r \<Longrightarrow> get_receipt c (put_receipt c r @ rest) = Some (r, rest)"
  by (simp add: get_receipt_def put_receipt_def receipt_wf_def)

lemma reads_candidate_event:
  "lawful c \<Longrightarrow> candidate_event_wf e \<Longrightarrow> reads (put_candidate_event c) (get_candidate_event c) e"
  by (rule readsI, cases e) (simp_all add: get_candidate_event_def)

lemma get_option_u32 [simp]:
  "lawful c \<Longrightarrow> get_option (get_u32 c) (put_option (put_u32 c) m @ rest) = Some (m, rest)"
  by (rule readsD, rule reads_option, simp add: lawful_reads)

lemma get_option_h256 [simp]:
  "lawful c \<Longrightarrow> get_option (get_h256 c) (put_option (put_h256 c) m' @ rest) = Some (m', rest)"
  by (rule readsD, rule reads_option, simp add: lawful_reads)

lemma reads_raw_dispute:
  "lawful c \<Longrightarrow> raw_dispute_wf d \<Longrightarrow> reads (put_raw_dispute c) (get_raw_dispute c) d"
  by (rule readsI) (simp add: get_raw_dispute_def put_raw_dispute_def raw_dispute_wf_def)

lemma reads_scheduled_core: "lawful c \<Longrightarrow> reads (put_scheduled_core c) (get_scheduled_core c) s"
  by (rule readsI) (simp add: get_scheduled_core_def put_scheduled_core_def)

lemma reads_core_state: 
  assumes "lawful c" "core_wf k"
  shows "reads (put_core_state c) (get_core_state c) k"
proof -
  have "get_option (get_scheduled_core c) (put_option (put_scheduled_core c) m @ rest) = Some (m, rest)" for m rest
    by (rule readsD, rule reads_option, simp add: assms(1) reads_scheduled_core)
  with assms show ?thesis
    by (intro readsI, cases k)
      (simp_all add: get_core_state_def get_occupied_core_def put_occupied_core_def
        readsD [OF reads_scheduled_core])
qed

lemma reads_u32_vec: "lawful c \<Longrightarrow> length ns < 2 ^ 32 \<Longrightarrow> reads (put_vec c (put_u32 c)) (get_vec c (get_u32 c)) ns"
  by (rule reads_vec) (simp_all add: lawful_reads)

lemma reads_u32_lists:
  assumes "lawful c" "length q < 2 ^ 32" "\<forall>(n, ns) \<in> set q. length ns < 2 ^ 32"
  shows "reads (put_u32_lists c) (get_u32_lists c) q"
  unfolding put_u32_lists_def get_u32_lists_def
  by (rule reads_vec) (use assms in \<open>auto intro!: reads_pair reads_u32_vec lawful_reads\<close>)

lemma reads_babe_epoch:
  assumes "lawful c" "length (be_authorities e) < 2 ^ 32"
  shows "reads (put_babe_epoch c) (get_babe_epoch c) e"
proof -
  have "reads (put_vec c (put_pair (put_h256 c) (put_u64 c))) (get_vec c (get_pair (get_h256 c) (get_u64 c)))
      (be_authorities e)"
    by (rule reads_vec) (use assms in \<open>auto intro!: reads_pair lawful_reads\<close>)
  with assms(1) show ?thesis
    by (intro readsI) (simp add: get_babe_epoch_def put_babe_epoch_def readsD)
qed

lemma reads_session_keys:
  "lawful c \<Longrightarrow> length (ks_beefy k) = 33 \<Longrightarrow> reads (put_session_keys c) (get_session_keys c) k"
  by (rule readsI) (simp add: get_session_keys_def put_session_keys_def)

lemma reads_hrmp_channel: "lawful c \<Longrightarrow> reads (put_hrmp_channel c) (get_hrmp_channel c) h"
  by (rule readsI) (simp add: get_hrmp_channel_def put_hrmp_channel_def)

section \<open>Properties\<close>

lemma decode_all_vec:
  assumes "lawful c" "length xs < 2 ^ 32" "\<forall>x \<in> set xs. reads put get x"
  shows "decode_all (get_vec c get) (put_vec c put xs @ extra) = (if extra = [] then Some xs else None)"
  by (rule decode_all_reads, rule reads_vec) (use assms in auto)

text \<open>The candidate events of a block are read back in order, whatever bytes follow a receipt's two
  leading fields: kind, core, parachain and relay parent of each, and as its candidate hash the hash of
  exactly the bytes of its receipt. One byte more than that and the whole answer is refused.\<close>

theorem candidate_events_roundtrip:
  assumes "lawful c" "length events < 2 ^ 32" "\<forall>e \<in> set events. candidate_event_wf e"
  shows "decode_candidate_events c hash (put_vec c (put_candidate_event c) events @ extra) =
    (if extra \<noteq> [] then None
     else Some (map (\<lambda>e. case e of
         RawBacked r _ core _ \<Rightarrow>
           \<lparr>ce_candidate_hash = hash (put_u32 c (rr_para_id r) @ put_h256 c (rr_relay_parent r) @ rr_tail r),
            ce_relay_parent = rr_relay_parent r, ce_parachain_id = rr_para_id r,
            ce_event_type = CandidateBacked, ce_core_idx = core\<rparr>
       | RawIncluded r _ core _ \<Rightarrow>
           \<lparr>ce_candidate_hash = hash (put_u32 c (rr_para_id r) @ put_h256 c (rr_relay_parent r) @ rr_tail r),
            ce_relay_parent = rr_relay_parent r, ce_parachain_id = rr_para_id r,
            ce_event_type = CandidateIncluded, ce_core_idx = core\<rparr>
       | RawTimedOut r _ core \<Rightarrow>
           \<lparr>ce_candidate_hash = hash (put_u32 c (rr_para_id r) @ put_h256 c (rr_relay_parent r) @ rr_tail r),
            ce_relay_parent = rr_relay_parent r, ce_parachain_id = rr_para_id r,
            ce_event_type = CandidateTimedOut, ce_core_idx = core\<rparr>) events))"
proof -
  have "decode_all (get_vec c (get_candidate_event c)) (put_vec c (put_candidate_event c) events @ extra) =
      (if extra = [] then Some events else None)"
    by (rule decode_all_vec) (use assms reads_candidate_event in auto)
  then show ?thesis
    by (auto simp: decode_candidate_events_def candidate_event_of_def put_receipt_def split: raw_candidate_event.split)
qed

definition sample_receipt :: raw_candidate_receipt where
  "sample_receipt = \<lparr>rr_para_id = 1000, rr_relay_parent = 171, rr_tail = replicate receipt_tail_size 7\<rparr>"

theorem candidate_events_roundtrip_witness:
  "map_option (map ce_core_idx) (decode_candidate_events scale_codec (\<lambda>bytes. of_nat (length bytes))
      (put_vec scale_codec (put_candidate_event scale_codec)
        [RawBacked sample_receipt [1, 2, 3] 5 42, RawTimedOut sample_receipt [] 9] @ [])) = Some [5, 9]"
proof -
  have "receipt_wf sample_receipt" by (simp add: receipt_wf_def sample_receipt_def)
  then show ?thesis
    by (subst candidate_events_roundtrip) (simp_all add: scale_codec_lawful)
qed

lemma rmap_decoded:
  "\<forall>x \<in> set xs. \<exists>y. f x = Inr y \<and> P x y \<Longrightarrow> \<exists>ys. rmap f xs = Inr ys \<and> list_all2 P xs ys"
proof (induction xs)
  case (Cons x xs)
  then obtain y ys where "f x = Inr y" "P x y" "rmap f xs = Inr ys" "list_all2 P xs ys" by auto
  then show ?case by (intro exI [of _ "y # ys"]) simp
qed simp

text \<open>What is read of a raw dispute.\<close>

definition dispute_reads :: "raw_dispute \<Rightarrow> decoded_dispute \<Rightarrow> bool" where
  "dispute_reads raw d \<longleftrightarrow>
     dd_session d = rd_session raw \<and> dd_candidate_hash d = rd_candidate_hash raw \<and>
     map unat (dd_validators_for d) = iter_ones (rd_validators_for raw) \<and>
     map unat (dd_validators_against d) = iter_ones (rd_validators_against raw) \<and>
     unat (dd_validator_count d) = length (rd_validators_for raw) \<and>
     dd_start d = rd_start raw \<and> dd_concluded_at d = rd_concluded_at raw \<and> dispute_wf d"

lemma decode_dispute_reads:
  assumes "raw_dispute_wf raw" "length (rd_validators_for raw) = length (rd_validators_against raw)"
  shows "\<exists>d. decode_dispute raw = Inr d \<and> dispute_reads raw d"
proof -
  obtain d where d: "decode_dispute raw = Inr d" using assms(2) by (simp add: decode_dispute_def)
  have "dispute_wf d" by (rule decode_dispute_wf [OF d]) (use assms(1) in \<open>simp add: raw_dispute_wf_def\<close>)
  moreover have "map (unat \<circ> usize_as_u32) (iter_ones bs) = iter_ones bs" if "length bs < 2 ^ 29" for bs
    by (rule map_idI) (use that in \<open>auto simp: iter_ones_distinct unat_usize_as_u32\<close>)
  ultimately have "dispute_reads raw d"
    using d assms by (auto simp: dispute_reads_def decode_dispute_def raw_dispute_wf_def unat_usize_as_u32)
  with d show ?thesis by blast
qed

lemma lengths_differ:
  "\<exists>d \<in> set ds. length (rd_validators_for d) \<noteq> length (rd_validators_against d) \<Longrightarrow>
   rmap decode_dispute ds = Inl LengthsDiffer"
  by (induction ds) (auto simp: decode_dispute_def rbind_def split: sum.split)

text \<open>C24: The disputes of a block are read back in order, each with the set bits of its two bit sets; if the
  two differ in length for any of them, or a byte follows, all of them are refused. What is read always has
  distinct validators on each side, all below the validator count.\<close>

theorem disputes_roundtrip:
  assumes "lawful c" "length ds < 2 ^ 32" "\<forall>d \<in> set ds. raw_dispute_wf d"
  shows "(extra \<noteq> [] \<longrightarrow>
      decode_disputes_bytes c (put_vec c (put_raw_dispute c) ds @ extra) = Inl CodecError) \<and>
    ((\<exists>d \<in> set ds. length (rd_validators_for d) \<noteq> length (rd_validators_against d)) \<longrightarrow>
      decode_disputes_bytes c (put_vec c (put_raw_dispute c) ds) = Inl LengthsDiffer) \<and>
    ((\<forall>d \<in> set ds. length (rd_validators_for d) = length (rd_validators_against d)) \<longrightarrow>
      (\<exists>decoded. decode_disputes_bytes c (put_vec c (put_raw_dispute c) ds) = Inr decoded \<and>
        list_all2 dispute_reads ds decoded))"
proof -
  let ?blob = "put_vec c (put_raw_dispute c) ds"
  have all: "decode_all (get_vec c (get_raw_dispute c)) (?blob @ extra) = (if extra = [] then Some ds else None)" for extra
    by (rule decode_all_vec) (use assms reads_raw_dispute in auto)
  have read: "decode_disputes_bytes c ?blob = rmap decode_dispute ds"
    using all [of "[]"] by (simp add: decode_disputes_bytes_def decode_disputes_def)
  have "\<exists>decoded. rmap decode_dispute ds = Inr decoded \<and> list_all2 dispute_reads ds decoded"
    if "\<forall>d \<in> set ds. length (rd_validators_for d) = length (rd_validators_against d)"
    by (rule rmap_decoded) (use that assms(3) decode_dispute_reads in blast)
  with lengths_differ [of ds] show ?thesis
    by (auto simp: read) (simp add: decode_disputes_bytes_def decode_disputes_def all)
qed

theorem disputes_roundtrip_witness:
  "decode_disputes_bytes scale_codec (put_vec scale_codec (put_raw_dispute scale_codec)
     [\<lparr>rd_session = 1, rd_candidate_hash = 2, rd_validators_for = [True], rd_validators_against = [],
       rd_start = 3, rd_concluded_at = None\<rparr>]) = Inl LengthsDiffer"
  using disputes_roundtrip [of scale_codec "[\<lparr>rd_session = 1, rd_candidate_hash = 2, rd_validators_for = [True],
    rd_validators_against = [], rd_start = 3, rd_concluded_at = None\<rparr>]"]
  by (simp add: scale_codec_lawful raw_dispute_wf_def)

lemma decode_cores_put:
  assumes "lawful c" "length cores < 2 ^ 32" "\<forall>k \<in> set cores. core_wf k"
  shows "decode_availability_cores c (put_vec c (put_core_state c) cores @ extra) =
    (if extra = [] then Some (map core_state_of cores) else None)"
  unfolding decode_availability_cores_def by (subst decode_all_vec) (use assms reads_core_state in auto)

lemma decode_groups_put:
  assumes "lawful c" "length groups < 2 ^ 32" "\<forall>g \<in> set groups. length g < 2 ^ 32"
  shows "decode_validator_groups c (put_vec c (put_vec c (put_u32 c)) groups @
      put_u32 c start @ put_u32 c frequency @ put_u32 c now @ extra) = (if extra = [] then Some groups else None)"
proof -
  have "reads (put_pair (put_vec c (put_vec c (put_u32 c))) (put_pair (put_u32 c) (put_pair (put_u32 c) (put_u32 c))))
      (get_pair (get_vec c (get_vec c (get_u32 c))) (get_pair (get_u32 c) (get_pair (get_u32 c) (get_u32 c))))
      (groups, start, frequency, now)"
    by (intro reads_pair) (use assms in \<open>auto intro!: reads_vec lawful_reads\<close>)
  from decode_all_reads [OF this, of extra] show ?thesis
    by (simp add: decode_validator_groups_def put_pair_def)
qed

lemma decode_queued_put:
  assumes "lawful c" "length keys < 2 ^ 32" "\<forall>(account, k) \<in> set keys. length (ks_beefy k) = 33"
  shows "decode_queued_authority_discovery_keys c (put_vec c (put_pair (put_h256 c) (put_session_keys c)) keys @ extra) =
    (if extra = [] then Some (map (\<lambda>(account, k). (account, ks_authority_discovery k)) keys) else None)"
  unfolding decode_queued_authority_discovery_keys_def
  by (subst decode_all_vec) (use assms in \<open>auto intro!: reads_pair lawful_reads reads_session_keys\<close>)

text \<open>The answers about the cores, the claim queue, the validator groups and the queued session keys are
  read back in order, of each only what the tools use, and refused if a byte follows; the Babe epoch is
  read back whatever follows it.\<close>

theorem runtime_reads_roundtrip:
  assumes "lawful c"
    and "length cores < 2 ^ 32" "\<forall>k \<in> set cores. core_wf k"
    and "length queue < 2 ^ 32" "\<forall>(core, paras) \<in> set queue. length paras < 2 ^ 32"
    and "length groups < 2 ^ 32" "\<forall>g \<in> set groups. length g < 2 ^ 32"
    and "length keys < 2 ^ 32" "\<forall>(account, k) \<in> set keys. length (ks_beefy k) = 33"
    and "length (be_authorities epoch) < 2 ^ 32"
  shows "decode_availability_cores c (put_vec c (put_core_state c) cores @ extra) =
      (if extra = [] then Some (map core_state_of cores) else None) \<and>
    decode_claim_queue c (put_u32_lists c queue @ extra) = (if extra = [] then Some queue else None) \<and>
    decode_validator_groups c (put_vec c (put_vec c (put_u32 c)) groups @
        put_u32 c start @ put_u32 c frequency @ put_u32 c now @ extra) =
      (if extra = [] then Some groups else None) \<and>
    decode_queued_authority_discovery_keys c (put_vec c (put_pair (put_h256 c) (put_session_keys c)) keys @ extra) =
      (if extra = [] then Some (map (\<lambda>(account, k). (account, ks_authority_discovery k)) keys) else None) \<and>
    decode_babe_epoch c (put_babe_epoch c epoch @ extra) =
      Some \<lparr>de_authorities = be_authorities epoch, de_randomness = be_randomness epoch\<rparr>"
proof (intro conjI)
  show "decode_claim_queue c (put_u32_lists c queue @ extra) = (if extra = [] then Some queue else None)"
    unfolding decode_claim_queue_def by (rule decode_all_reads, rule reads_u32_lists) (use assms in auto)
  show "decode_babe_epoch c (put_babe_epoch c epoch @ extra) =
      Some \<lparr>de_authorities = be_authorities epoch, de_randomness = be_randomness epoch\<rparr>"
    by (simp add: decode_babe_epoch_def decode_prefix_reads [OF reads_babe_epoch [OF assms(1,10)]])
qed (rule decode_cores_put decode_groups_put decode_queued_put; use assms in auto)+

theorem runtime_reads_roundtrip_witness:
  "decode_availability_cores scale_codec (put_vec scale_codec (put_core_state scale_codec)
      [RawFree, RawScheduled \<lparr>rs_para_id = 7, rs_collator = Some 3\<rparr>] @ []) = Some [CoreFree, CoreScheduled] \<and>
   decode_claim_queue scale_codec (put_u32_lists scale_codec [(0, [1, 2])] @ []) = Some [(0, [1, 2])]"
  using runtime_reads_roundtrip [of scale_codec "[RawFree, RawScheduled \<lparr>rs_para_id = 7, rs_collator = Some 3\<rparr>]"
      "[(0, [1, 2])]" "[]" "[]" "\<lparr>be_epoch_index = 1, be_start_slot = 2, be_duration = 3, be_authorities = [],
        be_randomness = 4\<rparr>" "[]"]
  by (simp add: scale_codec_lawful)

section \<open>Keys\<close>

lemma twox64_concat_key_inject:
  assumes "\<And>x. length (short x) = 8"
  shows "twox64_concat_key wide short pallet storage k = twox64_concat_key wide short pallet storage k' \<longleftrightarrow>
    k = k'"
proof
  assume "twox64_concat_key wide short pallet storage k = twox64_concat_key wide short pallet storage k'"
  then have "short k @ k = short k' @ k'" by (simp add: twox64_concat_key_def)
  then show "k = k'" using assms by (simp add: append_eq_append_conv)
qed simp

lemma reads_inject:
  assumes "reads put get x" "reads put get y"
  shows "put x = put y \<longleftrightarrow> x = y"
proof
  assume "put x = put y"
  with readsD0 [OF assms(1)] have "get (put y) = Some (x, [])" by (simp only:)
  then show "x = y" by (simp add: readsD0 [OF assms(2)])
qed simp

text \<open>Two different entries of a map of the chain have different storage keys: a channel, a parachain's
  channel indices and digests, a session's account keys and the owner of a session key are each stored
  under a key of their own.\<close>

theorem storage_keys_inject:
  assumes "lawful c" "\<forall>x. length (short x) = 8"
    and "length key_type = 4" "length key_type' = 4" "length public < 2 ^ 32" "length public' < 2 ^ 32"
  shows "(hrmp_channels_key c wide short s r = hrmp_channels_key c wide short s' r' \<longleftrightarrow> s = s' \<and> r = r') \<and>
    (hrmp_egress_channels_index_key c wide short s = hrmp_egress_channels_index_key c wide short s' \<longleftrightarrow>
      s = s') \<and>
    (hrmp_channel_digests_key c wide short s = hrmp_channel_digests_key c wide short s' \<longleftrightarrow> s = s') \<and>
    (para_session_account_keys_key c wide s = para_session_account_keys_key c wide s' \<longleftrightarrow> s = s') \<and>
    (session_key_owner_key c wide short key_type public = session_key_owner_key c wide short key_type' public' \<longleftrightarrow>
      key_type = key_type' \<and> public = public')"
proof -
  have u32: "put_u32 c x = put_u32 c y \<longleftrightarrow> x = y" for x y
    by (rule reads_inject [of _ "get_u32 c"]) (simp_all add: lawful_reads assms(1))
  have pair: "put_pair (put_u32 c) (put_u32 c) x = put_pair (put_u32 c) (put_u32 c) y \<longleftrightarrow> x = y" for x y
    by (rule reads_inject [of _ "get_pair (get_u32 c) (get_u32 c)"]) (intro reads_pair lawful_reads assms(1))+
  have "reads (put_vec c (\<lambda>b. [b])) (get_vec c get_u8) p" if "length p < 2 ^ 32" for p
    by (rule reads_vec) (use that assms(1) in \<open>simp_all add: reads_id\<close>)
  then have owner: "put_pair id (put_vec c (\<lambda>b. [b])) (key_type, public) =
      put_pair id (put_vec c (\<lambda>b. [b])) (key_type', public') \<longleftrightarrow> (key_type, public) = (key_type', public')"
    by (intro reads_inject [of _ "get_pair (get_array 4) (get_vec c get_u8)"] reads_pair)
      (use assms in \<open>simp_all add: reads_id(2) [unfolded id_def]\<close>)
  have keys: "twox64_concat_key wide short pallet storage k =
      twox64_concat_key wide short pallet storage k' \<longleftrightarrow> k = k'" for pallet storage k k'
    using assms(2) by (intro twox64_concat_key_inject) simp
  show ?thesis
    unfolding hrmp_channels_key_def hrmp_egress_channels_index_key_def hrmp_channel_digests_key_def
      session_key_owner_key_def para_session_account_keys_key_def keys u32 pair owner
    by (simp add: u32)
qed

theorem storage_keys_inject_witness:
  "hrmp_channels_key scale_codec (\<lambda>_. replicate 16 0) (\<lambda>_. replicate 8 0) 1000 2000 \<noteq>
   hrmp_channels_key scale_codec (\<lambda>_. replicate 16 0) (\<lambda>_. replicate 8 0) 2000 1000"
  using storage_keys_inject [where c = scale_codec and short = "\<lambda>_. replicate 8 0" and key_type = "[0, 0, 0, 0]"
    and key_type' = "[0, 0, 0, 0]" and public = "[]" and public' = "[]" and s = 1000 and s' = 2000 and r = 2000
    and r' = 1000]
  by (simp add: scale_codec_lawful)

end
