(* ===== verification/Parainherent_Laws.thy ===== *)
theory Parainherent_Laws
  imports Parainherent Decode_Laws
begin

text \<open>
  What \<open>decode_parainherent\<close> promises: of an extrinsic in the wire form that the sources describe it keeps
  exactly the bitfields and the disputes, and it refuses every envelope that is not one of an inherent.
\<close>

section \<open>Encoders\<close>

fun put_valid_kind :: "codec \<Rightarrow> valid_kind \<Rightarrow> bytes" where
  "put_valid_kind c VExplicit = [0]"
| "put_valid_kind c (BackingSeconded h) = 1 # put_h256 c h"
| "put_valid_kind c (BackingValid h) = 2 # put_h256 c h"
| "put_valid_kind c ApprovalChecking = [3]"
| "put_valid_kind c (ApprovalCheckingMultipleCandidates hs) = 4 # put_vec c (put_h256 c) hs"

fun put_statement :: "codec \<Rightarrow> dispute_statement \<Rightarrow> bytes" where
  "put_statement c (ValidStatement k) = 0 # put_valid_kind c k"
| "put_statement c (InvalidStatement IExplicit) = [1, 0]"

definition put_statement_set :: "codec \<Rightarrow> raw_statement_set \<Rightarrow> bytes" where
  "put_statement_set c s =
     put_h256 c (rt_candidate_hash s) @ put_u32 c (rt_session s) @
     put_vec c (put_pair (put_statement c) (put_pair (put_u32 c) id)) (rt_statements s)"

definition put_commitments :: "codec \<Rightarrow> raw_commitments \<Rightarrow> bytes" where
  "put_commitments c m =
     put_vec c (put_bytes c) (rc_upward_messages m) @
     put_vec c (put_pair (put_u32 c) (put_bytes c)) (rc_horizontal_messages m) @
     put_option (put_bytes c) (rc_new_validation_code m) @ put_bytes c (rc_head_data m) @
     put_u32 c (rc_processed_downward_messages m) @ put_u32 c (rc_hrmp_watermark m)"

fun put_attestation :: "raw_attestation \<Rightarrow> bytes" where
  "put_attestation (AttImplicit signature) = 1 # signature"
| "put_attestation (AttExplicit signature) = 2 # signature"

definition put_backed_candidate :: "codec \<Rightarrow> raw_backed_candidate \<Rightarrow> bytes" where
  "put_backed_candidate c b =
     rb_descriptor b @ put_commitments c (rb_commitments b) @
     put_vec c put_attestation (rb_validity_votes b) @ put_bits c (rb_validator_indices b)"

text \<open>The inherent as it is on the wire: bitfields with the validator index and the signature of each.\<close>

record wire_inherent =
  wi_bitfields :: "(bitfield \<times> u32 \<times> bytes) list"
  wi_backed :: "raw_backed_candidate list"
  wi_disputes :: "raw_statement_set list"
  wi_header :: header

definition put_inherent :: "codec \<Rightarrow> wire_inherent \<Rightarrow> bytes" where
  "put_inherent c w =
     put_vec c (put_pair (put_bits c) (put_pair (put_u32 c) id)) (wi_bitfields w) @
     put_vec c (put_backed_candidate c) (wi_backed w) @
     put_vec c (put_statement_set c) (wi_disputes w) @ put_header c (wi_header w)"

definition put_extrinsic :: "codec \<Rightarrow> bytes \<Rightarrow> bytes" where
  "put_extrinsic c body = put_compact c (word_of_nat (length body)) @ body"

section \<open>Well-formedness\<close>

fun kind_wf :: "dispute_statement \<Rightarrow> bool" where
  "kind_wf (ValidStatement (ApprovalCheckingMultipleCandidates hs)) \<longleftrightarrow> length hs < 2 ^ 32"
| "kind_wf _ \<longleftrightarrow> True"

definition statement_set_wf :: "raw_statement_set \<Rightarrow> bool" where
  "statement_set_wf s \<longleftrightarrow>
     length (rt_statements s) < 2 ^ 32 \<and>
     (\<forall>(statement, _, signature) \<in> set (rt_statements s). kind_wf statement \<and> length signature = 64)"

definition commitments_wf :: "raw_commitments \<Rightarrow> bool" where
  "commitments_wf m \<longleftrightarrow>
     length (rc_upward_messages m) < 2 ^ 32 \<and> (\<forall>b \<in> set (rc_upward_messages m). length b < 2 ^ 32) \<and>
     length (rc_horizontal_messages m) < 2 ^ 32 \<and> (\<forall>(_, b) \<in> set (rc_horizontal_messages m). length b < 2 ^ 32) \<and>
     (\<forall>b \<in> set_option (rc_new_validation_code m). length b < 2 ^ 32) \<and> length (rc_head_data m) < 2 ^ 32"

fun attestation_wf :: "raw_attestation \<Rightarrow> bool" where
  "attestation_wf (AttImplicit signature) \<longleftrightarrow> length signature = 64"
| "attestation_wf (AttExplicit signature) \<longleftrightarrow> length signature = 64"

definition backed_candidate_wf :: "raw_backed_candidate \<Rightarrow> bool" where
  "backed_candidate_wf b \<longleftrightarrow>
     length (rb_descriptor b) = candidate_descriptor_size \<and> commitments_wf (rb_commitments b) \<and>
     length (rb_validity_votes b) < 2 ^ 32 \<and> (\<forall>v \<in> set (rb_validity_votes b). attestation_wf v) \<and>
     length (rb_validator_indices b) < 2 ^ 29"

definition wire_inherent_wf :: "wire_inherent \<Rightarrow> bool" where
  "wire_inherent_wf w \<longleftrightarrow>
     length (wi_bitfields w) < 2 ^ 32 \<and>
     (\<forall>(bits, _, signature) \<in> set (wi_bitfields w). length bits < 2 ^ 29 \<and> length signature = 64) \<and>
     length (wi_backed w) < 2 ^ 32 \<and> (\<forall>b \<in> set (wi_backed w). backed_candidate_wf b) \<and>
     length (wi_disputes w) < 2 ^ 32 \<and> (\<forall>s \<in> set (wi_disputes w). statement_set_wf s)"

section \<open>Section by section\<close>

lemma reads_h256_vec: "lawful c \<Longrightarrow> length hs < 2 ^ 32 \<Longrightarrow> reads (put_vec c (put_h256 c)) (get_vec c (get_h256 c)) hs"
  by (rule reads_vec) (simp_all add: lawful_reads)

lemma reads_statement:
  assumes "lawful c" "kind_wf s"
  shows "reads (put_statement c) (get_statement c) s"
proof (cases s)
  case (ValidStatement k)
  with assms show ?thesis
    by (intro readsI, cases k)
      (simp_all add: get_statement_def get_valid_kind_def readsD [OF reads_h256_vec])
next
  case (InvalidStatement k)
  then show ?thesis by (intro readsI, cases k) (simp add: get_statement_def get_invalid_kind_def)
qed

lemma reads_signature: "length a = 64 \<Longrightarrow> reads id (get_array 64) a"
  by (rule reads_id)

lemma reads_statement_set:
  assumes "lawful c" "statement_set_wf s"
  shows "reads (put_statement_set c) (get_statement_set c) s"
proof -
  have "reads (put_vec c (put_pair (put_statement c) (put_pair (put_u32 c) id)))
      (get_vec c (get_pair (get_statement c) (get_pair (get_u32 c) (get_array 64)))) (rt_statements s)"
    by (rule reads_vec)
      (use assms in \<open>auto simp: statement_set_wf_def intro!: reads_pair reads_statement lawful_reads reads_signature\<close>)
  with assms(1) show ?thesis
    by (intro readsI) (simp add: get_statement_set_def put_statement_set_def readsD)
qed

lemma reads_bytes: "lawful c \<Longrightarrow> length bs < 2 ^ 32 \<Longrightarrow> reads (put_bytes c) (get_vec c get_u8) bs"
  by (rule readsI) simp

lemma reads_commitments:
  assumes "lawful c" "commitments_wf m"
  shows "reads (put_commitments c) (get_commitments c) m"
proof -
  have "reads (put_vec c (put_bytes c)) (get_vec c (get_vec c get_u8)) (rc_upward_messages m)"
    by (rule reads_vec) (use assms in \<open>auto simp: commitments_wf_def intro!: reads_bytes\<close>)
  moreover have "reads (put_vec c (put_pair (put_u32 c) (put_bytes c)))
      (get_vec c (get_pair (get_u32 c) (get_vec c get_u8))) (rc_horizontal_messages m)"
    by (rule reads_vec) (use assms in \<open>auto simp: commitments_wf_def intro!: reads_pair reads_bytes lawful_reads\<close>)
  moreover have "reads (put_option (put_bytes c)) (get_option (get_vec c get_u8)) (rc_new_validation_code m)"
    by (rule reads_option, rule reads_bytes) (use assms in \<open>auto simp: commitments_wf_def\<close>)
  ultimately show ?thesis
    using assms by (intro readsI) (simp add: get_commitments_def put_commitments_def commitments_wf_def readsD)
qed

lemma reads_attestation: "attestation_wf v \<Longrightarrow> reads put_attestation get_attestation v"
  by (rule readsI, cases v) (simp_all add: get_attestation_def)

lemma reads_backed_candidate:
  assumes "lawful c" "backed_candidate_wf b"
  shows "reads (put_backed_candidate c) (get_backed_candidate c) b"
proof -
  have "reads (put_vec c put_attestation) (get_vec c get_attestation) (rb_validity_votes b)"
    by (rule reads_vec) (use assms in \<open>auto simp: backed_candidate_wf_def intro!: reads_attestation\<close>)
  moreover have "reads (put_commitments c) (get_commitments c) (rb_commitments b)"
    using assms by (intro reads_commitments) (simp_all add: backed_candidate_wf_def)
  ultimately show ?thesis
    using assms by (intro readsI) (simp add: get_backed_candidate_def put_backed_candidate_def backed_candidate_wf_def readsD)
qed

lemma take_part_reads: "reads put get x \<Longrightarrow> take_part get e (put x @ rest) = Inr (x, rest)"
  by (simp add: take_part_def readsD)

lemma take_bitfields_reads:
  assumes "lawful c" "\<forall>(bits, _, signature) \<in> set fs. length bits < 2 ^ 29 \<and> length signature = 64"
  shows "take_bitfields c i (length fs) (concat (map (put_pair (put_bits c) (put_pair (put_u32 c) id)) fs) @ rest) =
    Inr (map fst fs, rest)"
  using assms(2)
proof (induction fs arbitrary: i)
  case (Cons f fs)
  obtain bits index signature where "f = (bits, index, signature)" by (cases f)
  with Cons assms(1) show ?case
    by (simp add: put_pair_def take_part_def)
qed simp

section \<open>Properties\<close>

lemma unat_length: "length bs < 2 ^ 32 \<Longrightarrow> unat (word_of_nat (length bs) :: u32) = length bs"
  using unat_usize_as_u32 [of "length bs"] by (simp add: usize_as_u32_def)

lemma take_compact:
  "lawful c \<Longrightarrow> take_part (get_compact c) e (put_compact c n @ rest) = Inr (n, rest)"
  by (simp add: take_part_def)

lemma take_byte: "take_part get_u8 e (b # rest) = Inr (b, rest)"
  by (simp add: take_part_def)

lemma refused_length:
  "lawful c \<Longrightarrow> unat n \<noteq> length body \<Longrightarrow>
   decode_parainherent c (put_compact c n @ body) = Inl (LengthPrefix (unat n) (length body))"
  by (simp add: decode_parainherent_def take_compact u32_as_usize_def)

lemma refused_version:
  "lawful c \<Longrightarrow> unat n = Suc (length body) \<Longrightarrow> drop_bit 6 version \<noteq> 0 \<Longrightarrow>
   decode_parainherent c (put_compact c n @ version # body) = Inl (NotBare version)"
  by (simp add: decode_parainherent_def take_compact take_byte u32_as_usize_def)

lemma decode_sections:
  assumes "lawful c" "wire_inherent_wf w" "drop_bit 6 version = 0"
    and "unat n = length (version # pallet # call # put_inherent c w @ extra)"
  shows "decode_parainherent c (put_compact c n @ version # pallet # call # put_inherent c w @ extra) =
    (if extra \<noteq> [] then Inl (TrailingBytes (length extra))
     else Inr \<lparr>ih_bitfields = map fst (wi_bitfields w), ih_disputes = map statement_set_of (wi_disputes w)\<rparr>)"
proof -
  have bits: "take_bitfields c 0 (unat (word_of_nat (length (wi_bitfields w)) :: u32))
      (concat (map (put_pair (put_bits c) (put_pair (put_u32 c) id)) (wi_bitfields w)) @ rest) =
      Inr (map fst (wi_bitfields w), rest)" for rest
    using assms(1,2) unat_usize_as_u32 [of "length (wi_bitfields w)"]
    by (simp add: wire_inherent_wf_def usize_as_u32_def take_bitfields_reads)
  have "reads (put_vec c (put_backed_candidate c)) (get_vec c (get_backed_candidate c)) (wi_backed w)"
    by (rule reads_vec) (use assms in \<open>auto simp: wire_inherent_wf_def intro!: reads_backed_candidate\<close>)
  moreover have "reads (put_vec c (put_statement_set c)) (get_vec c (get_statement_set c)) (wi_disputes w)"
    by (rule reads_vec) (use assms in \<open>auto simp: wire_inherent_wf_def intro!: reads_statement_set\<close>)
  ultimately have parts:
    "take_part (get_vec c (get_backed_candidate c)) e (put_vec c (put_backed_candidate c) (wi_backed w) @ rest) =
       Inr (wi_backed w, rest)"
    "take_part (get_vec c (get_statement_set c)) e (put_vec c (put_statement_set c) (wi_disputes w) @ rest) =
       Inr (wi_disputes w, rest)" for e rest
    by (simp_all add: take_part_reads)
  have hdr: "take_part (get_header c) e (put_header c (wi_header w) @ rest) = Inr (wi_header w, rest)" for e rest
    using assms(1) by (simp add: take_part_def)
  show ?thesis
    using assms(3,4)
    by (simp add: decode_parainherent_def put_inherent_def put_vec_def [of c "put_pair _ _"] u32_as_usize_def
        take_compact [OF assms(1)] take_byte hdr bits parts)
qed

text \<open>C25: Of a bare extrinsic the bitfields and the disputes are read back, whatever backed candidates, signatures
  and header surround them: each bitfield without its validator index and signature, each dispute with its
  statements in order, without their signatures.\<close>

theorem parainherent_roundtrip:
  assumes "lawful c" "wire_inherent_wf w" "drop_bit 6 version = 0"
    and "length (version # pallet # call # put_inherent c w) < 2 ^ 32"
  shows "decode_parainherent c (put_extrinsic c (version # pallet # call # put_inherent c w)) =
    Inr \<lparr>ih_bitfields = map fst (wi_bitfields w),
         ih_disputes = map (\<lambda>s. \<lparr>ds_candidate_hash = rt_candidate_hash s, ds_session = rt_session s,
           ds_statements = map (\<lambda>(statement, index, signature). (statement, index)) (rt_statements s)\<rparr>)
           (wi_disputes w)\<rparr>"
  using decode_sections [OF assms(1-3), of "word_of_nat (length (version # pallet # call # put_inherent c w))"
      pallet call "[]"] unat_length [OF assms(4)]
  by (simp add: put_extrinsic_def statement_set_of_def [abs_def])

definition sample_wire :: wire_inherent where
  "sample_wire =
     \<lparr>wi_bitfields = [([True, False], 3, replicate 64 9)], wi_backed = [],
      wi_disputes = [\<lparr>rt_candidate_hash = 5, rt_session = 6,
        rt_statements = [(InvalidStatement IExplicit, 1, replicate 64 8)]\<rparr>],
      wi_header = \<lparr>hd_number = 1, hd_parent_hash = 2\<rparr>\<rparr>"

lemma sample_wire_wf: "wire_inherent_wf sample_wire"
  by (simp add: wire_inherent_wf_def sample_wire_def statement_set_wf_def)

lemma sample_wire_length: "length (put_inherent scale_codec sample_wire) < 2 ^ 9"
proof -
  have "length (compact_bytes n) \<le> 5" for n by (simp add: compact_bytes_def)
  from this [of 1] this [of 2] this [of 0] show ?thesis
    by (simp add: put_inherent_def sample_wire_def scale_codec_def put_vec_def put_pair_def put_statement_set_def
        length_pack_bits)
qed

theorem parainherent_roundtrip_witness:
  "map_sum id ih_bitfields (decode_parainherent scale_codec
     (put_extrinsic scale_codec (4 # 54 # 0 # put_inherent scale_codec sample_wire))) = Inr [[True, False]]"
  using parainherent_roundtrip [OF scale_codec_lawful sample_wire_wf, of 4 54 0] sample_wire_length
  by (simp add: sample_wire_def)

text \<open>An extrinsic is refused with the first thing wrong with its envelope: a length prefix that does not
  cover exactly the bytes that follow, then a type byte that is not one of a bare extrinsic, and bytes
  after the parent header, with their number.\<close>

theorem parainherent_rejects:
  assumes "lawful c"
  shows "(\<forall>n body. unat n \<noteq> length body \<longrightarrow>
      decode_parainherent c (put_compact c n @ body) = Inl (LengthPrefix (unat n) (length body))) \<and>
    (\<forall>version body. length body < 2 ^ 32 - 1 \<and> 64 \<le> version \<longrightarrow>
      decode_parainherent c (put_extrinsic c (version # body)) = Inl (NotBare version)) \<and>
    (\<forall>w version pallet call extra. wire_inherent_wf w \<and> version < 64 \<and> extra \<noteq> [] \<and>
        length (version # pallet # call # put_inherent c w @ extra) < 2 ^ 32 \<longrightarrow>
      decode_parainherent c (put_extrinsic c (version # pallet # call # put_inherent c w @ extra)) =
        Inl (TrailingBytes (length extra)))"
proof -
  have bare: "drop_bit 6 version = 0 \<longleftrightarrow> version < 64" for version :: u8
    by (simp add: word_unat_eq_iff drop_bit_eq_div unat_div word_less_nat_alt div_eq_0_iff)
  have "decode_parainherent c (put_extrinsic c (version # body)) = Inl (NotBare version)"
    if "length body < 2 ^ 32 - 1" "64 \<le> version" for version body
    unfolding put_extrinsic_def
    by (rule refused_version [OF assms]) (use that unat_length [of "version # body"] bare [of version] in auto)
  moreover have "decode_parainherent c (put_extrinsic c (version # pallet # call # put_inherent c w @ extra)) =
      Inl (TrailingBytes (length extra))"
    if "wire_inherent_wf w" "version < 64" "extra \<noteq> []"
      "length (version # pallet # call # put_inherent c w @ extra) < 2 ^ 32" for w version pallet call extra
    using decode_sections [OF assms that(1), of version _ pallet call extra] that bare [of version]
      unat_length [OF that(4)] by (simp add: put_extrinsic_def)
  ultimately show ?thesis using refused_length [OF assms] by blast
qed

theorem parainherent_rejects_witness:
  "decode_parainherent scale_codec (put_extrinsic scale_codec [132, 0]) = Inl (NotBare 132)"
  using parainherent_rejects [OF scale_codec_lawful] by simp

end
