(* ===== verification/Dynamic_Laws.thy ===== *)
theory Dynamic_Laws
  imports Dynamic Parainherent_Laws
begin

text \<open>
  The two decoders of a block's data agree: the dynamic one on the value that the metadata gives a piece of
  data, the metadata-free one on its bytes. This is what the shadow comparison of
  \<^verbatim>\<open>essentials/src/api/api_client.rs\<close> relies on. Field access is assumed to find the fields of a named
  composite, \<^verbatim>\<open>H256::from\<close> to take the 32 bytes that the codec writes for a hash.
\<close>

section \<open>Values of the data\<close>

definition u32_value :: "u32 \<Rightarrow> sval" where
  "u32_value n = SPrim (PU128 (ucast n))"

definition newtype :: "sval \<Rightarrow> sval" where
  "newtype v = SComposite (Unnamed [v])"

definition list_value :: "sval list \<Rightarrow> sval" where
  "list_value vs = SComposite (Unnamed vs)"

definition hash_value :: "codec \<Rightarrow> h256 \<Rightarrow> sval" where
  "hash_value c h = newtype (list_value (map (\<lambda>b. SPrim (PU128 (ucast b))) (put_h256 c h)))"

fun kind_value :: "codec \<Rightarrow> valid_kind \<Rightarrow> sval" where
  "kind_value c VExplicit = SVariant ''Explicit'' (Unnamed [])"
| "kind_value c (BackingSeconded h) = SVariant ''BackingSeconded'' (Unnamed [hash_value c h])"
| "kind_value c (BackingValid h) = SVariant ''BackingValid'' (Unnamed [hash_value c h])"
| "kind_value c ApprovalChecking = SVariant ''ApprovalChecking'' (Unnamed [])"
| "kind_value c (ApprovalCheckingMultipleCandidates hs) =
     SVariant ''ApprovalCheckingMultipleCandidates'' (Unnamed [list_value (map (\<lambda>h. newtype (hash_value c h)) hs)])"

fun statement_value :: "codec \<Rightarrow> dispute_statement \<Rightarrow> sval" where
  "statement_value c (ValidStatement k) = SVariant ''Valid'' (Unnamed [kind_value c k])"
| "statement_value c (InvalidStatement IExplicit) =
     SVariant ''Invalid'' (Unnamed [SVariant ''Explicit'' (Unnamed [])])"

definition statement_set_value :: "codec \<Rightarrow> (bytes \<Rightarrow> sval) \<Rightarrow> raw_statement_set \<Rightarrow> sval" where
  "statement_set_value c signature s = SComposite (Named
     [(''candidate_hash'', newtype (hash_value c (rt_candidate_hash s))), (''session'', u32_value (rt_session s)),
      (''statements'', list_value (map (\<lambda>(statement, index, sig).
         list_value [statement_value c statement, newtype (u32_value index), signature sig]) (rt_statements s)))])"

definition bitfield_value :: "(bytes \<Rightarrow> sval) \<Rightarrow> bitfield \<times> u32 \<times> bytes \<Rightarrow> sval" where
  "bitfield_value signature = (\<lambda>(bits, index, sig). SComposite (Named
     [(''payload'', newtype (SBits bits)), (''validator_index'', newtype (u32_value index)),
      (''signature'', signature sig)]))"

definition inherent_value :: "codec \<Rightarrow> (bytes \<Rightarrow> sval) \<Rightarrow> sval \<Rightarrow> sval \<Rightarrow> wire_inherent \<Rightarrow> comp" where
  "inherent_value c signature backed parent w = Named [(''data'', SComposite (Named
     [(''bitfields'', list_value (map (bitfield_value signature) (wi_bitfields w))),
      (''backed_candidates'', backed),
      (''disputes'', list_value (map (statement_set_value c signature) (wi_disputes w))),
      (''parent_header'', parent)]))]"

definition finds_fields :: "(sval \<Rightarrow> string \<Rightarrow> sval option) \<Rightarrow> bool" where
  "finds_fields at_field \<longleftrightarrow> (\<forall>fs name. at_field (SComposite (Named fs)) name = map_of fs name)"

definition hash_bytes :: "codec \<Rightarrow> (bytes \<Rightarrow> h256) \<Rightarrow> bool" where
  "hash_bytes c hash_of \<longleftrightarrow> (\<forall>h. length (put_h256 c h) = 32 \<and> hash_of (put_h256 c h) = h)"

section \<open>Part by part\<close>

lemma unat_ucast_le:
  "LENGTH('a) \<le> LENGTH('b) \<Longrightarrow> unat (ucast (w :: 'a::len word) :: 'b::len word) = unat w"
  by (simp add: unsigned_ucast_eq take_bit_nat_eq_self order_less_le_trans [OF unsigned_less [where 'b = 'a]])

lemma decode_u32_value [simp]: "decode_dynamic_u32 (u32_value n) = Inr n"
  using unsigned_less [of n, where 'a = nat]
  by (simp add: u32_value_def unat_ucast_le ucast_up_ucast_id is_up)

lemma decode_u32_newtype [simp]: "decode_dynamic_u32 (newtype v) = decode_dynamic_u32 v"
  by (simp add: newtype_def)

lemma decode_bytes_value: "decode_byte_slice (map (\<lambda>b. SPrim (PU128 (ucast b))) bs) = Inr bs"
proof -
  have byte: "decode_byte (i, SPrim (PU128 (ucast b))) = Inr b" for i b
    using unsigned_less [of b, where 'a = nat]
    by (simp add: decode_byte_def unat_ucast_le ucast_up_ucast_id is_up)
  have "rmap decode_byte (enumerate k (map (\<lambda>b. SPrim (PU128 (ucast b))) bs)) = Inr bs" for k
    by (induction bs arbitrary: k) (simp_all add: byte)
  then show ?thesis by (simp add: decode_byte_slice_def)
qed

lemma decode_hash_value [simp]:
  "hash_bytes c hash_of \<Longrightarrow> decode_h256 hash_of (hash_value c h) = Inr h"
  by (simp add: hash_bytes_def hash_value_def newtype_def list_value_def decode_h256_from_bytes_def decode_bytes_value)

lemma decode_candidate_hash_value [simp]:
  "hash_bytes c hash_of \<Longrightarrow> decode_candidate_hash hash_of (newtype (hash_value c h)) = Inr h"
  by (simp add: decode_candidate_hash_def newtype_def)

lemma rmap_map: "(\<And>x. x \<in> set xs \<Longrightarrow> f (g x) = Inr (k x)) \<Longrightarrow> rmap f (map g xs) = Inr (map k xs)"
  by (induction xs) auto

lemma decode_list_value [simp]: "decode_unnamed_composite (list_value vs) = Inr vs"
  by (simp add: decode_unnamed_composite_def list_value_def)

lemma decode_statement_value:
  assumes "hash_bytes c hash_of"
  shows "decode_dispute_statement hash_of (statement_value c s) = Inr s"
proof (cases s)
  case (ValidStatement k)
  have "rmap (decode_candidate_hash hash_of) (map (\<lambda>h. newtype (hash_value c h)) hs) = Inr (map (\<lambda>h. h) hs)" for hs
    by (rule rmap_map) (use assms in simp)
  with ValidStatement assms show ?thesis
    by (cases k) (simp_all add: decode_dispute_statement_def decode_valid_kind_def variant_inner_value_def)
next
  case (InvalidStatement k)
  then show ?thesis
    by (cases k) (simp add: decode_dispute_statement_def decode_invalid_kind_def variant_inner_value_def)
qed

lemma named_field_simp [simp]:
  "finds_fields at_field \<Longrightarrow> named_field at_field (SComposite (Named fs)) name =
    (case map_of fs name of None \<Rightarrow> wrong (FieldOf name) (SComposite (Named fs)) | Some x \<Rightarrow> Inr x)"
  by (simp add: named_field_def finds_fields_def)

lemma decode_statement_set_value:
  assumes "finds_fields at_field" "hash_bytes c hash_of"
  shows "decode_dispute_statement_set at_field hash_of (statement_set_value c signature s) = Inr (statement_set_of s)"
proof -
  let ?decode = "\<lambda>raw_stmt. rbind (decode_unnamed_composite raw_stmt) (\<lambda>fs.
      case fs of
        first # second # third # _ \<Rightarrow>
          rbind (decode_dispute_statement hash_of first) (\<lambda>statement.
          rbind (decode_dynamic_u32 second) (\<lambda>index. Inr (statement, index)))
      | _ \<Rightarrow> wrong (Expected ''statement tuple with 3 elements'') raw_stmt)"
  have "rmap ?decode (map (\<lambda>(statement, index, sig).
        list_value [statement_value c statement, newtype (u32_value index), signature sig]) (rt_statements s)) =
      Inr (map (\<lambda>(statement, index, _). (statement, index)) (rt_statements s))"
    by (rule rmap_map) (auto simp: decode_statement_value [OF assms(2)])
  with assms show ?thesis
    by (simp add: decode_dispute_statement_set_def statement_set_value_def statement_set_of_def)
qed

lemma decode_inherent_value:
  assumes "finds_fields at_field" "hash_bytes c hash_of"
  shows "decode_inherent_data at_field hash_of (inherent_value c signature backed parent w) =
    Inr \<lparr>ih_bitfields = map fst (wi_bitfields w), ih_disputes = map statement_set_of (wi_disputes w)\<rparr>"
proof -
  have "rmap (\<lambda>raw_signed. rbind (named_field at_field raw_signed ''payload'') decode_availability_bitfield)
      (map (bitfield_value signature) (wi_bitfields w)) = Inr (map fst (wi_bitfields w))"
    by (rule rmap_map) (auto simp: bitfield_value_def newtype_def assms(1))
  moreover have "rmap (decode_dispute_statement_set at_field hash_of)
      (map (statement_set_value c signature) (wi_disputes w)) = Inr (map statement_set_of (wi_disputes w))"
    by (rule rmap_map) (rule decode_statement_set_value [OF assms])
  ultimately show ?thesis
    by (simp add: decode_inherent_data_def inherent_value_def find_named_field_def assms(1))
qed

section \<open>Properties\<close>

text \<open>Both decoders of an inherent give the same bitfields and disputes, the one on the value that the
  metadata gives it and the other on its bytes, whatever the backed candidates, the parent header and the
  signatures are.\<close>

theorem inherent_decoders_agree:
  assumes "lawful c" "hash_bytes c hash_of" "finds_fields at_field" "wire_inherent_wf w" "version < 64"
    and "length (version # pallet # call # put_inherent c w) < 2 ^ 32"
  shows "\<exists>inherent.
    decode_inherent_data at_field hash_of (inherent_value c signature backed parent w) = Inr inherent \<and>
    decode_parainherent c (put_extrinsic c (version # pallet # call # put_inherent c w)) = Inr inherent"
proof -
  have "drop_bit 6 version = 0"
    using assms(5) by (simp add: word_unat_eq_iff drop_bit_eq_div unat_div word_less_nat_alt div_eq_0_iff)
  then show ?thesis
    using decode_sections [OF assms(1,4), of version _ pallet call "[]"] unat_length [OF assms(6)]
      decode_inherent_value [OF assms(3,2)] by (simp add: put_extrinsic_def)
qed

definition sample_at :: "sval \<Rightarrow> string \<Rightarrow> sval option" where
  "sample_at v name = (case v of SComposite (Named fs) \<Rightarrow> map_of fs name | _ \<Rightarrow> None)"

lemma sample_finds: "finds_fields sample_at"
  by (simp add: finds_fields_def sample_at_def)

lemma sample_hash_bytes: "hash_bytes scale_codec from_le_bytes"
  by (simp add: hash_bytes_def scale_codec_def from_le_bytes_take take_bit_word_eq_self)

theorem inherent_decoders_agree_witness:
  "\<exists>inherent.
    decode_inherent_data sample_at from_le_bytes (inherent_value scale_codec (\<lambda>_. SBits []) (SBits []) (SBits []) sample_wire) =
      Inr inherent \<and>
    decode_parainherent scale_codec (put_extrinsic scale_codec (4 # 54 # 0 # put_inherent scale_codec sample_wire)) =
      Inr inherent"
  by (rule inherent_decoders_agree [OF scale_codec_lawful sample_hash_bytes sample_finds sample_wire_wf])
    (use sample_wire_length in auto)

definition groups_value :: "u32 list list \<Rightarrow> sval" where
  "groups_value groups = list_value (map (\<lambda>g. list_value (map (\<lambda>n. newtype (u32_value n)) g)) groups)"

definition core_value :: "(raw_core_state \<Rightarrow> comp) \<Rightarrow> raw_core_state \<Rightarrow> sval" where
  "core_value inner k =
     SVariant (case k of RawOccupied _ \<Rightarrow> ''Occupied'' | RawScheduled _ \<Rightarrow> ''Scheduled'' | RawFree \<Rightarrow> ''Free'') (inner k)"

lemma decode_groups_value: "Dynamic.decode_validator_groups (groups_value groups) = Inr groups"
proof -
  have index: "rbind (decode_composite_u128_value (newtype (u32_value n))) (\<lambda>n. Inr (ucast n)) = Inr n" for n :: u32
    by (simp add: decode_composite_u128_value_def newtype_def decode_unnamed_composite_def u32_value_def
        decode_u128_value_def ucast_up_ucast_id is_up)
  have "rmap (\<lambda>raw_index. rbind (decode_composite_u128_value raw_index) (\<lambda>n. Inr (ucast n)))
      (map (\<lambda>n. newtype (u32_value n)) g) = Inr (map (\<lambda>n. n) g)" for g :: "u32 list"
    by (rule rmap_map) (rule index)
  then have "rmap (\<lambda>raw_group. rbind (decode_unnamed_composite raw_group) (rmap (\<lambda>raw_index.
      rbind (decode_composite_u128_value raw_index) (\<lambda>n. Inr (ucast n)))))
      (map (\<lambda>g. list_value (map (\<lambda>n. newtype (u32_value n)) g)) groups) = Inr (map (\<lambda>g. g) groups)"
    by (intro rmap_map) simp
  then show ?thesis by (simp add: Dynamic.decode_validator_groups_def groups_value_def)
qed

lemma decode_cores_value:
  "Dynamic.decode_availability_cores (list_value (map (core_value inner) cores)) = Inr (map core_state_of cores)"
  unfolding Dynamic.decode_availability_cores_def
  by (simp, rule rmap_map) (simp add: core_value_def split: raw_core_state.split)

text \<open>The two decoders of the validator groups agree, and so do those of the cores: a group of the
  metadata is a list of wrapped validator indices, a core a variant whose fields nobody reads.\<close>

theorem groups_and_cores_agree:
  assumes "lawful c" "length groups < 2 ^ 32" "\<forall>g \<in> set groups. length g < 2 ^ 32"
    and "length cores < 2 ^ 32" "\<forall>k \<in> set cores. core_wf k"
  shows "Dynamic.decode_validator_groups (groups_value groups) = Inr groups \<and>
    Decode.decode_validator_groups c (put_vec c (put_vec c (put_u32 c)) groups @
      put_u32 c start @ put_u32 c frequency @ put_u32 c now) = Some groups \<and>
    (\<exists>states.
      Dynamic.decode_availability_cores (list_value (map (core_value inner) cores)) = Inr states \<and>
      Decode.decode_availability_cores c (put_vec c (put_core_state c) cores) = Some states)"
  using decode_groups_put [OF assms(1-3), of start frequency now "[]"]
    decode_cores_put [OF assms(1,4,5), of "[]"] by (simp add: decode_groups_value decode_cores_value)

theorem groups_and_cores_agree_witness:
  "Dynamic.decode_validator_groups (groups_value [[1, 2], []]) = Inr [[1, 2], []] \<and>
   Decode.decode_validator_groups scale_codec (put_vec scale_codec (put_vec scale_codec (put_u32 scale_codec))
     [[1, 2], []] @ put_u32 scale_codec 1 @ put_u32 scale_codec 2 @ put_u32 scale_codec 3) = Some [[1, 2], []]"
  using groups_and_cores_agree [OF scale_codec_lawful, of "[[1, 2], []]" "[]"] by simp

end
