(* ===== verification/Api_Client.thy ===== *)
theory Api_Client
  imports Dynamic_Laws
begin

text \<open>
  The reads of the node, \<^verbatim>\<open>essentials/src/api/api_client.rs\<close>, with the shadow comparison of
  \<^verbatim>\<open>essentials/src/api/shadow.rs\<close>. The crate \<^verbatim>\<open>subxt\<close> and the node behind it are the record \<open>api\<close>: what
  its typed reads, raw storage reads, runtime calls and block requests answer; \<open>'e\<close> stands for its opaque
  objects (extrinsics, events, streams). A comparison that fails ends
  the process, which is the outcome \<open>Aborted\<close>; the tally of clean comparisons, which is only
  logged, is in \<open>Shadow_Tally\<close>.
\<close>

section \<open>The node behind \<^verbatim>\<open>subxt\<close>\<close>

datatype subxt_error = BlockNotFound h256 | IoError | RpcError | OtherError string

record 'e block =
  bl_hash :: h256
  bl_header :: header
  bl_extrinsics :: "subxt_error + 'e list"

record 'e api =
  chain_get_header :: "h256 \<Rightarrow> subxt_error + header option"
  chain_get_finalized_head :: "subxt_error + h256"
  chain_get_block :: "h256 \<Rightarrow> subxt_error + bytes list option"
  chain_get_block_hash :: "u32 option \<Rightarrow> subxt_error + h256 option"
  system_chain :: "subxt_error + string"
  events_at :: "h256 \<Rightarrow> subxt_error + 'e"
  best_block_headers :: "subxt_error + 'e"
  finalized_block_headers :: "subxt_error + 'e"
  state_get_storage :: "bytes \<Rightarrow> h256 \<Rightarrow> subxt_error + bytes option"
  state_call :: "string \<Rightarrow> h256 \<Rightarrow> subxt_error + bytes"
  blocks_at :: "h256 \<Rightarrow> subxt_error + 'e block"
  blocks_at_latest :: "subxt_error + 'e block"
  field_values :: "'e \<Rightarrow> string + comp"
  storage_at_latest :: "subxt_error + h256"
  st_timestamp_now :: "h256 \<Rightarrow> subxt_error + timestamp option"
  st_egress_index :: "u32 \<Rightarrow> h256 \<Rightarrow> subxt_error + u32 list option"
  st_channel_digests :: "u32 \<Rightarrow> h256 \<Rightarrow> subxt_error + (u32 \<times> u32 list) list option"
  st_channel :: "u32 \<Rightarrow> u32 \<Rightarrow> h256 \<Rightarrow> subxt_error + hrmp_channel option"
  st_randomness :: "h256 \<Rightarrow> subxt_error + h256 option"
  st_authorities :: "h256 \<Rightarrow> subxt_error + (h256 \<times> u64) list option"
  st_current_slot :: "h256 \<Rightarrow> subxt_error + u64 option"
  st_key_owner :: "bytes \<Rightarrow> h256 \<Rightarrow> subxt_error + account_id option"
  st_current_index :: "h256 \<Rightarrow> subxt_error + u32 option"
  st_account_keys :: "u32 \<Rightarrow> h256 \<Rightarrow> subxt_error + account_id list option"
  st_queued_keys :: "h256 \<Rightarrow> subxt_error + (account_id \<times> raw_session_keys) list option"
  st_validator_groups :: "h256 \<Rightarrow> subxt_error + sval option"
  rt_availability_cores :: "h256 \<Rightarrow> subxt_error + sval"
  rt_claim_queue :: "h256 \<Rightarrow> subxt_error + claim_queue"

text \<open>The client, with the functions of the crates it uses.\<close>

record 'e client =
  cl_api :: "'e api"
  cl_shadow :: bool
  cl_hasher :: "bytes \<Rightarrow> h256"
  cl_codec :: codec
  cl_at :: "sval \<Rightarrow> string \<Rightarrow> sval option"
  cl_hash_of :: "bytes \<Rightarrow> h256"
  cl_long :: "bytes \<Rightarrow> bytes"
  cl_short :: "bytes \<Rightarrow> bytes"

datatype stop = Failed subxt_error | Aborted h256 string

type_synonym 'a read = "stop + 'a"

definition answered :: "subxt_error + 'a \<Rightarrow> 'a read" where
  "answered m = (case m of Inl e \<Rightarrow> Inl (Failed e) | Inr x \<Rightarrow> Inr x)"

definition fail :: "string \<Rightarrow> 'a read" where
  "fail msg = Inl (Failed (OtherError msg))"

section \<open>Shadow comparison\<close>

definition compare :: "h256 \<Rightarrow> string \<Rightarrow> 'a \<Rightarrow> 'a \<Rightarrow> unit read" where
  "compare block read old new = (if old \<noteq> new then Inl (Aborted block read) else Inr ())"

definition shadow_storage :: "'e client \<Rightarrow> h256 \<Rightarrow> bytes \<Rightarrow> string \<Rightarrow> (bytes \<Rightarrow> 'r option) \<Rightarrow> 'r option read" where
  "shadow_storage cl hash key read decode =
     rbind (answered (state_get_storage (cl_api cl) key hash)) (\<lambda>m.
       case m of
         None \<Rightarrow> Inr None
       | Some bytes \<Rightarrow>
           (case decode bytes of
              None \<Rightarrow> fail (''Failed to decode (metadata-free) '' @ read)
            | Some r \<Rightarrow> Inr (Some r)))"

definition state_call_decoded :: "'e client \<Rightarrow> h256 \<Rightarrow> string \<Rightarrow> (bytes \<Rightarrow> 'r option) \<Rightarrow> 'r read" where
  "state_call_decoded cl hash method decode =
     rbind (answered (state_call (cl_api cl) method hash)) (\<lambda>bytes.
       case decode bytes of None \<Rightarrow> fail (''Failed to decode '' @ method) | Some r \<Rightarrow> Inr r)"

text \<open>\<open>if self.shadow { .. }\<close>.\<close>

definition when_shadow :: "'e client \<Rightarrow> unit read \<Rightarrow> unit read" where
  "when_shadow cl check = (if cl_shadow cl then check else Inr ())"

section \<open>Blocks and headers\<close>

definition block_at :: "'e client \<Rightarrow> h256 option \<Rightarrow> 'e block read" where
  "block_at cl maybe_hash =
     (case maybe_hash of
        Some hash \<Rightarrow> answered (blocks_at (cl_api cl) hash)
      | None \<Rightarrow> answered (blocks_at_latest (cl_api cl)))"

definition header_via_rpc :: "'e client \<Rightarrow> h256 \<Rightarrow> header read" where
  "header_via_rpc cl hash =
     rbind (answered (chain_get_header (cl_api cl) hash)) (\<lambda>m.
       case m of None \<Rightarrow> Inl (Failed (BlockNotFound hash)) | Some h \<Rightarrow> Inr h)"

definition resolve_hash :: "'e client \<Rightarrow> h256 option \<Rightarrow> h256 read" where
  "resolve_hash cl maybe_hash =
     (case maybe_hash of
        Some hash \<Rightarrow> Inr hash
      | None \<Rightarrow> answered (chain_get_finalized_head (cl_api cl)))"

definition resolve_header :: "'e client \<Rightarrow> h256 option \<Rightarrow> (h256 \<times> header) read" where
  "resolve_header cl maybe_hash =
     rbind (resolve_hash cl maybe_hash) (\<lambda>hash. rbind (header_via_rpc cl hash) (\<lambda>h. Inr (hash, h)))"

definition get_head :: "'e client \<Rightarrow> h256 option \<Rightarrow> header read" where
  "get_head cl maybe_hash =
     rbind (resolve_header cl maybe_hash) (\<lambda>(hash, h).
     rbind (when_shadow cl (rbind (block_at cl (Some hash)) (\<lambda>block.
       compare hash ''block_header'' (bl_header block) h))) (\<lambda>_. Inr h))"

definition get_block_number :: "'e client \<Rightarrow> h256 option \<Rightarrow> u32 read" where
  "get_block_number cl maybe_hash =
     rbind (resolve_header cl maybe_hash) (\<lambda>(hash, h).
     rbind (when_shadow cl (rbind (block_at cl (Some hash)) (\<lambda>block.
       compare hash ''block_number'' (hd_number (bl_header block)) (hd_number h)))) (\<lambda>_. Inr (hd_number h)))"

definition legacy_get_block_hash :: "'e client \<Rightarrow> u32 option \<Rightarrow> h256 option read" where
  "legacy_get_block_hash cl maybe_number = answered (chain_get_block_hash (cl_api cl) maybe_number)"

definition legacy_get_chain_name :: "'e client \<Rightarrow> string read" where
  "legacy_get_chain_name cl = answered (system_chain (cl_api cl))"

text \<open>Events and header streams are objects of \<^verbatim>\<open>subxt\<close> that are handed on.\<close>

definition get_events :: "'e client \<Rightarrow> h256 \<Rightarrow> 'e read" where
  "get_events cl hash = answered (events_at (cl_api cl) hash)"

definition stream_best_block_headers :: "'e client \<Rightarrow> 'e read" where
  "stream_best_block_headers cl = answered (best_block_headers (cl_api cl))"

definition stream_finalized_block_headers :: "'e client \<Rightarrow> 'e read" where
  "stream_finalized_block_headers cl = answered (finalized_block_headers (cl_api cl))"

section \<open>Runtime calls\<close>

definition get_candidate_events :: "'e client \<Rightarrow> h256 \<Rightarrow> candidate_event list read" where
  "get_candidate_events cl hash =
     state_call_decoded cl hash ''ParachainHost_candidate_events''
       (decode_candidate_events (cl_codec cl) (cl_hasher cl))"

definition get_disputes :: "'e client \<Rightarrow> h256 \<Rightarrow> decoded_dispute list read" where
  "get_disputes cl hash =
     state_call_decoded cl hash ''ParachainHost_disputes''
       (\<lambda>bytes. case decode_disputes_bytes (cl_codec cl) bytes of Inl _ \<Rightarrow> None | Inr ds \<Rightarrow> Some ds)"

definition babe_current_epoch :: "'e client \<Rightarrow> h256 \<Rightarrow> decoded_babe_epoch read" where
  "babe_current_epoch cl hash =
     state_call_decoded cl hash ''BabeApi_current_epoch'' (decode_babe_epoch (cl_codec cl))"

definition get_occupied_cores :: "'e client \<Rightarrow> h256 \<Rightarrow> core_state list read" where
  "get_occupied_cores cl hash =
     rbind (answered (rt_availability_cores (cl_api cl) hash)) (\<lambda>v.
     rbind (case Dynamic.decode_availability_cores v of
         Inl _ \<Rightarrow> fail ''Failed to decode availability_cores'' | Inr cores \<Rightarrow> Inr cores) (\<lambda>cores.
     rbind (when_shadow cl (rbind (state_call_decoded cl hash ''ParachainHost_availability_cores''
         (Decode.decode_availability_cores (cl_codec cl))) (\<lambda>metadata_free.
       compare hash ''availability_cores'' cores metadata_free))) (\<lambda>_. Inr cores)))"

definition get_claim_queue :: "'e client \<Rightarrow> h256 \<Rightarrow> claim_queue read" where
  "get_claim_queue cl hash =
     rbind (answered (rt_claim_queue (cl_api cl) hash)) (\<lambda>queue.
     rbind (when_shadow cl (rbind (state_call_decoded cl hash ''ParachainHost_claim_queue''
         (decode_claim_queue (cl_codec cl))) (\<lambda>metadata_free.
       compare hash ''claim_queue'' queue metadata_free))) (\<lambda>_. Inr queue))"

definition get_backing_groups :: "'e client \<Rightarrow> h256 \<Rightarrow> u32 list list read" where
  "get_backing_groups cl hash =
     rbind (answered (st_validator_groups (cl_api cl) hash)) (\<lambda>m.
     rbind (case m of None \<Rightarrow> fail ''ParaScheduler.ValidatorGroups not found'' | Some v \<Rightarrow> Inr v) (\<lambda>v.
     rbind (case Dynamic.decode_validator_groups v of
         Inl _ \<Rightarrow> fail ''Failed to decode validator groups'' | Inr groups \<Rightarrow> Inr groups) (\<lambda>groups.
     rbind (when_shadow cl (rbind (state_call_decoded cl hash ''ParachainHost_validator_groups''
         (Decode.decode_validator_groups (cl_codec cl))) (\<lambda>metadata_free.
       compare hash ''validator_groups'' groups metadata_free))) (\<lambda>_. Inr groups))))"

section \<open>Storage reads\<close>

definition get_block_ts :: "'e client \<Rightarrow> h256 \<Rightarrow> timestamp option read" where
  "get_block_ts cl hash =
     rbind (answered (st_timestamp_now (cl_api cl) hash)) (\<lambda>ts.
     rbind (when_shadow cl (rbind (shadow_storage cl hash (timestamp_now_key (cl_long cl)) ''Timestamp.Now''
         (decode_timestamp (cl_codec cl))) (\<lambda>metadata_free.
       compare hash ''block_timestamp'' ts metadata_free))) (\<lambda>_. Inr ts))"

definition get_babe_randomness :: "'e client \<Rightarrow> h256 \<Rightarrow> h256 option read" where
  "get_babe_randomness cl hash =
     rbind (answered (st_randomness (cl_api cl) hash)) (\<lambda>randomness.
     rbind (when_shadow cl (rbind (babe_current_epoch cl hash) (\<lambda>epoch.
       compare hash ''babe_randomness'' randomness (Some (de_randomness epoch))))) (\<lambda>_. Inr randomness))"

definition get_babe_authorities :: "'e client \<Rightarrow> h256 \<Rightarrow> (h256 \<times> u64) list read" where
  "get_babe_authorities cl hash =
     rbind (answered (st_authorities (cl_api cl) hash)) (\<lambda>m.
     let authorities = the_default [] m in
     rbind (when_shadow cl (rbind (babe_current_epoch cl hash) (\<lambda>epoch.
       compare hash ''babe_authorities'' authorities (de_authorities epoch)))) (\<lambda>_. Inr authorities))"

definition get_babe_current_slot :: "'e client \<Rightarrow> h256 \<Rightarrow> u64 option read" where
  "get_babe_current_slot cl hash =
     rbind (answered (st_current_slot (cl_api cl) hash)) (\<lambda>slot.
     rbind (when_shadow cl (rbind (shadow_storage cl hash (babe_current_slot_key (cl_long cl)) ''Babe.CurrentSlot''
         (decode_slot (cl_codec cl))) (\<lambda>metadata_free.
       compare hash ''babe_current_slot'' slot metadata_free))) (\<lambda>_. Inr slot))"

definition get_babe_key_owner :: "'e client \<Rightarrow> h256 \<Rightarrow> bytes \<Rightarrow> account_id option read" where
  "get_babe_key_owner cl hash public =
     rbind (answered (st_key_owner (cl_api cl) public hash)) (\<lambda>owner.
     rbind (when_shadow cl (rbind (shadow_storage cl hash
         (session_key_owner_key (cl_codec cl) (cl_long cl) (cl_short cl) (ascii ''babe'') public)
         ''Session.KeyOwner'' (decode_account_id (cl_codec cl))) (\<lambda>metadata_free.
       compare hash ''session_key_owner'' owner metadata_free))) (\<lambda>_. Inr owner))"

definition get_session_index :: "'e client \<Rightarrow> h256 \<Rightarrow> u32 option read" where
  "get_session_index cl hash =
     rbind (answered (st_current_index (cl_api cl) hash)) (\<lambda>index.
     rbind (when_shadow cl (rbind (state_call_decoded cl hash ''ParachainHost_session_index_for_child''
         (decode_session_index (cl_codec cl))) (\<lambda>metadata_free.
       compare hash ''session_index'' (the_default 0 index) metadata_free))) (\<lambda>_. Inr index))"

definition get_session_index_now :: "'e client \<Rightarrow> u32 option read" where
  "get_session_index_now cl =
     rbind (answered (storage_at_latest (cl_api cl))) (\<lambda>latest. answered (st_current_index (cl_api cl) latest))"

text \<open>The block of a storage read: the one asked for, or the latest.\<close>

definition storage_block :: "'e client \<Rightarrow> h256 option \<Rightarrow> h256 read" where
  "storage_block cl maybe_hash =
     (case maybe_hash of Some hash \<Rightarrow> Inr hash | None \<Rightarrow> answered (storage_at_latest (cl_api cl)))"

definition get_session_account_keys :: "'e client \<Rightarrow> u32 \<Rightarrow> h256 option \<Rightarrow> account_id list option read" where
  "get_session_account_keys cl session_index maybe_hash =
     rbind (storage_block cl maybe_hash) (\<lambda>at.
     rbind (answered (st_account_keys (cl_api cl) session_index at)) (\<lambda>keys.
     rbind (case maybe_hash of
         None \<Rightarrow> Inr ()
       | Some hash \<Rightarrow> when_shadow cl (rbind (shadow_storage cl hash
             (para_session_account_keys_key (cl_codec cl) (cl_long cl) session_index) ''account_keys''
             (decode_account_keys (cl_codec cl))) (\<lambda>metadata_free.
           compare hash ''session_account_keys'' keys metadata_free))) (\<lambda>_. Inr keys)))"

definition get_session_queued_keys :: "'e client \<Rightarrow> h256 option \<Rightarrow> (account_id \<times> h256) list option read" where
  "get_session_queued_keys cl maybe_hash =
     rbind (storage_block cl maybe_hash) (\<lambda>at.
     rbind (answered (st_queued_keys (cl_api cl) at)) (\<lambda>m.
     let queued = map_option (map (\<lambda>(account, keys). (account, ks_authority_discovery keys))) m in
     rbind (case maybe_hash of
         None \<Rightarrow> Inr ()
       | Some hash \<Rightarrow> when_shadow cl (rbind (shadow_storage cl hash (queued_keys_key (cl_long cl))
             ''Session.QueuedKeys'' (decode_queued_authority_discovery_keys (cl_codec cl))) (\<lambda>metadata_free.
           compare hash ''session_queued_keys'' (the_default [] queued) (the_default [] metadata_free))))
       (\<lambda>_. Inr queued)))"

section \<open>HRMP channels\<close>

definition get_hrmp_egress_channels_index :: "'e client \<Rightarrow> h256 \<Rightarrow> u32 \<Rightarrow> u32 list read" where
  "get_hrmp_egress_channels_index cl block_hash para_id =
     rbind (answered (st_egress_index (cl_api cl) para_id block_hash)) (\<lambda>m.
     let index = the_default [] m in
     rbind (when_shadow cl (rbind (shadow_storage cl block_hash
         (hrmp_egress_channels_index_key (cl_codec cl) (cl_long cl) (cl_short cl) para_id)
         ''HrmpEgressChannelsIndex'' (decode_para_ids (cl_codec cl))) (\<lambda>metadata_free.
       compare block_hash ''hrmp_egress_channels_index'' index (the_default [] metadata_free)))) (\<lambda>_. Inr index))"

definition get_hrmp_channel_digests :: "'e client \<Rightarrow> h256 \<Rightarrow> u32 \<Rightarrow> (u32 \<times> u32 list) list read" where
  "get_hrmp_channel_digests cl block_hash para_id =
     rbind (answered (st_channel_digests (cl_api cl) para_id block_hash)) (\<lambda>m.
     let digests = the_default [] m in
     rbind (when_shadow cl (rbind (shadow_storage cl block_hash
         (hrmp_channel_digests_key (cl_codec cl) (cl_long cl) (cl_short cl) para_id)
         ''HrmpChannelDigests'' (decode_hrmp_channel_digests (cl_codec cl))) (\<lambda>metadata_free.
       compare block_hash ''hrmp_channel_digests'' digests (the_default [] metadata_free)))) (\<lambda>_. Inr digests))"

definition get_hrmp_channels :: "'e client \<Rightarrow> h256 \<Rightarrow> u32 \<times> u32 \<Rightarrow> (u32 \<times> u32 \<times> hrmp_channel) option read" where
  "get_hrmp_channels cl block_hash = (\<lambda>(sender, recipient).
     rbind (answered (st_channel (cl_api cl) sender recipient block_hash)) (\<lambda>m.
     rbind (when_shadow cl (rbind (shadow_storage cl block_hash
         (hrmp_channels_key (cl_codec cl) (cl_long cl) (cl_short cl) sender recipient)
         ''HrmpChannels'' (decode_hrmp_channel (cl_codec cl))) (\<lambda>metadata_free.
       compare block_hash ''hrmp_channel'' m metadata_free)))
       (\<lambda>_. Inr (map_option (\<lambda>channel. (sender, recipient, channel)) m))))"

text \<open>The requests run concurrently and all are awaited: one that aborts ends the process whatever the
  others answer, otherwise the first failure in order is returned.\<close>

definition join_requests :: "'a read list \<Rightarrow> 'a list read" where
  "join_requests rs =
     (case List.find (\<lambda>r. case r of Inl (Aborted _ _) \<Rightarrow> True | _ \<Rightarrow> False) rs of
        Some (Inl e) \<Rightarrow> Inl e
      | _ \<Rightarrow> rmap id rs)"

definition get_inbound_hrmp_channel_pairs :: "'e client \<Rightarrow> h256 \<Rightarrow> u32 list \<Rightarrow> (u32 \<times> u32) list read" where
  "get_inbound_hrmp_channel_pairs cl block_hash para_ids =
     rbind (join_requests (map (get_hrmp_channel_digests cl block_hash) para_ids)) (\<lambda>digests.
     let inbound_ids = map (\<lambda>v. concat (map snd v)) digests in
     Inr (concat (map (\<lambda>(ids, para_id). map (\<lambda>sender. (sender, para_id)) ids) (zip inbound_ids para_ids))))"

definition get_outbound_hrmp_channel_pairs :: "'e client \<Rightarrow> h256 \<Rightarrow> u32 list \<Rightarrow> (u32 \<times> u32) list read" where
  "get_outbound_hrmp_channel_pairs cl block_hash para_ids =
     rbind (join_requests (map (get_hrmp_egress_channels_index cl block_hash) para_ids)) (\<lambda>outbound_ids.
     Inr (concat (map (\<lambda>(para_id, ids). map (\<lambda>recipient. (para_id, recipient)) ids) (zip para_ids outbound_ids))))"

text \<open>A map of maps filled channel by channel; \<open>owner\<close> and \<open>peer\<close> say which end is which.\<close>

definition by_para_id ::
  "(u32 \<times> u32 \<times> hrmp_channel \<Rightarrow> u32) \<Rightarrow> (u32 \<times> u32 \<times> hrmp_channel \<Rightarrow> u32) \<Rightarrow>
   (u32 \<times> u32 \<times> hrmp_channel) list \<Rightarrow> (u32, channel_map) alist" where
  "by_para_id owner peer channels =
     fold (\<lambda>ch. bt_update_default [] (owner ch) (bt_put (peer ch) (snd (snd ch)))) channels []"

definition get_inbound_outbound_hrmp_channels ::
  "'e client \<Rightarrow> h256 \<Rightarrow> u32 list \<Rightarrow> (u32 \<times> channel_map \<times> channel_map) list read" where
  "get_inbound_outbound_hrmp_channels cl block_hash para_ids =
     rbind (get_inbound_hrmp_channel_pairs cl block_hash para_ids) (\<lambda>inbound_pairs.
     rbind (join_requests (map (get_hrmp_channels cl block_hash) inbound_pairs)) (\<lambda>inbound.
     let inbound_by_para_id = by_para_id (\<lambda>(_, recipient, _). recipient) (\<lambda>(sender, _, _). sender) (List.map_filter id inbound) in
     rbind (get_outbound_hrmp_channel_pairs cl block_hash para_ids) (\<lambda>outbound_pairs.
     rbind (join_requests (map (get_hrmp_channels cl block_hash) outbound_pairs)) (\<lambda>outbound.
     let outbound_by_para_id = by_para_id (\<lambda>(sender, _, _). sender) (\<lambda>(_, recipient, _). recipient) (List.map_filter id outbound) in
     Inr (map (\<lambda>para_id.
        (para_id, the_default [] (map_of inbound_by_para_id para_id),
         the_default [] (map_of outbound_by_para_id para_id))) para_ids)))))"

section \<open>The inherent\<close>

definition extract_parainherent :: "'e client \<Rightarrow> h256 option \<Rightarrow> inherent_data read" where
  "extract_parainherent cl maybe_hash =
     rbind (block_at cl maybe_hash) (\<lambda>block.
     rbind (answered (bl_extrinsics block)) (\<lambda>extrinsics.
     rbind (case get_index extrinsics 1 of
         None \<Rightarrow> fail ''ParaInherent extrinsic missing at index #1'' | Some ex \<Rightarrow> Inr ex) (\<lambda>ex.
     rbind (case field_values (cl_api cl) ex of
         Inl e \<Rightarrow> fail (''Failed to get ParaInherent field values: '' @ e)
       | Inr v \<Rightarrow>
           (case decode_inherent_data (cl_at cl) (cl_hash_of cl) v of
              Inl _ \<Rightarrow> fail ''Failed to decode ParaInherent'' | Inr inherent \<Rightarrow> Inr inherent)) (\<lambda>inherent.
     rbind (when_shadow cl (
       let hash = bl_hash block in
       rbind (answered (chain_get_block (cl_api cl) hash)) (\<lambda>m.
       rbind (case m of None \<Rightarrow> fail ''block not found via chain_getBlock'' | Some exs \<Rightarrow> Inr exs) (\<lambda>exs.
       rbind (case get_index exs 1 of
           None \<Rightarrow> fail ''ParaInherent extrinsic missing at index #1'' | Some bytes \<Rightarrow> Inr bytes) (\<lambda>bytes.
       rbind (case decode_parainherent (cl_codec cl) bytes of
           Inl _ \<Rightarrow> fail ''Failed to decode ParaInherent (metadata-free)'' | Inr i \<Rightarrow> Inr i) (\<lambda>metadata_free.
       rbind (compare hash ''parainherent_bitfields'' (ih_bitfields inherent) (ih_bitfields metadata_free)) (\<lambda>_.
         compare hash ''parainherent_disputes'' (ih_disputes inherent) (ih_disputes metadata_free)))))))) (\<lambda>_.
     Inr inherent)))))"

end
