(* ===== verification/Executor.thy ===== *)
theory Executor
  imports Api_Client
begin

text \<open>
  The request executor, \<^verbatim>\<open>essentials/src/api/executor.rs\<close>, with the retries of \<^verbatim>\<open>essentials/src/utils.rs\<close>. A
  backend task serves the requests for one node: \<open>match_request\<close> asks the client, \<open>execute_request\<close> repeats
  it, with \<open>attempt k\<close> the outcome of the \<open>k\<close>-th try. The frontend sends a request and waits for the answer,
  so the two are one step here; a comparison that ends the process makes the step \<open>None\<close>.
\<close>

section \<open>Retries\<close>

record retry_options =
  ro_max_count :: u32
  ro_retry_delay :: u32

record retry =
  re_count :: u32
  re_max_count :: u32
  re_delay :: u32

definition retry_new :: "retry_options \<Rightarrow> retry" where
  "retry_new opts = \<lparr>re_count = 0, re_max_count = ro_max_count opts, re_delay = ro_retry_delay opts\<rparr>"

text \<open>\<^verbatim>\<open>Retry::sleep\<close>: the milliseconds slept, or none when the count is reached.\<close>

definition retry_sleep :: "retry \<Rightarrow> u32 option \<times> retry" where
  "retry_sleep r =
     (let r = r\<lparr>re_count := re_count r + 1\<rparr> in
      if re_count r > re_max_count r then (None, r) else (Some (re_delay r * (re_count r + 1)), r))"

section \<open>Requests and responses\<close>

datatype request =
    GetBlockTimestamp h256
  | GetHead "h256 option"
  | GetBlockNumber "h256 option"
  | GetBlockHash "u32 option"
  | GetEvents h256
  | GetCandidateEvents h256
  | GetDisputes h256
  | ExtractParaInherent "h256 option"
  | GetClaimQueue h256
  | GetOccupiedCores h256
  | GetBackingGroups h256
  | GetSessionIndex h256
  | GetSessionAccountKeys u32 "h256 option"
  | GetSessionQueuedKeys "h256 option"
  | GetInboundOutBoundHrmpChannels h256 "u32 list"
  | GetSessionIndexNow
  | GetBestBlockSubscription
  | GetFinalizedBlockSubscription
  | GetChainName
  | GetBabeRandomness h256
  | GetBabeAuthorities h256
  | GetBabeCurrentSlot h256
  | GetBabeKeyOwner h256 bytes

datatype 'e response =
    RsTimestamp timestamp
  | RsMaybeHead "header option"
  | RsBlockNumber u32
  | RsMaybeBlockHash "h256 option"
  | RsEvents 'e
  | RsCandidateEvents "candidate_event list"
  | RsDisputes "decoded_dispute list"
  | RsParaInherentData inherent_data
  | RsClaimQueue claim_queue
  | RsOccupiedCores "core_state list"
  | RsBackingGroups "u32 list list"
  | RsSessionIndex u32
  | RsSessionAccountKeys "account_id list option"
  | RsSessionQueuedKeys "(account_id \<times> h256) list option"
  | RsInboundOutBoundHrmpChannels "(u32 \<times> channel_map \<times> channel_map) list"
  | RsChainSubscription 'e
  | RsChainName string
  | RsBabeRandomness "h256 option"
  | RsBabeAuthorities "(h256 \<times> u64) list"
  | RsBabeCurrentSlot "u64 option"
  | RsBabeKeyOwner "account_id option"

datatype executor_error =
    ClientBuildFailed string
  | ClientNotFound string
  | SubxtError subxt_error
  | SubxtRetriableError subxt_error
  | DynamicFailure dynamic_error
  | Timeout
  | PrioritySendError
  | OneshotRecvError
  | UnexpectedResponse request

text \<open>A backend stops on an error or with the process.\<close>

datatype backend_stop = BackendError executor_error | ProcessEnds h256 string

definition from_subxt :: "subxt_error \<Rightarrow> executor_error" where
  "from_subxt e = (case e of IoError \<Rightarrow> SubxtRetriableError e | RpcError \<Rightarrow> SubxtRetriableError e | _ \<Rightarrow> SubxtError e)"

definition should_retry :: "executor_error \<Rightarrow> bool" where
  "should_retry e = (case e of SubxtRetriableError _ \<Rightarrow> True | _ \<Rightarrow> False)"

section \<open>The backend\<close>

definition reply :: "('a \<Rightarrow> 'e response) \<Rightarrow> 'a read \<Rightarrow> backend_stop + 'e response" where
  "reply f m =
     (case m of
        Inl (Failed e) \<Rightarrow> Inl (BackendError (from_subxt e))
      | Inl (Aborted block read) \<Rightarrow> Inl (ProcessEnds block read)
      | Inr x \<Rightarrow> Inr (f x))"

definition maybe_head :: "header read \<Rightarrow> header option read" where
  "maybe_head m =
     (case m of Inl (Failed (BlockNotFound _)) \<Rightarrow> Inr None | Inl e \<Rightarrow> Inl e | Inr h \<Rightarrow> Inr (Some h))"

fun match_request :: "'e client \<Rightarrow> request \<Rightarrow> backend_stop + 'e response" where
  "match_request cl (GetBlockTimestamp hash) = reply (RsTimestamp \<circ> the_default 0) (get_block_ts cl hash)"
| "match_request cl (GetHead maybe_hash) = reply RsMaybeHead (maybe_head (get_head cl maybe_hash))"
| "match_request cl (GetBlockNumber maybe_hash) = reply RsBlockNumber (get_block_number cl maybe_hash)"
| "match_request cl (GetBlockHash maybe_number) = reply RsMaybeBlockHash (legacy_get_block_hash cl maybe_number)"
| "match_request cl GetChainName = reply RsChainName (legacy_get_chain_name cl)"
| "match_request cl (GetEvents hash) = reply RsEvents (get_events cl hash)"
| "match_request cl (GetCandidateEvents hash) = reply RsCandidateEvents (get_candidate_events cl hash)"
| "match_request cl (GetDisputes hash) = reply RsDisputes (get_disputes cl hash)"
| "match_request cl (ExtractParaInherent maybe_hash) = reply RsParaInherentData (extract_parainherent cl maybe_hash)"
| "match_request cl (GetClaimQueue hash) = reply RsClaimQueue (get_claim_queue cl hash)"
| "match_request cl (GetOccupiedCores hash) = reply RsOccupiedCores (get_occupied_cores cl hash)"
| "match_request cl (GetBackingGroups hash) = reply RsBackingGroups (get_backing_groups cl hash)"
| "match_request cl (GetSessionIndex hash) = reply (RsSessionIndex \<circ> the_default 0) (get_session_index cl hash)"
| "match_request cl (GetSessionAccountKeys session maybe_hash) =
     reply RsSessionAccountKeys (get_session_account_keys cl session maybe_hash)"
| "match_request cl (GetSessionQueuedKeys at) = reply RsSessionQueuedKeys (get_session_queued_keys cl at)"
| "match_request cl GetSessionIndexNow = reply (RsSessionIndex \<circ> the_default 0) (get_session_index_now cl)"
| "match_request cl (GetInboundOutBoundHrmpChannels hash para_ids) =
     reply RsInboundOutBoundHrmpChannels (get_inbound_outbound_hrmp_channels cl hash para_ids)"
| "match_request cl GetBestBlockSubscription = reply RsChainSubscription (stream_best_block_headers cl)"
| "match_request cl GetFinalizedBlockSubscription = reply RsChainSubscription (stream_finalized_block_headers cl)"
| "match_request cl (GetBabeRandomness hash) = reply RsBabeRandomness (get_babe_randomness cl hash)"
| "match_request cl (GetBabeAuthorities hash) = reply RsBabeAuthorities (get_babe_authorities cl hash)"
| "match_request cl (GetBabeCurrentSlot hash) = reply RsBabeCurrentSlot (get_babe_current_slot cl hash)"
| "match_request cl (GetBabeKeyOwner hash key) = reply RsBabeKeyOwner (get_babe_key_owner cl hash key)"

text \<open>The loop of \<^verbatim>\<open>execute_request\<close> from try \<open>k\<close> on, with the delays slept so far.\<close>

partial_function (option) execute_from ::
  "(nat \<Rightarrow> backend_stop + 'r) \<Rightarrow> retry \<Rightarrow> nat \<Rightarrow> u32 list \<Rightarrow> ((backend_stop + 'r) \<times> u32 list) option" where
  "execute_from attempt r k slept =
     (case attempt k of
        Inl (BackendError e) \<Rightarrow>
          if should_retry e then
            (case retry_sleep r of
               (None, _) \<Rightarrow> Some (Inl (BackendError Timeout), slept)
             | (Some ms, r') \<Rightarrow> execute_from attempt r' (Suc k) (slept @ [ms]))
          else Some (Inl (BackendError e), slept)
      | outcome \<Rightarrow> Some (outcome, slept))"

definition execute_request ::
  "(nat \<Rightarrow> backend_stop + 'r) \<Rightarrow> retry_options \<Rightarrow> ((backend_stop + 'r) \<times> u32 list) option" where
  "execute_request attempt opts = execute_from attempt (retry_new opts) 0 []"

section \<open>The frontend\<close>

text \<open>For each node whether its backend still receives, and how often the shutdown was announced.\<close>

record executor =
  ex_clients :: "(string, bool) alist"
  ex_shutdowns :: nat

text \<open>One backend per distinct node; \<open>connect\<close> says whether the client of a node can be built.\<close>

definition executor_build :: "(string \<Rightarrow> bool) \<Rightarrow> string list \<Rightarrow> executor_error + executor" where
  "executor_build connect nodes =
     rfold (\<lambda>node ex.
         if connect node then Inr (ex\<lparr>ex_clients := hm_put node True (ex_clients ex)\<rparr>)
         else Inl (ClientBuildFailed node))
       (remdups nodes) \<lparr>ex_clients = [], ex_shutdowns = 0\<rparr>"

definition executor_close :: "executor \<Rightarrow> executor" where
  "executor_close ex = ex\<lparr>ex_clients := hm_map_values (\<lambda>_. False) (ex_clients ex)\<rparr>"

text \<open>The backend's step for one request: the answer goes back, an error ends the task, which drops the
  answer's channel and announces the shutdown.\<close>

definition backend_step ::
  "string \<Rightarrow> backend_stop + 'r \<Rightarrow> executor \<Rightarrow> ((executor_error + 'r) \<times> executor) option" where
  "backend_step url outcome ex =
     (case outcome of
        Inr response \<Rightarrow> Some (Inr response, ex)
      | Inl (BackendError _) \<Rightarrow>
          Some (Inl OneshotRecvError,
            ex\<lparr>ex_clients := hm_put url False (ex_clients ex), ex_shutdowns := ex_shutdowns ex + 1\<rparr>)
      | Inl (ProcessEnds _ _) \<Rightarrow> None)"

definition ask ::
  "(string \<Rightarrow> request \<Rightarrow> backend_stop + 'r) \<Rightarrow> string \<Rightarrow> request \<Rightarrow> executor \<Rightarrow>
   ((executor_error + 'r) \<times> executor) option" where
  "ask serve url request ex =
     (case map_of (ex_clients ex) url of
        None \<Rightarrow> Some (Inl (ClientNotFound url), ex)
      | Some running \<Rightarrow>
          if \<not> running then Some (Inl PrioritySendError, ex)
          else backend_step url (serve url request) ex)"

definition wrap_backend_call ::
  "('r \<Rightarrow> 'a option) \<Rightarrow> (string \<Rightarrow> request \<Rightarrow> backend_stop + 'r) \<Rightarrow> string \<Rightarrow> request \<Rightarrow> executor \<Rightarrow>
   ((executor_error + 'a) \<times> executor) option" where
  "wrap_backend_call pick serve url request ex =
     (case ask serve url request ex of
        None \<Rightarrow> None
      | Some (Inl e, ex') \<Rightarrow> Some (Inl e, ex')
      | Some (Inr response, ex') \<Rightarrow>
          Some (case pick response of None \<Rightarrow> Inl (UnexpectedResponse request) | Some x \<Rightarrow> Inr x, ex'))"

section \<open>The calls\<close>

text \<open>What a call returns, with the executor after it. A name that the client has too gets the prefix \<open>ex\<close>.\<close>

type_synonym 'e server = "string \<Rightarrow> request \<Rightarrow> backend_stop + 'e response"
type_synonym 'a call = "executor \<Rightarrow> ((executor_error + 'a) \<times> executor) option"

definition get_block_timestamp :: "'e server \<Rightarrow> string \<Rightarrow> h256 \<Rightarrow> timestamp call" where
  "get_block_timestamp serve url hash =
     wrap_backend_call (\<lambda>r. case r of RsTimestamp x \<Rightarrow> Some x | _ \<Rightarrow> None) serve url (GetBlockTimestamp hash)"

definition get_block_head :: "'e server \<Rightarrow> string \<Rightarrow> h256 option \<Rightarrow> (header option) call" where
  "get_block_head serve url maybe_hash =
     wrap_backend_call (\<lambda>r. case r of RsMaybeHead x \<Rightarrow> Some x | _ \<Rightarrow> None) serve url (GetHead maybe_hash)"

definition ex_get_block_number :: "'e server \<Rightarrow> string \<Rightarrow> h256 option \<Rightarrow> u32 call" where
  "ex_get_block_number serve url maybe_hash =
     wrap_backend_call (\<lambda>r. case r of RsBlockNumber x \<Rightarrow> Some x | _ \<Rightarrow> None) serve url (GetBlockNumber maybe_hash)"

definition get_block_hash :: "'e server \<Rightarrow> string \<Rightarrow> u32 option \<Rightarrow> (h256 option) call" where
  "get_block_hash serve url maybe_number =
     wrap_backend_call (\<lambda>r. case r of RsMaybeBlockHash x \<Rightarrow> Some x | _ \<Rightarrow> None) serve url (GetBlockHash maybe_number)"

definition get_chain_name :: "'e server \<Rightarrow> string \<Rightarrow> string call" where
  "get_chain_name serve url =
     wrap_backend_call (\<lambda>r. case r of RsChainName x \<Rightarrow> Some x | _ \<Rightarrow> None) serve url GetChainName"

definition ex_get_events :: "'e server \<Rightarrow> string \<Rightarrow> h256 \<Rightarrow> 'e call" where
  "ex_get_events serve url hash =
     wrap_backend_call (\<lambda>r. case r of RsEvents x \<Rightarrow> Some x | _ \<Rightarrow> None) serve url (GetEvents hash)"

definition ex_get_candidate_events :: "'e server \<Rightarrow> string \<Rightarrow> h256 \<Rightarrow> (candidate_event list) call" where
  "ex_get_candidate_events serve url hash =
     wrap_backend_call (\<lambda>r. case r of RsCandidateEvents x \<Rightarrow> Some x | _ \<Rightarrow> None) serve url (GetCandidateEvents hash)"

definition ex_get_disputes :: "'e server \<Rightarrow> string \<Rightarrow> h256 \<Rightarrow> (decoded_dispute list) call" where
  "ex_get_disputes serve url hash =
     wrap_backend_call (\<lambda>r. case r of RsDisputes x \<Rightarrow> Some x | _ \<Rightarrow> None) serve url (GetDisputes hash)"

definition extract_parainherent_data :: "'e server \<Rightarrow> string \<Rightarrow> h256 option \<Rightarrow> inherent_data call" where
  "extract_parainherent_data serve url maybe_hash =
     wrap_backend_call (\<lambda>r. case r of RsParaInherentData x \<Rightarrow> Some x | _ \<Rightarrow> None) serve url (ExtractParaInherent maybe_hash)"

definition ex_get_claim_queue :: "'e server \<Rightarrow> string \<Rightarrow> h256 \<Rightarrow> claim_queue call" where
  "ex_get_claim_queue serve url hash =
     wrap_backend_call (\<lambda>r. case r of RsClaimQueue x \<Rightarrow> Some x | _ \<Rightarrow> None) serve url (GetClaimQueue hash)"

definition ex_get_occupied_cores :: "'e server \<Rightarrow> string \<Rightarrow> h256 \<Rightarrow> (core_state list) call" where
  "ex_get_occupied_cores serve url hash =
     wrap_backend_call (\<lambda>r. case r of RsOccupiedCores x \<Rightarrow> Some x | _ \<Rightarrow> None) serve url (GetOccupiedCores hash)"

definition ex_get_backing_groups :: "'e server \<Rightarrow> string \<Rightarrow> h256 \<Rightarrow> (u32 list list) call" where
  "ex_get_backing_groups serve url hash =
     wrap_backend_call (\<lambda>r. case r of RsBackingGroups x \<Rightarrow> Some x | _ \<Rightarrow> None) serve url (GetBackingGroups hash)"

definition ex_get_session_index :: "'e server \<Rightarrow> string \<Rightarrow> h256 \<Rightarrow> u32 call" where
  "ex_get_session_index serve url hash =
     wrap_backend_call (\<lambda>r. case r of RsSessionIndex x \<Rightarrow> Some x | _ \<Rightarrow> None) serve url (GetSessionIndex hash)"

definition ex_get_session_index_now :: "'e server \<Rightarrow> string \<Rightarrow> u32 call" where
  "ex_get_session_index_now serve url =
     wrap_backend_call (\<lambda>r. case r of RsSessionIndex x \<Rightarrow> Some x | _ \<Rightarrow> None) serve url GetSessionIndexNow"

definition ex_get_session_account_keys :: "'e server \<Rightarrow> string \<Rightarrow> u32 \<Rightarrow> h256 option \<Rightarrow> (account_id list option) call" where
  "ex_get_session_account_keys serve url session maybe_hash =
     wrap_backend_call (\<lambda>r. case r of RsSessionAccountKeys x \<Rightarrow> Some x | _ \<Rightarrow> None) serve url (GetSessionAccountKeys session maybe_hash)"

definition ex_get_session_queued_keys :: "'e server \<Rightarrow> string \<Rightarrow> h256 option \<Rightarrow> ((account_id \<times> h256) list option) call" where
  "ex_get_session_queued_keys serve url at =
     wrap_backend_call (\<lambda>r. case r of RsSessionQueuedKeys x \<Rightarrow> Some x | _ \<Rightarrow> None) serve url (GetSessionQueuedKeys at)"

definition ex_get_inbound_outbound_hrmp_channels :: "'e server \<Rightarrow> string \<Rightarrow> h256 \<Rightarrow> u32 list \<Rightarrow> ((u32 \<times> channel_map \<times> channel_map) list) call" where
  "ex_get_inbound_outbound_hrmp_channels serve url hash para_ids =
     wrap_backend_call (\<lambda>r. case r of RsInboundOutBoundHrmpChannels x \<Rightarrow> Some x | _ \<Rightarrow> None) serve url (GetInboundOutBoundHrmpChannels hash para_ids)"

definition get_best_block_subscription :: "'e server \<Rightarrow> string \<Rightarrow> 'e call" where
  "get_best_block_subscription serve url =
     wrap_backend_call (\<lambda>r. case r of RsChainSubscription x \<Rightarrow> Some x | _ \<Rightarrow> None) serve url GetBestBlockSubscription"

definition get_finalized_block_subscription :: "'e server \<Rightarrow> string \<Rightarrow> 'e call" where
  "get_finalized_block_subscription serve url =
     wrap_backend_call (\<lambda>r. case r of RsChainSubscription x \<Rightarrow> Some x | _ \<Rightarrow> None) serve url GetFinalizedBlockSubscription"

definition ex_get_babe_randomness :: "'e server \<Rightarrow> string \<Rightarrow> h256 \<Rightarrow> (h256 option) call" where
  "ex_get_babe_randomness serve url hash =
     wrap_backend_call (\<lambda>r. case r of RsBabeRandomness x \<Rightarrow> Some x | _ \<Rightarrow> None) serve url (GetBabeRandomness hash)"

definition ex_get_babe_authorities :: "'e server \<Rightarrow> string \<Rightarrow> h256 \<Rightarrow> ((h256 \<times> u64) list) call" where
  "ex_get_babe_authorities serve url hash =
     wrap_backend_call (\<lambda>r. case r of RsBabeAuthorities x \<Rightarrow> Some x | _ \<Rightarrow> None) serve url (GetBabeAuthorities hash)"

definition ex_get_babe_current_slot :: "'e server \<Rightarrow> string \<Rightarrow> h256 \<Rightarrow> (u64 option) call" where
  "ex_get_babe_current_slot serve url hash =
     wrap_backend_call (\<lambda>r. case r of RsBabeCurrentSlot x \<Rightarrow> Some x | _ \<Rightarrow> None) serve url (GetBabeCurrentSlot hash)"

definition ex_get_babe_key_owner :: "'e server \<Rightarrow> string \<Rightarrow> h256 \<Rightarrow> bytes \<Rightarrow> (account_id option) call" where
  "ex_get_babe_key_owner serve url hash key =
     wrap_backend_call (\<lambda>r. case r of RsBabeKeyOwner x \<Rightarrow> Some x | _ \<Rightarrow> None) serve url (GetBabeKeyOwner hash key)"

end
