(* ===== verification/Api_Laws.thy ===== *)
theory Api_Laws
  imports Api_Client
begin

text \<open>
  What the reads of \<open>Api_Client\<close> promise: the shadow comparison never changes an answer, an inherent whose
  two forms agree passes it, and the channels of a parachain are collected completely.
\<close>

section \<open>The shadow comparison\<close>

definition unshadowed :: "'e client \<Rightarrow> 'e client" where
  "unshadowed cl = cl\<lparr>cl_shadow := False\<rparr>"

text \<open>A read whose answers do not depend on the comparison.\<close>

definition shadow_free :: "('e client \<Rightarrow> 'a read) \<Rightarrow> bool" where
  "shadow_free f \<longleftrightarrow> (\<forall>cl x. f cl = Inr x \<longrightarrow> f (unshadowed cl) = Inr x)"

lemma unshadowed_simps [simp]:
  "cl_api (unshadowed cl) = cl_api cl" "cl_shadow (unshadowed cl) \<longleftrightarrow> False" "cl_hasher (unshadowed cl) = cl_hasher cl"
  "cl_codec (unshadowed cl) = cl_codec cl" "cl_at (unshadowed cl) = cl_at cl" "cl_hash_of (unshadowed cl) = cl_hash_of cl"
  "cl_long (unshadowed cl) = cl_long cl" "cl_short (unshadowed cl) = cl_short cl"
  by (simp_all add: unshadowed_def)

lemma when_unshadowed [simp]: "when_shadow (unshadowed cl) check = Inr ()"
  by (simp add: when_shadow_def)

lemma shadow_storage_unshadowed [simp]: "shadow_storage (unshadowed cl) = shadow_storage cl"
  by (intro ext) (simp add: shadow_storage_def)

lemma state_call_unshadowed [simp]: "state_call_decoded (unshadowed cl) = state_call_decoded cl"
  by (intro ext) (simp add: state_call_decoded_def)

lemma block_reads_unshadowed [simp]:
  "block_at (unshadowed cl) = block_at cl" "resolve_header (unshadowed cl) = resolve_header cl"
  "storage_block (unshadowed cl) = storage_block cl"
  by (intro ext, simp add: block_at_def resolve_header_def resolve_hash_def header_via_rpc_def storage_block_def
      cong: option.case_cong)+

lemma shadow_freeI: "(\<And>cl x. f cl = Inr x \<Longrightarrow> f (unshadowed cl) = Inr x) \<Longrightarrow> shadow_free f"
  by (simp add: shadow_free_def)

lemmas read_defs = get_head_def get_block_number_def get_occupied_cores_def get_claim_queue_def get_backing_groups_def
  get_block_ts_def get_babe_randomness_def get_babe_authorities_def get_babe_current_slot_def
  get_babe_key_owner_def get_session_index_def get_session_account_keys_def get_session_queued_keys_def
  get_hrmp_egress_channels_index_def get_hrmp_channel_digests_def get_hrmp_channels_def

lemma shadow_free_reads:
  "shadow_free (\<lambda>cl. get_head cl m)" "shadow_free (\<lambda>cl. get_block_number cl m)"
  "shadow_free (\<lambda>cl. get_occupied_cores cl h)" "shadow_free (\<lambda>cl. get_claim_queue cl h)"
  "shadow_free (\<lambda>cl. get_backing_groups cl h)" "shadow_free (\<lambda>cl. get_block_ts cl h)"
  "shadow_free (\<lambda>cl. get_babe_randomness cl h)" "shadow_free (\<lambda>cl. get_babe_authorities cl h)"
  "shadow_free (\<lambda>cl. get_babe_current_slot cl h)" "shadow_free (\<lambda>cl. get_babe_key_owner cl h key)"
  "shadow_free (\<lambda>cl. get_session_index cl h)" "shadow_free (\<lambda>cl. get_session_account_keys cl session m)"
  "shadow_free (\<lambda>cl. get_session_queued_keys cl m)" "shadow_free (\<lambda>cl. get_hrmp_egress_channels_index cl h para)"
  "shadow_free (\<lambda>cl. get_hrmp_channel_digests cl h para)" "shadow_free (\<lambda>cl. get_hrmp_channels cl h ends)"
  by (rule shadow_freeI; auto simp: read_defs Let_def split: prod.splits option.splits)+

lemma shadow_free_parainherent: "shadow_free (\<lambda>cl. extract_parainherent cl m)"
  by (rule shadow_freeI) (auto simp: extract_parainherent_def Let_def cong: sum.case_cong)

lemma shadow_free_get: "shadow_free f \<Longrightarrow> f cl = Inr x \<Longrightarrow> f (unshadowed cl) = Inr x"
  by (simp add: shadow_free_def)

section \<open>Concurrent requests\<close>

lemma join_requests_Inr: "join_requests rs = Inr xs \<longleftrightarrow> rs = map Inr xs"
proof
  have "rmap id rs = Inr xs \<Longrightarrow> rs = map Inr xs" for rs :: "'a read list" and xs
    by (induction rs arbitrary: xs) (auto simp: id_def)
  then show "join_requests rs = Inr xs \<Longrightarrow> rs = map Inr xs"
    by (auto simp: join_requests_def split: option.splits sum.splits)
  have "List.find (\<lambda>r. case r of Inl (Aborted _ _) \<Rightarrow> True | _ \<Rightarrow> False) (map Inr xs :: 'a read list) = None"
    by (auto simp: find_None_iff)
  moreover have "rmap id (map Inr xs) = (Inr xs :: 'a list read)" by (induction xs) auto
  ultimately show "rs = map Inr xs \<Longrightarrow> join_requests rs = Inr xs" by (simp add: join_requests_def)
qed

lemma shadow_free_join:
  assumes "\<And>k. shadow_free (\<lambda>cl. f cl k)"
  shows "shadow_free (\<lambda>cl. join_requests (map (f cl) ks))"
proof (rule shadow_freeI)
  fix cl xs
  assume "join_requests (map (f cl) ks) = Inr xs"
  then have all2: "map (f cl) ks = map Inr xs" by (simp add: join_requests_Inr)
  then have "map (f (unshadowed cl)) ks = map Inr xs"
    using shadow_free_get [OF assms] by (auto simp: list_eq_iff_nth_eq)
  then show "join_requests (map (f (unshadowed cl)) ks) = Inr xs" by (simp add: join_requests_Inr)
qed

text \<open>A read followed by one that depends on its answer.\<close>

lemma shadow_free_rbind:
  assumes "shadow_free f" "\<And>x. shadow_free (\<lambda>cl. g cl x)"
  shows "shadow_free (\<lambda>cl. rbind (f cl) (g cl))"
proof (rule shadow_freeI)
  fix cl y
  assume "rbind (f cl) (g cl) = Inr y"
  then obtain x where "f cl = Inr x" "g cl x = Inr y" by auto
  then have "f (unshadowed cl) = Inr x" "g (unshadowed cl) x = Inr y"
    using shadow_free_get [OF assms(1)] shadow_free_get [OF assms(2)] by auto
  then show "rbind (f (unshadowed cl)) (g (unshadowed cl)) = Inr y" by simp
qed

lemma shadow_free_const: "shadow_free (\<lambda>cl. r)"
  by (simp add: shadow_free_def)

lemma shadow_free_pairs:
  "shadow_free (\<lambda>cl. get_inbound_hrmp_channel_pairs cl h ps)"
  "shadow_free (\<lambda>cl. get_outbound_hrmp_channel_pairs cl h ps)"
  unfolding get_inbound_hrmp_channel_pairs_def get_outbound_hrmp_channel_pairs_def Let_def
  by (intro shadow_free_rbind shadow_free_join shadow_free_reads shadow_free_const)+

lemma shadow_free_channels: "shadow_free (\<lambda>cl. get_inbound_outbound_hrmp_channels cl h ps)"
  unfolding get_inbound_outbound_hrmp_channels_def Let_def
  by (intro shadow_free_rbind shadow_free_join shadow_free_pairs shadow_free_const)
    (rule shadow_free_reads)+

text \<open>Whatever a read answers with the shadow comparison on, it answers with it off: a comparison can stop
  the process or fail the read, but never changes an answer.\<close>

theorem shadow_keeps_answers:
  "shadow_free (\<lambda>cl. get_head cl m) \<and> shadow_free (\<lambda>cl. get_block_number cl m) \<and>
   shadow_free (\<lambda>cl. get_occupied_cores cl h) \<and> shadow_free (\<lambda>cl. get_claim_queue cl h) \<and>
   shadow_free (\<lambda>cl. get_backing_groups cl h) \<and> shadow_free (\<lambda>cl. get_block_ts cl h) \<and>
   shadow_free (\<lambda>cl. get_babe_randomness cl h) \<and> shadow_free (\<lambda>cl. get_babe_authorities cl h) \<and>
   shadow_free (\<lambda>cl. get_babe_current_slot cl h) \<and> shadow_free (\<lambda>cl. get_babe_key_owner cl h key) \<and>
   shadow_free (\<lambda>cl. get_session_index cl h) \<and> shadow_free (\<lambda>cl. get_session_account_keys cl session m) \<and>
   shadow_free (\<lambda>cl. get_session_queued_keys cl m) \<and> shadow_free (\<lambda>cl. extract_parainherent cl m) \<and>
   shadow_free (\<lambda>cl. get_inbound_outbound_hrmp_channels cl h para_ids)"
  by (intro conjI shadow_free_reads shadow_free_parainherent shadow_free_channels)

section \<open>HRMP channels\<close>

lemma by_para_id_snoc:
  "by_para_id owner peer (chs @ [ch]) =
   bt_update_default [] (owner ch) (bt_put (peer ch) (snd (snd ch))) (by_para_id owner peer chs)"
  by (simp add: by_para_id_def)

lemma by_para_id_wf:
  "bt_wf (by_para_id owner peer chs) \<and> (\<forall>p. bt_wf (the_default [] (map_of (by_para_id owner peer chs) p)))"
proof (induction chs rule: rev_induct)
  case (snoc ch chs)
  then show ?case
    by (auto simp: by_para_id_snoc map_of_bt_update_default the_default_def bt_wf_def [of "[_]"] intro: bt_wf_put
        split: option.splits)
qed (simp add: by_para_id_def)

lemma by_para_id_get:
  assumes "\<forall>ch \<in> set chs. snd (snd ch) = val (owner ch) (peer ch)"
  shows "map_of (the_default [] (map_of (by_para_id owner peer chs) p)) q =
    (if \<exists>ch \<in> set chs. owner ch = p \<and> peer ch = q then Some (val p q) else None)"
  using assms
proof (induction chs rule: rev_induct)
  case (snoc ch chs)
  let ?m = "by_para_id owner peer chs"
  have wf: "bt_wf ?m" "bt_wf (the_default [] (map_of ?m (owner ch)))" using by_para_id_wf by blast+
  have "the_default [] (map_of (by_para_id owner peer (chs @ [ch])) p) =
      (if p = owner ch then bt_put (peer ch) (snd (snd ch)) (the_default [] (map_of ?m (owner ch)))
       else the_default [] (map_of ?m p))"
    by (simp add: by_para_id_snoc map_of_bt_update_default wf(1)) (simp add: the_default_def)
  with snoc wf(2) show ?case by (auto simp: map_of_bt_put)
qed (simp add: by_para_id_def)

text \<open>The channels of the pairs, where every request is answered.\<close>

definition channels_of :: "(u32 \<Rightarrow> u32 \<Rightarrow> hrmp_channel option) \<Rightarrow> (u32 \<times> u32) list \<Rightarrow> (u32 \<times> u32 \<times> hrmp_channel) list" where
  "channels_of ch pairs =
     List.map_filter id (map (\<lambda>(s, r). map_option (\<lambda>channel. (s, r, channel)) (ch s r)) pairs)"

lemma channels_of_iff: "(s, r, channel) \<in> set (channels_of ch pairs) \<longleftrightarrow> (s, r) \<in> set pairs \<and> ch s r = Some channel"
  by (force simp: channels_of_def List.map_filter_def split: option.splits)

lemma join_channels:
  assumes "\<not> cl_shadow cl" "\<forall>s r. st_channel (cl_api cl) s r h = Inr (ch s r)"
  shows "join_requests (map (get_hrmp_channels cl h) pairs) =
    Inr (map (\<lambda>(s, r). map_option (\<lambda>channel. (s, r, channel)) (ch s r)) pairs)"
  unfolding join_requests_Inr
  by (auto simp: get_hrmp_channels_def assms answered_def when_shadow_def)

definition senders :: "(u32 \<times> u32 list) list option \<Rightarrow> u32 set" where
  "senders digests = (\<Union>(_, ids) \<in> set (the_default [] digests). set ids)"

definition recipients :: "u32 list option \<Rightarrow> u32 set" where
  "recipients index = set (the_default [] index)"

lemma inbound_pairs:
  assumes "\<not> cl_shadow cl" "\<forall>p \<in> set ps. st_channel_digests (cl_api cl) p h = Inr (dg p)"
  shows "\<exists>pairs. get_inbound_hrmp_channel_pairs cl h ps = Inr pairs \<and>
    set pairs = {(s, p). p \<in> set ps \<and> s \<in> senders (dg p)}"
proof -
  have "join_requests (map (get_hrmp_channel_digests cl h) ps) = Inr (map (\<lambda>p. the_default [] (dg p)) ps)"
    unfolding join_requests_Inr
    using assms by (auto simp: get_hrmp_channel_digests_def answered_def when_shadow_def)
  then show ?thesis
    by (force simp: get_inbound_hrmp_channel_pairs_def senders_def zip_map1 zip_same_conv_map)
qed

lemma outbound_pairs:
  assumes "\<not> cl_shadow cl" "\<forall>p \<in> set ps. st_egress_index (cl_api cl) p h = Inr (eg p)"
  shows "\<exists>pairs. get_outbound_hrmp_channel_pairs cl h ps = Inr pairs \<and>
    set pairs = {(p, r). p \<in> set ps \<and> r \<in> recipients (eg p)}"
proof -
  have "join_requests (map (get_hrmp_egress_channels_index cl h) ps) = Inr (map (\<lambda>p. the_default [] (eg p)) ps)"
    unfolding join_requests_Inr
    using assms by (auto simp: get_hrmp_egress_channels_index_def answered_def when_shadow_def)
  then show ?thesis
    by (auto simp: get_outbound_hrmp_channel_pairs_def recipients_def zip_map2 zip_same_conv_map)
qed

lemma inbound_map:
  assumes "set pairs = {(s, p). p \<in> set ps \<and> s \<in> senders (dg p)}" "p \<in> set ps"
  shows "map_of (the_default [] (map_of (by_para_id (\<lambda>(_, r, _). r) (\<lambda>(s, _, _). s) (channels_of ch pairs)) p)) s =
    (if s \<in> senders (dg p) then ch s p else None)"
  by (subst by_para_id_get [where val = "\<lambda>p s. the (ch s p)"])
    (use assms in \<open>auto simp: channels_of_iff Bex_def\<close>)

lemma outbound_map:
  assumes "set pairs = {(p, r). p \<in> set ps \<and> r \<in> recipients (eg p)}" "p \<in> set ps"
  shows "map_of (the_default [] (map_of (by_para_id (\<lambda>(s, _, _). s) (\<lambda>(_, r, _). r) (channels_of ch pairs)) p)) r =
    (if r \<in> recipients (eg p) then ch p r else None)"
  by (subst by_para_id_get [where val = "\<lambda>p r. the (ch p r)"])
    (use assms in \<open>auto simp: channels_of_iff Bex_def\<close>)

text \<open>For every parachain asked about, in order, the channels collected are exactly the open channels from
  the senders of its digests and to the recipients of its egress index, each keyed by the other end.\<close>

theorem hrmp_channels_exact:
  assumes "\<not> cl_shadow cl"
    and "\<forall>p \<in> set ps. st_channel_digests (cl_api cl) p h = Inr (dg p)"
    and "\<forall>p \<in> set ps. st_egress_index (cl_api cl) p h = Inr (eg p)"
    and "\<forall>s r. st_channel (cl_api cl) s r h = Inr (ch s r)"
  shows "\<exists>answer. get_inbound_outbound_hrmp_channels cl h ps = Inr answer \<and> map fst answer = ps \<and>
    (\<forall>(p, inbound, outbound) \<in> set answer.
      (\<forall>s. map_of inbound s = (if s \<in> senders (dg p) then ch s p else None)) \<and>
      (\<forall>r. map_of outbound r = (if r \<in> recipients (eg p) then ch p r else None)))"
proof -
  obtain ins where ins: "get_inbound_hrmp_channel_pairs cl h ps = Inr ins"
    "set ins = {(s, p). p \<in> set ps \<and> s \<in> senders (dg p)}"
    using inbound_pairs [OF assms(1,2)] by blast
  obtain outs where outs: "get_outbound_hrmp_channel_pairs cl h ps = Inr outs"
    "set outs = {(p, r). p \<in> set ps \<and> r \<in> recipients (eg p)}"
    using outbound_pairs [OF assms(1,3)] by blast
  have "get_inbound_outbound_hrmp_channels cl h ps = Inr (map (\<lambda>p.
      (p, the_default [] (map_of (by_para_id (\<lambda>(_, r, _). r) (\<lambda>(s, _, _). s) (channels_of ch ins)) p),
       the_default [] (map_of (by_para_id (\<lambda>(s, _, _). s) (\<lambda>(_, r, _). r) (channels_of ch outs)) p))) ps)"
    by (simp add: get_inbound_outbound_hrmp_channels_def ins(1) outs(1) join_channels [OF assms(1,4)]
        channels_of_def [symmetric])
  then show ?thesis
    using inbound_map [OF ins(2)] outbound_map [OF outs(2)] by (auto simp: comp_def)
qed

text \<open>A node that answers no request, for examples that set the answers they need.\<close>

definition silent_api :: "unit api" where
  "silent_api =
     \<lparr>chain_get_header = (\<lambda>_. Inl IoError), chain_get_finalized_head = Inl IoError,
      chain_get_block = (\<lambda>_. Inl IoError), chain_get_block_hash = (\<lambda>_. Inl IoError), system_chain = Inl IoError,
      events_at = (\<lambda>_. Inl IoError), best_block_headers = Inl IoError, finalized_block_headers = Inl IoError,
      state_get_storage = (\<lambda>_ _. Inl IoError), state_call = (\<lambda>_ _. Inl IoError), blocks_at = (\<lambda>_. Inl IoError),
      blocks_at_latest = Inl IoError, field_values = (\<lambda>_. Inl ''no fields''), storage_at_latest = Inl IoError,
      st_timestamp_now = (\<lambda>_. Inl IoError), st_egress_index = (\<lambda>_ _. Inl IoError),
      st_channel_digests = (\<lambda>_ _. Inl IoError), st_channel = (\<lambda>_ _ _. Inl IoError),
      st_randomness = (\<lambda>_. Inl IoError), st_authorities = (\<lambda>_. Inl IoError), st_current_slot = (\<lambda>_. Inl IoError),
      st_key_owner = (\<lambda>_ _. Inl IoError), st_current_index = (\<lambda>_. Inl IoError),
      st_account_keys = (\<lambda>_ _. Inl IoError), st_queued_keys = (\<lambda>_. Inl IoError),
      st_validator_groups = (\<lambda>_. Inl IoError), rt_availability_cores = (\<lambda>_. Inl IoError),
      rt_claim_queue = (\<lambda>_. Inl IoError)\<rparr>"

definition sample_client :: "bool \<Rightarrow> unit api \<Rightarrow> unit client" where
  "sample_client shadow node =
     \<lparr>cl_api = node, cl_shadow = shadow, cl_hasher = from_le_bytes, cl_codec = scale_codec, cl_at = sample_at,
      cl_hash_of = from_le_bytes, cl_long = (\<lambda>_. replicate 16 0), cl_short = (\<lambda>_. replicate 8 0)\<rparr>"

definition sample_channel :: hrmp_channel where
  "sample_channel =
     \<lparr>ch_max_capacity = 1, ch_max_total_size = 2, ch_max_message_size = 3, ch_msg_count = 4, ch_total_size = 5,
      ch_mqc_head = None, ch_sender_deposit = 6, ch_recipient_deposit = 7\<rparr>"

definition channel_node :: "unit api" where
  "channel_node = silent_api
     \<lparr>st_channel_digests := (\<lambda>_ _. Inr (Some [(9, [7])])), st_egress_index := (\<lambda>_ _. Inr None),
      st_channel := (\<lambda>s r _. Inr (if s = 7 \<and> r = 1 then Some sample_channel else None))\<rparr>"

theorem hrmp_channels_exact_witness:
  "\<exists>inbound outbound.
     get_inbound_outbound_hrmp_channels (sample_client False channel_node) 0 [1] = Inr [(1, inbound, outbound)] \<and>
     map_of inbound 7 = Some sample_channel \<and> map_of inbound 8 = None \<and> map_of outbound 7 = None"
proof -
  have "\<exists>answer. get_inbound_outbound_hrmp_channels (sample_client False channel_node) 0 [1] = Inr answer \<and>
    map fst answer = [1] \<and>
    (\<forall>(p, inbound, outbound) \<in> set answer.
      (\<forall>s. map_of inbound s = (if s \<in> senders (Some [(9, [7])]) then
        (if s = 7 \<and> p = 1 then Some sample_channel else None) else None)) \<and>
      (\<forall>r. map_of outbound r = (if r \<in> recipients None then
        (if p = 7 \<and> r = 1 then Some sample_channel else None) else None)))"
    by (rule hrmp_channels_exact [where dg = "\<lambda>_. Some [(9, [7])]" and eg = "\<lambda>_. None"])
      (simp_all add: sample_client_def channel_node_def)
  then show ?thesis by (auto simp: senders_def recipients_def)
qed

section \<open>The inherent\<close>

text \<open>C26: With the comparison on, a block whose two forms of the inherent hold the same bitfields and the same
  disputes is read; a difference in the bitfields, or else in the disputes, ends the process, naming it.\<close>

theorem shadowed_inherent_exact:
  assumes "lawful (cl_codec cl)" "hash_bytes (cl_codec cl) (cl_hash_of cl)" "finds_fields (cl_at cl)" "cl_shadow cl"
    and "blocks_at (cl_api cl) hash = Inr block" "bl_hash block = hash" "bl_extrinsics block = Inr exs"
    and "get_index exs 1 = Some ex"
    and "field_values (cl_api cl) ex = Inr (inherent_value (cl_codec cl) signature backed parent w)"
    and "chain_get_block (cl_api cl) hash = Inr (Some raws)"
    and "get_index raws 1 = Some (put_extrinsic (cl_codec cl) (version # pallet # call # put_inherent (cl_codec cl) w'))"
    and "wire_inherent_wf w'" "version < 64"
    and "length (version # pallet # call # put_inherent (cl_codec cl) w') < 2 ^ 32"
  shows "extract_parainherent cl (Some hash) =
    (if map fst (wi_bitfields w) \<noteq> map fst (wi_bitfields w') then Inl (Aborted hash ''parainherent_bitfields'')
     else if map statement_set_of (wi_disputes w) \<noteq> map statement_set_of (wi_disputes w')
       then Inl (Aborted hash ''parainherent_disputes'')
     else Inr \<lparr>ih_bitfields = map fst (wi_bitfields w), ih_disputes = map statement_set_of (wi_disputes w)\<rparr>)"
proof -
  have "drop_bit 6 version = 0"
    using assms(13) by (simp add: word_unat_eq_iff drop_bit_eq_div unat_div word_less_nat_alt div_eq_0_iff)
  then have "decode_parainherent (cl_codec cl) (put_extrinsic (cl_codec cl)
      (version # pallet # call # put_inherent (cl_codec cl) w')) =
    Inr \<lparr>ih_bitfields = map fst (wi_bitfields w'), ih_disputes = map statement_set_of (wi_disputes w')\<rparr>"
    using decode_sections [OF assms(1,12), of version _ pallet call "[]"] unat_length [OF assms(14)]
    by (simp add: put_extrinsic_def)
  with assms(4-11) decode_inherent_value [OF assms(3,2), of signature backed parent w] show ?thesis
    by (simp add: extract_parainherent_def block_at_def answered_def when_shadow_def compare_def)
qed

definition inherent_node :: "unit api" where
  "inherent_node = silent_api
     \<lparr>blocks_at := (\<lambda>h. Inr \<lparr>bl_hash = h, bl_header = \<lparr>hd_number = 1, hd_parent_hash = 2\<rparr>, bl_extrinsics = Inr [(), ()]\<rparr>),
      field_values := (\<lambda>_. Inr (inherent_value scale_codec (\<lambda>_. SBits []) (SBits []) (SBits []) sample_wire)),
      chain_get_block := (\<lambda>_. Inr (Some [[], put_extrinsic scale_codec (4 # 54 # 0 # put_inherent scale_codec sample_wire)]))\<rparr>"

theorem shadowed_inherent_exact_witness:
  "map_sum id ih_bitfields (extract_parainherent (sample_client True inherent_node) (Some 5)) = Inr [[True, False]]"
proof -
  let ?block = "\<lparr>bl_hash = 5, bl_header = \<lparr>hd_number = 1, hd_parent_hash = 2\<rparr>, bl_extrinsics = Inr [(), ()]\<rparr> :: unit block"
  have "extract_parainherent (sample_client True inherent_node) (Some 5) =
    (if map fst (wi_bitfields sample_wire) \<noteq> map fst (wi_bitfields sample_wire)
       then Inl (Aborted 5 ''parainherent_bitfields'')
     else if map statement_set_of (wi_disputes sample_wire) \<noteq> map statement_set_of (wi_disputes sample_wire)
       then Inl (Aborted 5 ''parainherent_disputes'')
     else Inr \<lparr>ih_bitfields = map fst (wi_bitfields sample_wire),
               ih_disputes = map statement_set_of (wi_disputes sample_wire)\<rparr>)"
    by (rule shadowed_inherent_exact [where block = ?block and version = 4 and pallet = 54 and call = 0])
      (use sample_wire_length in \<open>auto simp: sample_client_def inherent_node_def scale_codec_lawful sample_hash_bytes
        sample_finds sample_wire_wf get_index_def\<close>)
  then show ?thesis by (simp add: sample_wire_def)
qed

end
