(* ===== verification/Executor_Laws.thy ===== *)
theory Executor_Laws
  imports Executor Api_Laws
begin

text \<open>
  What the executor promises: how often a request is tried and what is returned, that every call gets the
  kind of response it waits for, and what a failing request leaves behind.
\<close>

section \<open>Retries\<close>

definition retriable :: "backend_stop + 'r \<Rightarrow> bool" where
  "retriable outcome \<longleftrightarrow> (case outcome of Inl (BackendError e) \<Rightarrow> should_retry e | _ \<Rightarrow> False)"

definition retry_at :: "retry_options \<Rightarrow> nat \<Rightarrow> retry" where
  "retry_at opts k = \<lparr>re_count = of_nat k, re_max_count = ro_max_count opts, re_delay = ro_retry_delay opts\<rparr>"

definition delays :: "retry_options \<Rightarrow> nat \<Rightarrow> nat \<Rightarrow> u32 list" where
  "delays opts k n = map (\<lambda>i. ro_retry_delay opts * of_nat (i + 2)) [k..<n]"

lemma retry_sleep_at:
  assumes "unat (ro_max_count opts) < 2 ^ 32 - 1" "k \<le> unat (ro_max_count opts)"
  shows "retry_sleep (retry_at opts k) =
    (if k < unat (ro_max_count opts) then Some (ro_retry_delay opts * of_nat (k + 2)) else None, retry_at opts (Suc k))"
proof -
  have "unat (of_nat (Suc k) :: u32) = Suc k"
    using assms unat_usize_as_u32 [of "Suc k"] by (simp add: usize_as_u32_def)
  then show ?thesis
    using assms(2) by (simp add: retry_sleep_def retry_at_def word_less_nat_alt Let_def add.commute)
qed

lemma not_retriable: "\<not> retriable (attempt k) \<Longrightarrow> execute_from attempt r k slept = Some (attempt k, slept)"
  by (subst execute_from.simps) (auto simp: retriable_def split: sum.splits backend_stop.splits)

lemma retried:
  assumes "retriable (attempt k)"
  shows "execute_from attempt r k slept =
    (case retry_sleep r of
       (None, _) \<Rightarrow> Some (Inl (BackendError Timeout), slept)
     | (Some ms, r') \<Rightarrow> execute_from attempt r' (Suc k) (slept @ [ms]))"
  using assms by (subst execute_from.simps) (auto simp: retriable_def split: sum.splits backend_stop.splits)

lemma execute_from_run:
  assumes "unat (ro_max_count opts) < 2 ^ 32 - 1" "k \<le> n" "n \<le> unat (ro_max_count opts)"
    and "\<forall>i. k \<le> i \<and> i < n \<longrightarrow> retriable (attempt i)"
  shows "execute_from attempt (retry_at opts k) k slept =
    execute_from attempt (retry_at opts n) n (slept @ delays opts k n)"
  using assms(2,3,4)
proof (induction n)
  case (Suc n)
  show ?case
  proof (cases "k = Suc n")
    case False
    then have "k \<le> n" using Suc.prems(1) by simp
    with Suc have "execute_from attempt (retry_at opts k) k slept =
        execute_from attempt (retry_at opts n) n (slept @ delays opts k n)" by simp
    also have "\<dots> = execute_from attempt (retry_at opts (Suc n)) (Suc n)
        (slept @ delays opts k n @ [ro_retry_delay opts * of_nat (n + 2)])"
      using Suc.prems \<open>k \<le> n\<close> by (subst retried) (simp_all add: retry_sleep_at [OF assms(1)])
    finally show ?thesis using \<open>k \<le> n\<close> by (simp add: delays_def)
  qed (simp add: delays_def)
qed (simp add: delays_def)

lemma retry_outcomes:
  assumes "unat (ro_max_count opts) < 2 ^ 32 - 1"
  shows "k \<le> unat (ro_max_count opts) \<Longrightarrow> \<forall>i < k. retriable (attempt i) \<Longrightarrow> \<not> retriable (attempt k) \<Longrightarrow>
      execute_request attempt opts = Some (attempt k, delays opts 0 k)"
    and "\<forall>k \<le> unat (ro_max_count opts). retriable (attempt k) \<Longrightarrow>
      execute_request attempt opts = Some (Inl (BackendError Timeout), delays opts 0 (unat (ro_max_count opts)))"
proof -
  let ?max = "unat (ro_max_count opts)"
  have start: "execute_request attempt opts = execute_from attempt (retry_at opts n) n (delays opts 0 n)"
    if "n \<le> ?max" "\<forall>i < n. retriable (attempt i)" for n
    using execute_from_run [OF assms, of 0 n attempt "[]"] that
    by (simp add: execute_request_def retry_at_def retry_new_def)
  show "k \<le> ?max \<Longrightarrow> \<forall>i < k. retriable (attempt i) \<Longrightarrow> \<not> retriable (attempt k) \<Longrightarrow>
      execute_request attempt opts = Some (attempt k, delays opts 0 k)"
    using start by (simp add: not_retriable)
  show "\<forall>k \<le> ?max. retriable (attempt k) \<Longrightarrow>
      execute_request attempt opts = Some (Inl (BackendError Timeout), delays opts 0 ?max)"
    by (subst start [of ?max]) (simp_all add: retried retry_sleep_at [OF assms])
qed

lemma execute_request_total:
  assumes "unat (ro_max_count opts) < 2 ^ 32 - 1"
  shows "\<exists>outcome slept. execute_request attempt opts = Some (outcome, slept)"
proof (cases "\<forall>k \<le> unat (ro_max_count opts). retriable (attempt k)")
  case False
  define k where "k = (LEAST k. \<not> retriable (attempt k))"
  from False obtain n where n: "n \<le> unat (ro_max_count opts)" "\<not> retriable (attempt n)" by blast
  then have "\<not> retriable (attempt k)" "k \<le> n"
    unfolding k_def using LeastI [of "\<lambda>k. \<not> retriable (attempt k)"] Least_le [of "\<lambda>k. \<not> retriable (attempt k)"] by auto
  moreover have "\<forall>i < k. retriable (attempt i)" unfolding k_def using not_less_Least by blast
  ultimately show ?thesis using retry_outcomes(1) [OF assms, of k attempt] n(1) by auto
qed (use retry_outcomes(2) [OF assms] in blast)

text \<open>C27: A request is tried until it succeeds or fails for good, at most once more than the number of retries,
  and then the outcome of that last try is returned; if every try could be repeated the answer is a
  timeout. Before retry \<open>i\<close>, counted from 0, the task sleeps \<open>i + 2\<close> times the delay, modulo \<open>2 ^ 32\<close>.\<close>

theorem retry_exact:
  assumes "unat (ro_max_count opts) < 2 ^ 32 - 1"
  shows "(\<forall>k \<le> unat (ro_max_count opts).
      (\<forall>i < k. retriable (attempt i)) \<and> \<not> retriable (attempt k) \<longrightarrow>
      execute_request attempt opts = Some (attempt k, map (\<lambda>i. ro_retry_delay opts * of_nat (i + 2)) [0..<k])) \<and>
    ((\<forall>k \<le> unat (ro_max_count opts). retriable (attempt k)) \<longrightarrow>
      execute_request attempt opts = Some (Inl (BackendError Timeout),
        map (\<lambda>i. ro_retry_delay opts * of_nat (i + 2)) [0..<unat (ro_max_count opts)]))"
  using retry_outcomes [OF assms] by (auto simp: delays_def)

theorem retry_exact_witness:
  "execute_request (\<lambda>k. if k = 0 then Inl (BackendError (SubxtRetriableError IoError)) else Inr k)
     \<lparr>ro_max_count = 10, ro_retry_delay = 100\<rparr> = Some (Inr 1, [200])"
  using retry_exact [of "\<lparr>ro_max_count = 10, ro_retry_delay = 100\<rparr>"
    "\<lambda>k. if k = 0 then Inl (BackendError (SubxtRetriableError IoError)) else Inr k"]
  by (auto simp: retriable_def should_retry_def dest: spec [of _ 1])

text \<open>With the largest count there is no end to the retries.\<close>

lemma execute_from_stops:
  assumes "execute_from attempt r k slept = Some y" "re_max_count r = - 1"
  shows "\<exists>n. \<not> retriable (attempt n)"
proof -
  have sleep: "re_max_count r = - 1 \<Longrightarrow> \<exists>ms r'. retry_sleep r = (Some ms, r') \<and> re_max_count r' = - 1" for r
    by (simp add: retry_sleep_def Let_def leD [OF word_n1_ge])
  have "re_max_count r = - 1 \<longrightarrow> (\<exists>n. \<not> retriable (attempt n))"
  proof (rule execute_from.raw_induct [OF _ assms(1),
        where P = "\<lambda>attempt r k slept y. re_max_count r = - 1 \<longrightarrow> (\<exists>n. \<not> retriable (attempt n))"], rule impI)
    fix execute_from attempt r k slept y
    assume IH: "\<And>attempt r k slept y. execute_from attempt r k slept = Some y \<Longrightarrow>
        re_max_count r = - 1 \<longrightarrow> (\<exists>n. \<not> retriable (attempt n))"
      and body: "(case attempt k of
        Inl (BackendError e) \<Rightarrow>
          if should_retry e then
            (case retry_sleep r of
               (None, _) \<Rightarrow> Some (Inl (BackendError Timeout), slept)
             | (Some ms, r') \<Rightarrow> execute_from attempt r' (Suc k) (slept @ [ms]))
          else Some (Inl (BackendError e), slept)
      | outcome \<Rightarrow> Some (outcome, slept)) = Some y"
      and max: "re_max_count r = - 1"
    from sleep [OF max] obtain ms r' where r': "retry_sleep r = (Some ms, r')" "re_max_count r' = - 1" by blast
    show "\<exists>n. \<not> retriable (attempt n)"
    proof (cases "retriable (attempt k)")
      case True
      then have "execute_from attempt r' (Suc k) (slept @ [ms]) = Some y"
        using body r'(1) by (auto simp: retriable_def split: sum.splits backend_stop.splits)
      with IH r'(2) show ?thesis by blast
    qed blast
  qed
  with assms(2) show ?thesis by blast
qed

lemma retry_forever:
  assumes "ro_max_count opts = - 1" "\<forall>k. retriable (attempt k)"
  shows "execute_request attempt opts = None"
  using assms execute_from_stops [of attempt "retry_new opts" 0 "[]"]
  by (cases "execute_request attempt opts") (auto simp: execute_request_def retry_new_def)

lemma execute_from_outcome:
  assumes "execute_from attempt r k slept = Some y"
  shows "isl (fst y) \<or> (\<exists>n. attempt n = fst y)"
proof (rule execute_from.raw_induct [OF _ assms, where P = "\<lambda>attempt r k slept y. isl (fst y) \<or> (\<exists>n. attempt n = fst y)"])
  fix execute_from attempt r k slept y
  assume IH: "\<And>attempt r k slept y. execute_from attempt r k slept = Some y \<Longrightarrow> isl (fst y) \<or> (\<exists>n. attempt n = fst y)"
    and body: "(case attempt k of
      Inl (BackendError e) \<Rightarrow>
        if should_retry e then
          (case retry_sleep r of
             (None, _) \<Rightarrow> Some (Inl (BackendError Timeout), slept)
           | (Some ms, r') \<Rightarrow> execute_from attempt r' (Suc k) (slept @ [ms]))
        else Some (Inl (BackendError e), slept)
    | outcome \<Rightarrow> Some (outcome, slept)) = Some y"
  then show "isl (fst y) \<or> (\<exists>n. attempt n = fst y)"
    by (auto split: sum.splits backend_stop.splits if_splits prod.splits option.splits)
qed

section \<open>Responses\<close>

text \<open>A server that answers with what some try of the request at the client of the node gave.\<close>

definition serves :: "(string \<Rightarrow> nat \<Rightarrow> 'e client) \<Rightarrow> retry_options \<Rightarrow> 'e server \<Rightarrow> bool" where
  "serves clients opts serve \<longleftrightarrow> (\<forall>url request. \<exists>slept.
     execute_request (\<lambda>k. match_request (clients url k) request) opts = Some (serve url request, slept))"

definition never_surprised :: "'a call \<Rightarrow> bool" where
  "never_surprised call \<longleftrightarrow> (\<forall>ex e ex'. call ex = Some (Inl e, ex') \<longrightarrow> (\<forall>request. e \<noteq> UnexpectedResponse request))"

lemma serves_answer:
  assumes "serves clients opts serve" "serve url request = Inr response"
  shows "\<exists>cl. match_request cl request = Inr response"
proof -
  obtain slept where "execute_request (\<lambda>k. match_request (clients url k) request) opts = Some (Inr response, slept)"
    using assms by (metis serves_def)
  then show ?thesis unfolding execute_request_def by (auto dest!: execute_from_outcome)
qed

lemma never_surprisedI:
  assumes "serves clients opts serve" "\<And>cl response. match_request cl request = Inr response \<Longrightarrow> pick response \<noteq> None"
  shows "never_surprised (wrap_backend_call pick serve url request)"
proof -
  have picked: "pick response \<noteq> None" if "serve url request = Inr response" for response
    using serves_answer [OF assms(1) that] assms(2) by blast
  show ?thesis
    unfolding never_surprised_def wrap_backend_call_def ask_def backend_step_def
    by (auto dest: picked split: option.splits sum.splits if_splits backend_stop.splits)
qed

lemma reply_Inr: "reply f m = Inr response \<Longrightarrow> \<exists>x. response = f x"
  by (auto simp: reply_def split: sum.splits stop.splits)

text \<open>C28: No call ever meets a response of the wrong kind: whatever the node answers, each of the calls of the
  executor returns the content of its own kind of response or fails with another error.\<close>

theorem calls_never_surprised:
  assumes "serves clients opts serve"
  shows "never_surprised (get_block_timestamp serve url hash) \<and>
   never_surprised (get_block_head serve url maybe_hash) \<and>
   never_surprised (ex_get_block_number serve url maybe_hash) \<and>
   never_surprised (get_block_hash serve url maybe_number) \<and>
   never_surprised (get_chain_name serve url) \<and>
   never_surprised (ex_get_events serve url hash) \<and>
   never_surprised (ex_get_candidate_events serve url hash) \<and>
   never_surprised (ex_get_disputes serve url hash) \<and>
   never_surprised (extract_parainherent_data serve url maybe_hash) \<and>
   never_surprised (ex_get_claim_queue serve url hash) \<and>
   never_surprised (ex_get_occupied_cores serve url hash) \<and>
   never_surprised (ex_get_backing_groups serve url hash) \<and>
   never_surprised (ex_get_session_index serve url hash) \<and>
   never_surprised (ex_get_session_index_now serve url) \<and>
   never_surprised (ex_get_session_account_keys serve url session maybe_hash) \<and>
   never_surprised (ex_get_session_queued_keys serve url at) \<and>
   never_surprised (ex_get_inbound_outbound_hrmp_channels serve url hash para_ids) \<and>
   never_surprised (get_best_block_subscription serve url) \<and>
   never_surprised (get_finalized_block_subscription serve url) \<and>
   never_surprised (ex_get_babe_randomness serve url hash) \<and>
   never_surprised (ex_get_babe_authorities serve url hash) \<and>
   never_surprised (ex_get_babe_current_slot serve url hash) \<and>
   never_surprised (ex_get_babe_key_owner serve url hash key)"
  unfolding get_block_timestamp_def get_block_head_def ex_get_block_number_def get_block_hash_def get_chain_name_def
    ex_get_events_def ex_get_candidate_events_def ex_get_disputes_def extract_parainherent_data_def ex_get_claim_queue_def ex_get_occupied_cores_def
    ex_get_backing_groups_def ex_get_session_index_def ex_get_session_index_now_def ex_get_session_account_keys_def ex_get_session_queued_keys_def
    ex_get_inbound_outbound_hrmp_channels_def get_best_block_subscription_def get_finalized_block_subscription_def
    ex_get_babe_randomness_def ex_get_babe_authorities_def ex_get_babe_current_slot_def ex_get_babe_key_owner_def
  by (intro conjI never_surprisedI [OF assms]) (auto dest!: reply_Inr)

definition steady_server :: "unit client \<Rightarrow> retry_options \<Rightarrow> unit server" where
  "steady_server cl opts = (\<lambda>url request. fst (the (execute_request (\<lambda>k. match_request cl request) opts)))"

lemma steady_server_serves:
  assumes "unat (ro_max_count opts) < 2 ^ 32 - 1"
  shows "serves (\<lambda>url k. cl) opts (steady_server cl opts)"
  unfolding serves_def
proof (intro allI)
  fix url request
  obtain outcome slept where "execute_request (\<lambda>k. match_request cl request) opts = Some (outcome, slept)"
    using execute_request_total [OF assms] by blast
  then show "\<exists>slept. execute_request (\<lambda>k. match_request cl request) opts = Some (steady_server cl opts url request, slept)"
    by (simp add: steady_server_def)
qed

theorem calls_never_surprised_witness:
  "never_surprised (get_block_head
     (steady_server (sample_client False inherent_node) \<lparr>ro_max_count = 10, ro_retry_delay = 100\<rparr>) ''node'' None)"
  using calls_never_surprised [OF steady_server_serves, of "\<lparr>ro_max_count = 10, ro_retry_delay = 100\<rparr>"] by simp

section \<open>Failures\<close>

text \<open>A request that fails for good stops the backend of its node: the caller loses the answer, the
  shutdown is announced once more, every later call to that node fails to send, and the other nodes are
  served as before.\<close>

theorem failed_request_stops_node:
  assumes "map_of (ex_clients ex) url = Some True" "serve url request = Inl (BackendError e)"
  shows "\<exists>ex'. ask serve url request ex = Some (Inl OneshotRecvError, ex') \<and>
    ex_shutdowns ex' = ex_shutdowns ex + 1 \<and>
    (\<forall>serve' request'. ask serve' url request' ex' = Some (Inl PrioritySendError, ex')) \<and>
    (\<forall>url' serve' request'. url' \<noteq> url \<longrightarrow>
      map_option fst (ask serve' url' request' ex') = map_option fst (ask serve' url' request' ex))"
  using assms
  by (auto simp: ask_def backend_step_def map_of_hm_put split: option.split sum.split backend_stop.split)

theorem failed_request_stops_node_witness:
  "\<exists>ex'. ask (\<lambda>url request. Inl (BackendError Timeout) :: backend_stop + unit) ''a'' GetChainName
      \<lparr>ex_clients = [(''a'', True), (''b'', True)], ex_shutdowns = 0\<rparr> = Some (Inl OneshotRecvError, ex') \<and>
    ex_shutdowns ex' = 1"
  using failed_request_stops_node [of "\<lparr>ex_clients = [(''a'', True), (''b'', True)], ex_shutdowns = 0\<rparr>" "''a''"
    "\<lambda>url request. Inl (BackendError Timeout) :: backend_stop + unit" GetChainName Timeout] by auto

end
