(* ===== verification/Chain_Event_Decode.thy ===== *)
theory Chain_Event_Decode
  imports Dynamic_Laws Collector_Loop
begin

text \<open>
  From a raw event of a block to a chain event, \<^verbatim>\<open>essentials/src/chain_events.rs\<close>. What the crate
  \<^verbatim>\<open>subxt\<close> answers for an event (its names, the typed reading \<^verbatim>\<open>as_event\<close>, its dynamic fields and their
  bytes) is a field of \<open>event_details\<close>; the names of the generated event types are the parameter \<open>names\<close>.
\<close>

section \<open>Operations\<close>

datatype static_event =
    EvDisputeInitiated
  | EvDisputeConcluded
  | EvCandidateBacked
  | EvCandidateIncluded
  | EvCandidateTimedOut

datatype runtime_dispute_result = RtValid | RtInvalid

record event_details =
  ed_pallet_name :: string
  ed_variant_name :: string
  ed_as_initiated :: "string + h256 option"
  ed_as_concluded :: "string + (h256 \<times> runtime_dispute_result) option"
  ed_field_values :: "string + comp"
  ed_field_bytes :: bytes

datatype event_error =
    CannotDecodeEvent string string string
  | NoEventFound string string
  | NoFieldValues string
  | BadFields dynamic_error
  | FieldBytesTooShort nat nat

type_synonym event_names = "static_event \<Rightarrow> string \<times> string"

definition is_specific_event :: "event_names \<Rightarrow> static_event \<Rightarrow> event_details \<Rightarrow> bool" where
  "is_specific_event names kind ev \<longleftrightarrow> names kind = (ed_pallet_name ev, ed_variant_name ev)"

definition decode_to_specific_event :: "event_details \<Rightarrow> string + 'a option \<Rightarrow> event_error + 'a" where
  "decode_to_specific_event ev as_event =
     (case as_event of
        Inl e \<Rightarrow> Inl (CannotDecodeEvent (ed_pallet_name ev) (ed_variant_name ev) e)
      | Inr None \<Rightarrow> Inl (NoEventFound (ed_pallet_name ev) (ed_variant_name ev))
      | Inr (Some x) \<Rightarrow> Inr x)"

definition event_receipt_size :: nat where
  "event_receipt_size = 324"

definition hash_candidate_receipt :: "(bytes \<Rightarrow> h256) \<Rightarrow> bytes \<Rightarrow> event_error + h256" where
  "hash_candidate_receipt hash bytes =
     (if length bytes < event_receipt_size then Inl (FieldBytesTooShort (length bytes) event_receipt_size)
      else Inr (hash (take event_receipt_size bytes)))"

definition map_error :: "('e \<Rightarrow> 'f) \<Rightarrow> 'e + 'a \<Rightarrow> 'f + 'a" where
  "map_error f m = (case m of Inl e \<Rightarrow> Inl (f e) | Inr x \<Rightarrow> Inr x)"

definition decode_candidate_changed ::
  "(sval \<Rightarrow> string \<Rightarrow> sval option) \<Rightarrow> (bytes \<Rightarrow> h256) \<Rightarrow> (bytes \<Rightarrow> h256) \<Rightarrow> event_details \<Rightarrow>
   candidate_event_type \<Rightarrow> event_error + candidate_event" where
  "decode_candidate_changed at_field hash_of hash ev event_type =
     rbind (map_error NoFieldValues (ed_field_values ev)) (\<lambda>values.
     rbind (map_error BadFields (decode_candidate_event at_field hash_of values)) (\<lambda>(para_id, relay_parent, core_idx).
     rbind (hash_candidate_receipt hash (ed_field_bytes ev)) (\<lambda>candidate_hash.
       Inr \<lparr>ce_candidate_hash = candidate_hash, ce_relay_parent = relay_parent, ce_parachain_id = para_id,
            ce_event_type = event_type, ce_core_idx = core_idx\<rparr>)))"

definition decode_chain_event ::
  "event_names \<Rightarrow> (sval \<Rightarrow> string \<Rightarrow> sval option) \<Rightarrow> (bytes \<Rightarrow> h256) \<Rightarrow> (bytes \<Rightarrow> h256) \<Rightarrow> h256 \<Rightarrow>
   event_details \<Rightarrow> event_error + chain_event option" where
  "decode_chain_event names at_field hash_of hash block_hash ev =
     (let changed = (\<lambda>event_type.
            rbind (decode_candidate_changed at_field hash_of hash ev event_type) (\<lambda>e. Inr (Some (CandidateChanged e))))
      in if is_specific_event names EvDisputeInitiated ev then
           rbind (decode_to_specific_event ev (ed_as_initiated ev)) (\<lambda>candidate.
             Inr (Some (DisputeInitiated \<lparr>sd_relay_parent_block = block_hash, sd_candidate_hash = candidate\<rparr>)))
         else if is_specific_event names EvDisputeConcluded ev then
           rbind (decode_to_specific_event ev (ed_as_concluded ev)) (\<lambda>(candidate, result).
             let outcome = (case result of RtValid \<Rightarrow> DValid | RtInvalid \<Rightarrow> DInvalid)
             in Inr (Some (DisputeConcluded
                  \<lparr>sd_relay_parent_block = block_hash, sd_candidate_hash = candidate\<rparr> outcome)))
         else if is_specific_event names EvCandidateBacked ev then changed CandidateBacked
         else if is_specific_event names EvCandidateIncluded ev then changed CandidateIncluded
         else if is_specific_event names EvCandidateTimedOut ev then changed CandidateTimedOut
         else Inr None)"


section \<open>What an event shows\<close>

text \<open>The facts a block's events record. An event shows a candidate's fact when its dynamic fields carry the
  receipt, the head, the core and what follows, and its bytes are their encoding, the kind's tag left out.\<close>

datatype block_fact =
    FactCandidate raw_candidate_event
  | FactInitiated h256
  | FactConcluded h256 runtime_dispute_result
  | FactOther

fun candidate_kind :: "raw_candidate_event \<Rightarrow> static_event" where
  "candidate_kind (RawBacked _ _ _ _) = EvCandidateBacked"
| "candidate_kind (RawIncluded _ _ _ _) = EvCandidateIncluded"
| "candidate_kind (RawTimedOut _ _ _) = EvCandidateTimedOut"

fun candidate_parts :: "raw_candidate_event \<Rightarrow> raw_candidate_receipt \<times> u32" where
  "candidate_parts (RawBacked r _ core _) = (r, core)"
| "candidate_parts (RawIncluded r _ core _) = (r, core)"
| "candidate_parts (RawTimedOut r _ core) = (r, core)"

definition receipt_value :: "codec \<Rightarrow> (string \<times> sval) list \<Rightarrow> (string \<times> sval) list \<Rightarrow> raw_candidate_receipt \<Rightarrow> sval" where
  "receipt_value c descriptor_rest receipt_rest r = SComposite (Named ((''descriptor'', SComposite (Named
     ((''para_id'', newtype (u32_value (rr_para_id r))) # (''relay_parent'', hash_value c (rr_relay_parent r)) #
      descriptor_rest))) # receipt_rest))"

definition shows_candidate :: "codec \<Rightarrow> raw_candidate_event \<Rightarrow> event_details \<Rightarrow> bool" where
  "shows_candidate c raw ev \<longleftrightarrow>
     ed_field_bytes ev = tl (put_candidate_event c raw) \<and>
     (\<exists>descriptor_rest receipt_rest head rest. ed_field_values ev = Inr (Unnamed
        (receipt_value c descriptor_rest receipt_rest (fst (candidate_parts raw)) # head #
         newtype (u32_value (snd (candidate_parts raw))) # rest)))"

definition named_as :: "event_names \<Rightarrow> static_event \<Rightarrow> event_details \<Rightarrow> bool" where
  "named_as names kind ev \<longleftrightarrow> (ed_pallet_name ev, ed_variant_name ev) = names kind"

fun event_shows :: "event_names \<Rightarrow> codec \<Rightarrow> block_fact \<Rightarrow> event_details \<Rightarrow> bool" where
  "event_shows names c (FactCandidate raw) ev \<longleftrightarrow>
     named_as names (candidate_kind raw) ev \<and> candidate_event_wf raw \<and> shows_candidate c raw ev"
| "event_shows names c (FactInitiated h) ev \<longleftrightarrow>
     named_as names EvDisputeInitiated ev \<and> ed_as_initiated ev = Inr (Some h)"
| "event_shows names c (FactConcluded h result) ev \<longleftrightarrow>
     named_as names EvDisputeConcluded ev \<and> ed_as_concluded ev = Inr (Some (h, result))"
| "event_shows names c FactOther ev \<longleftrightarrow> (\<forall>kind. \<not> named_as names kind ev)"

fun outcome_of :: "runtime_dispute_result \<Rightarrow> dispute_result" where
  "outcome_of RtValid = DValid"
| "outcome_of RtInvalid = DInvalid"

fun fact_event :: "codec \<Rightarrow> (bytes \<Rightarrow> h256) \<Rightarrow> h256 \<Rightarrow> block_fact \<Rightarrow> chain_event option" where
  "fact_event c hash block (FactCandidate raw) = Some (CandidateChanged (candidate_event_of c hash raw))"
| "fact_event c hash block (FactInitiated h) =
     Some (DisputeInitiated \<lparr>sd_relay_parent_block = block, sd_candidate_hash = h\<rparr>)"
| "fact_event c hash block (FactConcluded h result) =
     Some (DisputeConcluded \<lparr>sd_relay_parent_block = block, sd_candidate_hash = h\<rparr> (outcome_of result))"
| "fact_event c hash block FactOther = None"

text \<open>SCALE writes a \<^verbatim>\<open>u32\<close> in four bytes.\<close>

definition fixed_width :: "codec \<Rightarrow> bool" where
  "fixed_width c \<longleftrightarrow> (\<forall>n. length (put_u32 c n) = 4)"

lemma decode_candidate_value:
  assumes "hash_bytes c hash_of" "finds_fields at_field"
  shows "decode_candidate_event at_field hash_of
      (Unnamed (receipt_value c descriptor_rest receipt_rest r # head # newtype (u32_value core) # rest)) =
    Inr (rr_para_id r, rr_relay_parent r, core)"
  using assms by (simp add: decode_candidate_event_def receipt_value_def)

lemma take_receipt:
  assumes "fixed_width c" "hash_bytes c hash_of" "receipt_wf r"
  shows "hash_candidate_receipt hash (put_receipt c r @ rest) = Inr (hash (put_receipt c r))"
proof -
  have "length (put_receipt c r) = event_receipt_size"
    using assms by (simp add: put_receipt_def fixed_width_def hash_bytes_def receipt_wf_def receipt_tail_size_def
        candidate_receipt_size_def candidate_descriptor_size_def event_receipt_size_def)
  then show ?thesis by (simp add: hash_candidate_receipt_def)
qed

definition kind_type :: "raw_candidate_event \<Rightarrow> candidate_event_type" where
  "kind_type raw = ce_event_type (candidate_event_of scale_codec (\<lambda>_. 0) raw)"

lemma decode_changed:
  assumes "fixed_width c" "hash_bytes c hash_of" "finds_fields at_field" "candidate_event_wf raw" "shows_candidate c raw ev"
  shows "decode_candidate_changed at_field hash_of hash ev (kind_type raw) = Inr (candidate_event_of c hash raw)"
proof -
  obtain descriptor_rest receipt_rest head rest where ev: "ed_field_values ev = Inr (Unnamed
        (receipt_value c descriptor_rest receipt_rest (fst (candidate_parts raw)) # head #
         newtype (u32_value (snd (candidate_parts raw))) # rest))"
      and bytes: "ed_field_bytes ev = tl (put_candidate_event c raw)"
    using assms(5) by (auto simp: shows_candidate_def)
  from assms show ?thesis
    by (cases raw) (simp_all add: decode_candidate_changed_def map_error_def ev bytes decode_candidate_value take_receipt
        candidate_event_of_def kind_type_def)
qed

lemma decode_shown:
  assumes "fixed_width c" "hash_bytes c hash_of" "finds_fields at_field" "inj names" "event_shows names c shown ev"
  shows "decode_chain_event names at_field hash_of hash block ev = Inr (fact_event c hash block shown)"
proof (cases shown)
  case (FactCandidate raw)
  then have changed: "decode_candidate_changed at_field hash_of hash ev (kind_type raw) = Inr (candidate_event_of c hash raw)"
    using decode_changed [OF assms(1-3)] assms(5) by simp
  from FactCandidate changed assms(4,5) show ?thesis
    by (cases raw) (simp_all add: decode_chain_event_def is_specific_event_def named_as_def inj_eq kind_type_def
        candidate_event_of_def Let_def)
next
  case (FactConcluded h result)
  with assms(4,5) show ?thesis
    by (cases result) (simp_all add: decode_chain_event_def is_specific_event_def named_as_def inj_eq decode_to_specific_event_def)
next
  case (FactInitiated h)
  with assms(5) show ?thesis
    by (simp add: decode_chain_event_def is_specific_event_def named_as_def decode_to_specific_event_def)
next
  case FactOther
  with assms(5) have "\<not> is_specific_event names kind ev" for kind
    by (simp add: is_specific_event_def named_as_def eq_commute [of "names _"])
  with FactOther show ?thesis by (simp add: decode_chain_event_def)
qed


section \<open>The comparison with the runtime calls\<close>

lemma map_of_Some_single:
  "(\<And>k v v'. (k, v) \<in> set kvs \<Longrightarrow> (k, v') \<in> set kvs \<Longrightarrow> v = v') \<Longrightarrow> map_of kvs k = Some v \<longleftrightarrow> (k, v) \<in> set kvs"
proof
  assume single: "\<And>k v v'. (k, v) \<in> set kvs \<Longrightarrow> (k, v') \<in> set kvs \<Longrightarrow> v = v'" and kv: "(k, v) \<in> set kvs"
  then obtain v' where "map_of kvs k = Some v'" by (metis weak_map_of_SomeI)
  with single kv show "map_of kvs k = Some v" by (metis map_of_SomeD)
qed (rule map_of_SomeD)

lemma set_collected:
  assumes "inj_on key (set xs)"
  shows "set (hm_collect (map (\<lambda>v. (key v, v)) xs)) = (\<lambda>v. (key v, v)) ` set xs"
proof -
  have "kv \<in> set (hm_collect (map (\<lambda>v. (key v, v)) xs)) \<longleftrightarrow> kv \<in> set (map (\<lambda>v. (key v, v)) xs)" for kv
  proof -
    have "kv \<in> set (hm_collect (map (\<lambda>v. (key v, v)) xs)) \<longleftrightarrow>
        map_of (rev (map (\<lambda>v. (key v, v)) xs)) (fst kv) = Some (snd kv)"
      using hm_wf_collect [of "map (\<lambda>v. (key v, v)) xs"]
      by (cases kv) (simp add: map_of_hm_collect [symmetric] hm_wf_def map_of_eq_Some_iff)
    also have "\<dots> \<longleftrightarrow> kv \<in> set (map (\<lambda>v. (key v, v)) xs)"
      using assms by (subst map_of_Some_single) (auto simp: inj_on_def)
    finally show ?thesis .
  qed
  then show ?thesis by auto
qed

lemma compare_set_inj:
  "inj_on key (set xs) \<Longrightarrow> inj_on key (set ys) \<Longrightarrow> compare_set xs ys key \<longleftrightarrow> set xs = set ys"
  by (auto simp: compare_set_def set_collected)

lemma compare_set_same: "compare_set xs xs key"
  by (simp add: compare_set_def)


text \<open>The verdict on a block, with the candidate events and the disputes as the runtime calls report them.\<close>

definition first_concluded :: "u32 \<Rightarrow> decoded_dispute list \<Rightarrow> (h256 \<times> runtime_dispute_result) set" where
  "first_concluded n disputes =
     {(dd_candidate_hash d, result) | d result. d \<in> set disputes \<and> dd_concluded_at d = Some n \<and>
        (result = RtValid \<and> concluded_for d \<or> result = RtInvalid \<and> concluded_against d)}"

lemma scrape_shown:
  assumes "list_all2 (\<lambda>shown ev. decode ev = Inr (event_of shown)) facts (List.map_filter id evs)"
  shows "scrape_events decode evs = Inr (List.map_filter event_of facts)"
  using assms
proof (induction evs arbitrary: facts)
  case (Cons ev evs)
  then show ?case
    by (cases ev) (auto simp: List.map_filter_simps list_all2_Cons2 split: option.split)
qed (simp add: List.map_filter_simps)

lemma fact_candidate_events:
  "candidate_events (List.map_filter (fact_event c hash block) facts) =
   map (candidate_event_of c hash) (List.map_filter (\<lambda>f. case f of FactCandidate raw \<Rightarrow> Some raw | _ \<Rightarrow> None) facts)"
  by (induction facts) (auto simp: candidate_events_def List.map_filter_simps split: block_fact.split)

lemma fact_initiated:
  "set (initiated_disputes (List.map_filter (fact_event c hash block) facts)) = {h. FactInitiated h \<in> set facts}"
proof (induction facts)
  case (Cons f facts)
  then show ?case by (cases f) (auto simp: initiated_disputes_def List.map_filter_simps)
qed (simp add: initiated_disputes_def List.map_filter_simps)

definition conclusion_of :: "h256 \<times> runtime_dispute_result \<Rightarrow> concluded_dispute" where
  "conclusion_of = (\<lambda>(h, result). \<lparr>cn_candidate_hash = h, cn_outcome = outcome_of result\<rparr>)"

lemma inj_outcome: "inj outcome_of"
  by (rule injI) (metis (full_types) dispute_result.distinct(1) outcome_of.simps runtime_dispute_result.exhaust)

lemma inj_conclusion: "inj conclusion_of"
  by (rule injI) (auto simp: conclusion_of_def inj_eq [OF inj_outcome])

lemma fact_concluded:
  "set (concluded_disputes (List.map_filter (fact_event c hash block) facts)) =
   conclusion_of ` {(h, result). FactConcluded h result \<in> set facts}"
proof (induction facts)
  case (Cons f facts)
  have "{(h, r). FactConcluded h r \<in> set (FactConcluded h' r' # facts)} =
      insert (h', r') {(h, r). FactConcluded h r \<in> set facts}" for h' r' by auto
  with Cons show ?case
    by (cases f) (simp_all add: concluded_disputes_def List.map_filter_simps conclusion_of_def)
qed (simp add: concluded_disputes_def List.map_filter_simps)

lemma in_initiated:
  "h \<in> set (initiated_disputes evs) \<longleftrightarrow> (\<exists>d. DisputeInitiated d \<in> set evs \<and> sd_candidate_hash d = h)"
proof
  assume "h \<in> set (initiated_disputes evs)"
  then obtain e where e: "e \<in> set evs" "(case e of DisputeInitiated d \<Rightarrow> Some (sd_candidate_hash d) | _ \<Rightarrow> None) = Some h"
    by (auto simp: initiated_disputes_def set_map_filter)
  show "\<exists>d. DisputeInitiated d \<in> set evs \<and> sd_candidate_hash d = h" by (cases e) (use e in auto)
qed (auto simp: initiated_disputes_def set_map_filter split: chain_event.splits intro: bexI [rotated])

lemma in_concluded:
  "x \<in> set (concluded_disputes evs) \<longleftrightarrow>
   (\<exists>d outcome. DisputeConcluded d outcome \<in> set evs \<and> x = \<lparr>cn_candidate_hash = sd_candidate_hash d, cn_outcome = outcome\<rparr>)"
proof
  assume "x \<in> set (concluded_disputes evs)"
  then obtain e where e: "e \<in> set evs" "(case e of DisputeConcluded d outcome \<Rightarrow>
      Some \<lparr>cn_candidate_hash = sd_candidate_hash d, cn_outcome = outcome\<rparr> | _ \<Rightarrow> None) = Some x"
    by (auto simp: concluded_disputes_def set_map_filter)
  show "\<exists>d outcome. DisputeConcluded d outcome \<in> set evs \<and>
      x = \<lparr>cn_candidate_hash = sd_candidate_hash d, cn_outcome = outcome\<rparr>" by (cases e) (use e in auto)
qed (auto simp: concluded_disputes_def set_map_filter split: chain_event.splits intro: bexI [rotated])

lemma in_dispute_events:
  "DisputeInitiated x \<in> set (disputes_to_chain_events block n ds) \<longleftrightarrow>
     (\<exists>d \<in> set ds. dd_start d = n \<and> x = \<lparr>sd_relay_parent_block = block, sd_candidate_hash = dd_candidate_hash d\<rparr>)"
  "DisputeConcluded x outcome \<in> set (disputes_to_chain_events block n ds) \<longleftrightarrow>
     (\<exists>result. (\<exists>h. x = \<lparr>sd_relay_parent_block = block, sd_candidate_hash = h\<rparr> \<and> (h, result) \<in> first_concluded n ds) \<and>
       outcome = outcome_of result)"
proof -
  show "DisputeInitiated x \<in> set (disputes_to_chain_events block n ds) \<longleftrightarrow>
     (\<exists>d \<in> set ds. dd_start d = n \<and> x = \<lparr>sd_relay_parent_block = block, sd_candidate_hash = dd_candidate_hash d\<rparr>)"
    by (auto simp: disputes_to_chain_events_def Let_def)
  have "DisputeConcluded x outcome \<in> set (disputes_to_chain_events block n ds) \<longleftrightarrow>
     (\<exists>d \<in> set ds. dd_concluded_at d = Some n \<and> x = \<lparr>sd_relay_parent_block = block, sd_candidate_hash = dd_candidate_hash d\<rparr> \<and>
        (outcome = DValid \<and> concluded_for d \<or> outcome = DInvalid \<and> concluded_against d))"
    by (auto simp: disputes_to_chain_events_def Let_def)
  also have "\<dots> \<longleftrightarrow> (\<exists>result. (\<exists>h. x = \<lparr>sd_relay_parent_block = block, sd_candidate_hash = h\<rparr> \<and>
      (h, result) \<in> first_concluded n ds) \<and> outcome = outcome_of result)" (is "_ \<longleftrightarrow> ?concluded")
  proof
    show "?concluded \<Longrightarrow> (\<exists>d \<in> set ds. dd_concluded_at d = Some n \<and>
        x = \<lparr>sd_relay_parent_block = block, sd_candidate_hash = dd_candidate_hash d\<rparr> \<and>
        (outcome = DValid \<and> concluded_for d \<or> outcome = DInvalid \<and> concluded_against d))"
      by (auto simp: first_concluded_def)
  qed (force simp: first_concluded_def intro: exI [of _ RtValid] exI [of _ RtInvalid])
  finally show "DisputeConcluded x outcome \<in> set (disputes_to_chain_events block n ds) \<longleftrightarrow>
     (\<exists>result. (\<exists>h. x = \<lparr>sd_relay_parent_block = block, sd_candidate_hash = h\<rparr> \<and> (h, result) \<in> first_concluded n ds) \<and>
       outcome = outcome_of result)" .
qed

lemma in_conclusions:
  "x \<in> conclusion_of ` concl \<longleftrightarrow>
   (\<exists>h result. (h, result) \<in> concl \<and> x = \<lparr>cn_candidate_hash = h, cn_outcome = outcome_of result\<rparr>)"
  by (force simp: conclusion_of_def)

lemma reported_conclusions: "set (concluded_disputes (disputes_to_chain_events block n ds)) = conclusion_of ` first_concluded n ds"
proof (rule set_eqI)
  fix x
  show "x \<in> set (concluded_disputes (disputes_to_chain_events block n ds)) \<longleftrightarrow> x \<in> conclusion_of ` first_concluded n ds"
    unfolding in_concluded in_dispute_events in_conclusions by (metis (no_types, lifting) subxt_dispute.select_convs(2))
qed

lemma reported_events:
  assumes "head \<in> {NewBestHead block header, NewFinalizedHead block header}"
  shows "candidate_events ([head] @ map CandidateChanged es @ disputes_to_chain_events block n ds) = es"
    and "set (initiated_disputes ([head] @ map CandidateChanged es @ disputes_to_chain_events block n ds)) =
      {dd_candidate_hash d | d. d \<in> set ds \<and> dd_start d = n}"
    and "set (concluded_disputes ([head] @ map CandidateChanged es @ disputes_to_chain_events block n ds)) =
      conclusion_of ` first_concluded n ds"
proof -
  have "List.map_filter (\<lambda>e. case e of CandidateChanged c \<Rightarrow> Some c | _ \<Rightarrow> None) (map CandidateChanged es) = es"
    by (induction es) (simp_all add: List.map_filter_simps)
  moreover have "candidate_events (disputes_to_chain_events block n ds) = []"
    by (auto simp: candidate_events_def List.map_filter_def disputes_to_chain_events_def Let_def filter_empty_conv)
  ultimately show "candidate_events ([head] @ map CandidateChanged es @ disputes_to_chain_events block n ds) = es"
    using assms by (auto simp: candidate_events_def map_filter_append List.map_filter_simps)
  show "set (initiated_disputes ([head] @ map CandidateChanged es @ disputes_to_chain_events block n ds)) =
      {dd_candidate_hash d | d. d \<in> set ds \<and> dd_start d = n}"
    by (rule set_eqI) (use assms in \<open>auto simp: in_initiated in_dispute_events\<close>)
  have "concluded_disputes [head] = []" "concluded_disputes (map CandidateChanged es) = []"
    using assms by (auto simp: concluded_disputes_def List.map_filter_def filter_empty_conv)
  then show "set (concluded_disputes ([head] @ map CandidateChanged es @ disputes_to_chain_events block n ds)) =
      conclusion_of ` first_concluded n ds"
    using reported_conclusions [of block n ds] by (simp add: concluded_disputes_def map_filter_append del: append_Cons)
qed


lemma conclusion_key_inj: "inj_on (\<lambda>d. (cn_candidate_hash d, cn_outcome d = DValid)) (conclusion_of ` concl)"
proof (rule inj_onI)
  fix x y
  assume "x \<in> conclusion_of ` concl" "y \<in> conclusion_of ` concl"
    and key: "(cn_candidate_hash x, cn_outcome x = DValid) = (cn_candidate_hash y, cn_outcome y = DValid)"
  then obtain h r h' r' where "x = \<lparr>cn_candidate_hash = h, cn_outcome = outcome_of r\<rparr>"
      "y = \<lparr>cn_candidate_hash = h', cn_outcome = outcome_of r'\<rparr>"
    by (auto simp: in_conclusions)
  with key show "x = y" by (cases r; cases r') auto
qed

section \<open>Properties\<close>

definition raw_candidates :: "block_fact list \<Rightarrow> raw_candidate_event list" where
  "raw_candidates facts = List.map_filter (\<lambda>f. case f of FactCandidate raw \<Rightarrow> Some raw | _ \<Rightarrow> None) facts"

definition scrape_decode ::
  "event_names \<Rightarrow> (sval \<Rightarrow> string \<Rightarrow> sval option) \<Rightarrow> (bytes \<Rightarrow> h256) \<Rightarrow> (bytes \<Rightarrow> h256) \<Rightarrow> h256 \<Rightarrow>
   event_details \<Rightarrow> unit + chain_event option" where
  "scrape_decode names at_field hash_of hash block ev =
     map_error (\<lambda>_. ()) (decode_chain_event names at_field hash_of hash block ev)"

lemma raw_candidates_wf:
  "list_all2 (event_shows names c) facts evs \<Longrightarrow> \<forall>raw \<in> set (raw_candidates facts). candidate_event_wf raw"
proof (induction rule: list_all2_induct)
  case (Cons f facts ev evs)
  then show ?case by (cases f) (simp_all add: raw_candidates_def List.map_filter_simps)
qed (simp add: raw_candidates_def List.map_filter_simps)

text \<open>C6: The two sources of a block's events agree. Let the block's decodable events show some facts, in any
  order and among unrelated ones, and let the runtime call answer the encoding of exactly the candidate
  events among them. Then the comparison of the collector never fails to decode and never finds a
  candidate event to differ: it accepts the block exactly when the initiated disputes are the ones the
  runtime reports as started in it, and the conclusions, those of disputes concluded twice left out, the
  ones it reports as first concluded in it.\<close>

theorem shadow_verdict_exact:
  assumes codec: "lawful c" "fixed_width c" "hash_bytes c hash_of"
    and env: "finds_fields at_field" "inj names"
    and shown: "list_all2 (event_shows names c) facts (List.map_filter id evs)"
    and answer: "length (raw_candidates facts) < 2 ^ 32"
      "decode_candidate_events c hash (put_vec c (put_candidate_event c) (raw_candidates facts)) = Some candidates"
    and head: "head \<in> {NewBestHead block header, NewFinalizedHead block header}"
  shows "shadow_events (scrape_decode names at_field hash_of hash block) (Some evs) n
      ([head] @ map CandidateChanged candidates @ disputes_to_chain_events block n disputes) disputes =
    (if {h. FactInitiated h \<in> set facts} = {dd_candidate_hash d | d. d \<in> set disputes \<and> dd_start d = n} \<and>
        {(h, result). FactConcluded h result \<in> set facts \<and> h \<notin> concluded_earlier_both_ways n disputes} =
          first_concluded n disputes
     then ShadowOk else ShadowExit)"
proof -
  let ?scraped = "List.map_filter (fact_event c hash block) facts"
  let ?twice = "concluded_earlier_both_ways n disputes"
  have "list_all2 (\<lambda>f ev. scrape_decode names at_field hash_of hash block ev = Inr (fact_event c hash block f))
      facts (List.map_filter id evs)"
    using shown by (rule list_all2_mono)
      (simp add: scrape_decode_def map_error_def decode_shown [OF codec(2,3) env])
  then have scraped: "scrape_events (scrape_decode names at_field hash_of hash block) evs = Inr ?scraped"
    by (rule scrape_shown)
  have "decode_all (get_vec c (get_candidate_event c)) (put_vec c (put_candidate_event c) (raw_candidates facts) @ []) =
      Some (raw_candidates facts)"
    using raw_candidates_wf [OF shown]
    by (subst decode_all_vec) (use codec(1) answer(1) reads_candidate_event in auto)
  with answer(2) have candidates: "candidate_events ?scraped = candidates"
    by (simp add: decode_candidate_events_def fact_candidate_events raw_candidates_def)
  have "set (filter (\<lambda>d. cn_candidate_hash d \<notin> ?twice) (concluded_disputes ?scraped)) =
      conclusion_of ` {(h, result). FactConcluded h result \<in> set facts \<and> h \<notin> ?twice}"
    by (auto simp: fact_concluded conclusion_of_def)
  then show ?thesis
    unfolding shadow_events_def Let_def option.case scraped sum.case reported_events(1) [OF head] candidates
    using reported_events(2,3) [OF head]
    by (simp add: compare_set_same compare_set_inj fact_initiated conclusion_key_inj
        inj_image_eq_iff [OF inj_conclusion] del: append_Cons)
qed

definition sample_names :: event_names where
  "sample_names kind =
     (case kind of
        EvDisputeInitiated \<Rightarrow> (''ParasDisputes'', ''DisputeInitiated'')
      | EvDisputeConcluded \<Rightarrow> (''ParasDisputes'', ''DisputeConcluded'')
      | EvCandidateBacked \<Rightarrow> (''ParaInclusion'', ''CandidateBacked'')
      | EvCandidateIncluded \<Rightarrow> (''ParaInclusion'', ''CandidateIncluded'')
      | EvCandidateTimedOut \<Rightarrow> (''ParaInclusion'', ''CandidateTimedOut''))"

lemma sample_names_inj: "inj sample_names"
  by (rule injI) (simp add: sample_names_def split: static_event.splits)

abbreviation sample_raw :: raw_candidate_event where
  "sample_raw \<equiv> RawBacked sample_receipt [1, 2] 5 42"

definition sample_details :: event_details where
  "sample_details = \<lparr>ed_pallet_name = ''ParaInclusion'', ed_variant_name = ''CandidateBacked'',
     ed_as_initiated = Inr None, ed_as_concluded = Inr None,
     ed_field_values = Inr (Unnamed [receipt_value scale_codec [] [] sample_receipt, SBits [],
       newtype (u32_value 5), newtype (u32_value 42)]),
     ed_field_bytes = tl (put_candidate_event scale_codec sample_raw)\<rparr>"

definition other_details :: event_details where
  "other_details = \<lparr>ed_pallet_name = ''System'', ed_variant_name = ''ExtrinsicSuccess'',
     ed_as_initiated = Inr None, ed_as_concluded = Inr None, ed_field_values = Inr (Unnamed []), ed_field_bytes = []\<rparr>"

lemma scale_fixed_width: "fixed_width scale_codec"
  by (simp add: fixed_width_def scale_codec_def)

lemma sample_shown:
  "list_all2 (event_shows sample_names scale_codec) [FactCandidate sample_raw, FactOther]
     (List.map_filter id [Some sample_details, None, Some other_details])"
proof -
  have "shows_candidate scale_codec sample_raw sample_details"
    by (auto simp: shows_candidate_def sample_details_def)
  then show ?thesis
    by (simp add: List.map_filter_simps named_as_def sample_names_def receipt_wf_def sample_receipt_def
        sample_details_def other_details_def split: static_event.split)
qed

theorem shadow_verdict_exact_witness:
  "shadow_events (scrape_decode sample_names sample_at from_le_bytes (\<lambda>_. 9) 7)
      (Some [Some sample_details, None, Some other_details]) 20
      ([NewBestHead 7 \<lparr>hd_number = 20, hd_parent_hash = 0\<rparr>] @ map CandidateChanged [candidate_event_of scale_codec (\<lambda>_. 9) sample_raw] @
        disputes_to_chain_events 7 20 []) [] = ShadowOk"
proof -
  have facts: "raw_candidates [FactCandidate sample_raw, FactOther] = [sample_raw]"
    by (simp add: raw_candidates_def List.map_filter_simps)
  have "decode_all (get_vec scale_codec (get_candidate_event scale_codec))
      (put_vec scale_codec (put_candidate_event scale_codec) [sample_raw] @ []) = Some [sample_raw]"
    by (subst decode_all_vec) (use scale_codec_lawful reads_candidate_event in \<open>auto simp: receipt_wf_def sample_receipt_def\<close>)
  then have "decode_candidate_events scale_codec (\<lambda>_. 9)
      (put_vec scale_codec (put_candidate_event scale_codec) [sample_raw]) =
      Some [candidate_event_of scale_codec (\<lambda>_. 9) sample_raw]"
    by (simp add: decode_candidate_events_def)
  then show ?thesis
    using shadow_verdict_exact [OF scale_codec_lawful scale_fixed_width sample_hash_bytes sample_finds sample_names_inj
        sample_shown, of "\<lambda>_. 9" "[candidate_event_of scale_codec (\<lambda>_. 9) sample_raw]" "NewBestHead 7 \<lparr>hd_number = 20, hd_parent_hash = 0\<rparr>" 7 "\<lparr>hd_number = 20, hd_parent_hash = 0\<rparr>" 20 "[]"]
    by (simp add: facts first_concluded_def)
qed

end
