(* ===== verification/Chain_Wire.thy ===== *)
theory Chain_Wire
  imports Executor_Laws Chain_Event_Decode Collector_Samples
begin

text \<open>
  The collector's events from the bytes of the node: the executor asks the client, the client makes the
  runtime calls and decodes them, the collector turns the answers into chain events.
\<close>

definition call_result :: "'a call \<Rightarrow> executor \<Rightarrow> 'a option" where
  "call_result call ex = (case call ex of Some (Inr x, _) \<Rightarrow> Some x | _ \<Rightarrow> None)"

text \<open>A node that the collector sees through an executor whose backend serves each request with one try.\<close>

definition wired_node :: "'e client \<Rightarrow> string \<Rightarrow> executor \<Rightarrow> node \<Rightarrow> node" where
  "wired_node cl url ex node = (let serve = (\<lambda>_. match_request cl) in node\<lparr>
     rpc_candidate_events := (\<lambda>hash. call_result (ex_get_candidate_events serve url hash) ex),
     rpc_disputes := (\<lambda>hash. call_result (ex_get_disputes serve url hash) ex)\<rparr>)"

lemma call_candidate_events:
  "map_of (ex_clients ex) url = Some True \<Longrightarrow>
   call_result (ex_get_candidate_events (\<lambda>_. match_request cl) url hash) ex =
     (case get_candidate_events cl hash of Inr x \<Rightarrow> Some x | _ \<Rightarrow> None)"
  by (auto simp: call_result_def ex_get_candidate_events_def wrap_backend_call_def ask_def backend_step_def reply_def
      split: sum.split stop.split)

lemma call_disputes:
  "map_of (ex_clients ex) url = Some True \<Longrightarrow>
   call_result (ex_get_disputes (\<lambda>_. match_request cl) url hash) ex =
     (case get_disputes cl hash of Inr x \<Rightarrow> Some x | _ \<Rightarrow> None)"
  by (auto simp: call_result_def ex_get_disputes_def wrap_backend_call_def ask_def backend_step_def reply_def
      split: sum.split stop.split)

lemma candidate_events_answer:
  assumes "lawful c" "length raws < 2 ^ 32" "\<forall>raw \<in> set raws. candidate_event_wf raw"
  shows "decode_candidate_events c hash (put_vec c (put_candidate_event c) raws) = Some (map (candidate_event_of c hash) raws)"
  using decode_all_vec [OF assms(1,2), of "put_candidate_event c" "get_candidate_event c" "[]"] assms(3)
    reads_candidate_event [OF assms(1)]
  by (simp add: decode_candidate_events_def)

lemma disputes_answer:
  assumes "lawful c" "length ds < 2 ^ 32" "\<forall>d \<in> set ds. raw_dispute_wf d"
  shows "decode_disputes_bytes c (put_vec c (put_raw_dispute c) ds) = rmap decode_dispute ds"
  using decode_all_vec [OF assms(1,2), of "put_raw_dispute c" "get_raw_dispute c" "[]"] assms(3)
    reads_raw_dispute [OF assms(1)]
  by (simp add: decode_disputes_bytes_def decode_disputes_def)

text \<open>C7: From the bytes on the wire to the events the collector works on: with the encodings of some candidate
  events and disputes as the node's answers for a new best block, the collector gets the new head, then the
  candidate events in order, then the dispute events of that block. A dispute whose two bit sets differ in
  length makes the collection fail.\<close>

theorem collect_from_wire:
  assumes "map_of (ex_clients ex) url = Some True" "lawful (cl_codec cl)"
    and "state_call (cl_api cl) ''ParachainHost_candidate_events'' hash =
      Inr (put_vec (cl_codec cl) (put_candidate_event (cl_codec cl)) raws)"
      "length raws < 2 ^ 32" "\<forall>raw \<in> set raws. candidate_event_wf raw"
    and "state_call (cl_api cl) ''ParachainHost_disputes'' hash =
      Inr (put_vec (cl_codec cl) (put_raw_dispute (cl_codec cl)) ds)"
      "length ds < 2 ^ 32" "\<forall>d \<in> set ds. raw_dispute_wf d"
  shows "collect_chain_events (wired_node cl url ex node) None Best (SubNewBestHead hash header) =
    (case rmap decode_dispute ds of
       Inl _ \<Rightarrow> CollectFailed
     | Inr disputes \<Rightarrow> Collected ([NewBestHead hash header] @
         map (\<lambda>raw. CandidateChanged (candidate_event_of (cl_codec cl) (cl_hasher cl) raw)) raws @
         disputes_to_chain_events hash (hd_number header) disputes))"
proof -
  have "get_candidate_events cl hash = Inr (map (candidate_event_of (cl_codec cl) (cl_hasher cl)) raws)"
    by (simp add: get_candidate_events_def state_call_decoded_def answered_def assms(3) candidate_events_answer [OF assms(2,4,5)])
  moreover have "get_disputes cl hash = (case rmap decode_dispute ds of
      Inl _ \<Rightarrow> fail (''Failed to decode '' @ ''ParachainHost_disputes'') | Inr disputes \<Rightarrow> Inr disputes)"
    by (simp add: get_disputes_def state_call_decoded_def answered_def assms(6) disputes_answer [OF assms(2,7,8)] split: sum.split)
  ultimately show ?thesis
    by (simp add: collect_chain_events_def wired_node_def call_candidate_events [OF assms(1)]
        call_disputes [OF assms(1)] fail_def split: sum.split)
qed

definition wire_api :: "unit api" where
  "wire_api = channel_node\<lparr>state_call := (\<lambda>method _. if method = ''ParachainHost_candidate_events''
     then Inr (put_vec scale_codec (put_candidate_event scale_codec) [sample_raw])
     else Inr (put_vec scale_codec (put_raw_dispute scale_codec) []))\<rparr>"

theorem collect_from_wire_witness:
  "collect_chain_events (wired_node (sample_client False wire_api) ''node''
       \<lparr>ex_clients = [(''node'', True)], ex_shutdowns = 0\<rparr> sample_node) None Best (SubNewBestHead 5 sample_header) =
     Collected [NewBestHead 5 sample_header, CandidateChanged
       (candidate_event_of scale_codec (cl_hasher (sample_client False wire_api)) sample_raw)]"
proof -
  have codec: "cl_codec (sample_client False wire_api) = scale_codec" "cl_api (sample_client False wire_api) = wire_api"
    by (simp_all add: sample_client_def)
  have answers: "state_call wire_api ''ParachainHost_candidate_events'' 5 =
        Inr (put_vec scale_codec (put_candidate_event scale_codec) [sample_raw])"
      "state_call wire_api ''ParachainHost_disputes'' 5 = Inr (put_vec scale_codec (put_raw_dispute scale_codec) [])"
    by (simp_all add: wire_api_def)
  show ?thesis
    by (subst collect_from_wire [where raws = "[sample_raw]" and ds = "[]"])
      (simp_all only: codec answers, simp_all add: codec scale_codec_lawful receipt_wf_def sample_receipt_def disputes_to_chain_events_def)
qed

end
