(* ===== verification/Subscriptions.thy ===== *)
theory Subscriptions
  imports Collector_Loop
begin

text \<open>
  Where the collector's events come from: \<^verbatim>\<open>essentials/src/chain_head_subscription.rs\<close> follows the heads of a
  node, \<^verbatim>\<open>essentials/src/historical_subscription.rs\<close> replays a range of blocks. A task keeps what it has
  delivered to its channel; whether the consumer takes one more message is the parameter \<open>accepts\<close> of what
  was delivered. Times are nanoseconds since the task started, and \<open>signalled\<close> says that the task has asked
  the program to shut down.
\<close>

section \<open>Consumers\<close>

text \<open>Both subscriptions keep one sender per consumer and node; a channel is named by a number.\<close>

record event_stream =
  es_urls :: "string list"
  es_consumers :: "nat list list"
  es_next_channel :: nat

definition event_stream_new :: "string list \<Rightarrow> event_stream" where
  "event_stream_new urls = \<lparr>es_urls = urls, es_consumers = [], es_next_channel = 0\<rparr>"

definition create_consumer :: "event_stream \<Rightarrow> nat list \<times> event_stream" where
  "create_consumer s =
     (let update_channels = map (\<lambda>i. es_next_channel s + i) [0..<length (es_urls s)]
      in (update_channels,
          s\<lparr>es_consumers := es_consumers s @ [update_channels],
            es_next_channel := es_next_channel s + length (es_urls s)\<rparr>))"

definition run_per_consumer :: "nat list \<Rightarrow> string list \<Rightarrow> (nat \<times> string) list" where
  "run_per_consumer update_channels urls = zip update_channels urls"

definition stream_run :: "event_stream \<Rightarrow> (nat \<times> string) list" where
  "stream_run s = concat (map (\<lambda>update_channels. run_per_consumer update_channels (es_urls s)) (es_consumers s))"

section \<open>Following the heads\<close>

definition block_stall_timeout :: duration where
  "block_stall_timeout = from_secs 120"

definition check_stall :: "duration \<Rightarrow> duration \<Rightarrow> bool" where
  "check_stall now last_block_at \<longleftrightarrow> now - last_block_at > block_stall_timeout"

datatype head_item = BestHead header h256 | FinalizedHead header h256

fun subscription_event_of :: "head_item \<Rightarrow> subscription_event" where
  "subscription_event_of (BestHead header hash) = SubNewBestHead hash header"
| "subscription_event_of (FinalizedHead header hash) = SubNewFinalizedBlock hash header"

text \<open>What \<^verbatim>\<open>select!\<close> yields: the next of both streams, with the time it is there, the shutdown signal, or a
  tick of the heartbeat.\<close>

datatype head_input =
    NextItem duration "(string + head_item) option"
  | ShutdownReceived
  | HeartbeatTick duration

datatype task_state =
    Following "subscription_event list" duration
  | TaskEnded "subscription_event list" bool

fun delivered :: "task_state \<Rightarrow> subscription_event list" where
  "delivered (Following sent _) = sent"
| "delivered (TaskEnded sent _) = sent"

definition deliver ::
  "(subscription_event list \<Rightarrow> bool) \<Rightarrow> subscription_event \<Rightarrow> subscription_event list \<Rightarrow> subscription_event list option" where
  "deliver accepts event sent = (if accepts sent then Some (sent @ [event]) else None)"

definition send_last ::
  "(subscription_event list \<Rightarrow> bool) \<Rightarrow> bool \<Rightarrow> subscription_event list \<Rightarrow> task_state" where
  "send_last accepts signalled sent = TaskEnded (the_default sent (deliver accepts SubTermination sent)) signalled"

fun head_step :: "(subscription_event list \<Rightarrow> bool) \<Rightarrow> head_input \<Rightarrow> task_state \<Rightarrow> task_state" where
  "head_step accepts input (TaskEnded sent signalled) = TaskEnded sent signalled"
| "head_step accepts (NextItem now message) (Following sent last_block_at) =
     (case message of
        Some (Inr item) \<Rightarrow>
          (case deliver accepts (subscription_event_of item) sent of
             None \<Rightarrow> TaskEnded sent False
           | Some sent \<Rightarrow> Following sent now)
      | Some (Inl e) \<Rightarrow> send_last accepts True sent
      | None \<Rightarrow> send_last accepts True sent)"
| "head_step accepts ShutdownReceived (Following sent last_block_at) = send_last accepts False sent"
| "head_step accepts (HeartbeatTick now) (Following sent last_block_at) =
     (if check_stall now last_block_at then send_last accepts False sent
      else case deliver accepts SubHeartbeat sent of
          None \<Rightarrow> TaskEnded sent False
        | Some sent \<Rightarrow> Following sent last_block_at)"

text \<open>The flags say whether the node granted the two subscriptions.\<close>

definition run_per_node ::
  "(subscription_event list \<Rightarrow> bool) \<Rightarrow> bool \<Rightarrow> bool \<Rightarrow> duration \<Rightarrow> head_input list \<Rightarrow> task_state" where
  "run_per_node accepts best_sub finalized_sub now inputs =
     (if \<not> best_sub then send_last accepts True []
      else if \<not> finalized_sub then send_last accepts True []
      else foldl (\<lambda>s input. head_step accepts input s) (Following [] now) inputs)"

section \<open>Replaying a range\<close>

text \<open>The node of the replay: its last block, the hashes and the headers, \<open>None\<close> for an error. \<open>interrupted\<close>
  says what \<^verbatim>\<open>try_recv\<close> on the shutdown channel gives after a block.\<close>

record replay_node =
  rn_block_number :: "u32 option"
  rn_block_hash :: "u32 \<Rightarrow> h256 option option"
  rn_block_head :: "h256 \<Rightarrow> header option option"

definition numbers_between :: "u32 \<Rightarrow> u32 \<Rightarrow> u32 list" where
  "numbers_between first final = map word_of_nat [unat first..<Suc (unat final)]"

fun replay_from ::
  "(subscription_event list \<Rightarrow> bool) \<Rightarrow> (u32 \<Rightarrow> bool) \<Rightarrow> replay_node \<Rightarrow> u32 list \<Rightarrow> subscription_event list \<Rightarrow> task_state" where
  "replay_from accepts interrupted node [] sent = send_last accepts False sent"
| "replay_from accepts interrupted node (block_number # rest) sent =
     (case rn_block_hash node block_number of
        Some (Some block_hash) \<Rightarrow>
          (case rn_block_head node block_hash of
             Some (Some header) \<Rightarrow>
               (case deliver accepts (SubNewBestHead block_hash header) sent of
                  None \<Rightarrow> TaskEnded sent False
                | Some sent \<Rightarrow>
                    (case deliver accepts (SubNewFinalizedBlock block_hash header) sent of
                       None \<Rightarrow> TaskEnded sent False
                     | Some sent \<Rightarrow>
                         if interrupted block_number then TaskEnded sent False
                         else replay_from accepts interrupted node rest sent))
           | _ \<Rightarrow> TaskEnded sent True)
      | _ \<Rightarrow> TaskEnded sent True)"

definition replay_per_node ::
  "(subscription_event list \<Rightarrow> bool) \<Rightarrow> (u32 \<Rightarrow> bool) \<Rightarrow> replay_node \<Rightarrow> u32 \<Rightarrow> u32 \<Rightarrow> task_state" where
  "replay_per_node accepts interrupted node from_block_number to_block_number =
     (case rn_block_number node of
        None \<Rightarrow> TaskEnded [] False
      | Some last_block_number \<Rightarrow>
          if from_block_number \<ge> last_block_number \<or> to_block_number \<ge> last_block_number then TaskEnded [] False
          else replay_from accepts interrupted node (numbers_between from_block_number to_block_number) [])"

end
