(* ===== verification/Subscription_Laws.thy ===== *)
theory Subscription_Laws
  imports Subscriptions "HOL-Library.Sublist"
begin

text \<open>
  What the subscriptions deliver: the heads of the node in the order they arrive, the end announced once
  and last, and for a replay exactly the blocks of the range up to the first one the node does not have.
\<close>

section \<open>Heads\<close>

fun is_head :: "subscription_event \<Rightarrow> bool" where
  "is_head (SubNewBestHead _ _) = True"
| "is_head (SubNewFinalizedBlock _ _) = True"
| "is_head _ = False"

fun head_of :: "head_input \<Rightarrow> subscription_event option" where
  "head_of (NextItem _ (Some (Inr item))) = Some (subscription_event_of item)"
| "head_of _ = None"

definition heads_of :: "head_input list \<Rightarrow> subscription_event list" where
  "heads_of inputs = List.map_filter head_of inputs"

lemma is_head_event [simp]: "is_head (subscription_event_of item)" "subscription_event_of item \<noteq> SubTermination"
  "SubTermination \<noteq> subscription_event_of item"
  by (cases item; simp)+

lemma heads_of_snoc: "heads_of (inputs @ [i]) = heads_of inputs @ (case head_of i of None \<Rightarrow> [] | Some e \<Rightarrow> [e])"
  by (auto simp: heads_of_def List.map_filter_def split: option.split)

text \<open>The invariant of a task that has seen some inputs.\<close>

fun task_ok :: "head_input list \<Rightarrow> task_state \<Rightarrow> bool" where
  "task_ok inputs (Following sent _) \<longleftrightarrow> filter is_head sent = heads_of inputs \<and> SubTermination \<notin> set sent"
| "task_ok inputs (TaskEnded sent _) \<longleftrightarrow> prefix (filter is_head sent) (heads_of inputs) \<and> SubTermination \<notin> set (butlast sent)"

lemma task_ok_send_last:
  "filter is_head sent = heads_of inputs \<Longrightarrow> SubTermination \<notin> set sent \<Longrightarrow> task_ok inputs (send_last accepts signalled sent)"
  by (auto simp: send_last_def deliver_def dest: in_set_butlastD)

lemma task_ok_ended: "filter is_head sent = heads_of inputs \<Longrightarrow> SubTermination \<notin> set sent \<Longrightarrow> task_ok inputs (TaskEnded sent signalled)"
  by (auto dest: in_set_butlastD)

lemma task_ok_more: "task_ok inputs (TaskEnded sent signalled) \<Longrightarrow> task_ok (inputs @ [i]) (TaskEnded sent signalled)"
  by (simp add: heads_of_snoc)

lemma task_ok_step:
  assumes "task_ok inputs s"
  shows "task_ok (inputs @ [i]) (head_step accepts i s)"
proof (cases s)
  case (TaskEnded sent signalled)
  with assms show ?thesis using task_ok_more by simp
next
  case (Following sent last_block_at)
  with assms have sent: "filter is_head sent = heads_of inputs" "SubTermination \<notin> set sent" by simp_all
  have last: "task_ok (inputs @ [i]) (send_last accepts signalled sent)" if "head_of i = None" for signalled
    by (rule task_ok_send_last) (use sent that in \<open>simp_all add: heads_of_snoc\<close>)
  have ended: "task_ok (inputs @ [i]) (TaskEnded sent signalled)" for signalled
    using sent by (intro task_ok_more task_ok_ended)
  show ?thesis
  proof (cases i)
    case (NextItem now message)
    then show ?thesis using Following sent last ended
      by (auto simp: deliver_def heads_of_snoc split: option.split sum.split)
  next
    case ShutdownReceived
    then show ?thesis using Following last by simp
  next
    case (HeartbeatTick now)
    then show ?thesis using Following sent last ended by (auto simp: deliver_def heads_of_snoc)
  qed
qed

lemma task_ok_run: "task_ok inputs (foldl (\<lambda>s input. head_step accepts input s) (Following [] now) inputs)"
  by (induction inputs rule: rev_induct) (simp_all add: task_ok_step heads_of_def List.map_filter_simps)

definition last_seen :: "duration \<Rightarrow> head_input list \<Rightarrow> duration" where
  "last_seen start inputs = foldl (\<lambda>t i. case i of NextItem now (Some (Inr _)) \<Rightarrow> now | _ \<Rightarrow> t) start inputs"

lemma following_last_seen:
  "foldl (\<lambda>s input. head_step accepts input s) (Following [] now) inputs = Following sent t \<Longrightarrow> t = last_seen now inputs"
proof (induction inputs arbitrary: sent t rule: rev_induct)
  case (snoc i inputs)
  then obtain sent' t' where
    before: "foldl (\<lambda>s input. head_step accepts input s) (Following [] now) inputs = Following sent' t'"
    by (cases "foldl (\<lambda>s input. head_step accepts input s) (Following [] now) inputs") auto
  have "t' = last_seen now inputs" by (rule snoc.IH [OF before])
  with snoc.prems before show ?case
    by (cases i) (auto simp: last_seen_def send_last_def split: option.splits sum.splits if_splits)
qed (simp add: last_seen_def)

section \<open>Replays\<close>

definition replay_events :: "replay_node \<Rightarrow> u32 \<Rightarrow> subscription_event list" where
  "replay_events node block_number =
     (case rn_block_hash node block_number of
        Some (Some hash) \<Rightarrow>
          (case rn_block_head node hash of
             Some (Some header) \<Rightarrow> [SubNewBestHead hash header, SubNewFinalizedBlock hash header]
           | _ \<Rightarrow> [])
      | _ \<Rightarrow> [])"

lemma replay_from_all:
  "replay_from (\<lambda>_. True) (\<lambda>_. False) node numbers sent =
   (let found = takeWhile (\<lambda>n. replay_events node n \<noteq> []) numbers in
    TaskEnded (sent @ concat (map (replay_events node) found) @ (if found = numbers then [SubTermination] else []))
      (found \<noteq> numbers))"
proof (induction numbers arbitrary: sent)
  case (Cons n numbers)
  show ?case
    by (auto simp: replay_events_def deliver_def Cons.IH Let_def split: option.split)
qed (simp add: send_last_def deliver_def)

section \<open>Properties\<close>

text \<open>Some tick of the heartbeat comes more than two minutes after the last head before it.\<close>

definition late :: "duration \<Rightarrow> head_input \<Rightarrow> bool" where
  "late seen i \<longleftrightarrow> (case i of HeartbeatTick t \<Rightarrow> 120 * 1000000000 < t - seen | _ \<Rightarrow> False)"

definition stalled :: "duration \<Rightarrow> head_input list \<Rightarrow> bool" where
  "stalled start inputs \<longleftrightarrow> (\<exists>k < length inputs. late (last_seen start (take k inputs)) (inputs ! k))"

lemma following_not_stalled:
  "foldl (\<lambda>s input. head_step accepts input s) (Following [] now) inputs = Following sent t \<Longrightarrow> \<not> stalled now inputs"
proof (induction inputs arbitrary: sent t rule: rev_induct)
  case (snoc i inputs)
  then obtain sent' t' where
    before: "foldl (\<lambda>s input. head_step accepts input s) (Following [] now) inputs = Following sent' t'"
    by (cases "foldl (\<lambda>s input. head_step accepts input s) (Following [] now) inputs") auto
  have seen: "t' = last_seen now inputs" and ok: "\<not> stalled now inputs"
    by (rule following_last_seen [OF before], rule snoc.IH [OF before])
  have "\<not> late (last_seen now inputs) i"
    using snoc.prems before seen
    by (auto simp: late_def check_stall_def block_stall_timeout_def from_secs_def send_last_def split: head_input.splits if_splits)
  with ok show ?case
    by (auto simp: stalled_def nth_append less_Suc_eq split: if_splits)
qed (simp add: stalled_def)


text \<open>C30: A replay delivers for each block of the range, in order and each once as best and as finalized head,
  the block the node gives, up to the first block that it does not have. With all blocks there it ends with
  a termination, otherwise with the shutdown signal; a range that reaches the node's last block delivers
  nothing and signals nothing.\<close>

theorem replay_exact:
  "replay_per_node (\<lambda>_. True) (\<lambda>_. False) node first final =
    (case rn_block_number node of
       None \<Rightarrow> TaskEnded [] False
     | Some latest \<Rightarrow>
         if latest \<le> first \<or> latest \<le> final then TaskEnded [] False
         else
           let range = map word_of_nat [unat first..<Suc (unat final)];
               found = takeWhile (\<lambda>n. replay_events node n \<noteq> []) range
           in TaskEnded (concat (map (replay_events node) found) @ (if found = range then [SubTermination] else []))
                (found \<noteq> range))"
  by (simp add: replay_per_node_def replay_from_all numbers_between_def Let_def split: option.split)

text \<open>What the collector receives of a replay: what is delivered, and the shutdown signal if it is sent. The
  channel is not closed, since the subscription keeps a sender.\<close>

definition replay_inputs :: "task_state \<Rightarrow> loop_input list" where
  "replay_inputs s = map Message (delivered s) @ (case s of TaskEnded _ True \<Rightarrow> [Shutdown] | _ \<Rightarrow> [])"

lemma collector_run_append:
  "collector_run node clock shadow (is @ js) c =
    (case collector_run node clock shadow is c of Looping c' \<Rightarrow> collector_run node clock shadow js c' | stopped \<Rightarrow> stopped)"
  by (induction "is" arbitrary: c) (auto split: loop_state.split)

lemma ending_stops:
  "i \<in> {Message SubTermination, Shutdown} \<Longrightarrow> collector_run node clock shadow (is @ [i]) c \<noteq> Looping c'"
  by (auto simp: collector_run_append collector_step_def split: loop_state.split)

text \<open>C31: The collector of a replay never runs on after it, with one exception: when the node does not say its
  last block, or the range is not below it, nothing tells the collector that nothing will come, and it
  waits for ever.\<close>

theorem replay_leaves_collector_waiting:
  "(\<exists>c'. collector_run node clock shadow (replay_inputs (replay_per_node (\<lambda>_. True) (\<lambda>_. False) replayed first final)) c =
      Looping c') \<longleftrightarrow>
   (case rn_block_number replayed of None \<Rightarrow> True | Some latest \<Rightarrow> latest \<le> first \<or> latest \<le> final)"
proof -
  have "collector_run node clock shadow (replay_inputs (replay_from (\<lambda>_. True) (\<lambda>_. False) replayed range [])) c \<noteq> Looping c'"
    for range c'
    using ending_stops [of "Message SubTermination"] ending_stops [of Shutdown]
    by (auto simp: replay_from_all Let_def replay_inputs_def simp flip: append_assoc)
  then show ?thesis
    by (auto simp: replay_per_node_def replay_inputs_def split: option.split)
qed

end
