(* ===== verification/Block_Time.thy ===== *)
theory Block_Time
  imports Subscription_Laws
begin

text \<open>
  The block time monitor, \<^verbatim>\<open>block-time/src/main.rs\<close>: one task per node turns its heads into block times, one
  more keeps the newest times of every node and draws them. Block times go to the drawing task
  (\<open>wn_sent\<close>) or to the histogram (\<open>wn_observed\<close>, in milliseconds). Drawing is the list of charts with their
  rows and values; the captions are in \<open>Block_Time_Chart\<close>.
\<close>

section \<open>Options and messages\<close>

record chart_options =
  ch_chart_width :: nat
  ch_chart_height :: nat

datatype block_time_mode = BtCli chart_options | BtPrometheus

datatype block_time_message = EndpointDisconected | NewBlockTime string u64

section \<open>The history of a node\<close>

text \<open>What the node answers while the view is filled, \<open>k\<close> counting the rounds: a header, none, or an error,
  and the time stamp of a block.\<close>

record view_node =
  vn_block_head :: "nat \<Rightarrow> h256 option \<Rightarrow> header option option"
  vn_hash_of :: "header \<Rightarrow> h256"
  vn_timestamp :: "h256 \<Rightarrow> u64 option"

fun view_times :: "view_node \<Rightarrow> nat \<Rightarrow> nat \<Rightarrow> u64 \<Rightarrow> h256 option \<Rightarrow> fault + u64 list" where
  "view_times node k 0 prev_ts parent_hash = Inr []"
| "view_times node k (Suc rounds) prev_ts parent_hash =
     (case vn_block_head node k parent_hash of
        Some (Some header) \<Rightarrow>
          rbind (expect (vn_timestamp node (vn_hash_of node header))) (\<lambda>ts.
          rbind (view_times node (Suc k) rounds ts (Some (hd_parent_hash header))) (\<lambda>block_times.
            Inr ((if prev_ts \<noteq> 0 then [saturating_sub prev_ts ts] else []) @ block_times)))
      | _ \<Rightarrow> view_times node (Suc k) rounds prev_ts parent_hash)"

definition populate_view :: "view_node \<Rightarrow> string \<Rightarrow> chart_options \<Rightarrow> fault + block_time_message list" where
  "populate_view node url cli_opts =
     rbind (view_times node 0 (ch_chart_width cli_opts) 0 None) (\<lambda>block_times.
       Inr (map (NewBlockTime url) (rev block_times)))"

section \<open>Watching a node\<close>

record watcher_state =
  wn_prev_ts :: u64
  wn_prev_block :: u32
  wn_sent :: "block_time_message list"
  wn_observed :: "u64 list"

definition watch_head ::
  "block_time_mode \<Rightarrow> string \<Rightarrow> (h256 \<Rightarrow> u64 option) \<Rightarrow> h256 \<Rightarrow> header \<Rightarrow> watcher_state \<Rightarrow> watcher_state" where
  "watch_head mode url timestamp hash header w =
     (case timestamp hash of
        None \<Rightarrow> w
      | Some ts \<Rightarrow>
          let w = (if wn_prev_block w \<noteq> 0 \<and> saturating_sub (hd_number header) (wn_prev_block w) = 1 then
                     let block_time_ms = saturating_sub ts (wn_prev_ts w)
                     in case mode of
                          BtCli _ \<Rightarrow> w\<lparr>wn_sent := wn_sent w @ [NewBlockTime url block_time_ms]\<rparr>
                        | BtPrometheus \<Rightarrow> w\<lparr>wn_observed := wn_observed w @ [block_time_ms]\<rparr>
                   else if wn_prev_block w \<noteq> 0 \<and> saturating_sub (hd_number header) (wn_prev_block w) > 1 then w
                   else if wn_prev_block w = 0 then
                     (case mode of
                        BtCli _ \<Rightarrow> w
                      | BtPrometheus \<Rightarrow> w\<lparr>wn_observed := wn_observed w @ [0]\<rparr>)
                   else w)
          in w\<lparr>wn_prev_ts := ts, wn_prev_block := hd_number header\<rparr>)"

text \<open>The loop over what the channel yields, \<open>None\<close> once it is closed.\<close>

fun watch_events ::
  "block_time_mode \<Rightarrow> string \<Rightarrow> (h256 \<Rightarrow> u64 option) \<Rightarrow> subscription_event option list \<Rightarrow>
   watcher_state \<Rightarrow> watcher_state \<times> bool" where
  "watch_events mode url timestamp [] w = (w, False)"
| "watch_events mode url timestamp (event # rest) w =
     (case event of
        Some (SubNewBestHead hash header) \<Rightarrow>
          watch_events mode url timestamp rest (watch_head mode url timestamp hash header w)
      | Some (SubNewFinalizedBlock hash header) \<Rightarrow>
          watch_events mode url timestamp rest (watch_head mode url timestamp hash header w)
      | Some SubHeartbeat \<Rightarrow> watch_events mode url timestamp rest w
      | Some SubTermination \<Rightarrow> (w, True)
      | None \<Rightarrow> (w, True))"

definition watch_node ::
  "block_time_mode \<Rightarrow> string \<Rightarrow> view_node \<Rightarrow> subscription_event option list \<Rightarrow> fault + watcher_state" where
  "watch_node mode url node events =
     rbind (case mode of BtPrometheus \<Rightarrow> Inr [] | BtCli cli_opts \<Rightarrow> populate_view node url cli_opts) (\<lambda>populated.
       let start = \<lparr>wn_prev_ts = 0, wn_prev_block = 0, wn_sent = populated, wn_observed = []\<rparr>;
           (w, ended) = watch_events mode url (vn_timestamp node) events start
       in Inr (if ended then w\<lparr>wn_sent := wn_sent w @ [EndpointDisconected]\<rparr> else w))"

section \<open>Drawing\<close>

record chart =
  ct_uri :: string
  ct_row :: u16
  ct_values :: "u64 list option"

record display_state =
  ds_values :: "(string, u64 list) alist"
  ds_drawn :: "chart list list"
  ds_stopped :: bool

datatype display_input = DisplayMessage block_time_message | DisplayClosed | DisplayTimer

definition keep_newest :: "nat \<Rightarrow> 'a list \<Rightarrow> 'a list" where
  "keep_newest width v = (if length v > width then drop (length v - width) v else v)"

definition add_block_time :: "nat \<Rightarrow> string \<Rightarrow> u64 \<Rightarrow> (string, u64 list) alist \<Rightarrow> (string, u64 list) alist" where
  "add_block_time width url block_time values =
     (case map_of values url of
        Some v \<Rightarrow> hm_put url (keep_newest width (v @ [block_time])) values
      | None \<Rightarrow> hm_put url [block_time] values)"

definition display_chart :: "string \<Rightarrow> u32 \<Rightarrow> u64 list option \<Rightarrow> chart" where
  "display_chart uri row shown = \<lparr>ct_uri = uri, ct_row = ucast row, ct_values = shown\<rparr>"

definition display_step :: "chart_options \<Rightarrow> string list \<Rightarrow> nat \<Rightarrow> display_input \<Rightarrow> display_state \<Rightarrow> display_state" where
  "display_step opts endpoints active_endpoints input d =
     (if ds_stopped d then d
      else case input of
          DisplayMessage (NewBlockTime url block_time) \<Rightarrow>
            d\<lparr>ds_values := add_block_time (ch_chart_width opts) url block_time (ds_values d)\<rparr>
        | DisplayMessage EndpointDisconected \<Rightarrow> d
        | DisplayClosed \<Rightarrow> d
        | DisplayTimer \<Rightarrow>
            if active_endpoints = 0 then d\<lparr>ds_stopped := True\<rparr>
            else d\<lparr>ds_drawn := ds_drawn d @
              [map (\<lambda>(i, url). display_chart url (usize_as_u32 (i * (ch_chart_height opts + 3))) (map_of (ds_values d) url))
                (enumerate 0 endpoints)]\<rparr>)"

definition display_charts :: "chart_options \<Rightarrow> string list \<Rightarrow> display_input list \<Rightarrow> display_state" where
  "display_charts opts endpoints inputs =
     foldl (\<lambda>d input. display_step opts endpoints (length endpoints) input d)
       \<lparr>ds_values = [], ds_drawn = [], ds_stopped = False\<rparr> inputs"

end
