(* ===== verification/Block_Time_Laws.thy ===== *)
theory Block_Time_Laws
  imports Block_Time
begin

text \<open>
  What the block time monitor reports: the times between heads that follow each other directly in what it
  hears, and the newest of them in the charts.
\<close>

section \<open>Times from heads\<close>

text \<open>The heads a node's task sees until its channel ends, with the time stamps it can read.\<close>

fun head_times :: "(h256 \<Rightarrow> u64 option) \<Rightarrow> subscription_event option list \<Rightarrow> (u32 \<times> u64) list" where
  "head_times timestamp [] = []"
| "head_times timestamp (event # rest) =
     (let seen = (\<lambda>hash header. (case timestamp hash of None \<Rightarrow> [] | Some ts \<Rightarrow> [(hd_number header, ts)]) @
                    head_times timestamp rest)
      in case event of
           Some (SubNewBestHead hash header) \<Rightarrow> seen hash header
         | Some (SubNewFinalizedBlock hash header) \<Rightarrow> seen hash header
         | Some SubHeartbeat \<Rightarrow> head_times timestamp rest
         | _ \<Rightarrow> [])"

definition channel_ends :: "subscription_event option list \<Rightarrow> bool" where
  "channel_ends events \<longleftrightarrow> None \<in> set events \<or> Some SubTermination \<in> set events"

text \<open>The time between two heads, if the second is the next block after the first.\<close>

definition time_between :: "(u32 \<times> u64) \<times> (u32 \<times> u64) \<Rightarrow> u64 list" where
  "time_between = (\<lambda>((n, t), (m, u)). if unat n \<noteq> 0 \<and> unat m = Suc (unat n) then [saturating_sub u t] else [])"

definition observed_between :: "(u32 \<times> u64) \<times> (u32 \<times> u64) \<Rightarrow> u64 list" where
  "observed_between = (\<lambda>((n, t), (m, u)). if unat n = 0 then [0] else time_between ((n, t), (m, u)))"

definition pairs :: "'a \<Rightarrow> 'a list \<Rightarrow> ('a \<times> 'a) list" where
  "pairs x xs = zip (x # xs) xs"

lemma pairs_simps [simp]: "pairs x [] = []" "pairs x (y # ys) = (x, y) # pairs y ys"
  by (simp_all add: pairs_def)

lemma next_block_iff: "saturating_sub m n = (1 :: u32) \<longleftrightarrow> unat m = Suc (unat n)"
proof -
  have "saturating_sub m n = 1 \<longleftrightarrow> unat (saturating_sub m n) = 1"
    by (metis unat_1 word_unat_eq_iff)
  then show ?thesis by (auto simp: unat_saturating_sub)
qed

lemma watch_head_cli:
  "timestamp hash = Some ts \<Longrightarrow> watch_head (BtCli cli_opts) url timestamp hash header w =
   w\<lparr>wn_sent := wn_sent w @ map (NewBlockTime url)
       (time_between ((wn_prev_block w, wn_prev_ts w), (hd_number header, ts))),
     wn_prev_ts := ts, wn_prev_block := hd_number header\<rparr>"
  by (auto simp: watch_head_def time_between_def next_block_iff Let_def unat_eq_0)

lemma watch_head_prometheus:
  "timestamp hash = Some ts \<Longrightarrow> watch_head BtPrometheus url timestamp hash header w =
   w\<lparr>wn_observed := wn_observed w @ observed_between ((wn_prev_block w, wn_prev_ts w), (hd_number header, ts)),
     wn_prev_ts := ts, wn_prev_block := hd_number header\<rparr>"
  by (auto simp: watch_head_def time_between_def observed_between_def next_block_iff Let_def unat_eq_0)

lemma watch_head_unreadable: "timestamp hash = None \<Longrightarrow> watch_head mode url timestamp hash header w = w"
  by (simp add: watch_head_def)

lemma watch_events_cli:
  "watch_events (BtCli cli_opts) url timestamp events w = (w', ended) \<Longrightarrow>
   wn_sent w' = wn_sent w @ map (NewBlockTime url) (concat (map time_between
     (pairs (wn_prev_block w, wn_prev_ts w) (head_times timestamp events)))) \<and>
   wn_observed w' = wn_observed w \<and> ended = channel_ends events"
proof (induction events arbitrary: w)
  case (Cons event rest)
  have seen: ?case if "event = Some (SubNewBestHead hash header) \<or> event = Some (SubNewFinalizedBlock hash header)"
    for hash header
  proof -
    have rest: "watch_events (BtCli cli_opts) url timestamp rest (watch_head (BtCli cli_opts) url timestamp hash header w) = (w', ended)"
      using that Cons.prems by auto
    show ?thesis
      by (cases "timestamp hash")
        (use that Cons.IH [OF rest] in \<open>auto simp: channel_ends_def watch_head_cli watch_head_unreadable\<close>)
  qed
  show ?case
  proof (cases event)
    case (Some e)
    then show ?thesis using seen Cons by (cases e) (auto simp: channel_ends_def)
  qed (use Cons.prems in \<open>auto simp: channel_ends_def\<close>)
qed (simp add: channel_ends_def)

lemma watch_events_prometheus:
  "watch_events BtPrometheus url timestamp events w = (w', ended) \<Longrightarrow>
   wn_observed w' = wn_observed w @ concat (map observed_between
     (pairs (wn_prev_block w, wn_prev_ts w) (head_times timestamp events))) \<and>
   wn_sent w' = wn_sent w \<and> ended = channel_ends events"
proof (induction events arbitrary: w)
  case (Cons event rest)
  have seen: ?case if "event = Some (SubNewBestHead hash header) \<or> event = Some (SubNewFinalizedBlock hash header)"
    for hash header
  proof -
    have rest: "watch_events BtPrometheus url timestamp rest (watch_head BtPrometheus url timestamp hash header w) = (w', ended)"
      using that Cons.prems by auto
    show ?thesis
      by (cases "timestamp hash")
        (use that Cons.IH [OF rest] in \<open>auto simp: channel_ends_def watch_head_prometheus watch_head_unreadable\<close>)
  qed
  show ?case
  proof (cases event)
    case (Some e)
    then show ?thesis using seen Cons by (cases e) (auto simp: channel_ends_def)
  qed (use Cons.prems in \<open>auto simp: channel_ends_def\<close>)
qed (simp add: channel_ends_def)

section \<open>The filled view\<close>

fun parent_before :: "header list \<Rightarrow> nat \<Rightarrow> h256 option" where
  "parent_before hs 0 = None"
| "parent_before hs (Suc k) = Some (hd_parent_hash (hs ! k))"

definition adjacent :: "'a list \<Rightarrow> ('a \<times> 'a) list" where
  "adjacent xs = zip xs (tl xs)"

lemma adjacent_simps [simp]: "adjacent [] = []" "adjacent (x # xs) = pairs x xs"
  by (simp_all add: adjacent_def pairs_def)

lemma pairs_snoc: "pairs x (xs @ [y]) = pairs x xs @ [(last (x # xs), y)]"
  by (induction xs arbitrary: x) simp_all

lemma adjacent_rev: "adjacent (rev xs) = rev (map prod.swap (adjacent xs))"
proof (induction xs)
  case (Cons x xs)
  show ?case
  proof (cases "rev xs")
    case (Cons z zs)
    then have "last (z # zs) = hd xs" "xs \<noteq> []" by (metis last_rev, auto)
    then have "pairs x xs = (x, last (z # zs)) # adjacent xs" by (cases xs) simp_all
    then show ?thesis
      using Cons Cons.IH by (simp add: pairs_snoc)
  qed simp
qed simp

lemma view_times_along:
  assumes "\<And>j. j < length hs \<Longrightarrow> vn_block_head node (k + j) (if j = 0 then parent else Some (hd_parent_hash (hs ! (j - 1)))) =
      Some (Some (hs ! j))"
    and "\<And>h. h \<in> set hs \<Longrightarrow> vn_timestamp node (vn_hash_of node h) = Some (ts h) \<and> ts h \<noteq> 0"
  shows "view_times node k (length hs) prev parent =
    Inr ((if prev \<noteq> 0 then map (\<lambda>h. saturating_sub prev (ts h)) (take 1 hs) else []) @
      map (\<lambda>(newer, older). saturating_sub (ts newer) (ts older)) (adjacent hs))"
  using assms
proof (induction hs arbitrary: k prev parent)
  case (Cons h hs)
  have "vn_block_head node (Suc k + j) (if j = 0 then Some (hd_parent_hash h) else Some (hd_parent_hash (hs ! (j - 1)))) =
      Some (Some (hs ! j))" if "j < length hs" for j
    using Cons.prems(1) [of "Suc j"] that by (cases j) auto
  then have "view_times node (Suc k) (length hs) (ts h) (Some (hd_parent_hash h)) =
      Inr (map (\<lambda>h'. saturating_sub (ts h) (ts h')) (take 1 hs) @
        map (\<lambda>(newer, older). saturating_sub (ts newer) (ts older)) (adjacent hs))"
    using Cons.prems(2) by (subst Cons.IH) auto
  then show ?case
    using Cons.prems(1) [of 0] Cons.prems(2) [of h] by (cases hs) auto
qed simp

section \<open>Interleaved streams\<close>

text \<open>A feed in which the finalized head of \<open>lag\<close> blocks earlier follows each best head.\<close>

definition lagging_feed :: "(nat \<Rightarrow> h256) \<Rightarrow> (nat \<Rightarrow> h256) \<Rightarrow> nat \<Rightarrow> nat \<Rightarrow> nat \<Rightarrow> subscription_event option list" where
  "lagging_feed hash parent lag first count = concat (map (\<lambda>n.
     [Some (SubNewBestHead (hash n) \<lparr>hd_number = word_of_nat n, hd_parent_hash = parent n\<rparr>),
      Some (SubNewFinalizedBlock (hash (n - lag)) \<lparr>hd_number = word_of_nat (n - lag), hd_parent_hash = parent (n - lag)\<rparr>)])
     [first..<first + count])"

lemma lagging_feed_Suc: "lagging_feed hash parent lag first (Suc count) =
   Some (SubNewBestHead (hash first) \<lparr>hd_number = word_of_nat first, hd_parent_hash = parent first\<rparr>) #
   Some (SubNewFinalizedBlock (hash (first - lag))
     \<lparr>hd_number = word_of_nat (first - lag), hd_parent_hash = parent (first - lag)\<rparr>) #
   lagging_feed hash parent lag (Suc first) count"
  by (simp add: lagging_feed_def upt_conv_Cons del: upt_Suc)

lemma lagging_silent:
  assumes "0 < lag" "lag \<le> first" "first + count < 2 ^ 32" "unat n = 0 \<or> unat n + lag + 1 = first"
  shows "concat (map time_between (pairs (n, t)
    (head_times (\<lambda>h. Some (ts h)) (lagging_feed hash parent lag first count)))) = []"
  using assms
proof (induction count arbitrary: first n t)
  case (Suc count)
  have small: "unat (word_of_nat m :: u32) = m" if "m \<le> first" for m
    using that Suc.prems(3) by (simp add: unat_of_nat take_bit_nat_eq_self)
  have "concat (map time_between (pairs (word_of_nat (first - lag), ts (hash (first - lag)))
      (head_times (\<lambda>h. Some (ts h)) (lagging_feed hash parent lag (Suc first) count)))) = []"
    by (rule Suc.IH) (use Suc.prems small [of "first - lag"] in auto)
  moreover have "time_between ((n, t), (word_of_nat first, ts (hash first))) = []"
    using Suc.prems small [of first] by (auto simp: time_between_def)
  moreover have "time_between ((word_of_nat first, ts (hash first)), (word_of_nat (first - lag), ts (hash (first - lag)))) = []"
    using Suc.prems small [of first] small [of "first - lag"] by (auto simp: time_between_def)
  ultimately show ?case by (simp add: lagging_feed_Suc Let_def)
qed (simp add: lagging_feed_def)

section \<open>The charts\<close>

definition times_for :: "string \<Rightarrow> display_input list \<Rightarrow> u64 list" where
  "times_for url inputs = concat (map (\<lambda>i. case i of
     DisplayMessage (NewBlockTime u t) \<Rightarrow> if u = url then [t] else [] | _ \<Rightarrow> []) inputs)"

lemma keep_newest_eq: "keep_newest width v = drop (length v - width) v"
  by (simp add: keep_newest_def)

lemma newest_snoc: "0 < width \<Longrightarrow> keep_newest width (keep_newest width v @ [x]) = keep_newest width (v @ [x])"
  by (auto simp: keep_newest_def Suc_diff_le)

lemma display_step_values:
  "\<not> ds_stopped d \<Longrightarrow> ds_values (display_step opts endpoints n i d) =
    (case i of DisplayMessage (NewBlockTime url t) \<Rightarrow> add_block_time (ch_chart_width opts) url t (ds_values d) | _ \<Rightarrow> ds_values d)"
  by (auto simp: display_step_def split: display_input.split block_time_message.split)

lemma display_running:
  "0 < n \<Longrightarrow> \<not> ds_stopped d \<Longrightarrow> \<not> ds_stopped (display_step opts endpoints n i d)"
  by (auto simp: display_step_def split: display_input.split block_time_message.split)

lemma map_of_add_block_time:
  "map_of (add_block_time width u t values) url =
    (if u \<noteq> url then map_of values url
     else Some (case map_of values url of None \<Rightarrow> [t] | Some v \<Rightarrow> keep_newest width (v @ [t])))"
  by (auto simp: add_block_time_def map_of_hm_put split: option.split)

lemma display_run:
  assumes "0 < ch_chart_width opts" "0 < n"
  shows "\<not> ds_stopped (foldl (\<lambda>d input. display_step opts endpoints n input d) \<lparr>ds_values = [], ds_drawn = [], ds_stopped = False\<rparr> inputs) \<and>
    map_of (ds_values (foldl (\<lambda>d input. display_step opts endpoints n input d) \<lparr>ds_values = [], ds_drawn = [], ds_stopped = False\<rparr> inputs)) url =
    (if times_for url inputs = [] then None else Some (keep_newest (ch_chart_width opts) (times_for url inputs)))"
proof (induction inputs rule: rev_induct)
  case (snoc i inputs)
  let ?d = "foldl (\<lambda>d input. display_step opts endpoints n input d) \<lparr>ds_values = [], ds_drawn = [], ds_stopped = False\<rparr> inputs"
  have one: "keep_newest (ch_chart_width opts) [t] = [t]" for t :: u64
    using assms(1) by (simp add: keep_newest_eq)
  let ?times = "times_for url inputs"
  have times: "times_for url (inputs @ [i]) =
      (case i of DisplayMessage (NewBlockTime u t) \<Rightarrow> if u = url then ?times @ [t] else ?times | _ \<Rightarrow> ?times)"
    by (auto simp: times_for_def split: display_input.split block_time_message.split)
  from snoc have running: "\<not> ds_stopped ?d"
    and before: "map_of (ds_values ?d) url = (if ?times = [] then None else Some (keep_newest (ch_chart_width opts) ?times))"
    by blast+
  show ?case unfolding times
    by (simp add: display_running running assms display_step_values)
      (auto simp: before map_of_add_block_time newest_snoc one assms
        split: display_input.split block_time_message.split)
qed (simp add: times_for_def)

section \<open>Properties\<close>

text \<open>C32: The terminal monitor sends for a node first the block times of the chain it walked back, oldest
  first, then one for every readable head that is the next block after the readable head heard just
  before it, in order, and that the node is gone exactly if its channel ends.\<close>

theorem block_times_exact:
  assumes "length hs = ch_chart_width cli_opts"
    and "\<And>k. k < length hs \<Longrightarrow> vn_block_head node k (parent_before hs k) = Some (Some (hs ! k))"
    and "\<And>h. h \<in> set hs \<Longrightarrow> vn_timestamp node (vn_hash_of node h) = Some (ts h) \<and> ts h \<noteq> 0"
  shows "\<exists>w. watch_node (BtCli cli_opts) url node events = Inr w \<and> wn_sent w =
      map (\<lambda>(older, newer). NewBlockTime url (saturating_sub (ts newer) (ts older))) (adjacent (rev hs)) @
        map (NewBlockTime url) (concat (map time_between (adjacent (head_times (vn_timestamp node) events)))) @
        (if channel_ends events then [EndpointDisconected] else [])"
proof -
  have "vn_block_head node (0 + j) (if j = 0 then None else Some (hd_parent_hash (hs ! (j - 1)))) = Some (Some (hs ! j))"
    if "j < length hs" for j using assms(2) [OF that] by (cases j) auto
  from view_times_along [OF this assms(3), of 0] assms(1)
  have populated: "populate_view node url cli_opts =
      Inr (map (\<lambda>(older, newer). NewBlockTime url (saturating_sub (ts newer) (ts older))) (adjacent (rev hs)))"
    by (simp add: populate_view_def adjacent_rev rev_map comp_def case_prod_beta)
  obtain w ended where w: "watch_events (BtCli cli_opts) url (vn_timestamp node) events
      \<lparr>wn_prev_ts = 0, wn_prev_block = 0,
       wn_sent = map (\<lambda>(older, newer). NewBlockTime url (saturating_sub (ts newer) (ts older))) (adjacent (rev hs)),
       wn_observed = []\<rparr> = (w, ended)" by force
  have start: "concat (map time_between (pairs (0, 0) heads)) = concat (map time_between (adjacent heads))" for heads
    by (cases heads) (simp_all add: time_between_def split: prod.split)
  from watch_events_cli [OF w] show ?thesis
    by (auto simp: watch_node_def populated w start)
qed

definition sample_header_at :: "nat \<Rightarrow> header" where
  "sample_header_at n = \<lparr>hd_number = word_of_nat n, hd_parent_hash = word_of_nat (n - 1)\<rparr>"

definition sample_view :: view_node where
  "sample_view = \<lparr>vn_block_head = (\<lambda>_ hash. case hash of None \<Rightarrow> Some (Some (sample_header_at 12))
       | Some h \<Rightarrow> Some (Some (sample_header_at (unat h)))),
     vn_hash_of = (\<lambda>header. ucast (hd_number header)), vn_timestamp = (\<lambda>h. Some (6000 * ucast h))\<rparr>"

abbreviation sample_cli :: chart_options where
  "sample_cli \<equiv> \<lparr>ch_chart_width = 3, ch_chart_height = 6\<rparr>"

theorem block_times_exact_witness:
  "\<exists>w. watch_node (BtCli sample_cli) ''node'' sample_view
       [Some (SubNewBestHead 13 (sample_header_at 13)), Some (SubNewFinalizedBlock 11 (sample_header_at 11)),
        Some (SubNewFinalizedBlock 12 (sample_header_at 12)), Some SubTermination] = Inr w \<and>
     wn_sent w = [NewBlockTime ''node'' 6000, NewBlockTime ''node'' 6000, NewBlockTime ''node'' 6000, EndpointDisconected]"
proof -
  have along: "vn_block_head sample_view k (parent_before [sample_header_at 12, sample_header_at 11, sample_header_at 10] k) =
      Some (Some ([sample_header_at 12, sample_header_at 11, sample_header_at 10] ! k))"
    if "k < length [sample_header_at 12, sample_header_at 11, sample_header_at 10]" for k
  proof -
    have "k = 0 \<or> k = Suc 0 \<or> k = Suc (Suc 0)" using that by auto
    then show ?thesis by (elim disjE) (simp_all add: sample_view_def sample_header_at_def)
  qed
  have stamps: "vn_timestamp sample_view (vn_hash_of sample_view h) = Some (6000 * ucast (hd_number h)) \<and>
      6000 * ucast (hd_number h) \<noteq> (0 :: u64)"
    if "h \<in> set [sample_header_at 12, sample_header_at 11, sample_header_at 10]" for h
    using that by (auto simp: sample_view_def sample_header_at_def)
  have stamp: "vn_timestamp sample_view h = Some (6000 * ucast h)" for h by (simp add: sample_view_def)
  show ?thesis
    using block_times_exact [of "[sample_header_at 12, sample_header_at 11, sample_header_at 10]" sample_cli sample_view
        "\<lambda>h. 6000 * ucast (hd_number h)", OF _ along stamps, of "''node''"
        "[Some (SubNewBestHead 13 (sample_header_at 13)), Some (SubNewFinalizedBlock 11 (sample_header_at 11)),
          Some (SubNewFinalizedBlock 12 (sample_header_at 12)), Some SubTermination]"]
    by (simp add: sample_header_at_def stamp saturating_sub_def time_between_def channel_ends_def)
qed

text \<open>While the finalized chain stays the same number of blocks behind the best one and the two streams
  alternate, the monitor reports no block time at all: each finalized head replaces the previous block, so
  that the next best head looks like a gap.\<close>

theorem lagging_feed_reports_nothing:
  assumes "0 < lag" "lag \<le> first" "first + count < 2 ^ 32"
    and "vn_timestamp node = (\<lambda>h. Some (ts h))" "populate_view node url cli_opts = Inr populated"
  shows "\<exists>w. watch_node (BtCli cli_opts) url node (lagging_feed hash parent lag first count) = Inr w \<and>
    wn_sent w = populated"
proof -
  obtain w ended where w: "watch_events (BtCli cli_opts) url (vn_timestamp node) (lagging_feed hash parent lag first count)
      \<lparr>wn_prev_ts = 0, wn_prev_block = 0, wn_sent = populated, wn_observed = []\<rparr> = (w, ended)" by force
  have "\<not> channel_ends (lagging_feed hash parent lag first count)"
    by (auto simp: channel_ends_def lagging_feed_def)
  with watch_events_cli [OF w] lagging_silent [OF assms(1-3), of 0 0] show ?thesis
    by (simp add: watch_node_def assms(4,5) w [unfolded assms(4)])
qed

theorem lagging_feed_reports_nothing_witness:
  "\<exists>w. watch_node (BtCli \<lparr>ch_chart_width = 0, ch_chart_height = 6\<rparr>) ''node'' sample_view
      (lagging_feed word_of_nat word_of_nat 2 100 50) = Inr w \<and> wn_sent w = []"
  by (rule lagging_feed_reports_nothing [where ts = "\<lambda>h. 6000 * ucast h"])
    (simp_all add: sample_view_def populate_view_def)

text \<open>The charts show for each node exactly its newest block times, at most as many as the chart is wide,
  and the drawing loop goes on for ever once there is a node, however many of them have disconnected.\<close>

theorem charts_show_newest:
  assumes "0 < ch_chart_width opts" "endpoints \<noteq> []"
  shows "\<not> ds_stopped (display_charts opts endpoints inputs) \<and>
    map_of (ds_values (display_charts opts endpoints inputs)) url =
      (if times_for url inputs = [] then None
       else Some (drop (length (times_for url inputs) - ch_chart_width opts) (times_for url inputs)))"
  using display_run [OF assms(1), of "length endpoints" endpoints inputs url] assms(2)
  by (simp_all add: display_charts_def keep_newest_eq)

theorem charts_show_newest_witness:
  "map_of (ds_values (display_charts \<lparr>ch_chart_width = 2, ch_chart_height = 6\<rparr> [''node'']
     [DisplayTimer, DisplayMessage (NewBlockTime ''node'' 1), DisplayMessage (NewBlockTime ''node'' 2),
      DisplayMessage EndpointDisconected, DisplayMessage (NewBlockTime ''node'' 3), DisplayTimer])) ''node'' = Some [2, 3]"
  using charts_show_newest [of "\<lparr>ch_chart_width = 2, ch_chart_height = 6\<rparr>" "[''node'']"
      "[DisplayTimer, DisplayMessage (NewBlockTime ''node'' 1), DisplayMessage (NewBlockTime ''node'' 2),
        DisplayMessage EndpointDisconected, DisplayMessage (NewBlockTime ''node'' 3), DisplayTimer]" "''node''"]
  by (simp add: times_for_def)

end
