(* ===== verification/Kvdb_Main.thy ===== *)
theory Kvdb_Main
  imports Kvdb_Decode Maps "HOL-Library.Sublist" "HOL-Library.List_Lexorder"
begin

text \<open>
  The database tool: the two kinds of database (\<^verbatim>\<open>kvdb/src/rocksdb.rs\<close>, \<^verbatim>\<open>kvdb/src/paritydb.rs\<close>), its commands
  (\<^verbatim>\<open>kvdb/src/main.rs\<close>); its metrics are in \<open>Kvdb_Metrics\<close>. What the database libraries answer is a
  field of \<open>rocks_library\<close> and \<open>parity_library\<close>; a raw iterator is a list whose \<open>None\<close> is a read error. Column
  names and prefixes are byte strings. What is printed or written is the value of a command; its text is in
  \<open>Kvdb_Tool\<close>.
\<close>

section \<open>Databases\<close>

type_synonym kv_entry = "bytes \<times> bytes"

text \<open>\<^verbatim>\<open>trait IntrospectorKvdb\<close>, its reading half.\<close>

record kvdb =
  kv_columns :: "bytes list"
  kv_iter_values :: "bytes \<Rightarrow> fault + kv_entry list"
  kv_prefixed_iter_values :: "bytes \<Rightarrow> bytes \<Rightarrow> fault + kv_entry list"

definition until_error :: "'a option list \<Rightarrow> 'a list" where
  "until_error items = map the (takeWhile (\<lambda>item. item \<noteq> None) items)"

definition position :: "bytes list \<Rightarrow> bytes \<Rightarrow> nat option" where
  "position columns column =
     (let n = length (takeWhile (\<lambda>c. c \<noteq> column) columns) in if n < length columns then Some n else None)"

subsection \<open>RocksDB\<close>

record rocks_library =
  rl_list_cf :: "fault + bytes list"
  rl_open_read_only :: "bytes list \<Rightarrow> fault + unit"
  rl_iterator :: "bytes \<Rightarrow> kv_entry option list"
  rl_prefix_iterator :: "bytes \<Rightarrow> bytes \<Rightarrow> kv_entry option list"

definition default_column :: bytes where
  "default_column = ascii ''default''"

definition rocks_new :: "rocks_library \<Rightarrow> fault + kvdb" where
  "rocks_new lib =
     rbind (rl_list_cf lib) (\<lambda>listed.
       let columns = remove1 default_column listed;
           cf_handle = (\<lambda>column. if column \<in> set columns then Inr column else Inl Fail)
       in rbind (rl_open_read_only lib columns) (\<lambda>_.
          Inr \<lparr>kv_columns = columns,
               kv_iter_values = (\<lambda>column. rbind (cf_handle column) (\<lambda>cf. Inr (until_error (rl_iterator lib cf)))),
               kv_prefixed_iter_values = (\<lambda>column p. rbind (cf_handle column) (\<lambda>cf.
                 Inr (until_error (rl_prefix_iterator lib cf p))))\<rparr>))"

text \<open>\<^verbatim>\<open>write_iter\<close>: the entries are put one by one; the first failure leaves the others unwritten.\<close>

fun rocks_put_all ::
  "(bytes \<Rightarrow> kv_entry \<Rightarrow> 'db \<Rightarrow> 'db option) \<Rightarrow> bytes \<Rightarrow> kv_entry list \<Rightarrow> 'db \<Rightarrow> (fault + unit) \<times> 'db" where
  "rocks_put_all put column [] db = (Inr (), db)"
| "rocks_put_all put column (entry # entries) db =
     (case put column entry db of None \<Rightarrow> (Inl Fail, db) | Some db \<Rightarrow> rocks_put_all put column entries db)"

definition rocks_write_iter ::
  "(bytes \<Rightarrow> kv_entry \<Rightarrow> 'db \<Rightarrow> 'db option) \<Rightarrow> bool \<Rightarrow> bytes list \<Rightarrow> bytes \<Rightarrow> kv_entry list \<Rightarrow> 'db \<Rightarrow> (fault + unit) \<times> 'db" where
  "rocks_write_iter put read_only columns column entries db =
     (if read_only then (Inl Fail, db)
      else if column \<notin> set columns then (Inl Fail, db)
      else rocks_put_all put column entries db)"

subsection \<open>ParityDB\<close>

record parity_library =
  pl_metadata_columns :: "fault + nat"
  pl_open_read_only :: "fault + unit"
  pl_iter :: "u8 \<Rightarrow> fault + kv_entry option list"
  pl_seek :: "u8 \<Rightarrow> bytes \<Rightarrow> fault + kv_entry option list"

definition column_name :: "nat \<Rightarrow> bytes" where
  "column_name n = ascii ''col'' @ show_size n"

definition column_idx :: "bytes list \<Rightarrow> bytes \<Rightarrow> fault + u8" where
  "column_idx columns column = (case position columns column of None \<Rightarrow> Inl Fail | Some n \<Rightarrow> Inr (word_of_nat n))"

definition parity_new :: "parity_library \<Rightarrow> fault + kvdb" where
  "parity_new lib =
     rbind (pl_metadata_columns lib) (\<lambda>n.
     rbind (pl_open_read_only lib) (\<lambda>_.
       let columns = map column_name [0..<n]
       in Inr \<lparr>kv_columns = columns,
               kv_iter_values = (\<lambda>column. rbind (column_idx columns column) (\<lambda>idx.
                 rbind (pl_iter lib idx) (\<lambda>items. Inr (until_error items)))),
               kv_prefixed_iter_values = (\<lambda>column p. rbind (column_idx columns column) (\<lambda>idx.
                 rbind (pl_iter lib idx) (\<lambda>_. rbind (pl_seek lib idx p) (\<lambda>items.
                   Inr (takeWhile (\<lambda>(key, _). prefix p key) (until_error items))))))\<rparr>))"

definition parity_write_iter ::
  "(u8 \<Rightarrow> kv_entry list \<Rightarrow> 'db \<Rightarrow> 'db option) \<Rightarrow> bytes list \<Rightarrow> bytes \<Rightarrow> kv_entry list \<Rightarrow> 'db \<Rightarrow> (fault + unit) \<times> 'db" where
  "parity_write_iter commit columns column entries db =
     (case column_idx columns column of
        Inl e \<Rightarrow> (Inl e, db)
      | Inr idx \<Rightarrow> (case commit idx entries db of None \<Rightarrow> (Inl Fail, db) | Some db \<Rightarrow> (Inr (), db)))"

section \<open>Commands\<close>

record usage_results =
  us_description :: bytes
  us_keys_count :: nat
  us_keys_size :: nat
  us_values_size :: nat

record selection =
  se_column :: "bytes list"
  se_keys_prefix :: "bytes list"

datatype dump_mode = DumpRocksDB | DumpParityDB | DumpJson

datatype db_type = AutoDb | RocksDb | ParityDb

definition autodetect_db_type :: "(string \<Rightarrow> bool) \<Rightarrow> fault + db_type" where
  "autodetect_db_type exists_in =
     (if exists_in ''CURRENT'' then Inr RocksDb
      else if exists_in ''metadata'' then Inr ParityDb
      else Inl Fail)"

text \<open>The database a run opens: the type is detected unless the options name it.\<close>

definition introspect_kvdb ::
  "(string \<Rightarrow> bool) \<Rightarrow> rocks_library \<Rightarrow> parity_library \<Rightarrow> db_type \<Rightarrow> fault + kvdb" where
  "introspect_kvdb exists_in rocks parity db_type =
     rbind (if db_type = AutoDb then autodetect_db_type exists_in else Inr db_type) (\<lambda>db_type.
       case db_type of AutoDb \<Rightarrow> Inl Panic | RocksDb \<Rightarrow> rocks_new rocks | ParityDb \<Rightarrow> parity_new parity)"

definition selected_columns :: "kvdb \<Rightarrow> selection \<Rightarrow> bytes list" where
  "selected_columns db opts = filter (\<lambda>col. se_column opts = [] \<or> col \<in> set (se_column opts)) (kv_columns db)"

text \<open>A loop that prints or writes as it goes: what it did before the first failure, and the failure.\<close>

fun each :: "('a \<Rightarrow> fault + 'b) \<Rightarrow> 'a list \<Rightarrow> 'b list \<times> (fault + unit)" where
  "each f [] = ([], Inr ())"
| "each f (x # xs) =
     (case f x of Inl e \<Rightarrow> ([], Inl e) | Inr y \<Rightarrow> (let (ys, result) = each f xs in (y # ys, result)))"

text \<open>The iterations over a column: one over all keys, or one for each requested prefix.\<close>

definition iterations :: "kvdb \<Rightarrow> selection \<Rightarrow> bytes \<Rightarrow> (fault + kv_entry list) list" where
  "iterations db opts col =
     (if se_keys_prefix opts = [] then [kv_iter_values db col]
      else map (kv_prefixed_iter_values db col) (se_keys_prefix opts))"

definition count_entry :: "usage_results \<Rightarrow> kv_entry \<Rightarrow> usage_results" where
  "count_entry u = (\<lambda>(key, val).
     u\<lparr>us_keys_size := us_keys_size u + length key, us_keys_count := us_keys_count u + 1,
       us_values_size := us_values_size u + length val\<rparr>)"

definition column_usage :: "kvdb \<Rightarrow> selection \<Rightarrow> bytes \<Rightarrow> fault + usage_results" where
  "column_usage db opts col =
     rbind (rmap id (iterations db opts col)) (\<lambda>parts.
       Inr (foldl (foldl count_entry)
         \<lparr>us_description = col, us_keys_count = 0, us_keys_size = 0, us_values_size = 0\<rparr> parts))"

definition run_usage :: "kvdb \<Rightarrow> selection \<Rightarrow> usage_results list \<times> (fault + unit)" where
  "run_usage db opts = each (column_usage db opts) (selected_columns db opts)"

definition key_options_of :: "bytes \<Rightarrow> bytes \<Rightarrow> nat option \<Rightarrow> bool \<Rightarrow> key_decode_options" where
  "key_options_of column fmt limit ignore_failures =
     \<lparr>ko_lim = limit, ko_ignore_failures = ignore_failures, ko_column = column, ko_decode_fmt = fmt\<rparr>"

definition run_decode_keys ::
  "(bytes \<Rightarrow> bytes) \<Rightarrow> kvdb \<Rightarrow> key_decode_options \<Rightarrow> key_decode_error + key_decode_result list" where
  "run_decode_keys hex db opts =
     decode_keys hex (\<lambda>col p. case kv_prefixed_iter_values db col p of Inl _ \<Rightarrow> None | Inr entries \<Rightarrow> Some entries) opts"

section \<open>Dumps\<close>

fun write_parts ::
  "(kv_entry list \<Rightarrow> 'db \<Rightarrow> (fault + unit) \<times> 'db) \<Rightarrow> (fault + kv_entry list) list \<Rightarrow> 'db \<Rightarrow> (fault + unit) \<times> 'db" where
  "write_parts write_iter [] db = (Inr (), db)"
| "write_parts write_iter (part # parts) db =
     (case part of
        Inl e \<Rightarrow> (Inl e, db)
      | Inr entries \<Rightarrow>
          (case write_iter entries db of
             (Inl e, db) \<Rightarrow> (Inl e, db)
           | (Inr _, db) \<Rightarrow> write_parts write_iter parts db))"

fun write_columns ::
  "(bytes \<Rightarrow> kv_entry list \<Rightarrow> 'db \<Rightarrow> (fault + unit) \<times> 'db) \<Rightarrow> kvdb \<Rightarrow> selection \<Rightarrow> bytes list \<Rightarrow> 'db \<Rightarrow> (fault + unit) \<times> 'db" where
  "write_columns write_iter source opts [] db = (Inr (), db)"
| "write_columns write_iter source opts (col # cols) db =
     (case write_parts (write_iter col) (iterations source opts col) db of
        (Inl e, db) \<Rightarrow> (Inl e, db)
      | (Inr _, db) \<Rightarrow> write_columns write_iter source opts cols db)"

definition dump_into_db ::
  "(bytes \<Rightarrow> kv_entry list \<Rightarrow> 'db \<Rightarrow> (fault + unit) \<times> 'db) \<Rightarrow> kvdb \<Rightarrow> selection \<Rightarrow> 'db \<Rightarrow> (fault + unit) \<times> 'db" where
  "dump_into_db write_iter source opts destination =
     write_columns write_iter source opts (selected_columns source opts) destination"

text \<open>Paths by their components; \<^verbatim>\<open>set_file_name\<close> replaces the last one if it is a name.\<close>

datatype path_component = RootDir | CurDir | ParentDir | Normal bytes

definition file_name :: "path_component list \<Rightarrow> bytes option" where
  "file_name path = (if path = [] then None else case last path of Normal name \<Rightarrow> Some name | _ \<Rightarrow> None)"

definition set_file_name :: "path_component list \<Rightarrow> bytes \<Rightarrow> path_component list" where
  "set_file_name path name = (if file_name path = None then path else butlast path) @ [Normal name]"

definition json_file :: "path_component list \<Rightarrow> bytes \<Rightarrow> path_component list" where
  "json_file output_dir col = set_file_name output_dir (col @ ascii ''.json'')"

text \<open>The files that are created, with the entries that become their lines, and the failure that ends it.\<close>

fun write_db_iters_into_json :: "(fault + kv_entry list) list \<Rightarrow> kv_entry list \<times> (fault + unit)" where
  "write_db_iters_into_json [] = ([], Inr ())"
| "write_db_iters_into_json (part # parts) =
     (case part of
        Inl e \<Rightarrow> ([], Inl e)
      | Inr entries \<Rightarrow> (let (written, result) = write_db_iters_into_json parts in (entries @ written, result)))"

fun json_columns ::
  "kvdb \<Rightarrow> selection \<Rightarrow> path_component list \<Rightarrow> bytes list \<Rightarrow>
   (path_component list \<times> kv_entry list) list \<times> (fault + unit)" where
  "json_columns db opts output_dir [] = ([], Inr ())"
| "json_columns db opts output_dir (col # cols) =
     (case write_db_iters_into_json (iterations db opts col) of
        (written, Inl e) \<Rightarrow> ([(json_file output_dir col, written)], Inl e)
      | (written, Inr _) \<Rightarrow>
          (let (files, result) = json_columns db opts output_dir cols
           in ((json_file output_dir col, written) # files, result)))"

definition dump_into_json ::
  "kvdb \<Rightarrow> selection \<Rightarrow> path_component list \<Rightarrow> (path_component list \<times> kv_entry list) list \<times> (fault + unit)" where
  "dump_into_json db opts output_dir = json_columns db opts output_dir (selected_columns db opts)"

end
