(* ===== verification/Kvdb_Laws.thy ===== *)
theory Kvdb_Laws
  imports Kvdb_Main
begin

text \<open>
  What the commands of the database tool report and write, over any database whose prefixed iteration gives
  the entries with the prefix, which is shown of \<^verbatim>\<open>IntrospectorParityDB\<close>.
\<close>

section \<open>Prefixes in the order of the keys\<close>

lemma prefix_le: "prefix p k \<Longrightarrow> p \<le> (k :: 'a::linorder list)"
proof (induction p arbitrary: k)
  case (Cons x p)
  then show ?case by (cases k) auto
qed simp

lemma between_prefixed: "p \<le> k \<Longrightarrow> k \<le> p @ s \<Longrightarrow> prefix p (k :: 'a::linorder list)"
proof (induction p arbitrary: k)
  case (Cons x p)
  then show ?case by (cases k) auto
qed simp

lemma prefixed_upwards:
  assumes "p \<le> k" "\<not> prefix p k" "k \<le> (k' :: 'a::linorder list)"
  shows "\<not> prefix p k'"
proof
  assume "prefix p k'"
  then obtain s where "k' = p @ s" by (rule prefixE)
  with assms between_prefixed [OF assms(1)] show False by simp
qed

text \<open>In an ordered column the entries from the prefix on that start with it are all that do.\<close>

lemma seek_prefix:
  assumes "sorted (map fst es)"
  shows "takeWhile (\<lambda>(k, _). prefix p k) (dropWhile (\<lambda>(k, _). k < p) es) =
    filter (\<lambda>(k, _). prefix p (k :: 'a::linorder list)) es"
  using assms
proof (induction es)
  case (Cons e es)
  obtain k v where e: "e = (k, v)" by force
  show ?case
  proof (cases "k < p")
    case True
    then have "\<not> prefix p k" using prefix_le [of p k] by auto
    with True Cons show ?thesis by (simp add: e)
  next
    case False
    have drop: "dropWhile (\<lambda>(k, _). k < p) es = es"
      using False Cons.prems by (cases es) (auto simp: e)
    have none: "filter (\<lambda>(k, _). prefix p k) es = []" if "\<not> prefix p k"
      using that False Cons.prems prefixed_upwards [of p k] by (fastforce simp: e filter_empty_conv)
    from Cons drop False none show ?thesis by (auto simp: e)
  qed
qed simp

section \<open>Databases that keep their promises\<close>

text \<open>A database whose columns are distinct, readable and ordered, and whose prefixed iteration gives the
  entries with the prefix.\<close>

definition kvdb_holds :: "kvdb \<Rightarrow> (bytes \<Rightarrow> kv_entry list) \<Rightarrow> bool" where
  "kvdb_holds db content \<longleftrightarrow> distinct (kv_columns db) \<and> (\<forall>col \<in> set (kv_columns db).
     distinct (map fst (content col)) \<and> kv_iter_values db col = Inr (content col) \<and>
     (\<forall>p. kv_prefixed_iter_values db col p = Inr (filter (\<lambda>(k, _). prefix p k) (content col))))"

text \<open>What the library of ParityDB documents: a btree column iterates in the order of its keys, without an
  error, and \<^verbatim>\<open>seek\<close> goes to the first key that is not below the one given.\<close>

definition parity_holds :: "parity_library \<Rightarrow> nat \<Rightarrow> (nat \<Rightarrow> kv_entry list) \<Rightarrow> bool" where
  "parity_holds lib n content \<longleftrightarrow> n < 256 \<and> pl_metadata_columns lib = Inr n \<and> pl_open_read_only lib = Inr () \<and>
     (\<forall>i < n. sorted (map fst (content i)) \<and> distinct (map fst (content i)) \<and>
        pl_iter lib (word_of_nat i) = Inr (map Some (content i)) \<and>
        (\<forall>p. pl_seek lib (word_of_nat i) p = Inr (map Some (dropWhile (\<lambda>(k, _). k < p) (content i)))))"

lemma until_error_Some [simp]: "until_error (map Some xs) = xs"
  by (simp add: until_error_def takeWhile_map comp_def)

lemma column_name_inj: "column_name m = column_name n \<longleftrightarrow> m = n"
  by (auto simp: column_name_def show_size_value dest!: arg_cong [where f = digits_value])

lemma position_names:
  assumes "i < n"
  shows "position (map column_name [0..<n]) (column_name i) = Some i"
proof -
  have "[0..<n] = [0..<i] @ i # [Suc i..<n]"
    using assms upt_add_eq_append [of 0 i "n - i"] upt_conv_Cons [of i n] by simp
  then have "takeWhile (\<lambda>c. c \<noteq> column_name i) (map column_name [0..<n]) = map column_name [0..<i]"
    by (simp, subst takeWhile_append2) (auto simp: column_name_inj)
  with assms show ?thesis by (simp add: position_def)
qed

definition parity_content :: "nat \<Rightarrow> (nat \<Rightarrow> kv_entry list) \<Rightarrow> bytes \<Rightarrow> kv_entry list" where
  "parity_content n content col = content (the (position (map column_name [0..<n]) col))"

lemma parity_keeps_promises:
  assumes "parity_holds lib n content"
  shows "\<exists>db. parity_new lib = Inr db \<and> kv_columns db = map column_name [0..<n] \<and> kvdb_holds db (parity_content n content)"
proof -
  obtain db where db: "parity_new lib = Inr db" using assms by (simp add: parity_new_def parity_holds_def Let_def)
  then have columns: "kv_columns db = map column_name [0..<n]"
    using assms by (auto simp: parity_new_def parity_holds_def Let_def)
  have "kvdb_holds db (parity_content n content)"
    using assms db
    by (auto simp: seek_prefix kvdb_holds_def columns distinct_map inj_on_def column_name_inj parity_content_def position_names
        parity_new_def parity_holds_def column_idx_def Let_def)
  with db columns show ?thesis by blast
qed

section \<open>Usage\<close>

text \<open>The entries the iterations over a column meet, one time for each requested prefix of the key.\<close>

definition hits :: "selection \<Rightarrow> kv_entry list \<Rightarrow> kv_entry list" where
  "hits opts es = (if se_keys_prefix opts = [] then es
     else concat (map (\<lambda>p. filter (\<lambda>(k, _). prefix p k) es) (se_keys_prefix opts)))"

definition times_hit :: "selection \<Rightarrow> bytes \<Rightarrow> nat" where
  "times_hit opts key = (if se_keys_prefix opts = [] then 1 else length (filter (\<lambda>p. prefix p key) (se_keys_prefix opts)))"

lemma iterations_held:
  assumes "kvdb_holds db content" "col \<in> set (kv_columns db)"
  shows "iterations db opts col = map Inr (if se_keys_prefix opts = [] then [content col]
      else map (\<lambda>p. filter (\<lambda>(k, _). prefix p k) (content col)) (se_keys_prefix opts))"
  using assms by (auto simp: iterations_def kvdb_holds_def)

lemma rmap_id_Inr [simp]: "rmap id (map Inr xs) = Inr xs"
  by (induction xs) simp_all

lemma iterations_hits:
  "kvdb_holds db content \<Longrightarrow> col \<in> set (kv_columns db) \<Longrightarrow>
    \<exists>parts. iterations db opts col = map Inr parts \<and> concat parts = hits opts (content col)"
  by (auto simp: iterations_held hits_def)

lemma count_entries:
  "foldl count_entry u es = u\<lparr>us_keys_count := us_keys_count u + length es,
     us_keys_size := us_keys_size u + sum_list (map (length \<circ> fst) es),
     us_values_size := us_values_size u + sum_list (map (length \<circ> snd) es)\<rparr>"
  by (induction es arbitrary: u) (auto simp: count_entry_def)

lemma foldl_parts: "foldl (foldl f) u parts = foldl f u (concat parts)"
  by (induction parts arbitrary: u) simp_all

lemma sum_hits:
  "sum_list (map f (hits opts es)) = (\<Sum>e\<leftarrow>es. times_hit opts (fst e) * (f e :: nat))"
proof -
  have "sum_list (map f (concat (map (\<lambda>p. filter (\<lambda>(k, _). prefix p k) es) ps))) =
      (\<Sum>e\<leftarrow>es. length (filter (\<lambda>p. prefix p (fst e)) ps) * f e)" for ps
  proof (induction ps)
    case (Cons p ps)
    have "sum_list (map f (filter (\<lambda>(k, _). prefix p k) es)) = (\<Sum>e\<leftarrow>es. if prefix p (fst e) then f e else 0)"
      by (induction es) auto
    then have "sum_list (map f (filter (\<lambda>(k, _). prefix p k) es)) + (\<Sum>e\<leftarrow>es. length (filter (\<lambda>p. prefix p (fst e)) ps) * f e) =
        (\<Sum>e\<leftarrow>es. length (filter (\<lambda>q. prefix q (fst e)) (p # ps)) * f e)"
      by (simp add: sum_list_addf [symmetric] if_distrib cong: map_cong) (auto intro!: arg_cong [where f = sum_list])
    with Cons show ?case by simp
  qed simp
  then show ?thesis by (simp add: hits_def times_hit_def)
qed

lemma each_Inr: "(\<And>x. x \<in> set xs \<Longrightarrow> f x = Inr (g x)) \<Longrightarrow> each f xs = (map g xs, Inr ())"
  by (induction xs) auto

lemma usage_held:
  assumes "kvdb_holds db content"
  shows "run_usage db opts = (map (\<lambda>col.
      \<lparr>us_description = col,
       us_keys_count = (\<Sum>e\<leftarrow>content col. times_hit opts (fst e)),
       us_keys_size = (\<Sum>e\<leftarrow>content col. times_hit opts (fst e) * length (fst e)),
       us_values_size = (\<Sum>e\<leftarrow>content col. times_hit opts (fst e) * length (snd e))\<rparr>) (selected_columns db opts), Inr ())"
  unfolding run_usage_def
proof (rule each_Inr)
  fix col
  assume "col \<in> set (selected_columns db opts)"
  then obtain parts where parts: "iterations db opts col = map Inr parts" "concat parts = hits opts (content col)"
    using iterations_hits [OF assms] by (auto simp: selected_columns_def)
  have "length (hits opts (content col)) = (\<Sum>e\<leftarrow>content col. times_hit opts (fst e))"
    using sum_hits [of "\<lambda>_. 1" opts "content col"] by (simp add: sum_list_triv case_prod_beta)
  with parts show "column_usage db opts col = Inr
      \<lparr>us_description = col,
       us_keys_count = (\<Sum>e\<leftarrow>content col. times_hit opts (fst e)),
       us_keys_size = (\<Sum>e\<leftarrow>content col. times_hit opts (fst e) * length (fst e)),
       us_values_size = (\<Sum>e\<leftarrow>content col. times_hit opts (fst e) * length (snd e))\<rparr>"
    by (simp add: column_usage_def foldl_parts count_entries sum_hits case_prod_beta)
qed

section \<open>Dumps\<close>

text \<open>What RocksDB documents of \<^verbatim>\<open>put_cf\<close>, with \<open>view\<close> what a read of a column and key gives.\<close>

definition puts :: "('db \<Rightarrow> bytes \<Rightarrow> bytes \<Rightarrow> bytes option) \<Rightarrow> (bytes \<Rightarrow> kv_entry \<Rightarrow> 'db \<Rightarrow> 'db option) \<Rightarrow> bool" where
  "puts view put \<longleftrightarrow> (\<forall>col k v db. \<exists>db'. put col (k, v) db = Some db' \<and>
     (\<forall>c key. view db' c key = (if c = col \<and> key = k then Some v else view db c key)))"

text \<open>What is at a key after some keys of a column were copied.\<close>

definition copied :: "('db \<Rightarrow> bytes \<Rightarrow> bytes \<Rightarrow> bytes option) \<Rightarrow> (bytes \<Rightarrow> bytes \<Rightarrow> bytes option) \<Rightarrow>
    (bytes \<Rightarrow> bytes \<Rightarrow> bool) \<Rightarrow> 'db \<Rightarrow> 'db \<Rightarrow> bool" where
  "copied view source chosen db db' \<longleftrightarrow> (\<forall>c k. view db' c k = (if chosen c k then source c k else view db c k))"

lemma copied_trans:
  "copied view source P db db' \<Longrightarrow> copied view source Q db' db'' \<Longrightarrow> copied view source (\<lambda>c k. P c k \<or> Q c k) db db''"
  by (auto simp: copied_def)

lemma copied_none: "copied view source (\<lambda>_ _. False) db db"
  by (simp add: copied_def)

lemma put_all_copies:
  assumes "puts view put" "\<And>k v. (k, v) \<in> set es \<Longrightarrow> source col k = Some v"
  shows "\<exists>db'. rocks_put_all put col es db = (Inr (), db') \<and>
    copied view source (\<lambda>c k. c = col \<and> k \<in> fst ` set es) db db'"
  using assms(2)
proof (induction es arbitrary: db)
  case (Cons e es)
  obtain k v where e: "e = (k, v)" by force
  obtain db1 where put: "put col e db = Some db1"
    and db1: "\<And>c key. view db1 c key = (if c = col \<and> key = k then Some v else view db c key)"
    unfolding e using assms(1) unfolding puts_def by blast
  obtain db2 where rest: "rocks_put_all put col es db1 = (Inr (), db2)"
    and db2: "copied view source (\<lambda>c k. c = col \<and> k \<in> fst ` set es) db1 db2"
    using Cons.IH [of db1] Cons.prems by (auto simp: e)
  have "copied view source (\<lambda>c key. c = col \<and> key = k) db db1"
    using db1 Cons.prems [of k v] by (simp add: copied_def e)
  from copied_trans [OF this db2] put rest show ?case
    by (auto simp: e copied_def)
qed (use copied_none in simp)

text \<open>A writer of the columns \<open>cols\<close>: it puts the entries of a source into the column it is given, and nothing else.\<close>

definition writes_columns ::
  "('db \<Rightarrow> bytes \<Rightarrow> bytes \<Rightarrow> bytes option) \<Rightarrow> (bytes \<Rightarrow> kv_entry list \<Rightarrow> 'db \<Rightarrow> (fault + unit) \<times> 'db) \<Rightarrow> bytes list \<Rightarrow> bool" where
  "writes_columns view writer cols \<longleftrightarrow>
     (\<forall>col \<in> set cols. \<forall>es source db. (\<forall>k v. (k, v) \<in> set es \<longrightarrow> source col k = Some v) \<longrightarrow>
        (\<exists>db'. writer col es db = (Inr (), db') \<and> copied view source (\<lambda>c k. c = col \<and> k \<in> fst ` set es) db db'))"

lemma rocks_writes_columns: "puts view put \<Longrightarrow> writes_columns view (rocks_write_iter put False cols) cols"
  unfolding writes_columns_def by (auto simp: rocks_write_iter_def intro!: put_all_copies)

lemma write_parts_copies:
  assumes "writes_columns view writer cols" "col \<in> set cols"
    and "\<And>k v. (k, v) \<in> set (concat parts) \<Longrightarrow> source col k = Some v"
  shows "\<exists>db'. write_parts (writer col) (map Inr parts) db = (Inr (), db') \<and>
    copied view source (\<lambda>c k. c = col \<and> k \<in> fst ` set (concat parts)) db db'"
  using assms(3)
proof (induction parts arbitrary: db)
  case (Cons es parts)
  have "\<forall>k v. (k, v) \<in> set es \<longrightarrow> source col k = Some v" using Cons.prems by auto
  then obtain db1 where first: "writer col es db = (Inr (), db1)"
    and db1: "copied view source (\<lambda>c k. c = col \<and> k \<in> fst ` set es) db db1"
    using assms(1,2) unfolding writes_columns_def by blast
  obtain db2 where rest: "write_parts (writer col) (map Inr parts) db1 = (Inr (), db2)"
    and db2: "copied view source (\<lambda>c k. c = col \<and> k \<in> fst ` set (concat parts)) db1 db2"
    using Cons by fastforce
  have "copied view source (\<lambda>c k. c = col \<and> k \<in> fst ` set (concat (es # parts))) db db2"
    using copied_trans [OF db1 db2] by (auto simp: copied_def)
  with first rest show ?case by auto
qed (use copied_none in simp)

lemma write_columns_copies:
  assumes "writes_columns view writer (kv_columns db_source)" "kvdb_holds db_source content" "set cols \<subseteq> set (kv_columns db_source)"
  shows "\<exists>db'. write_columns writer db_source opts cols db = (Inr (), db') \<and>
    copied view (\<lambda>c. map_of (content c)) (\<lambda>c k. c \<in> set cols \<and> k \<in> fst ` set (hits opts (content c))) db db'"
  using assms(3)
proof (induction cols arbitrary: db)
  case (Cons col cols)
  obtain parts where parts: "iterations db_source opts col = map Inr parts" "concat parts = hits opts (content col)"
    using iterations_hits [OF assms(2)] Cons.prems by force
  have keys: "distinct (map fst (content col))" using assms(2) Cons.prems by (simp add: kvdb_holds_def)
  have source: "map_of (content col) k = Some v" if "(k, v) \<in> set (concat parts)" for k v
    using that keys by (auto simp: parts(2) hits_def map_of_eq_Some_iff split: if_splits)
  obtain db1 where first: "write_parts (writer col) (map Inr parts) db = (Inr (), db1)"
    and db1: "copied view (\<lambda>c. map_of (content c)) (\<lambda>c k. c = col \<and> k \<in> fst ` set (concat parts)) db db1"
    using write_parts_copies [OF assms(1), of col parts "\<lambda>c. map_of (content c)" db] source Cons.prems by auto
  obtain db2 where rest: "write_columns writer db_source opts cols db1 = (Inr (), db2)"
    and db2: "copied view (\<lambda>c. map_of (content c)) (\<lambda>c k. c \<in> set cols \<and> k \<in> fst ` set (hits opts (content c))) db1 db2"
    using Cons by fastforce
  have "copied view (\<lambda>c. map_of (content c)) (\<lambda>c k. c \<in> set (col # cols) \<and> k \<in> fst ` set (hits opts (content c))) db db2"
    using copied_trans [OF db1 db2] by (auto simp: copied_def parts(2))
  with first rest show ?case by (auto simp: parts(1))
qed (use copied_none in simp)

text \<open>A dump through any such writer.\<close>

definition chosen :: "kvdb \<Rightarrow> selection \<Rightarrow> (bytes \<Rightarrow> kv_entry list) \<Rightarrow> bytes \<Rightarrow> bytes \<Rightarrow> bool" where
  "chosen source opts content col key \<longleftrightarrow>
     col \<in> set (kv_columns source) \<and> (se_column opts = [] \<or> col \<in> set (se_column opts)) \<and>
     key \<in> fst ` set (content col) \<and> (se_keys_prefix opts = [] \<or> list_ex (\<lambda>p. prefix p key) (se_keys_prefix opts))"

lemma dump_copies:
  assumes "writes_columns view writer (kv_columns source)" "kvdb_holds source content"
  shows "\<exists>db'. dump_into_db writer source opts db = (Inr (), db') \<and>
    copied view (\<lambda>c. map_of (content c)) (chosen source opts content) db db'"
proof -
  have "set (selected_columns source opts) \<subseteq> set (kv_columns source)" by (auto simp: selected_columns_def)
  from write_columns_copies [OF assms this, of opts db] obtain db' where
    "dump_into_db writer source opts db = (Inr (), db')"
    "copied view (\<lambda>c. map_of (content c)) (\<lambda>c k. c \<in> set (selected_columns source opts) \<and> k \<in> fst ` set (hits opts (content c))) db db'"
    by (auto simp: dump_into_db_def)
  moreover have "c \<in> set (selected_columns source opts) \<and> k \<in> fst ` set (hits opts (content c)) \<longleftrightarrow> chosen source opts content c k" for c k
    by (force simp: selected_columns_def hits_def list_ex_iff chosen_def)
  ultimately show ?thesis by auto
qed

lemma write_json_held: "write_db_iters_into_json (map Inr parts) = (concat parts, Inr ())"
  by (induction parts) simp_all

lemma json_columns_held:
  assumes "kvdb_holds db content" "set cols \<subseteq> set (kv_columns db)"
  shows "json_columns db opts output_dir cols =
    (map (\<lambda>col. (json_file output_dir col, hits opts (content col))) cols, Inr ())"
  using assms(2)
proof (induction cols)
  case (Cons col cols)
  then obtain parts where "iterations db opts col = map Inr parts" "concat parts = hits opts (content col)"
    using iterations_hits [OF assms(1)] by force
  with Cons show ?case by (simp add: write_json_held)
qed simp

section \<open>Properties\<close>

text \<open>C33: Usage on ParityDB: one result for each column asked for, in order, and each key of the column counts
  once, or as often as the prefixes asked for that it starts with, so that a key under two of them counts
  twice. The same weights hold for the sizes of keys and values.\<close>

theorem parity_usage_exact:
  assumes "parity_holds lib n content"
  shows "\<exists>db. parity_new lib = Inr db \<and> run_usage db opts =
    (map (\<lambda>i. \<lparr>us_description = column_name i,
        us_keys_count = (\<Sum>e\<leftarrow>content i. times_hit opts (fst e)),
        us_keys_size = (\<Sum>e\<leftarrow>content i. times_hit opts (fst e) * length (fst e)),
        us_values_size = (\<Sum>e\<leftarrow>content i. times_hit opts (fst e) * length (snd e))\<rparr>)
      (filter (\<lambda>i. se_column opts = [] \<or> column_name i \<in> set (se_column opts)) [0..<n]), Inr ())"
proof -
  obtain db where db: "parity_new lib = Inr db" "kv_columns db = map column_name [0..<n]"
      "kvdb_holds db (parity_content n content)"
    using parity_keeps_promises [OF assms] by blast
  have "parity_content n content (column_name i) = content i" if "i < n" for i
    using that by (simp add: parity_content_def position_names)
  then show ?thesis
    using db(1) usage_held [OF db(3), of opts]
    by (auto simp: selected_columns_def db(2) filter_map comp_def)
qed

definition sample_content :: "nat \<Rightarrow> kv_entry list" where
  "sample_content i = (if i = 0 then [([1, 2], [7]), ([1, 2, 3], [7, 7]), ([2], [])] else [])"

definition sample_parity :: parity_library where
  "sample_parity = \<lparr>pl_metadata_columns = Inr 2, pl_open_read_only = Inr (),
     pl_iter = (\<lambda>i. Inr (map Some (sample_content (unat i)))),
     pl_seek = (\<lambda>i p. Inr (map Some (dropWhile (\<lambda>(k, _). k < p) (sample_content (unat i)))))\<rparr>"

lemma sample_parity_holds: "parity_holds sample_parity 2 sample_content"
proof -
  have "unat (word_of_nat i :: u8) = i" if "i < 2" for i
    using that by (simp add: unat_of_nat take_bit_nat_eq_self)
  then show ?thesis by (auto simp: parity_holds_def sample_parity_def sample_content_def)
qed

theorem parity_usage_exact_witness:
  "\<exists>db. parity_new sample_parity = Inr db \<and>
    map us_keys_count (fst (run_usage db \<lparr>se_column = [], se_keys_prefix = [[1], [1, 2, 3]]\<rparr>)) = [3, 0]"
proof -
  have "[0..<2] = [0, 1 :: nat]" by (simp add: upt_rec)
  then show ?thesis
    using parity_usage_exact [OF sample_parity_holds, of "\<lparr>se_column = [], se_keys_prefix = [[1], [1, 2, 3]]\<rparr>"]
    by (auto simp: sample_content_def times_hit_def)
qed


definition sample_put :: "bytes \<Rightarrow> kv_entry \<Rightarrow> (bytes \<Rightarrow> bytes \<Rightarrow> bytes option) \<Rightarrow> (bytes \<Rightarrow> bytes \<Rightarrow> bytes option) option" where
  "sample_put col entry db = Some (db(col := (db col)(fst entry \<mapsto> snd entry)))"


text \<open>A JSON dump writes one file for each selected column with its entries, but beside the output
  directory: \<^verbatim>\<open>set_file_name\<close> replaces the directory's own name, so dumps into two directories with the same
  parent write the same files.\<close>

theorem json_dump_beside_directory:
  assumes "kvdb_holds db content"
  shows "dump_into_json db opts (parent @ [Normal directory]) =
    (map (\<lambda>col. (parent @ [Normal (col @ ascii ''.json'')], hits opts (content col)))
      (filter (\<lambda>col. se_column opts = [] \<or> col \<in> set (se_column opts)) (kv_columns db)), Inr ())"
  unfolding dump_into_json_def
  by (subst json_columns_held [OF assms])
    (auto simp: selected_columns_def json_file_def set_file_name_def file_name_def)

theorem json_dump_beside_directory_witness:
  "\<exists>db. parity_new sample_parity = Inr db \<and>
    map fst (fst (dump_into_json db \<lparr>se_column = [], se_keys_prefix = []\<rparr> ([RootDir] @ [Normal (ascii ''dump'')]))) =
      [[RootDir, Normal (column_name 0 @ ascii ''.json'')], [RootDir, Normal (column_name 1 @ ascii ''.json'')]]"
proof -
  obtain db where db: "parity_new sample_parity = Inr db" "kv_columns db = map column_name [0..<2]"
      "kvdb_holds db (parity_content 2 sample_content)"
    using parity_keeps_promises [OF sample_parity_holds] by blast
  have "[0..<2] = [0, 1 :: nat]" by (simp add: upt_rec)
  with db show ?thesis
    by (simp add: json_dump_beside_directory [OF db(3)] del: append.simps)
qed

end
