(* ===== verification/Shadow_Tally.thy ===== *)
theory Shadow_Tally
  imports Api_Laws Collector_Loop Tracer_Types
begin

text \<open>
  The tally of the shadow comparisons, \<^verbatim>\<open>essentials/src/api/shadow.rs\<close>. \<open>Api_Client\<close> and \<open>Collector_Loop\<close> model
  what a comparison means for the read it belongs to; here it also counts on the process-wide checklist
  (\<^verbatim>\<open>checklist()\<close>, a mutex that no panic can poison), which is logged once a minute and at the end. A time is
  a \<^verbatim>\<open>Duration\<close> of the monotonic clock; the log is the list of what was logged and when.
\<close>

section \<open>The checklist\<close>

definition expected_reads :: "string list" where
  "expected_reads =
     [''block_header'', ''block_number'', ''block_timestamp'', ''candidate_events'', ''disputes_initiated'',
      ''disputes_concluded'', ''availability_cores'', ''claim_queue'', ''validator_groups'', ''session_index'',
      ''session_account_keys'', ''session_queued_keys'', ''session_key_owner'', ''babe_randomness'',
      ''babe_authorities'', ''babe_current_slot'', ''hrmp_egress_channels_index'', ''hrmp_channel_digests'',
      ''hrmp_channel'', ''parainherent_bitfields'', ''parainherent_disputes'']"

definition log_interval :: duration where
  "log_interval = 60 * 10 ^ 9"

datatype log_line = LogWarning string | LogLogfmt string | LogTable string

record checklist =
  ck_counts :: "u64 list"
  ck_last_logged :: duration
  ck_log :: "(duration \<times> log_line) list"

definition checklist_new :: "duration \<Rightarrow> checklist" where
  "checklist_new now =
     \<lparr>ck_counts = replicate (length expected_reads) 0, ck_last_logged = now, ck_log = []\<rparr>"

definition exercised_reads :: "u64 list \<Rightarrow> nat" where
  "exercised_reads counts = length (filter (\<lambda>n. n > 0) counts)"

definition render_logfmt :: "u64 list \<Rightarrow> string" where
  "render_logfmt counts =
     ''shadow_checklist exercised='' @ decimal (exercised_reads counts) @ '' total='' @ decimal (length counts) @
     concat (map (\<lambda>(read, n). '' '' @ read @ ''='' @ decimal (unat n)) (zip expected_reads counts))"

definition newline :: string where
  "newline = [CHR 0x0A]"

definition render_checklist :: "u64 list \<Rightarrow> string" where
  "render_checklist counts =
     ''shadow-decode checklist: '' @ decimal (exercised_reads counts) @ ''/'' @ decimal (length counts) @
     '' reads exercised'' @
     concat (map (\<lambda>(read, n).
       if n > 0 then newline @ ''  ok      '' @ read @ '' ('' @ decimal (unat n) @ '')''
       else newline @ ''  pending '' @ read) (zip expected_reads counts))"

definition log_checklist :: "duration \<Rightarrow> checklist \<Rightarrow> checklist" where
  "log_checklist now l =
     l\<lparr>ck_log := ck_log l @ [(now, LogLogfmt (render_logfmt (ck_counts l))),
       (now, LogTable (render_checklist (ck_counts l)))]\<rparr>"

text \<open>The position of a read on the checklist.\<close>

definition read_position :: "string \<Rightarrow> nat option" where
  "read_position read =
     (let i = length (takeWhile (\<lambda>expected. expected \<noteq> read) expected_reads)
      in if i < length expected_reads then Some i else None)"

definition count_read :: "duration \<Rightarrow> string \<Rightarrow> checklist \<Rightarrow> checklist" where
  "count_read now read l =
     (case read_position read of
        Some idx \<Rightarrow> l\<lparr>ck_counts := (ck_counts l)[idx := ck_counts l ! idx + 1]\<rparr>
      | None \<Rightarrow> l\<lparr>ck_log := ck_log l @ [(now, LogWarning read)]\<rparr>)"

definition mark :: "duration \<Rightarrow> string \<Rightarrow> checklist \<Rightarrow> checklist" where
  "mark now read l =
     (let l = count_read now read l
      in if now - ck_last_logged l \<ge> log_interval
         then l\<lparr>ck_last_logged := now, ck_log := ck_log l @ [(now, LogLogfmt (render_logfmt (ck_counts l)))]\<rparr>
         else l)"

section \<open>Comparisons that count\<close>

definition compare_and_mark :: "duration \<Rightarrow> h256 \<Rightarrow> string \<Rightarrow> 'a \<Rightarrow> 'a \<Rightarrow> checklist \<Rightarrow> checklist read" where
  "compare_and_mark now block read old new l =
     (if old \<noteq> new then Inl (Aborted block read) else Inr (mark now read l))"

definition compare_set_and_mark ::
  "duration \<Rightarrow> h256 \<Rightarrow> string \<Rightarrow> 'a list \<Rightarrow> 'a list \<Rightarrow> ('a \<Rightarrow> 'k) \<Rightarrow> checklist \<Rightarrow> checklist read" where
  "compare_set_and_mark now block read old new key l =
     (if \<not> compare_set old new key then Inl (Aborted block read)
      else Inr (if old \<noteq> [] \<or> new \<noteq> [] then mark now read l else l))"

text \<open>What the client and the collector see of them.\<close>

lemma compare_and_mark_outcome:
  "rbind (compare_and_mark now block read old new l) (\<lambda>_. Inr ()) = compare block read old new"
  "(\<exists>l'. compare_set_and_mark now block read old new key l = Inr l') \<longleftrightarrow> compare_set old new key"
  by (simp_all add: compare_and_mark_def compare_def compare_set_and_mark_def)

text \<open>A sequence of comparisons of a run, with the times at which they are made; \<open>key\<close> is the identity that
  the call for a read passes.\<close>

datatype 'v comparison =
    Scalars (cm_block: h256) (cm_read: string) 'v 'v
  | Sets (cm_block: h256) (cm_read: string) "'v list" "'v list"

fun check :: "(string \<Rightarrow> 'v \<Rightarrow> 'k) \<Rightarrow> duration \<times> 'v comparison \<Rightarrow> checklist \<Rightarrow> checklist read" where
  "check key (now, Scalars block read old new) l = compare_and_mark now block read old new l"
| "check key (now, Sets block read old new) l = compare_set_and_mark now block read old new (key read) l"

fun agrees :: "(string \<Rightarrow> 'v \<Rightarrow> 'k) \<Rightarrow> 'v comparison \<Rightarrow> bool" where
  "agrees key (Scalars _ _ old new) = (old = new)"
| "agrees key (Sets _ read old new) = compare_set old new (key read)"

fun proves_read :: "'v comparison \<Rightarrow> bool" where
  "proves_read (Scalars _ _ _ _) = True"
| "proves_read (Sets _ _ old new) = (old \<noteq> [] \<or> new \<noteq> [])"

definition times_proved :: "string \<Rightarrow> (duration \<times> 'v comparison) list \<Rightarrow> nat" where
  "times_proved read cs = length (filter (\<lambda>(_, c). cm_read c = read \<and> proves_read c) cs)"

section \<open>What the tally counts\<close>

lemma check_agrees:
  "check key (now, c) l =
    (if agrees key c then Inr (if proves_read c then mark now (cm_read c) l else l)
     else Inl (Aborted (cm_block c) (cm_read c)))"
  by (cases c) (auto simp: compare_and_mark_def compare_set_and_mark_def)

lemma read_position_expected:
  assumes "i < length expected_reads"
  shows "read_position (expected_reads ! i) = Some i"
proof -
  have "\<forall>i < length expected_reads. read_position (expected_reads ! i) = Some i"
    by code_simp
  with assms show ?thesis by blast
qed

lemma read_position_SomeD:
  "read_position read = Some i \<Longrightarrow> i < length expected_reads \<and> expected_reads ! i = read"
  using nth_length_takeWhile [of "\<lambda>e. e \<noteq> read" expected_reads]
  by (auto simp: read_position_def Let_def split: if_splits)

lemma read_position_None: "read_position read = None \<longleftrightarrow> read \<notin> set expected_reads"
proof
  show "read_position read = None \<Longrightarrow> read \<notin> set expected_reads"
    by (metis in_set_conv_nth option.distinct(1) read_position_expected)
  show "read \<notin> set expected_reads \<Longrightarrow> read_position read = None"
    using read_position_SomeD [of read] by (cases "read_position read") (auto simp: in_set_conv_nth)
qed

text \<open>The invariant of a run: counts are those of the comparisons made, the log is spaced by the interval.\<close>

definition spaced :: "duration list \<Rightarrow> bool" where
  "spaced ts \<longleftrightarrow> successively (\<lambda>t u. t + log_interval \<le> u) ts"

definition logfmt_times :: "checklist \<Rightarrow> duration list" where
  "logfmt_times l = map fst (filter (\<lambda>(_, line). case line of LogLogfmt _ \<Rightarrow> True | _ \<Rightarrow> False) (ck_log l))"

definition tally_inv :: "duration \<Rightarrow> (duration \<times> 'v comparison) list \<Rightarrow> checklist \<Rightarrow> bool" where
  "tally_inv start cs l \<longleftrightarrow>
     ck_counts l = map (\<lambda>read. word_of_nat (times_proved read cs)) expected_reads \<and>
     {w. \<exists>t. (t, LogWarning w) \<in> set (ck_log l)} = {cm_read c | t c. (t, c) \<in> set cs \<and> proves_read c} - set expected_reads \<and>
     spaced (start # logfmt_times l) \<and> ck_last_logged l = last (start # logfmt_times l)"

lemma spaced_snoc: "spaced (ts @ [t, u]) \<longleftrightarrow> spaced (ts @ [t]) \<and> t + log_interval \<le> u"
  by (auto simp: spaced_def successively_append_iff)

lemma count_read_counts:
  assumes "ck_counts l = map (\<lambda>r. word_of_nat (n r)) expected_reads"
  shows "ck_counts (count_read now read l) = map (\<lambda>r. word_of_nat (n r + of_bool (r = read))) expected_reads"
proof (cases "read_position read")
  case None
  then have "r \<in> set expected_reads \<Longrightarrow> r \<noteq> read" for r by (auto simp: read_position_None)
  with None assms show ?thesis by (simp add: count_read_def)
next
  case (Some i)
  note i = read_position_SomeD [OF Some]
  have other: "expected_reads ! j = read \<longleftrightarrow> j = i" if "j < length expected_reads" for j
  proof
    assume "expected_reads ! j = read"
    with read_position_expected [OF that] Some show "j = i" by simp
  qed (use i in simp)
  have "ck_counts (count_read now read l) = (ck_counts l)[i := ck_counts l ! i + 1]"
    by (simp add: count_read_def Some)
  also have "\<dots> = map (\<lambda>r. word_of_nat (n r + of_bool (r = read))) expected_reads"
  proof (rule nth_equalityI)
    fix j assume "j < length ((ck_counts l)[i := ck_counts l ! i + 1])"
    then have "j < length expected_reads" by (simp add: assms)
    then show "(ck_counts l)[i := ck_counts l ! i + 1] ! j =
        map (\<lambda>r. word_of_nat (n r + of_bool (r = read))) expected_reads ! j"
      using i by (auto simp: assms nth_list_update other)
  qed (simp add: assms)
  finally show ?thesis .
qed

lemma count_read_log:
  "logfmt_times (count_read now read l) = logfmt_times l"
  "ck_last_logged (count_read now read l) = ck_last_logged l"
  "{w. \<exists>t. (t, LogWarning w) \<in> set (ck_log (count_read now read l))} =
    {w. \<exists>t. (t, LogWarning w) \<in> set (ck_log l)} \<union> ({read} - set expected_reads)"
  by (cases "read_position read"; auto simp: count_read_def logfmt_times_def
      dest: read_position_None [THEN iffD1] read_position_SomeD intro: nth_mem)+

lemma mark_fields:
  "ck_counts (mark now read l) = ck_counts (count_read now read l)"
  "{w. \<exists>t. (t, LogWarning w) \<in> set (ck_log (mark now read l))} =
    {w. \<exists>t. (t, LogWarning w) \<in> set (ck_log l)} \<union> ({read} - set expected_reads)"
  "logfmt_times (mark now read l) =
    logfmt_times l @ (if now - ck_last_logged l \<ge> log_interval then [now] else [])"
  "ck_last_logged (mark now read l) =
    (if now - ck_last_logged l \<ge> log_interval then now else ck_last_logged l)"
  using count_read_log [of now read l] by (auto simp: mark_def Let_def logfmt_times_def)

lemma log_interval_pos: "log_interval > 0"
  by (simp add: log_interval_def)

lemma spaced_mark:
  assumes "spaced (start # ts)" "now - last (start # ts) \<ge> log_interval"
  shows "spaced (start # ts @ [now])"
proof -
  have "start # ts = butlast (start # ts) @ [last (start # ts)]" by simp
  then have "start # ts @ [now] = butlast (start # ts) @ [last (start # ts), now]" by (simp only: append_Cons [symmetric]) simp
  moreover have "last (start # ts) + log_interval \<le> now" using assms(2) log_interval_pos by linarith
  moreover have "spaced (butlast (start # ts) @ [last (start # ts)])"
    using assms(1) by (simp only: append_butlast_last_id list.distinct not_False_eq_True)
  ultimately show ?thesis by (simp only: spaced_snoc)
qed

lemma tally_inv_step:
  assumes "tally_inv start cs l" "check key (now, c) l = Inr l'"
  shows "tally_inv start (cs @ [(now, c)]) l'"
proof (cases "proves_read c")
  case False
  with assms show ?thesis
    by (auto simp: check_agrees tally_inv_def times_proved_def split: if_splits)
next
  case True
  with assms(2) have l': "l' = mark now (cm_read c) l" by (simp add: check_agrees split: if_splits)
  have proved: "times_proved r (cs @ [(now, c)]) = times_proved r cs + of_bool (r = cm_read c)" for r
    using True by (simp add: times_proved_def)
  have "ck_counts l' = map (\<lambda>r. word_of_nat (times_proved r (cs @ [(now, c)]))) expected_reads"
    using count_read_counts [of l "\<lambda>r. times_proved r cs"] assms(1)
    by (simp add: l' mark_fields proved tally_inv_def)
  moreover have "{w. \<exists>t. (t, LogWarning w) \<in> set (ck_log l')} =
      {cm_read d | t d. (t, d) \<in> set (cs @ [(now, c)]) \<and> proves_read d} - set expected_reads"
    using assms(1) True unfolding l' mark_fields tally_inv_def by auto
  moreover have "spaced (start # logfmt_times l') \<and> ck_last_logged l' = last (start # logfmt_times l')"
    using assms(1) spaced_mark [of start "logfmt_times l" now] by (auto simp: l' mark_fields tally_inv_def)
  ultimately show ?thesis by (simp add: tally_inv_def)
qed

lemma tally_inv_run:
  "rfold (check key) cs l = Inr l' \<Longrightarrow> tally_inv start done l \<Longrightarrow>
   tally_inv start (done @ cs) l' \<and> (\<forall>(_, c) \<in> set cs. agrees key c)"
proof (induction cs arbitrary: l "done")
  case (Cons tc cs)
  obtain now c where tc: "tc = (now, c)" by force
  from Cons.prems obtain l1 where l1: "check key (now, c) l = Inr l1" "rfold (check key) cs l1 = Inr l'"
    by (auto simp: tc)
  from l1(1) have "agrees key c" by (simp add: check_agrees split: if_splits)
  with Cons.IH [OF l1(2) tally_inv_step [OF Cons.prems(2) l1(1)]] show ?case by (simp add: tc)
qed simp

lemma tally_inv_new: "tally_inv start [] (checklist_new start)"
  by (simp add: tally_inv_def checklist_new_def times_proved_def logfmt_times_def spaced_def map_replicate_const)

text \<open>The two texts that are logged, over the number of comparisons that proved each read.\<close>

definition logfmt_of :: "(string \<Rightarrow> nat) \<Rightarrow> string" where
  "logfmt_of n =
     ''shadow_checklist exercised='' @ decimal (card {r \<in> set expected_reads. n r > 0}) @ '' total=21'' @
     concat (map (\<lambda>r. '' '' @ r @ ''='' @ decimal (n r)) expected_reads)"

definition table_of :: "(string \<Rightarrow> nat) \<Rightarrow> string" where
  "table_of n =
     ''shadow-decode checklist: '' @ decimal (card {r \<in> set expected_reads. n r > 0}) @ ''/21 reads exercised'' @
     concat (map (\<lambda>r. if n r > 0 then newline @ ''  ok      '' @ r @ '' ('' @ decimal (n r) @ '')'' else newline @ ''  pending '' @ r)
       expected_reads)"

lemma distinct_expected_reads: "distinct expected_reads"
  by code_simp

lemma length_expected_reads: "length expected_reads = 21"
  by code_simp

lemma word_of_nat_u64: "n < 2 ^ 64 \<Longrightarrow> unat (word_of_nat n :: u64) = n"
  by (simp add: unat_of_nat take_bit_nat_eq_self)

lemma rendered:
  assumes "\<And>r. n r < 2 ^ 64"
  shows "render_logfmt (map (\<lambda>r. word_of_nat (n r)) expected_reads) = logfmt_of n"
    and "render_checklist (map (\<lambda>r. word_of_nat (n r)) expected_reads) = table_of n"
proof -
  have pos: "(0 < (word_of_nat (n r) :: u64)) \<longleftrightarrow> 0 < n r" for r
    using word_of_nat_u64 [OF assms, of r] by (simp add: word_less_nat_alt)
  have "exercised_reads (map (\<lambda>r. word_of_nat (n r)) expected_reads) = length (filter (\<lambda>r. n r > 0) expected_reads)"
    by (simp add: exercised_reads_def filter_map comp_def pos)
  also have "\<dots> = card {r \<in> set expected_reads. n r > 0}"
    using distinct_card [of "filter (\<lambda>r. n r > 0) expected_reads"] distinct_expected_reads by (simp add: Int_def conj_commute)
  finally have count: "exercised_reads (map (\<lambda>r. word_of_nat (n r)) expected_reads) = \<dots>" .
  have zipped: "zip expected_reads (map (\<lambda>r. word_of_nat (n r) :: u64) expected_reads) = map (\<lambda>r. (r, word_of_nat (n r))) expected_reads"
    by (simp add: zip_map2 zip_same_conv_map)
  have total: "decimal 21 = ''21''" by code_simp
  show "render_logfmt (map (\<lambda>r. word_of_nat (n r)) expected_reads) = logfmt_of n"
    by (simp add: render_logfmt_def logfmt_of_def count zipped comp_def word_of_nat_u64 [OF assms] length_expected_reads total)
  show "render_checklist (map (\<lambda>r. word_of_nat (n r)) expected_reads) = table_of n"
    by (simp add: render_checklist_def table_of_def count zipped comp_def word_of_nat_u64 [OF assms] length_expected_reads total pos
        cong: if_cong)
qed

text \<open>C36: A shadow run that reaches its end proves exactly what its final checklist says. No comparison found a
  difference; the table counts for each read the comparisons that could have failed, so that two empty sets
  leave a read pending; a read is warned about exactly if it is compared and not on the list; and while the
  comparisons keep coming the line for the log collector appears at most once a minute.\<close>

theorem shadow_tally_exact:
  assumes "rfold (check key) cs (checklist_new start) = Inr l" "length cs < 2 ^ 64"
  shows "(\<forall>(_, c) \<in> set cs. agrees key c) \<and>
    map snd (drop (length (ck_log l)) (ck_log (log_checklist now l))) =
      [LogLogfmt (logfmt_of (\<lambda>r. times_proved r cs)), LogTable (table_of (\<lambda>r. times_proved r cs))] \<and>
    {w. \<exists>t. (t, LogWarning w) \<in> set (ck_log l)} = {cm_read c | t c. (t, c) \<in> set cs \<and> proves_read c} - set expected_reads \<and>
    spaced (start # logfmt_times l)"
proof -
  from tally_inv_run [OF assms(1) tally_inv_new]
  have inv: "tally_inv start cs l" and agreed: "\<forall>(_, c) \<in> set cs. agrees key c" by auto
  have "times_proved r cs < 2 ^ 64" for r
    unfolding times_proved_def using length_filter_le assms(2) by (rule le_less_trans)
  from rendered [of "\<lambda>r. times_proved r cs", OF this] inv agreed show ?thesis
    by (auto simp: tally_inv_def log_checklist_def)
qed

theorem shadow_tally_exact_witness:
  "\<exists>l. rfold (check (\<lambda>_. id)) [(10, Scalars 7 ''block_header'' (1::nat) 1), (20, Sets 7 ''candidate_events'' [] []),
      (30, Sets 7 ''disputes_initiated'' [4, 5] [5, 4])] (checklist_new 0) = Inr l \<and>
    spaced (0 # logfmt_times l)"
proof -
  have agreed: "compare_set [4, 5] [5, 4] (id :: nat \<Rightarrow> nat)" "compare_set [] [] (id :: nat \<Rightarrow> nat)" by code_simp+
  define cs :: "(duration \<times> nat comparison) list" where "cs = [(10, Scalars 7 ''block_header'' (1::nat) 1), (20, Sets 7 ''candidate_events'' [] []),
      (30, Sets 7 ''disputes_initiated'' [4, 5] [5, 4])]"
  obtain l where l: "rfold (check (\<lambda>_. id)) cs (checklist_new 0) = Inr l"
    using agreed by (simp add: cs_def compare_and_mark_def compare_set_and_mark_def)
  have "length cs < 2 ^ 64" by (simp add: cs_def)
  from shadow_tally_exact [OF l this] l show ?thesis unfolding cs_def by blast
qed

section \<open>Every read is on the checklist\<close>

text \<open>A read whose comparison can end the process counts under a name of the checklist.\<close>

definition on_checklist :: "'a read \<Rightarrow> bool" where
  "on_checklist m \<longleftrightarrow> (\<forall>block read. m = Inl (Aborted block read) \<longrightarrow> read \<in> set expected_reads)"

lemma on_checklist_simps [simp]:
  "on_checklist (Inr x)" "on_checklist (Inl (Failed e))" "on_checklist (fail msg)" "on_checklist (answered m)"
  by (auto simp: on_checklist_def fail_def answered_def split: sum.splits)

lemma on_checklist_compare: "read \<in> set expected_reads \<Longrightarrow> on_checklist (compare block read old new)"
  by (simp add: on_checklist_def compare_def)

lemma on_checklist_rbind:
  "on_checklist m \<Longrightarrow> (\<And>x. m = Inr x \<Longrightarrow> on_checklist (f x)) \<Longrightarrow> on_checklist (rbind m f)"
  by (cases m) (auto simp: on_checklist_def)

lemma on_checklist_when: "on_checklist m \<Longrightarrow> on_checklist (when_shadow cl m)"
  by (simp add: when_shadow_def)

lemma on_checklist_parts:
  "on_checklist (state_call_decoded cl h method decode)" "on_checklist (shadow_storage cl h k r dec)"
  "on_checklist (block_at cl m)" "on_checklist (header_via_rpc cl h)" "on_checklist (resolve_hash cl m)"
  "on_checklist (resolve_header cl m)" "on_checklist (storage_block cl m)"
  by (auto simp: state_call_decoded_def shadow_storage_def block_at_def header_via_rpc_def resolve_hash_def
      resolve_header_def storage_block_def intro!: on_checklist_rbind split: option.split)

lemmas on_checklist_intros = on_checklist_rbind on_checklist_when on_checklist_compare on_checklist_parts

lemma names_expected:
  "''block_header'' \<in> set expected_reads" "''block_number'' \<in> set expected_reads"
  "''block_timestamp'' \<in> set expected_reads" "''availability_cores'' \<in> set expected_reads"
  "''claim_queue'' \<in> set expected_reads" "''validator_groups'' \<in> set expected_reads"
  "''session_index'' \<in> set expected_reads" "''session_account_keys'' \<in> set expected_reads"
  "''session_queued_keys'' \<in> set expected_reads" "''session_key_owner'' \<in> set expected_reads"
  "''babe_randomness'' \<in> set expected_reads" "''babe_authorities'' \<in> set expected_reads"
  "''babe_current_slot'' \<in> set expected_reads" "''hrmp_egress_channels_index'' \<in> set expected_reads"
  "''hrmp_channel_digests'' \<in> set expected_reads" "''hrmp_channel'' \<in> set expected_reads"
  "''parainherent_bitfields'' \<in> set expected_reads" "''parainherent_disputes'' \<in> set expected_reads"
  by code_simp+

lemmas read_defs = get_head_def get_block_number_def get_occupied_cores_def get_claim_queue_def get_backing_groups_def
  get_block_ts_def get_babe_randomness_def get_babe_authorities_def get_babe_current_slot_def get_babe_key_owner_def
  get_session_index_def get_session_account_keys_def get_session_queued_keys_def babe_current_epoch_def
  get_hrmp_egress_channels_index_def get_hrmp_channel_digests_def get_hrmp_channels_def

lemma on_checklist_hrmp:
  "on_checklist (get_hrmp_egress_channels_index cl h p)" "on_checklist (get_hrmp_channel_digests cl h p)"
  "on_checklist (get_hrmp_channels cl h pair)"
  unfolding read_defs Let_def prod.case_distrib [of on_checklist]
  by (auto intro!: on_checklist_intros names_expected split: prod.split)

lemma on_checklist_reads:
  "on_checklist (get_head cl m)" "on_checklist (get_block_number cl m)" "on_checklist (get_occupied_cores cl h)"
  "on_checklist (get_claim_queue cl h)" "on_checklist (get_backing_groups cl h)" "on_checklist (get_block_ts cl h)"
  "on_checklist (get_babe_randomness cl h)" "on_checklist (get_babe_authorities cl h)"
  "on_checklist (get_babe_current_slot cl h)" "on_checklist (get_babe_key_owner cl h key)"
  "on_checklist (get_session_index cl h)" "on_checklist (get_session_account_keys cl session m)"
  "on_checklist (get_session_queued_keys cl m)"
  unfolding read_defs Let_def
  by (auto intro!: on_checklist_intros names_expected split: prod.split option.split sum.split)

lemma on_checklist_inherent: "on_checklist (extract_parainherent cl m)"
  unfolding extract_parainherent_def Let_def
  by (auto intro!: on_checklist_intros names_expected split: option.split sum.split)

lemma on_checklist_join:
  assumes "\<And>r. r \<in> set rs \<Longrightarrow> on_checklist r"
  shows "on_checklist (join_requests rs)"
proof -
  have "on_checklist (rmap id rs)"
    using assms by (induction rs) (auto intro!: on_checklist_rbind)
  moreover have "List.find P rs = Some r \<Longrightarrow> on_checklist r" for P r
    using assms by (auto simp: find_Some_iff)
  ultimately show ?thesis
    unfolding join_requests_def by (auto split: option.split sum.split simp: on_checklist_def)
qed

lemma on_checklist_channels: "on_checklist (get_inbound_outbound_hrmp_channels cl h ps)"
  unfolding get_inbound_outbound_hrmp_channels_def get_inbound_hrmp_channel_pairs_def
    get_outbound_hrmp_channel_pairs_def Let_def
  by (auto intro!: on_checklist_rbind on_checklist_join on_checklist_hrmp)

text \<open>Every comparison that the client makes has its line on the checklist: a read that a difference stops is
  one of the expected reads, so none of them is only warned about and left out of the verdict.\<close>

theorem compared_reads_expected:
  "on_checklist (get_head cl m) \<and> on_checklist (get_block_number cl m) \<and> on_checklist (get_occupied_cores cl h) \<and>
   on_checklist (get_claim_queue cl h) \<and> on_checklist (get_backing_groups cl h) \<and> on_checklist (get_block_ts cl h) \<and>
   on_checklist (get_babe_randomness cl h) \<and> on_checklist (get_babe_authorities cl h) \<and>
   on_checklist (get_babe_current_slot cl h) \<and> on_checklist (get_babe_key_owner cl h key) \<and>
   on_checklist (get_session_index cl h) \<and> on_checklist (get_session_account_keys cl session m) \<and>
   on_checklist (get_session_queued_keys cl m) \<and> on_checklist (extract_parainherent cl m) \<and>
   on_checklist (get_inbound_outbound_hrmp_channels cl h para_ids)"
  by (intro conjI on_checklist_reads on_checklist_inherent on_checklist_channels)

end
