(* ===== verification/Durations.thy ===== *)
theory Durations
  imports Complex_Main Prelude
begin

text \<open>Seconds given as a floating-point option. \<^verbatim>\<open>Duration::from_secs_f32\<close> panics on a negative number of seconds
  and on one that does not fit; otherwise the exact value is of no concern here.\<close>

definition from_secs_f32_ok :: "rat \<Rightarrow> bool" where
  "from_secs_f32_ok secs \<longleftrightarrow> 0 \<le> secs \<and> secs < 2 ^ 64"

definition sleep_secs :: "rat \<Rightarrow> fault + unit" where
  "sleep_secs secs = (if from_secs_f32_ok secs then Inr () else Inl Panic)"

end
