(* ===== verification/Jaeger.thy ===== *)
theory Jaeger
  imports Durations Maps Tracer_Types
begin

text \<open>
  The Jaeger client, \<^verbatim>\<open>jaeger/src\<close>: the URLs that it asks (\<^verbatim>\<open>api.rs\<close>), the structures it reads from the JSON of
  an answer and writes again (\<^verbatim>\<open>primitives.rs\<close>), and its commands (\<^verbatim>\<open>main.rs\<close>). Parsing and joining URLs, the
  requests and the text of JSON are the libraries': parameters, or the tree \<open>json\<close>. What the derived
  \<^verbatim>\<open>Deserialize\<close> and \<^verbatim>\<open>Serialize\<close> make of a tree is written out, as serde documents it. A string is its UTF-8 bytes, a
  floating-point number a rational.
\<close>

section \<open>JSON\<close>

text \<open>A string of the input with whether it has an escape sequence: then it cannot be borrowed from the input, and
  reading it as \<^verbatim>\<open>&str\<close> fails.\<close>

datatype json_string = JsonString (js_text: string) (js_escaped: bool)

datatype json_number = JsonUnsigned u64 | JsonNegative int | JsonFloat rat

datatype json =
    JsonNull
  | JsonBool bool
  | JsonNumber json_number
  | JsonText json_string
  | JsonArray "json list"
  | JsonObject "(json_string \<times> json) list"

text \<open>The readers of the types the structures are made of; \<open>None\<close> is serde's error.\<close>

fun read_str :: "json \<Rightarrow> string option" where
  "read_str (JsonText (JsonString s escaped)) = (if escaped then None else Some s)"
| "read_str _ = None"

fun read_string :: "json \<Rightarrow> string option" where
  "read_string (JsonText (JsonString s _)) = Some s"
| "read_string _ = None"

fun read_usize :: "json \<Rightarrow> u64 option" where
  "read_usize (JsonNumber (JsonUnsigned n)) = Some n"
| "read_usize _ = None"

fun read_f64 :: "json \<Rightarrow> rat option" where
  "read_f64 (JsonNumber (JsonUnsigned n)) = Some (of_nat (unat n))"
| "read_f64 (JsonNumber (JsonNegative i)) = Some (of_int i)"
| "read_f64 (JsonNumber (JsonFloat r)) = Some r"
| "read_f64 _ = None"

fun those_read :: "(json \<Rightarrow> 'a option) \<Rightarrow> json list \<Rightarrow> 'a list option" where
  "those_read read [] = Some []"
| "those_read read (j # js) =
     Option.bind (read j) (\<lambda>x. Option.bind (those_read read js) (\<lambda>xs. Some (x # xs)))"

fun read_vec :: "(json \<Rightarrow> 'a option) \<Rightarrow> json \<Rightarrow> 'a list option" where
  "read_vec read (JsonArray js) = those_read read js"
| "read_vec read _ = None"

fun read_option :: "(json \<Rightarrow> 'a option) \<Rightarrow> json \<Rightarrow> 'a option option" where
  "read_option read JsonNull = Some None"
| "read_option read j = map_option Some (read j)"

text \<open>A map with borrowed keys; a key that comes again replaces its value.\<close>

fun read_entries :: "(json \<Rightarrow> 'a option) \<Rightarrow> (json_string \<times> json) list \<Rightarrow> (string, 'a) alist \<Rightarrow> (string, 'a) alist option" where
  "read_entries read [] m = Some m"
| "read_entries read ((k, j) # entries) m =
     (if js_escaped k then None
      else Option.bind (read j) (\<lambda>x. read_entries read entries (hm_put (js_text k) x m)))"

fun read_map :: "(json \<Rightarrow> 'a option) \<Rightarrow> json \<Rightarrow> (string, 'a) alist option" where
  "read_map read (JsonObject entries) = read_entries read entries []"
| "read_map read _ = None"

text \<open>A derived struct: an object whose known fields come at most once, other fields skipped, or an array with
  exactly its fields in order.\<close>

fun read_struct :: "string list \<Rightarrow> json \<Rightarrow> (string \<Rightarrow> json option) option" where
  "read_struct names (JsonObject entries) =
     (let known = filter (\<lambda>(k, _). k \<in> set names) (map (\<lambda>(k, j). (js_text k, j)) entries)
      in if distinct (map fst known) then Some (map_of known) else None)"
| "read_struct names (JsonArray js) =
     (if length js = length names then Some (map_of (zip names js)) else None)"
| "read_struct names _ = None"

definition field :: "(json \<Rightarrow> 'a option) \<Rightarrow> string \<Rightarrow> (string \<Rightarrow> json option) \<Rightarrow> 'a option" where
  "field read name fs = Option.bind (fs name) read"

text \<open>A field of type \<^verbatim>\<open>Option\<close> may be missing.\<close>

definition optional :: "(json \<Rightarrow> 'a option) \<Rightarrow> string \<Rightarrow> (string \<Rightarrow> json option) \<Rightarrow> 'a option option" where
  "optional read name fs = (case fs name of None \<Rightarrow> Some None | Some j \<Rightarrow> read_option read j)"

section \<open>Primitives\<close>

datatype tag_value = TagString string | TagBoolean bool | TagNumber u64

record tag =
  tg_key :: string
  tg_ty :: string
  tg_value :: tag_value

record process =
  pc_service_name :: string
  pc_tags :: "tag list"

record reference =
  rf_ref_type :: string
  rf_trace_id :: string
  rf_span_id :: string

record span =
  sp_trace_id :: string
  sp_span_id :: string
  sp_flags :: "u64 option"
  sp_operation_name :: string
  sp_references :: "reference list"
  sp_start_time :: u64
  sp_duration :: rat
  sp_tags :: "tag list"
  sp_logs :: "json list"
  sp_process_id :: string
  sp_warnings :: "string list option"

record trace_object =
  tr_trace_id :: string
  tr_spans :: "(string, span) alist"
  tr_processes :: "(string, process) alist"
  tr_warnings :: "string list option"

record 'a rpc_response =
  rr_data :: "'a list"
  rr_total :: u64
  rr_limit :: u64
  rr_offset :: u64
  rr_errors :: "json option"

definition consume :: "'a rpc_response \<Rightarrow> 'a list" where
  "consume r = rr_data r"

fun display_tag_value :: "tag_value \<Rightarrow> string" where
  "display_tag_value (TagString s) = s"
| "display_tag_value (TagBoolean b) = (if b then ''true'' else ''false'')"
| "display_tag_value (TagNumber n) = decimal (unat n)"

section \<open>Reading\<close>

text \<open>An untagged enum: the first variant that reads the value.\<close>

definition read_tag_value :: "json \<Rightarrow> tag_value option" where
  "read_tag_value j =
     (case read_str j of
        Some s \<Rightarrow> Some (TagString s)
      | None \<Rightarrow> (case j of JsonBool b \<Rightarrow> Some (TagBoolean b) | _ \<Rightarrow> map_option TagNumber (read_usize j)))"

definition read_tag :: "json \<Rightarrow> tag option" where
  "read_tag j =
     Option.bind (read_struct [''key'', ''type'', ''value''] j) (\<lambda>f.
     Option.bind (field read_str ''key'' f) (\<lambda>key.
     Option.bind (field read_str ''type'' f) (\<lambda>ty.
     Option.bind (field read_tag_value ''value'' f) (\<lambda>v.
       Some \<lparr>tg_key = key, tg_ty = ty, tg_value = v\<rparr>))))"

definition read_process :: "json \<Rightarrow> process option" where
  "read_process j =
     Option.bind (read_struct [''serviceName'', ''tags''] j) (\<lambda>f.
     Option.bind (field read_str ''serviceName'' f) (\<lambda>service_name.
     Option.bind (field (read_vec read_tag) ''tags'' f) (\<lambda>tags.
       Some \<lparr>pc_service_name = service_name, pc_tags = tags\<rparr>)))"

definition read_reference :: "json \<Rightarrow> reference option" where
  "read_reference j =
     Option.bind (read_struct [''refType'', ''traceID'', ''spanID''] j) (\<lambda>f.
     Option.bind (field read_str ''refType'' f) (\<lambda>ref_type.
     Option.bind (field read_str ''traceID'' f) (\<lambda>trace_id.
     Option.bind (field read_str ''spanID'' f) (\<lambda>span_id.
       Some \<lparr>rf_ref_type = ref_type, rf_trace_id = trace_id, rf_span_id = span_id\<rparr>))))"

definition read_span :: "json \<Rightarrow> span option" where
  "read_span j =
     Option.bind (read_struct [''traceID'', ''spanID'', ''flags'', ''operationName'', ''references'', ''startTime'',
       ''duration'', ''tags'', ''logs'', ''processID'', ''warnings''] j) (\<lambda>f.
     Option.bind (field read_str ''traceID'' f) (\<lambda>trace_id.
     Option.bind (field read_str ''spanID'' f) (\<lambda>span_id.
     Option.bind (optional read_usize ''flags'' f) (\<lambda>flags.
     Option.bind (field read_str ''operationName'' f) (\<lambda>operation_name.
     Option.bind (field (read_vec read_reference) ''references'' f) (\<lambda>references.
     Option.bind (field read_usize ''startTime'' f) (\<lambda>start_time.
     Option.bind (field read_f64 ''duration'' f) (\<lambda>duration.
     Option.bind (field (read_vec read_tag) ''tags'' f) (\<lambda>tags.
     Option.bind (field (read_vec Some) ''logs'' f) (\<lambda>logs.
     Option.bind (field read_str ''processID'' f) (\<lambda>process_id.
     Option.bind (optional (read_vec read_str) ''warnings'' f) (\<lambda>warnings.
       Some \<lparr>sp_trace_id = trace_id, sp_span_id = span_id, sp_flags = flags, sp_operation_name = operation_name,
         sp_references = references, sp_start_time = start_time, sp_duration = duration, sp_tags = tags,
         sp_logs = logs, sp_process_id = process_id, sp_warnings = warnings\<rparr>))))))))))))"

definition deserialize_spans_as_hashmap :: "json \<Rightarrow> (string, span) alist option" where
  "deserialize_spans_as_hashmap j =
     Option.bind (read_vec read_span j) (\<lambda>vec_input.
       Some (foldl (\<lambda>m item. hm_put (sp_span_id item) item m) [] vec_input))"

definition read_trace_object :: "json \<Rightarrow> trace_object option" where
  "read_trace_object j =
     Option.bind (read_struct [''traceID'', ''spans'', ''processes'', ''warnings''] j) (\<lambda>f.
     Option.bind (field read_str ''traceID'' f) (\<lambda>trace_id.
     Option.bind (field deserialize_spans_as_hashmap ''spans'' f) (\<lambda>spans.
     Option.bind (field (read_map read_process) ''processes'' f) (\<lambda>processes.
     Option.bind (optional (read_vec read_str) ''warnings'' f) (\<lambda>warnings.
       Some \<lparr>tr_trace_id = trace_id, tr_spans = spans, tr_processes = processes, tr_warnings = warnings\<rparr>)))))"

definition read_rpc_response :: "(json \<Rightarrow> 'a option) \<Rightarrow> json \<Rightarrow> 'a rpc_response option" where
  "read_rpc_response read j =
     Option.bind (read_struct [''data'', ''total'', ''limit'', ''offset'', ''errors''] j) (\<lambda>f.
     Option.bind (field (read_vec read) ''data'' f) (\<lambda>data.
     Option.bind (field read_usize ''total'' f) (\<lambda>total.
     Option.bind (field read_usize ''limit'' f) (\<lambda>limit.
     Option.bind (field read_usize ''offset'' f) (\<lambda>offset.
     Option.bind (optional Some ''errors'' f) (\<lambda>errors.
       Some \<lparr>rr_data = data, rr_total = total, rr_limit = limit, rr_offset = offset, rr_errors = errors\<rparr>))))))"

text \<open>\<open>to_json\<close>; \<open>parse_json\<close> is the library's parser.\<close>

definition to_json :: "(string \<Rightarrow> json option) \<Rightarrow> (json \<Rightarrow> 'a option) \<Rightarrow> string \<Rightarrow> 'a list option" where
  "to_json parse_json read response =
     map_option consume (Option.bind (parse_json response) (read_rpc_response read))"

section \<open>Writing\<close>

text \<open>What the derived \<^verbatim>\<open>Serialize\<close> makes: a text that JSON has to escape is an escaped string again.\<close>

definition needs_escape :: "string \<Rightarrow> bool" where
  "needs_escape s \<longleftrightarrow> (\<exists>c \<in> set s. c = CHR 0x22 \<or> c = CHR 0x5C \<or> (of_char c :: nat) < 32)"

definition json_text :: "string \<Rightarrow> json_string" where
  "json_text s = JsonString s (needs_escape s)"

definition json_str :: "string \<Rightarrow> json" where
  "json_str s = JsonText (json_text s)"

definition json_usize :: "u64 \<Rightarrow> json" where
  "json_usize n = JsonNumber (JsonUnsigned n)"

definition json_option :: "('a \<Rightarrow> json) \<Rightarrow> 'a option \<Rightarrow> json" where
  "json_option f m = (case m of None \<Rightarrow> JsonNull | Some x \<Rightarrow> f x)"

definition json_vec :: "('a \<Rightarrow> json) \<Rightarrow> 'a list \<Rightarrow> json" where
  "json_vec f xs = JsonArray (map f xs)"

definition json_struct :: "(string \<times> json) list \<Rightarrow> json" where
  "json_struct fs = JsonObject (map (\<lambda>(name, j). (JsonString name False, j)) fs)"

definition json_map :: "('a \<Rightarrow> json) \<Rightarrow> (string, 'a) alist \<Rightarrow> json" where
  "json_map f m = JsonObject (map (\<lambda>(k, x). (json_text k, f x)) m)"

fun json_tag_value :: "tag_value \<Rightarrow> json" where
  "json_tag_value (TagString s) = json_str s"
| "json_tag_value (TagBoolean b) = JsonBool b"
| "json_tag_value (TagNumber n) = json_usize n"

definition json_tag :: "tag \<Rightarrow> json" where
  "json_tag t =
     json_struct [(''key'', json_str (tg_key t)), (''type'', json_str (tg_ty t)), (''value'', json_tag_value (tg_value t))]"

definition json_process :: "process \<Rightarrow> json" where
  "json_process p =
     json_struct [(''serviceName'', json_str (pc_service_name p)), (''tags'', json_vec json_tag (pc_tags p))]"

definition json_reference :: "reference \<Rightarrow> json" where
  "json_reference r =
     json_struct [(''refType'', json_str (rf_ref_type r)), (''traceID'', json_str (rf_trace_id r)),
       (''spanID'', json_str (rf_span_id r))]"

definition json_span :: "span \<Rightarrow> json" where
  "json_span s =
     json_struct
       [(''traceID'', json_str (sp_trace_id s)), (''spanID'', json_str (sp_span_id s)),
        (''flags'', json_option json_usize (sp_flags s)), (''operationName'', json_str (sp_operation_name s)),
        (''references'', json_vec json_reference (sp_references s)), (''startTime'', json_usize (sp_start_time s)),
        (''duration'', JsonNumber (JsonFloat (sp_duration s))), (''tags'', json_vec json_tag (sp_tags s)),
        (''logs'', json_vec id (sp_logs s)), (''processID'', json_str (sp_process_id s)),
        (''warnings'', json_option (json_vec json_str) (sp_warnings s))]"

definition json_trace_object :: "trace_object \<Rightarrow> json" where
  "json_trace_object t =
     json_struct
       [(''traceID'', json_str (tr_trace_id t)), (''spans'', json_map json_span (tr_spans t)),
        (''processes'', json_map json_process (tr_processes t)),
        (''warnings'', json_option (json_vec json_str) (tr_warnings t))]"

section \<open>The HTTP interface\<close>

record url =
  ur_origin :: string
  ur_path :: string
  ur_query :: "(string \<times> string) list"

definition append_query_param :: "string \<Rightarrow> string \<Rightarrow> url \<Rightarrow> url" where
  "append_query_param param val u = u\<lparr>ur_query := ur_query u @ [(param, val)]\<rparr>"

record jaeger_api_options =
  ja_limit :: "nat option"
  ja_service :: "string option"
  ja_lookback :: "string option"
  ja_timeout :: rat

definition enrich_base_url :: "jaeger_api_options \<Rightarrow> url \<Rightarrow> url" where
  "enrich_base_url opts base_url =
     (let u1 = (case ja_limit opts of None \<Rightarrow> base_url | Some limit \<Rightarrow> append_query_param ''limit'' (decimal limit) base_url);
          u2 = (case ja_service opts of None \<Rightarrow> u1 | Some service \<Rightarrow> append_query_param ''service'' service u1)
      in case ja_lookback opts of None \<Rightarrow> u2 | Some lookback \<Rightarrow> append_query_param ''lookback'' lookback u2)"

definition traces_endpoint :: string where
  "traces_endpoint = ''/api/traces''"

definition services_endpoint :: string where
  "services_endpoint = ''/api/services''"

text \<open>The libraries: parsing a URL, joining one with a reference, a request with the text of its answer, JSON.\<close>

record web_libraries =
  wl_parse_url :: "string \<Rightarrow> url option"
  wl_join :: "url \<Rightarrow> string \<Rightarrow> url option"
  wl_get :: "url \<Rightarrow> string + string"
  wl_parse_json :: "string \<Rightarrow> json option"

record jaeger_api =
  jg_traces_url :: url
  jg_services_url :: url

definition jaeger_api_new :: "web_libraries \<Rightarrow> string \<Rightarrow> jaeger_api_options \<Rightarrow> fault + jaeger_api" where
  "jaeger_api_new lib u opts =
     (if \<not> from_secs_f32_ok (ja_timeout opts) then Inl Panic
      else rbind (expect (wl_parse_url lib u)) (\<lambda>base_url.
           rbind (expect (wl_join lib base_url traces_endpoint)) (\<lambda>traces.
           rbind (expect (wl_join lib base_url services_endpoint)) (\<lambda>services.
             Inr \<lparr>jg_traces_url = enrich_base_url opts traces, jg_services_url = enrich_base_url opts services\<rparr>))))"

definition api_traces :: "web_libraries \<Rightarrow> jaeger_api \<Rightarrow> string \<Rightarrow> string + string" where
  "api_traces lib api service = wl_get lib (append_query_param ''service'' service (jg_traces_url api))"

definition api_trace :: "web_libraries \<Rightarrow> jaeger_api \<Rightarrow> string \<Rightarrow> string + string" where
  "api_trace lib api trace_id =
     (case wl_join lib (jg_traces_url api) (traces_endpoint @ ''/'' @ trace_id) of
        None \<Rightarrow> Inl ''invalid URL''
      | Some u \<Rightarrow> wl_get lib u)"

definition api_services :: "web_libraries \<Rightarrow> jaeger_api \<Rightarrow> string + string" where
  "api_services lib api = wl_get lib (jg_services_url api)"

section \<open>The tool\<close>

datatype jaeger_mode = JmTrace string | JmAllTraces string | JmServices | JmPrometheus

datatype jaeger_output_mode = JoPretty | JoJson

definition output_mode_from_str :: "string \<Rightarrow> string + jaeger_output_mode" where
  "output_mode_from_str s =
     (if s = ''pretty'' then Inr JoPretty else if s = ''json'' then Inr JoJson else Inl ''invalid output mode'')"

record jaeger_options =
  jo_service :: "string option"
  jo_url :: string
  jo_limit :: "nat option"
  jo_lookback :: "string option"
  jo_timeout :: rat
  jo_output :: jaeger_output_mode
  jo_mode :: jaeger_mode

definition jaeger_api_options_from :: "jaeger_options \<Rightarrow> jaeger_api_options" where
  "jaeger_api_options_from opts =
     \<lparr>ja_limit = jo_limit opts, ja_service = jo_service opts, ja_lookback = jo_lookback opts, ja_timeout = jo_timeout opts\<rparr>"

text \<open>What a task of the tool ends with: the tree it prints, in which style, or the error that is logged.\<close>

datatype jaeger_error = CannotGet string string | CannotParse string

type_synonym jaeger_outcome = "jaeger_error + (jaeger_output_mode \<times> json)"

definition format_output :: "('a \<Rightarrow> json) \<Rightarrow> 'a list \<Rightarrow> jaeger_output_mode \<Rightarrow> jaeger_outcome" where
  "format_output to_tree input mode = Inr (mode, json_vec to_tree input)"

definition fetch_and_print ::
  "web_libraries \<Rightarrow> jaeger_output_mode \<Rightarrow> string \<Rightarrow> string + string \<Rightarrow> (json \<Rightarrow> 'a option) \<Rightarrow> ('a \<Rightarrow> json) \<Rightarrow> jaeger_outcome" where
  "fetch_and_print lib mode what answer read to_tree =
     (case answer of
        Inl e \<Rightarrow> Inl (CannotGet what e)
      | Inr text \<Rightarrow>
          (case to_json (wl_parse_json lib) read text of
             None \<Rightarrow> Inl (CannotParse what)
           | Some response \<Rightarrow> format_output to_tree response mode))"

definition jaeger_run :: "web_libraries \<Rightarrow> jaeger_options \<Rightarrow> jaeger_api \<Rightarrow> fault + jaeger_outcome" where
  "jaeger_run lib opts api =
     (case jo_mode opts of
        JmTrace trace_id \<Rightarrow> Inr (fetch_and_print lib (jo_output opts) ''trace'' (api_trace lib api trace_id) read_trace_object json_trace_object)
      | JmAllTraces service \<Rightarrow>
          Inr (fetch_and_print lib (jo_output opts) ''traces'' (api_traces lib api service) read_trace_object json_trace_object)
      | JmServices \<Rightarrow> Inr (fetch_and_print lib (jo_output opts) ''services'' (api_services lib api) read_string json_str)
      | JmPrometheus \<Rightarrow> Inl Panic)"

definition jaeger_tool :: "web_libraries \<Rightarrow> jaeger_options \<Rightarrow> fault + jaeger_outcome" where
  "jaeger_tool lib opts =
     rbind (jaeger_api_new lib (jo_url opts) (jaeger_api_options_from opts)) (jaeger_run lib opts)"

end
