(* ===== verification/Jaeger_Laws.thy ===== *)
theory Jaeger_Laws
  imports Jaeger
begin

text \<open>
  What the Jaeger client reads and prints: the answer of a server that has the fields the structures ask for, up
  to the strings that JSON escapes, and the URL that each command asks.
\<close>

section \<open>Readers on written trees\<close>

abbreviation borrowable :: "string \<Rightarrow> bool" where
  "borrowable s \<equiv> \<not> needs_escape s"

text \<open>A reader that inverts a writer where \<open>P\<close> holds, and refuses its output elsewhere.\<close>

definition reads_where :: "(json \<Rightarrow> 'b option) \<Rightarrow> ('a \<Rightarrow> json) \<Rightarrow> ('a \<Rightarrow> bool) \<Rightarrow> ('a \<Rightarrow> 'b) \<Rightarrow> bool" where
  "reads_where read to_tree P g \<longleftrightarrow> (\<forall>x. read (to_tree x) = (if P x then Some (g x) else None))"

lemma reads_where_D: "reads_where read to_tree P g \<Longrightarrow> read (to_tree x) = (if P x then Some (g x) else None)"
  by (simp add: reads_where_def)

lemma reads_json_vec:
  "reads_where read to_tree P g \<Longrightarrow> reads_where (read_vec read) (json_vec to_tree) (\<lambda>xs. \<forall>x \<in> set xs. P x) (map g)"
proof -
  assume r: "reads_where read to_tree P g"
  have "those_read read (map to_tree xs) = (if \<forall>x \<in> set xs. P x then Some (map g xs) else None)" for xs
    by (induction xs) (simp_all add: reads_where_D [OF r])
  then show ?thesis by (simp add: reads_where_def json_vec_def)
qed

lemma reads_str: "reads_where read_str json_str borrowable id"
  by (simp add: reads_where_def json_str_def json_text_def)

lemma reads_string: "reads_where read_string json_str (\<lambda>_. True) id"
  by (simp add: reads_where_def json_str_def json_text_def)

lemma reads_usize: "reads_where read_usize json_usize (\<lambda>_. True) id"
  by (simp add: reads_where_def json_usize_def)

text \<open>An optional field that is written as \<^verbatim>\<open>null\<close> when it is missing; \<open>to_tree\<close> never writes \<^verbatim>\<open>null\<close> itself.\<close>

definition never_null :: "('a \<Rightarrow> json) \<Rightarrow> bool" where
  "never_null to_tree \<longleftrightarrow> (\<forall>x. to_tree x \<noteq> JsonNull)"

lemma read_option_not_null: "j \<noteq> JsonNull \<Longrightarrow> read_option read j = map_option Some (read j)"
  by (cases j) simp_all

lemma reads_json_option:
  assumes "reads_where read to_tree P g" "never_null to_tree"
  shows "reads_where (read_option read) (json_option to_tree) (\<lambda>m. \<forall>x. m = Some x \<longrightarrow> P x) (map_option g)"
proof -
  have "read_option read (json_option to_tree m) = (if \<forall>x. m = Some x \<longrightarrow> P x then Some (map_option g m) else None)" for m
    using assms read_option_not_null [of _ read] reads_where_D [OF assms(1)]
    by (cases m) (auto simp: json_option_def never_null_def)
  then show ?thesis by (simp add: reads_where_def)
qed

lemma reads_entries:
  assumes "reads_where read to_tree P g"
  shows "read_entries read (map (\<lambda>(k, x). (json_text k, to_tree x)) kvs) m =
    (if \<forall>(k, x) \<in> set kvs. borrowable k \<and> P x
     then Some (foldl (\<lambda>m (k, x). hm_put k x m) m (map (\<lambda>(k, x). (k, g x)) kvs)) else None)"
proof (induction kvs arbitrary: m)
  case (Cons kv kvs)
  then show ?case
    by (cases kv; cases "borrowable (fst kv) \<and> P (snd kv)") (simp_all add: json_text_def reads_where_D [OF assms])
qed simp

lemma reads_map:
  assumes "reads_where read to_tree P g"
  shows "reads_where (read_map read) (json_map to_tree) (\<lambda>kvs. \<forall>(k, x) \<in> set kvs. borrowable k \<and> P x)
    (\<lambda>kvs. hm_collect (map (\<lambda>(k, x). (k, g x)) kvs))"
  by (simp add: reads_where_def json_map_def reads_entries [OF assms] hm_collect_def cong: if_cong)

lemma read_struct_written:
  assumes "distinct (map fst fs)" "names = map fst fs"
  shows "read_struct names (json_struct fs) = Some (map_of fs)"
proof -
  have "map (\<lambda>(k, j). (js_text k, j)) (map (\<lambda>(name, j). (JsonString name False, j)) fs) = fs"
    by (induction fs) auto
  moreover have "filter (\<lambda>(k, _). k \<in> set (map fst fs)) fs = fs" by (auto simp: filter_id_conv rev_image_eqI)
  ultimately show ?thesis using assms by (simp add: json_struct_def)
qed

section \<open>The primitives\<close>

fun plain_tag_value :: "tag_value \<Rightarrow> bool" where
  "plain_tag_value (TagString s) = borrowable s"
| "plain_tag_value _ = True"

definition plain_tag :: "tag \<Rightarrow> bool" where
  "plain_tag t \<longleftrightarrow> borrowable (tg_key t) \<and> borrowable (tg_ty t) \<and> plain_tag_value (tg_value t)"

definition plain_process :: "process \<Rightarrow> bool" where
  "plain_process p \<longleftrightarrow> borrowable (pc_service_name p) \<and> (\<forall>t \<in> set (pc_tags p). plain_tag t)"

definition plain_reference :: "reference \<Rightarrow> bool" where
  "plain_reference r \<longleftrightarrow> borrowable (rf_ref_type r) \<and> borrowable (rf_trace_id r) \<and> borrowable (rf_span_id r)"

definition plain_warnings :: "string list option \<Rightarrow> bool" where
  "plain_warnings m \<longleftrightarrow> (\<forall>ws. m = Some ws \<longrightarrow> (\<forall>w \<in> set ws. borrowable w))"

definition plain_span :: "span \<Rightarrow> bool" where
  "plain_span s \<longleftrightarrow>
     borrowable (sp_trace_id s) \<and> borrowable (sp_span_id s) \<and> borrowable (sp_operation_name s) \<and>
     (\<forall>r \<in> set (sp_references s). plain_reference r) \<and> (\<forall>t \<in> set (sp_tags s). plain_tag t) \<and>
     borrowable (sp_process_id s) \<and> plain_warnings (sp_warnings s)"

lemma reads_tag_value: "reads_where read_tag_value json_tag_value plain_tag_value id"
proof -
  have "read_tag_value (json_tag_value v) = (if plain_tag_value v then Some (id v) else None)" for v
    by (cases v) (simp_all add: read_tag_value_def json_str_def json_text_def json_usize_def)
  then show ?thesis by (simp add: reads_where_def)
qed

lemmas reads_parts =
  reads_where_D [OF reads_str] reads_where_D [OF reads_usize] reads_where_D [OF reads_tag_value]
  reads_where_D [OF reads_string] reads_where_D [OF reads_json_vec [OF reads_str]]

lemma reads_tag: "reads_where read_tag json_tag plain_tag id"
  unfolding reads_where_def read_tag_def json_tag_def
  by (auto simp: read_struct_written field_def reads_parts plain_tag_def)

lemma reads_reference: "reads_where read_reference json_reference plain_reference id"
  unfolding reads_where_def read_reference_def json_reference_def
  by (auto simp: read_struct_written field_def reads_parts plain_reference_def)

lemma reads_process: "reads_where read_process json_process plain_process id"
  unfolding reads_where_def read_process_def json_process_def
  by (auto simp: read_struct_written field_def reads_parts plain_process_def reads_where_D [OF reads_json_vec [OF reads_tag]])

lemma reads_logs: "reads_where (read_vec Some) (json_vec id) (\<lambda>_. True) id"
  using reads_json_vec [of Some id "\<lambda>_. True" id] by (simp add: reads_where_def)

lemma reads_warnings: "reads_where (read_option (read_vec read_str)) (json_option (json_vec json_str)) plain_warnings id"
  using reads_json_option [OF reads_json_vec [OF reads_str]]
  by (simp add: never_null_def json_vec_def plain_warnings_def [abs_def] option.map_id0)

lemma reads_flags: "reads_where (read_option read_usize) (json_option json_usize) (\<lambda>_. True) id"
  using reads_json_option [OF reads_usize] by (simp add: never_null_def json_usize_def option.map_id0)

lemma reads_span: "reads_where read_span json_span plain_span id"
  unfolding reads_where_def read_span_def json_span_def
  by (auto simp: read_struct_written field_def optional_def reads_parts plain_span_def reads_where_D [OF reads_warnings]
      reads_where_D [OF reads_flags] reads_where_D [OF reads_logs] reads_where_D [OF reads_json_vec [OF reads_tag]]
      reads_where_D [OF reads_json_vec [OF reads_reference]])

section \<open>Traces of a server\<close>

text \<open>A trace as the server sends it, its spans in a list, and what the client keeps of it.\<close>

record server_trace =
  sv_trace_id :: string
  sv_spans :: "span list"
  sv_processes :: "(string \<times> process) list"
  sv_warnings :: "string list option"

definition server_trace_json :: "server_trace \<Rightarrow> json" where
  "server_trace_json t =
     json_struct [(''traceID'', json_str (sv_trace_id t)), (''spans'', json_vec json_span (sv_spans t)),
       (''processes'', json_map json_process (sv_processes t)), (''warnings'', json_option (json_vec json_str) (sv_warnings t))]"

definition plain_trace :: "server_trace \<Rightarrow> bool" where
  "plain_trace t \<longleftrightarrow>
     borrowable (sv_trace_id t) \<and> (\<forall>s \<in> set (sv_spans t). plain_span s) \<and>
     (\<forall>(k, p) \<in> set (sv_processes t). borrowable k \<and> plain_process p) \<and> plain_warnings (sv_warnings t)"

definition received :: "server_trace \<Rightarrow> trace_object" where
  "received t =
     \<lparr>tr_trace_id = sv_trace_id t, tr_spans = hm_collect (map (\<lambda>s. (sp_span_id s, s)) (sv_spans t)),
      tr_processes = hm_collect (sv_processes t), tr_warnings = sv_warnings t\<rparr>"

lemma reads_spans:
  "deserialize_spans_as_hashmap (json_vec json_span ss) =
    (if \<forall>s \<in> set ss. plain_span s then Some (hm_collect (map (\<lambda>s. (sp_span_id s, s)) ss)) else None)"
  unfolding deserialize_spans_as_hashmap_def
  by (simp add: reads_where_D [OF reads_json_vec [OF reads_span]] hm_collect_def foldl_map)

lemma reads_processes:
  "read_map read_process (json_map json_process kvs) =
    (if \<forall>(k, p) \<in> set kvs. borrowable k \<and> plain_process p then Some (hm_collect kvs) else None)"
  by (simp add: reads_where_D [OF reads_map [OF reads_process]] cong: if_cong)

lemma reads_trace: "reads_where read_trace_object server_trace_json plain_trace received"
  unfolding reads_where_def read_trace_object_def server_trace_json_def
  by (auto simp: read_struct_written field_def optional_def reads_parts reads_spans reads_processes
      reads_where_D [OF reads_warnings] plain_trace_def received_def)

definition response_json :: "('a \<Rightarrow> json) \<Rightarrow> 'a rpc_response \<Rightarrow> json" where
  "response_json to_tree r =
     json_struct [(''data'', json_vec to_tree (rr_data r)), (''total'', json_usize (rr_total r)),
       (''limit'', json_usize (rr_limit r)), (''offset'', json_usize (rr_offset r)), (''errors'', json_option id (rr_errors r))]"

lemma reads_errors: "\<exists>m. read_option Some (json_option id errors) = Some m"
  by (cases errors; cases "the errors") (simp_all add: json_option_def)

lemma to_json_response:
  assumes "reads_where read to_tree P g" "parse_json answer = Some (response_json to_tree r)"
  shows "to_json parse_json read answer =
    (if \<forall>x \<in> set (rr_data r). P x then Some (map g (rr_data r)) else None)"
proof -
  obtain m where "read_option Some (json_option id (rr_errors r)) = Some m" using reads_errors by blast
  then show ?thesis
    by (simp add: to_json_def assms(2) read_rpc_response_def response_json_def read_struct_written field_def optional_def
        reads_parts reads_where_D [OF reads_json_vec [OF assms(1)]] consume_def)
qed

section \<open>URLs\<close>

definition path_char :: "char \<Rightarrow> bool" where
  "path_char c \<longleftrightarrow> c \<in> set ''abcdefghijklmnopqrstuvwxyzABCDEFGHIJKLMNOPQRSTUVWXYZ0123456789-_/''"

definition plain_path :: "string \<Rightarrow> bool" where
  "plain_path p \<longleftrightarrow> list_all path_char p \<and> take 1 p = ''/'' \<and> take 2 p \<noteq> ''//''"

text \<open>Joining with an absolute path replaces the path and drops the query.\<close>

definition joins_paths :: "(url \<Rightarrow> string \<Rightarrow> url option) \<Rightarrow> bool" where
  "joins_paths join \<longleftrightarrow> (\<forall>u p. plain_path p \<longrightarrow> join u p = Some (u\<lparr>ur_path := p, ur_query := []\<rparr>))"

lemma plain_endpoints: "plain_path traces_endpoint" "plain_path services_endpoint"
  by code_simp+

definition option_params :: "jaeger_options \<Rightarrow> (string \<times> string) list" where
  "option_params opts =
     (case jo_limit opts of None \<Rightarrow> [] | Some n \<Rightarrow> [(''limit'', decimal n)]) @
     (case jo_service opts of None \<Rightarrow> [] | Some s \<Rightarrow> [(''service'', s)]) @
     (case jo_lookback opts of None \<Rightarrow> [] | Some l \<Rightarrow> [(''lookback'', l)])"

lemma jaeger_tool_runs:
  assumes "joins_paths (wl_join lib)" "wl_parse_url lib (jo_url opts) = Some base" "from_secs_f32_ok (jo_timeout opts)"
  shows "jaeger_tool lib opts = jaeger_run lib opts
    \<lparr>jg_traces_url = base\<lparr>ur_path := traces_endpoint, ur_query := option_params opts\<rparr>,
     jg_services_url = base\<lparr>ur_path := services_endpoint, ur_query := option_params opts\<rparr>\<rparr>"
proof -
  have join: "wl_join lib base traces_endpoint = Some (base\<lparr>ur_path := traces_endpoint, ur_query := []\<rparr>)"
    "wl_join lib base services_endpoint = Some (base\<lparr>ur_path := services_endpoint, ur_query := []\<rparr>)"
    using assms(1) plain_endpoints by (auto simp: joins_paths_def)
  have "enrich_base_url (jaeger_api_options_from opts) (base\<lparr>ur_path := p, ur_query := []\<rparr>) =
      base\<lparr>ur_path := p, ur_query := option_params opts\<rparr>" for p
    by (auto simp: enrich_base_url_def jaeger_api_options_from_def option_params_def append_query_param_def Let_def
        split: option.split)
  with join assms(2,3) show ?thesis
    by (simp add: jaeger_tool_def jaeger_api_new_def jaeger_api_options_from_def)
qed


definition sample_span :: "string \<Rightarrow> span" where
  "sample_span name =
     \<lparr>sp_trace_id = ''t1'', sp_span_id = ''s1'', sp_flags = Some 1, sp_operation_name = name,
      sp_references = [], sp_start_time = 100, sp_duration = 5 / 2,
      sp_tags = [\<lparr>tg_key = ''k'', tg_ty = ''string'', tg_value = TagString ''v''\<rparr>], sp_logs = [], sp_process_id = ''p1'',
      sp_warnings = None\<rparr>"

definition sample_server_trace :: "string \<Rightarrow> server_trace" where
  "sample_server_trace name =
     \<lparr>sv_trace_id = ''t1'', sv_spans = [sample_span ''first'', sample_span name],
      sv_processes = [(''p1'', \<lparr>pc_service_name = ''node'', pc_tags = []\<rparr>)], sv_warnings = None\<rparr>"

definition sample_response :: "server_trace \<Rightarrow> server_trace rpc_response" where
  "sample_response t = \<lparr>rr_data = [t], rr_total = 1, rr_limit = 0, rr_offset = 0, rr_errors = None\<rparr>"

definition sample_base :: url where
  "sample_base = \<lparr>ur_origin = ''http://localhost:16686'', ur_path = ''/'', ur_query = []\<rparr>"

definition sample_web :: "url \<Rightarrow> json \<Rightarrow> web_libraries" where
  "sample_web u answer =
     \<lparr>wl_parse_url = (\<lambda>_. Some sample_base), wl_join = (\<lambda>u p. Some (u\<lparr>ur_path := p, ur_query := []\<rparr>)),
      wl_get = (\<lambda>v. if v = u then Inr ''answer'' else Inl ''not found''), wl_parse_json = (\<lambda>_. Some answer)\<rparr>"

definition sample_jaeger_options :: "jaeger_mode \<Rightarrow> jaeger_options" where
  "sample_jaeger_options mode =
     \<lparr>jo_service = Some ''node'', jo_url = ''http://localhost:16686'', jo_limit = Some 3, jo_lookback = None,
      jo_timeout = 10, jo_output = JoJson, jo_mode = mode\<rparr>"

lemma sample_web_joins: "joins_paths (wl_join (sample_web u answer))"
  by (simp add: joins_paths_def sample_web_def)

lemma sample_web_fields:
  "wl_parse_url (sample_web u answer) v = Some sample_base"
  "wl_get (sample_web u answer) u = Inr ''answer''"
  "wl_parse_json (sample_web u answer) text = Some answer"
  "jo_mode (sample_jaeger_options mode) = mode" "jo_output (sample_jaeger_options mode) = JoJson"
  "from_secs_f32_ok (jo_timeout (sample_jaeger_options mode))"
  "option_params (sample_jaeger_options mode) = [(''limit'', ''3''), (''service'', ''node'')]"
proof -
  have three: "decimal 3 = ''3''" by code_simp
  then show "option_params (sample_jaeger_options mode) = [(''limit'', ''3''), (''service'', ''node'')]"
    by (simp add: option_params_def sample_jaeger_options_def)
qed (simp_all add: sample_web_def sample_jaeger_options_def from_secs_f32_ok_def)

lemma sample_trace_plain: "plain_trace (sample_server_trace name) \<longleftrightarrow> borrowable name"
proof -
  have "borrowable ''t1'' \<and> borrowable ''s1'' \<and> borrowable ''first'' \<and> borrowable ''p1'' \<and> borrowable ''node'' \<and>
      borrowable ''k'' \<and> borrowable ''string'' \<and> borrowable ''v''"
    by code_simp
  then show ?thesis
    by (simp add: plain_trace_def sample_server_trace_def plain_span_def sample_span_def plain_tag_def
        plain_process_def plain_warnings_def)
qed


text \<open>A single trace is asked for by its identifier alone: the options of the command line are part of the
  cached URL, and joining that with the path of the trace drops them.\<close>

theorem jaeger_trace_without_options:
  assumes "joins_paths (wl_join lib)" "wl_parse_url lib (jo_url opts) = Some base" "from_secs_f32_ok (jo_timeout opts)"
    and "jo_mode opts = JmTrace trace_id" "plain_path (''/api/traces/'' @ trace_id)"
  shows "jaeger_tool lib opts =
    Inr (fetch_and_print lib (jo_output opts) ''trace''
      (wl_get lib (base\<lparr>ur_path := ''/api/traces/'' @ trace_id, ur_query := []\<rparr>)) read_trace_object json_trace_object)"
  using assms(1,5)
  by (simp add: jaeger_tool_runs [OF assms(1-3)] jaeger_run_def assms(4) api_trace_def joins_paths_def traces_endpoint_def)

theorem jaeger_trace_without_options_witness:
  "jaeger_tool (sample_web sample_base (response_json server_trace_json (sample_response (sample_server_trace ''x''))))
      (sample_jaeger_options (JmTrace ''ab12'')) = Inr (Inl (CannotGet ''trace'' ''not found''))"
proof -
  have "plain_path ''/api/traces/ab12''" by code_simp
  then show ?thesis
    using jaeger_trace_without_options [OF sample_web_joins [of sample_base
          "response_json server_trace_json (sample_response (sample_server_trace ''x''))"]
        sample_web_fields(1) sample_web_fields(6) sample_web_fields(4) [of "JmTrace ''ab12''"]]
    by (simp add: sample_web_fields(5)) (simp add: sample_web_def fetch_and_print_def sample_base_def)
qed

text \<open>The list of services is printed whatever its strings are: they are read as owned strings.\<close>

lemma jaeger_services_exact:
  assumes "joins_paths (wl_join lib)" "wl_parse_url lib (jo_url opts) = Some base" "from_secs_f32_ok (jo_timeout opts)"
    and "jo_mode opts = JmServices"
    and "wl_get lib (base\<lparr>ur_path := ''/api/services'', ur_query := option_params opts\<rparr>) = Inr text"
      "wl_parse_json lib text = Some (response_json json_str r)"
  shows "jaeger_tool lib opts = Inr (Inr (jo_output opts, json_vec json_str (rr_data r)))"
  using assms(5)
  by (simp add: jaeger_tool_runs [OF assms(1-3)] jaeger_run_def assms(4) api_services_def fetch_and_print_def
      services_endpoint_def to_json_response [OF reads_string, of "wl_parse_json lib", OF assms(6)] format_output_def)

text \<open>What the client prints for a trace is not what it reads: the spans come out as an object.\<close>

lemma printed_trace_not_read: "read_trace_object (json_trace_object t) = None"
  by (simp add: read_trace_object_def json_trace_object_def read_struct_written field_def reads_parts
      deserialize_spans_as_hashmap_def json_map_def)

end
