(* ===== verification/Tracer_Text.thy ===== *)
theory Tracer_Text
  imports Tracker_Report Stats
begin

text \<open>
  What the tracer prints: \<^verbatim>\<open>Display\<close> of the progress update, the consensus events and the disputes
  (\<^verbatim>\<open>parachain-tracer/src/types.rs\<close>), of the statistics (\<^verbatim>\<open>stats.rs\<close>) and \<^verbatim>\<open>format_ts\<close> (\<^verbatim>\<open>utils.rs\<close>). A text is its UTF-8
  bytes, as characters. Colours, the hexadecimal form of a hash, ISO 8601 and the decimals of a floating-point
  number are the libraries': the record \<open>text_libraries\<close>.
\<close>

section \<open>Texts\<close>

datatype style =
    Bold | Green | Magenta | Red | Yellow | DarkRed | Blue | BrightGreen | BrightRed | BrightPurple | BrightCyan
  | BrightMagenta | BrightYellow

text \<open>\<open>tx_fixed n\<close> prints with \<open>n\<close> decimals, \<open>None\<close> being not a number.\<close>

record text_libraries =
  tx_paint :: "style list \<Rightarrow> string \<Rightarrow> string"
  tx_hash :: "h256 \<Rightarrow> string"
  tx_iso8601 :: "u64 \<Rightarrow> string"
  tx_fixed :: "nat \<Rightarrow> rat option \<Rightarrow> string"

definition nl :: string where
  "nl = [CHR 0x0A]"

definition tabs :: "nat \<Rightarrow> string" where
  "tabs n = replicate n (CHR 0x09)"

text \<open>The UTF-8 encoding of a code point.\<close>

definition utf8 :: "nat \<Rightarrow> string" where
  "utf8 c = map char_of
     (if c < 0x80 then [c]
      else if c < 0x800 then [0xC0 + c div 0x40, 0x80 + c mod 0x40]
      else if c < 0x10000 then [0xE0 + c div 0x1000, 0x80 + c div 0x40 mod 0x40, 0x80 + c mod 0x40]
      else [0xF0 + c div 0x40000, 0x80 + c div 0x1000 mod 0x40, 0x80 + c div 0x40 mod 0x40, 0x80 + c mod 0x40])"

definition dec :: "'a::len word \<Rightarrow> string" where
  "dec w = decimal (unat w)"

text \<open>\<^verbatim>\<open>OffsetDateTime::from_unix_timestamp_nanos(..).unwrap()\<close>: the crate has no time after the year 9999.\<close>

definition max_timestamp_ms :: nat where
  "max_timestamp_ms = 253402300800000"

definition format_ts :: "text_libraries \<Rightarrow> u64 \<Rightarrow> u64 \<Rightarrow> fault + string" where
  "format_ts lib duration_ms current_block_ts =
     (if unat current_block_ts \<ge> max_timestamp_ms then Inl Panic
      else Inr (tx_iso8601 lib current_block_ts @ '' +'' @ dec duration_ms @ ''ms''))"

section \<open>Disputes\<close>

definition display_validator :: "text_libraries \<Rightarrow> style \<Rightarrow> string \<Rightarrow> u32 \<times> string \<Rightarrow> string" where
  "display_validator lib colour lead = (\<lambda>(validator_idx, validator_address).
     tabs 3 @ lead @ tx_paint lib [colour] (''idx: '' @ dec validator_idx @ '', address: '' @ validator_address) @ nl)"

definition display_dispute :: "text_libraries \<Rightarrow> disputes_tracker \<Rightarrow> string" where
  "display_dispute lib d =
     (let votes = ''; voted for: '' @ dec (dt_voted_for d) @ ''; voted against: '' @ dec (dt_voted_against d) @ nl;
          hash = tx_hash lib (dt_candidate d)
      in (case dt_outcome d of
            DInvalid \<Rightarrow> tabs 2 @ utf8 0x1F44E @ '' Candidate: '' @ tx_paint lib [DarkRed] hash @ '', resolved invalid ('' @
              dec (dt_resolve_time d) @ '')'' @ votes
          | DValid \<Rightarrow> tabs 2 @ utf8 0x1F44D @ '' Candidate: '' @ tx_paint lib [BrightGreen] hash @ '', resolved valid ('' @
              dec (dt_resolve_time d) @ '')'' @ votes
          | DTimedOut \<Rightarrow> tabs 2 @ utf8 0x2049 @ utf8 0xFE0F @ '' Candidate: '' @ tx_paint lib [BrightGreen] hash @
              '', dispute resolution has been timed out '' @ dec (dt_resolve_time d) @ votes) @
         concat (map (display_validator lib Magenta (utf8 0x1F620 @ '' Validator initiated dispute: '')) (dt_initiators d)) @
         concat (map (display_validator lib BrightRed (utf8 0x1F479 @ '' Validator voted against supermajority: ''))
           (dt_misbehaving_validators d)))"

section \<open>Consensus events\<close>

definition total_size :: "(u32 \<times> hrmp_channel) list \<Rightarrow> u32" where
  "total_size channels = sum_list (map (\<lambda>(_, channel). ch_total_size channel) channels)"

definition display_channel :: "string \<Rightarrow> u32 \<times> hrmp_channel \<Rightarrow> string" where
  "display_channel direction = (\<lambda>(peer_parachain, channel).
     if ch_total_size channel > 0
     then tabs 2 @ utf8 0x1F4E9 @ direction @ dec peer_parachain @ '', '' @ dec (ch_total_size channel) @ '' bytes / '' @
       dec (ch_max_message_size channel) @ '' max'' @ nl
     else [])"

text \<open>The first line of an event of a candidate and the line with its hash.\<close>

definition display_candidate :: "text_libraries \<Rightarrow> string \<Rightarrow> h256 \<Rightarrow> string" where
  "display_candidate lib headline candidate_hash =
     tabs 1 @ ''- '' @ tx_paint lib [Bold, Green] headline @ nl @
     tabs 1 @ ''  '' @ utf8 0x1F49C @ '' Candidate hash: '' @ tx_paint lib [Magenta] (tx_hash lib candidate_hash) @ '' '' @ nl"

definition display_bits :: "u32 \<Rightarrow> u32 \<Rightarrow> string" where
  "display_bits bits_available max_bits =
     tabs 1 @ ''  '' @ utf8 0x1F7E2 @ '' Availability bits: '' @ dec bits_available @ ''/'' @ dec max_bits @ nl"

fun display_event :: "text_libraries \<Rightarrow> consensus_event \<Rightarrow> string" where
  "display_event lib (EvCoreAssigned core_id) = tabs 1 @ ''- Parachain assigned to core index '' @ dec core_id @ nl"
| "display_event lib (EvBacked candidate_hash) = display_candidate lib ''CANDIDATE BACKED'' candidate_hash"
| "display_event lib (EvPendingAvailability candidate_hash) =
     display_candidate lib ''CANDIDATE PENDING AVAILABILITY'' candidate_hash"
| "display_event lib (EvIncluded candidate_hash bits_available max_bits) =
     display_candidate lib ''CANDIDATE INCLUDED'' candidate_hash @ display_bits bits_available max_bits"
| "display_event lib (EvDropped candidate_hash) = display_candidate lib ''CANDIDATE DROPPED'' candidate_hash"
| "display_event lib (EvDisputed outcome) =
     tabs 1 @ ''- '' @ tx_paint lib [Bold] (utf8 0x1F494 @ '' Dispute tracked:'') @ nl @ display_dispute lib outcome"
| "display_event lib EvSkippedSlot =
     tabs 1 @ ''- '' @ tx_paint lib [Bold, Red] ''SLOW BACKING'' @ '', no candidate backed'' @ nl"
| "display_event lib (EvSlowAvailability bits_available max_bits) =
     tabs 1 @ ''- '' @ tx_paint lib [Bold, Yellow] ''SLOW AVAILABILITY'' @ nl @ display_bits bits_available max_bits"
| "display_event lib (EvSlowBitfieldPropagation bitfields_count max_bits) =
     tabs 1 @ ''- '' @ tx_paint lib [DarkRed] ''SLOW BITFIELD PROPAGATION'' @ '' bitfield count '' @
     dec bitfields_count @ ''/'' @ dec max_bits @ nl"
| "display_event lib (EvNewSession session_index) =
     tabs 1 @ ''- '' @ utf8 0x2728 @ '' New session tracked: '' @ dec session_index @ nl"
| "display_event lib (EvMessageQueues inbound outbound) =
     (if inbound = [] then []
      else tabs 1 @ ''- '' @ utf8 0x1F449 @ '' Inbound HRMP messages, received '' @ dec (total_size inbound) @
        '' bytes in total'' @ nl @ concat (map (display_channel '' From parachain: '') inbound)) @
     (if outbound = [] then []
      else tabs 1 @ ''- '' @ utf8 0x1F449 @ '' Outbound HRMP messages, sent '' @ dec (total_size inbound) @
        '' bytes in total'' @ nl @ concat (map (display_channel '' To parachain: '') outbound))"

section \<open>The progress update\<close>

definition display_progress :: "text_libraries \<Rightarrow> progress_update \<Rightarrow> fault + string" where
  "display_progress lib u =
     rbind (format_ts lib (saturating_sub (pu_timestamp u) (pu_prev_timestamp u)) (pu_timestamp u)) (\<lambda>ts.
     Inr (ts @ '' [#'' @ dec (pu_block_number u) @ (if pu_is_fork u then '', fork'' else []) @ '']; parachain: '' @
          tx_paint lib [Bold] (dec (pu_para_id u)) @ nl @
       tabs 1 @ utf8 0x1F517 @ '' Relay block hash: '' @ tx_paint lib [Bold] (tx_hash lib (pu_block_hash u)) @ '' '' @ nl @
       concat (map (\<lambda>(core, core_occupied).
         tabs 1 @ utf8 0x1F95D @ '' Availability core #'' @ dec core @ '' '' @
         (if core_occupied then ''OCCUPIED'' else ''FREE'') @ nl) (pu_core_occupied u)) @
       tabs 1 @ utf8 0x1F40C @ '' Finality lag: '' @
         (case pu_finality_lag u of None \<Rightarrow> ''NA'' | Some lag \<Rightarrow> dec lag @ '' blocks'') @
         (if pu_events u = [] then [] else nl) @ nl @
       concat (map (display_event lib) (pu_events u))))"

section \<open>Statistics\<close>

definition display_skipped_slot :: "text_libraries \<Rightarrow> skipped_slot_block \<Rightarrow> string" where
  "display_skipped_slot lib b = nl @ ''    '' @ dec (sb_block_number b) @ '' '' @ tx_hash lib (sb_block_hash b)"

definition join_skipped_slot_blocks_to_string :: "text_libraries \<Rightarrow> skipped_slot_block deque \<Rightarrow> string" where
  "join_skipped_slot_blocks_to_string lib blocks =
     (if dq_items blocks = [] then ''none'' else concat (map (display_skipped_slot lib) (dq_items blocks)))"

definition display_disputes_stats :: "text_libraries \<Rightarrow> disputes_stats \<Rightarrow> string" where
  "display_disputes_stats lib s =
     dec (ds_disputed_count s) @ '' disputes tracked, '' @
     tx_paint lib [BrightGreen] (dec (ds_concluded_valid s)) @ '' concluded valid, '' @
     tx_paint lib [Bold] (dec (ds_concluded_invalid s)) @ '' concluded invalid, '' @
     tx_paint lib [BrightYellow] (dec (ds_concluded_timed_out s)) @ '' timed out, '' @
     tx_paint lib [Bold] (tx_fixed lib 2 (bucket_value (ds_resolution_time s))) @ '' blocks average resolution time, '' @
     tx_paint lib [BrightRed] (tx_fixed lib 1 (bucket_value (ds_misbehaving s))) @ '' average misbehaving validators''"

definition display_stats :: "text_libraries \<Rightarrow> parachain_stats \<Rightarrow> string" where
  "display_stats lib s =
     tx_paint lib [Bold, Blue] (''--- Parachain '' @ dec (st_para_id s) @ '' trace statistics ---'') @ nl @
     ''Average relay chain block time: '' @ tx_paint lib [Bold] (tx_fixed lib 3 (bucket_value (st_block_times s))) @
       '' seconds ('' @ decimal (bucket_count (st_block_times s)) @ '' blocks processed)'' @ nl @
     ''Average parachain block inclusion time: '' @ tx_paint lib [Bold] (tx_fixed lib 2 (bucket_value (st_included_times s))) @
       '' relay parent blocks ('' @ decimal (bucket_count (st_included_times s)) @ '' parachain blocks processed)'' @ nl @
     ''Average parachain block backing time: '' @ tx_paint lib [Bold] (tx_fixed lib 2 (bucket_value (st_backed_times s))) @
       '' relay parent blocks ('' @ decimal (bucket_count (st_backed_times s)) @ '' parachain blocks processed)'' @ nl @
     ''Skipped slots: '' @ tx_paint lib [BrightPurple] (dec (st_skipped_slots s)) @ '', slow availability: '' @
       tx_paint lib [BrightCyan] (dec (st_slow_avail_count s)) @ '', slow bitfields propagation: '' @
       tx_paint lib [BrightMagenta] (dec (st_low_bitfields_count s)) @ nl @
     ''Last blocks with skipped slots: '' @
       tx_paint lib [BrightPurple] (join_skipped_slot_blocks_to_string lib (st_last_skipped s)) @ nl @
     ''Average bitfileds: '' @ tx_fixed lib 3 (bucket_value (st_bitfields s)) @ nl @
     ''Backing stats: '' @ tx_paint lib [Blue] (dec (st_backed_count s)) @ '' blocks backed, '' @
       tx_paint lib [Green] (dec (st_included_count s)) @ '' blocks included'' @ nl @
     ''Disputes stats: '' @ display_disputes_stats lib (st_disputes s) @ nl"

end
