(* ===== verification/Tracer_Text_Laws.thy ===== *)
theory Tracer_Text_Laws
  imports Tracer_Text
begin

text \<open>
  The text of a progress report is a list of lines: a reference definition of the lines, and that splitting the
  printed text at its newlines gives them back, so that no event can run into another.
\<close>

section \<open>Decimal numbers\<close>

definition undecimal :: "string \<Rightarrow> nat" where
  "undecimal s = foldl (\<lambda>n c. 10 * n + (of_char c - 48)) 0 s"

lemma undecimal_decimal: "undecimal (decimal n) = n"
proof (induction n rule: decimal.induct)
  case (1 n)
  then show ?case by (subst decimal.simps) (simp add: undecimal_def)
qed

lemma dec_inject [simp]: "dec a = dec b \<longleftrightarrow> a = b"
  unfolding dec_def by (metis undecimal_decimal unsigned_word_eqI)

text \<open>Texts without a newline.\<close>

definition one_line :: "string \<Rightarrow> bool" where
  "one_line s \<longleftrightarrow> CHR 0x0A \<notin> set s"

lemma one_line_simps [simp]:
  "one_line []" "one_line (s @ t) \<longleftrightarrow> one_line s \<and> one_line t" "one_line (c # s) \<longleftrightarrow> c \<noteq> CHR 0x0A \<and> one_line s"
  "one_line (tabs n)"
  by (auto simp: one_line_def tabs_def)

lemma one_line_decimal: "one_line (decimal n)"
proof (induction n rule: decimal.induct)
  case (1 n)
  have "char_of (48 + m) \<noteq> CHR 0x0A" if "m < 10" for m :: nat
  proof
    assume "char_of (48 + m) = CHR 0x0A"
    then have "of_char (char_of (48 + m)) = (10 :: nat)" by simp
    with that show False by simp
  qed
  with 1 show ?case by (subst decimal.simps) simp
qed

lemma one_line_dec [simp]: "one_line (dec w)"
  by (simp add: dec_def one_line_decimal)

lemma one_line_bytes:
  assumes "\<forall>b \<in> set bs. 128 \<le> b \<and> b < 256"
  shows "one_line (map char_of (bs :: nat list))"
proof -
  have "char_of b \<noteq> CHR 0x0A" if "b \<in> set bs" for b
  proof
    assume "char_of b = CHR 0x0A"
    then have "of_char (char_of b) = (10 :: nat)" by simp
    with that assms show False by auto
  qed
  then show ?thesis by (auto simp: one_line_def) metis
qed

lemma one_line_utf8 [simp]:
  assumes "0x80 \<le> c" "c < 0x110000"
  shows "one_line (utf8 c)"
proof -
  have "128 \<le> 0x80 + x mod 0x40 \<and> 0x80 + x mod 0x40 < (256 :: nat)" for x :: nat
    using mod_less_divisor [of 64 x] by linarith
  moreover have "c div 0x40 < 0x20" if "c < 0x800" using that by (simp add: less_mult_imp_div_less)
  moreover have "c div 0x1000 < 0x10" if "c < 0x10000" using that by (simp add: less_mult_imp_div_less)
  moreover have "c div 0x40000 < 5" using assms(2) by (simp add: less_mult_imp_div_less)
  ultimately show ?thesis
    using assms(1) unfolding utf8_def by (intro one_line_bytes) auto
qed

section \<open>Lines\<close>

fun split_lines :: "string \<Rightarrow> string \<Rightarrow> string list" where
  "split_lines l [] = (if l = [] then [] else [l])"
| "split_lines l (c # s) = (if c = CHR 0x0A then l # split_lines [] s else split_lines (l @ [c]) s)"

definition as_text :: "string list \<Rightarrow> string" where
  "as_text ls = concat (map (\<lambda>l. l @ nl) ls)"

lemma as_text_simps [simp]:
  "as_text [] = []" "as_text (ls @ ms) = as_text ls @ as_text ms" "as_text (l # ls) = l @ nl @ as_text ls"
  by (simp_all add: as_text_def)

lemma split_line: "one_line l \<Longrightarrow> split_lines k (l @ nl @ s) = (k @ l) # split_lines [] s"
  by (induction l arbitrary: k) (auto simp: nl_def)

lemma split_as_text: "list_all one_line ls \<Longrightarrow> split_lines [] (as_text ls) = ls"
  by (induction ls) (simp_all add: split_line)

section \<open>The lines of a report\<close>

definition validator_line :: "text_libraries \<Rightarrow> style \<Rightarrow> string \<Rightarrow> u32 \<times> string \<Rightarrow> string" where
  "validator_line lib colour lead v =
     tabs 3 @ lead @ tx_paint lib [colour] (''idx: '' @ dec (fst v) @ '', address: '' @ snd v)"

definition verdict_line :: "text_libraries \<Rightarrow> disputes_tracker \<Rightarrow> string" where
  "verdict_line lib d =
     (let painted = (\<lambda>colour. tx_paint lib [colour] (tx_hash lib (dt_candidate d)))
      in tabs 2 @
         (case dt_outcome d of
            DInvalid \<Rightarrow> utf8 0x1F44E @ '' Candidate: '' @ painted DarkRed @ '', resolved invalid ('' @ dec (dt_resolve_time d) @ '')''
          | DValid \<Rightarrow> utf8 0x1F44D @ '' Candidate: '' @ painted BrightGreen @ '', resolved valid ('' @ dec (dt_resolve_time d) @ '')''
          | DTimedOut \<Rightarrow> utf8 0x2049 @ utf8 0xFE0F @ '' Candidate: '' @ painted BrightGreen @
              '', dispute resolution has been timed out '' @ dec (dt_resolve_time d)) @
         ''; voted for: '' @ dec (dt_voted_for d) @ ''; voted against: '' @ dec (dt_voted_against d))"

definition candidate_lines :: "text_libraries \<Rightarrow> string \<Rightarrow> h256 \<Rightarrow> string list" where
  "candidate_lines lib headline h =
     [tabs 1 @ ''- '' @ tx_paint lib [Bold, Green] headline,
      tabs 1 @ ''  '' @ utf8 0x1F49C @ '' Candidate hash: '' @ tx_paint lib [Magenta] (tx_hash lib h) @ '' '']"

definition bits_line :: "u32 \<Rightarrow> u32 \<Rightarrow> string" where
  "bits_line available max_bits =
     tabs 1 @ ''  '' @ utf8 0x1F7E2 @ '' Availability bits: '' @ dec available @ ''/'' @ dec max_bits"

definition queues_line :: "string \<Rightarrow> u32 \<Rightarrow> string" where
  "queues_line what sum_size = tabs 1 @ ''- '' @ utf8 0x1F449 @ what @ dec sum_size @ '' bytes in total''"

definition channel_line :: "string \<Rightarrow> u32 \<times> hrmp_channel \<Rightarrow> string" where
  "channel_line direction ch =
     tabs 2 @ utf8 0x1F4E9 @ direction @ dec (fst ch) @ '', '' @ dec (ch_total_size (snd ch)) @ '' bytes / '' @
     dec (ch_max_message_size (snd ch)) @ '' max''"

definition queue_lines :: "string \<Rightarrow> string \<Rightarrow> u32 \<Rightarrow> (u32 \<times> hrmp_channel) list \<Rightarrow> string list" where
  "queue_lines what direction sum_size channels =
     (if channels = [] then []
      else queues_line what sum_size # map (channel_line direction) (filter (\<lambda>(_, ch). ch_total_size ch > 0) channels))"

fun event_lines :: "text_libraries \<Rightarrow> consensus_event \<Rightarrow> string list" where
  "event_lines lib (EvCoreAssigned core) = [tabs 1 @ ''- Parachain assigned to core index '' @ dec core]"
| "event_lines lib (EvBacked h) = candidate_lines lib ''CANDIDATE BACKED'' h"
| "event_lines lib (EvPendingAvailability h) = candidate_lines lib ''CANDIDATE PENDING AVAILABILITY'' h"
| "event_lines lib (EvIncluded h a m) = candidate_lines lib ''CANDIDATE INCLUDED'' h @ [bits_line a m]"
| "event_lines lib (EvDropped h) = candidate_lines lib ''CANDIDATE DROPPED'' h"
| "event_lines lib (EvDisputed d) =
     [tabs 1 @ ''- '' @ tx_paint lib [Bold] (utf8 0x1F494 @ '' Dispute tracked:''), verdict_line lib d] @
     map (validator_line lib Magenta (utf8 0x1F620 @ '' Validator initiated dispute: '')) (dt_initiators d) @
     map (validator_line lib BrightRed (utf8 0x1F479 @ '' Validator voted against supermajority: '')) (dt_misbehaving_validators d)"
| "event_lines lib EvSkippedSlot = [tabs 1 @ ''- '' @ tx_paint lib [Bold, Red] ''SLOW BACKING'' @ '', no candidate backed'']"
| "event_lines lib (EvSlowAvailability a m) =
     [tabs 1 @ ''- '' @ tx_paint lib [Bold, Yellow] ''SLOW AVAILABILITY'', bits_line a m]"
| "event_lines lib (EvSlowBitfieldPropagation n m) =
     [tabs 1 @ ''- '' @ tx_paint lib [DarkRed] ''SLOW BITFIELD PROPAGATION'' @ '' bitfield count '' @ dec n @ ''/'' @ dec m]"
| "event_lines lib (EvNewSession n) = [tabs 1 @ ''- '' @ utf8 0x2728 @ '' New session tracked: '' @ dec n]"
| "event_lines lib (EvMessageQueues inbound outbound) =
     queue_lines '' Inbound HRMP messages, received '' '' From parachain: '' (total_size inbound) inbound @
     queue_lines '' Outbound HRMP messages, sent '' '' To parachain: '' (total_size inbound) outbound"

lemma text_validators: "concat (map (display_validator lib c lead) vs) = as_text (map (validator_line lib c lead) vs)"
  by (induction vs) (auto simp: display_validator_def validator_line_def)

lemma text_channels:
  "concat (map (display_channel direction) chs) =
   as_text (map (channel_line direction) (filter (\<lambda>(_, ch). ch_total_size ch > 0) chs))"
  by (induction chs) (auto simp: display_channel_def channel_line_def)

lemma text_event: "display_event lib ev = as_text (event_lines lib ev)"
  by (cases ev)
    (auto simp: display_candidate_def candidate_lines_def display_bits_def bits_line_def text_channels queue_lines_def
      queues_line_def text_validators display_dispute_def verdict_line_def Let_def split: dispute_result.split)

text \<open>The libraries keep a text on its line.\<close>

definition keeps_lines :: "text_libraries \<Rightarrow> bool" where
  "keeps_lines lib \<longleftrightarrow>
     (\<forall>styles s. one_line s \<longrightarrow> one_line (tx_paint lib styles s)) \<and> (\<forall>h. one_line (tx_hash lib h)) \<and>
     (\<forall>t. one_line (tx_iso8601 lib t))"

fun event_addresses :: "consensus_event \<Rightarrow> string list" where
  "event_addresses (EvDisputed d) = map snd (dt_initiators d @ dt_misbehaving_validators d)"
| "event_addresses _ = []"

lemma one_line_validator:
  "keeps_lines lib \<Longrightarrow> one_line lead \<Longrightarrow> one_line (snd v) \<Longrightarrow> one_line (validator_line lib colour lead v)"
  by (simp add: keeps_lines_def validator_line_def)

lemma one_line_verdict: "keeps_lines lib \<Longrightarrow> one_line (verdict_line lib d)"
  by (simp add: keeps_lines_def verdict_line_def split: dispute_result.split)

lemma event_lines_one_line:
  assumes "keeps_lines lib" "list_all one_line (event_addresses ev)"
  shows "list_all one_line (event_lines lib ev)"
proof (cases ev)
  case (EvDisputed d)
  then show ?thesis
    using assms by (auto simp: list_all_iff one_line_verdict intro!: one_line_validator) (simp add: keeps_lines_def)
qed (use assms in \<open>auto simp: keeps_lines_def candidate_lines_def bits_line_def queue_lines_def queues_line_def
    channel_line_def list_all_iff\<close>)

definition core_line :: "u32 \<times> bool \<Rightarrow> string" where
  "core_line = (\<lambda>(core, occupied).
     tabs 1 @ utf8 0x1F95D @ '' Availability core #'' @ dec core @ '' '' @ (if occupied then ''OCCUPIED'' else ''FREE''))"

definition report_lines :: "text_libraries \<Rightarrow> progress_update \<Rightarrow> string list" where
  "report_lines lib u =
     [tx_iso8601 lib (pu_timestamp u) @ '' +'' @ dec (saturating_sub (pu_timestamp u) (pu_prev_timestamp u)) @ ''ms [#'' @
        dec (pu_block_number u) @ (if pu_is_fork u then '', fork'' else []) @ '']; parachain: '' @
        tx_paint lib [Bold] (dec (pu_para_id u)),
      tabs 1 @ utf8 0x1F517 @ '' Relay block hash: '' @ tx_paint lib [Bold] (tx_hash lib (pu_block_hash u)) @ '' ''] @
     map core_line (pu_core_occupied u) @
     [tabs 1 @ utf8 0x1F40C @ '' Finality lag: '' @
       (case pu_finality_lag u of None \<Rightarrow> ''NA'' | Some lag \<Rightarrow> dec lag @ '' blocks'')] @
     (if pu_events u = [] then [] else ['''']) @
     concat (map (event_lines lib) (pu_events u))"

lemma text_events: "concat (map (display_event lib) evs) = as_text (concat (map (event_lines lib) evs))"
  by (induction evs) (simp_all add: text_event)

lemma text_cores:
  "concat (map (\<lambda>(core, core_occupied). tabs 1 @ utf8 0x1F95D @ '' Availability core #'' @ dec core @ '' '' @
     (if core_occupied then ''OCCUPIED'' else ''FREE'') @ nl) cores) = as_text (map core_line cores)"
  by (induction cores) (auto simp: core_line_def)

lemma report_lines_one_line:
  assumes "keeps_lines lib" "\<forall>ev \<in> set (pu_events u). list_all one_line (event_addresses ev)"
  shows "list_all one_line (report_lines lib u)"
proof -
  have "list_all one_line (concat (map (event_lines lib) (pu_events u)))"
    using event_lines_one_line [OF assms(1)] assms(2) by (fastforce simp: list_all_iff)
  then show ?thesis
    using assms(1) by (auto simp: report_lines_def core_line_def keeps_lines_def list_all_iff split: option.split)
qed

text \<open>C37: The printed report, line by line: splitting the text at its newlines gives the head line, the hash, one
  line per core, the finality lag, an empty line if there are events, and then the lines of each event in
  order, whatever colours are used. Printing panics exactly for a timestamp beyond the year 9999.\<close>

theorem report_text_exact:
  assumes "keeps_lines lib" "\<forall>ev \<in> set (pu_events u). list_all one_line (event_addresses ev)"
  shows "map_sum id (split_lines []) (display_progress lib u) =
    (if unat (pu_timestamp u) < max_timestamp_ms then Inr (report_lines lib u) else Inl Panic)"
proof (cases "unat (pu_timestamp u) < max_timestamp_ms")
  case True
  then have "display_progress lib u = Inr (as_text (report_lines lib u))"
    unfolding display_progress_def format_ts_def text_events text_cores report_lines_def by simp
  then show ?thesis
    using True split_as_text [OF report_lines_one_line [OF assms]] by simp
qed (simp add: display_progress_def format_ts_def)

definition sample_text :: text_libraries where
  "sample_text =
     \<lparr>tx_paint = (\<lambda>_ s. s), tx_hash = (\<lambda>_. ''0x2a''), tx_iso8601 = (\<lambda>_. ''1970-01-01''), tx_fixed = (\<lambda>_ _. ''1'')\<rparr>"

lemma sample_text_keeps_lines: "keeps_lines sample_text"
  by (simp add: keeps_lines_def sample_text_def)

definition sample_report :: "consensus_event list \<Rightarrow> progress_update" where
  "sample_report events =
     \<lparr>pu_para_id = 7, pu_timestamp = 12000, pu_prev_timestamp = 6000, pu_block_number = 5, pu_block_hash = 42,
      pu_core_occupied = [(1, True)], pu_events = events, pu_is_fork = False, pu_finality_lag = None\<rparr>"

theorem report_text_exact_witness:
  "map_sum id (split_lines []) (display_progress sample_text (sample_report [EvCoreAssigned 1, EvSkippedSlot])) =
    Inr (report_lines sample_text (sample_report [EvCoreAssigned 1, EvSkippedSlot])) \<and>
   length (report_lines sample_text (sample_report [EvCoreAssigned 1, EvSkippedSlot])) = 7"
  using report_text_exact [OF sample_text_keeps_lines, of "sample_report [EvCoreAssigned 1, EvSkippedSlot]"]
  by (simp add: sample_report_def max_timestamp_ms_def report_lines_def)

section \<open>The totals of the message queues\<close>

lemma queue_event_lines:
  "split_lines [] (display_event lib (EvMessageQueues inbound outbound)) = event_lines lib (EvMessageQueues inbound outbound)"
  unfolding text_event
  by (rule split_as_text) (auto simp: queue_lines_def queues_line_def channel_line_def list_all_iff)

lemma queues_line_inject: "queues_line what a = queues_line what b \<longleftrightarrow> a = b"
  by (simp add: queues_line_def)

lemma other_lines:
  "queues_line '' Outbound HRMP messages, sent '' a \<noteq> queues_line '' Inbound HRMP messages, received '' b"
  "queues_line what a \<noteq> channel_line direction ch"
  by (simp_all add: queues_line_def channel_line_def tabs_def numeral_2_eq_2)

text \<open>The line about the outbound message queues of a parachain gives the number of bytes received: it is right
  exactly if as much was sent as was received.\<close>

theorem outbound_total_misreported:
  assumes "outbound \<noteq> []"
  shows "queues_line '' Outbound HRMP messages, sent '' (total_size outbound) \<in>
      set (split_lines [] (display_event lib (EvMessageQueues inbound outbound))) \<longleftrightarrow>
    total_size inbound = total_size outbound"
  using assms unfolding queue_event_lines
  by (auto simp: queue_lines_def other_lines queues_line_inject)

theorem outbound_total_misreported_witness:
  "queues_line '' Outbound HRMP messages, sent '' 30 \<notin>
    set (split_lines [] (display_event sample_text (EvMessageQueues []
      [(2, \<lparr>ch_max_capacity = 8, ch_max_total_size = 800, ch_max_message_size = 100, ch_msg_count = 1, ch_total_size = 30,
         ch_mqc_head = None, ch_sender_deposit = 0, ch_recipient_deposit = 0\<rparr>)])))"
  using outbound_total_misreported [of "[(2, \<lparr>ch_max_capacity = 8, ch_max_total_size = 800, ch_max_message_size = 100,
      ch_msg_count = 1, ch_total_size = 30, ch_mqc_head = None, ch_sender_deposit = 0, ch_recipient_deposit = 0\<rparr>)]" sample_text "[]"]
  by (simp add: total_size_def)

end
