(* ===== verification/Kvdb_Metrics.thy ===== *)
theory Kvdb_Metrics
  imports Durations Kvdb_Laws
begin

text \<open>
  The metrics of the database tool, \<^verbatim>\<open>kvdb/src/prometheus.rs\<close>: a loop that counts every column, sets three gauges
  per column and reopens the database. The pauses that spare a live database are drawn at random: the draws
  are the argument \<open>dice\<close>. A floating-point number is a rational. Serving the endpoint is the library's.
\<close>

section \<open>Options and gauges\<close>

record kvdb_prometheus_options =
  kp_address :: string
  kp_port :: u16
  kp_poll_timeout :: rat
  kp_sleep_probability :: rat
  kp_sleep_time :: rat

type_synonym i64 = "64 word"

record kvdb_gauges =
  kg_keys_size :: "bytes \<Rightarrow> i64 option"
  kg_values_size :: "bytes \<Rightarrow> i64 option"
  kg_elements_count :: "bytes \<Rightarrow> i64 option"

text \<open>\<open>register\<close> refuses a family whose name is taken.\<close>

fun register_all :: "(string \<Rightarrow> 'reg \<Rightarrow> 'reg option) \<Rightarrow> string list \<Rightarrow> 'reg \<Rightarrow> fault + 'reg" where
  "register_all register [] registry = Inr registry"
| "register_all register (name # names) registry =
     rbind (expect (register name registry)) (register_all register names)"

definition register_metrics :: "(string \<Rightarrow> 'reg \<Rightarrow> 'reg option) \<Rightarrow> 'reg \<Rightarrow> fault + ('reg \<times> kvdb_gauges)" where
  "register_metrics register registry =
     rbind (register_all register [''kvdb_elements_count'', ''kvdb_keys_size'', ''kvdb_values_size''] registry) (\<lambda>registry.
       Inr (registry, \<lparr>kg_keys_size = Map.empty, kg_values_size = Map.empty, kg_elements_count = Map.empty\<rparr>))"

section \<open>Counting a column\<close>

record update_result =
  ur_column :: bytes
  ur_keys_count :: i64
  ur_keys_space :: i64
  ur_values_space :: i64

record scan =
  sc_keys_count :: i64
  sc_keys_space :: i64
  sc_values_space :: i64
  sc_size_factor :: rat
  sc_draws :: nat
  sc_sleeps :: nat

definition count_update :: "kv_entry \<Rightarrow> scan \<Rightarrow> scan" where
  "count_update = (\<lambda>(key, val) s.
     s\<lparr>sc_keys_space := sc_keys_space s + word_of_nat (length key), sc_keys_count := sc_keys_count s + 1,
       sc_values_space := sc_values_space s + word_of_nat (length val)\<rparr>)"

definition maybe_sleep :: "kvdb_prometheus_options \<Rightarrow> (nat \<Rightarrow> rat) \<Rightarrow> kv_entry \<Rightarrow> scan \<Rightarrow> fault + scan" where
  "maybe_sleep opts dice = (\<lambda>(key, val) s.
     if kp_sleep_probability opts > 0 \<and> kp_sleep_time opts > 0 then
       let die = dice (sc_draws s);
           size_factor = sc_size_factor s + of_nat (length key + length val) / 10240;
           s = s\<lparr>sc_draws := sc_draws s + 1, sc_size_factor := size_factor\<rparr>
       in if die < kp_sleep_probability opts * size_factor
          then rbind (sleep_secs (kp_sleep_time opts)) (\<lambda>_.
            Inr (s\<lparr>sc_sleeps := sc_sleeps s + 1, sc_size_factor := 1\<rparr>))
          else Inr s
     else Inr s)"

definition scan_column ::
  "kvdb_prometheus_options \<Rightarrow> (nat \<Rightarrow> rat) \<Rightarrow> kv_entry list \<Rightarrow> nat \<times> nat \<Rightarrow> fault + scan" where
  "scan_column opts dice entries = (\<lambda>(draws, sleeps).
     rfold (\<lambda>entry s. maybe_sleep opts dice entry (count_update entry s)) entries
       \<lparr>sc_keys_count = 0, sc_keys_space = 0, sc_values_space = 0, sc_size_factor = 1, sc_draws = draws, sc_sleeps = sleeps\<rparr>)"

text \<open>The columns until one has no iterator, with whether all were counted.\<close>

fun update_columns ::
  "kvdb_prometheus_options \<Rightarrow> (nat \<Rightarrow> rat) \<Rightarrow> kvdb \<Rightarrow> bytes list \<Rightarrow> nat \<times> nat \<Rightarrow>
   fault + (update_result list \<times> bool \<times> nat \<times> nat)" where
  "update_columns opts dice db [] pauses = Inr ([], True, pauses)"
| "update_columns opts dice db (col # cols) pauses =
     (case kv_iter_values db col of
        Inl _ \<Rightarrow> Inr ([], False, pauses)
      | Inr entries \<Rightarrow>
          rbind (scan_column opts dice entries pauses) (\<lambda>s.
          rbind (update_columns opts dice db cols (sc_draws s, sc_sleeps s)) (\<lambda>(results, all_done, pauses).
            Inr (\<lparr>ur_column = col, ur_keys_count = sc_keys_count s, ur_keys_space = sc_keys_space s,
                  ur_values_space = sc_values_space s\<rparr> # results, all_done, pauses))))"

definition set_gauges :: "update_result \<Rightarrow> kvdb_gauges \<Rightarrow> kvdb_gauges" where
  "set_gauges res g =
     g\<lparr>kg_elements_count := (kg_elements_count g)(ur_column res \<mapsto> ur_keys_count res),
       kg_keys_size := (kg_keys_size g)(ur_column res \<mapsto> ur_keys_space res),
       kg_values_size := (kg_values_size g)(ur_column res \<mapsto> ur_values_space res)\<rparr>"

section \<open>The loop\<close>

definition maybe_reopen_db :: "fault + kvdb \<Rightarrow> kvdb \<Rightarrow> kvdb" where
  "maybe_reopen_db reopened db = (case reopened of Inr new_db \<Rightarrow> new_db | Inl _ \<Rightarrow> db)"

record update_state =
  us_db :: kvdb
  us_gauges :: kvdb_gauges
  us_pauses :: "nat \<times> nat"

text \<open>One round, with what reopening the database gives at once after a failure and after the pause.\<close>

definition update_db_round ::
  "kvdb_prometheus_options \<Rightarrow> (nat \<Rightarrow> rat) \<Rightarrow> (fault + kvdb) \<times> (fault + kvdb) \<Rightarrow> update_state \<Rightarrow> fault + update_state" where
  "update_db_round opts dice = (\<lambda>(at_once, after_pause) st.
     rbind (update_columns opts dice (us_db st) (kv_columns (us_db st)) (us_pauses st)) (\<lambda>(update_results, all_done, pauses).
     let st = (if all_done then st\<lparr>us_gauges := fold set_gauges update_results (us_gauges st)\<rparr>
               else st\<lparr>us_db := maybe_reopen_db at_once (us_db st)\<rparr>)
     in rbind (sleep_secs (kp_poll_timeout opts)) (\<lambda>_.
        Inr (st\<lparr>us_db := maybe_reopen_db after_pause (us_db st), us_pauses := pauses\<rparr>))))"

definition update_db ::
  "kvdb_prometheus_options \<Rightarrow> (nat \<Rightarrow> rat) \<Rightarrow> ((fault + kvdb) \<times> (fault + kvdb)) list \<Rightarrow> update_state \<Rightarrow> fault + update_state" where
  "update_db opts dice rounds st = rfold (update_db_round opts dice) rounds st"

section \<open>What the gauges show\<close>

definition sane_pauses :: "kvdb_prometheus_options \<Rightarrow> bool" where
  "sane_pauses opts \<longleftrightarrow>
     from_secs_f32_ok (kp_poll_timeout opts) \<and>
     (kp_sleep_probability opts > 0 \<and> kp_sleep_time opts > 0 \<longrightarrow> from_secs_f32_ok (kp_sleep_time opts))"

definition totals :: "kv_entry list \<Rightarrow> i64 \<times> i64 \<times> i64" where
  "totals entries =
     (word_of_nat (length entries), word_of_nat (sum_list (map (length \<circ> fst) entries)),
      word_of_nat (sum_list (map (length \<circ> snd) entries)))"

definition scan_totals :: "scan \<Rightarrow> i64 \<times> i64 \<times> i64" where
  "scan_totals s = (sc_keys_count s, sc_keys_space s, sc_values_space s)"

lemma maybe_sleep_keeps:
  assumes "sane_pauses opts"
  shows "\<exists>s'. maybe_sleep opts dice (key, val) s = Inr s' \<and> scan_totals s' = scan_totals s"
proof (cases "kp_sleep_probability opts > 0 \<and> kp_sleep_time opts > 0")
  case True
  with assms have "sleep_secs (kp_sleep_time opts) = Inr ()" by (simp add: sane_pauses_def sleep_secs_def)
  then show ?thesis by (simp add: maybe_sleep_def Let_def scan_totals_def)
qed (auto simp: maybe_sleep_def)

lemma scan_entries:
  assumes "sane_pauses opts"
  shows "\<exists>s'. rfold (\<lambda>entry s. maybe_sleep opts dice entry (count_update entry s)) entries s = Inr s' \<and>
    scan_totals s' = (case totals entries of (n, k, v) \<Rightarrow> (sc_keys_count s + n, sc_keys_space s + k, sc_values_space s + v))"
proof (induction entries arbitrary: s)
  case (Cons entry entries)
  obtain key val where entry: "entry = (key, val)" by force
  obtain s1 where s1: "maybe_sleep opts dice entry (count_update entry s) = Inr s1"
    "scan_totals s1 = scan_totals (count_update entry s)"
    using maybe_sleep_keeps [OF assms] entry by blast
  from Cons.IH [of s1] s1 show ?case
    by (auto simp: totals_def scan_totals_def entry count_update_def algebra_simps split: prod.splits)
qed (simp add: scan_totals_def totals_def)

lemma scan_column_totals:
  assumes "sane_pauses opts"
  shows "\<exists>s. scan_column opts dice entries pauses = Inr s \<and> scan_totals s = totals entries"
  using scan_entries [OF assms] unfolding scan_column_def
  by (cases pauses) (fastforce simp: totals_def split: prod.splits)

text \<open>A round is complete if the database iterates over all its columns.\<close>

definition complete :: "kvdb \<Rightarrow> bool" where
  "complete db \<longleftrightarrow> (\<forall>col \<in> set (kv_columns db). \<exists>entries. kv_iter_values db col = Inr entries)"

definition counted :: "kvdb \<Rightarrow> bytes \<Rightarrow> i64 \<times> i64 \<times> i64" where
  "counted db col = (case kv_iter_values db col of Inr entries \<Rightarrow> totals entries | Inl _ \<Rightarrow> (0, 0, 0))"

definition result_of :: "bytes \<Rightarrow> i64 \<times> i64 \<times> i64 \<Rightarrow> update_result" where
  "result_of col = (\<lambda>(n, k, v). \<lparr>ur_column = col, ur_keys_count = n, ur_keys_space = k, ur_values_space = v\<rparr>)"

lemma update_columns_exact:
  assumes "sane_pauses opts"
  shows "\<exists>results done pauses'. update_columns opts dice db cols pauses = Inr (results, done, pauses') \<and>
    (done \<longleftrightarrow> (\<forall>col \<in> set cols. \<exists>entries. kv_iter_values db col = Inr entries)) \<and>
    (done \<longrightarrow> results = map (\<lambda>col. result_of col (counted db col)) cols)"
proof (induction cols arbitrary: pauses)
  case (Cons col cols)
  show ?case
  proof (cases "kv_iter_values db col")
    case (Inr entries)
    obtain s where s: "scan_column opts dice entries pauses = Inr s" "scan_totals s = totals entries"
      using scan_column_totals [OF assms] by blast
    obtain results "done" pauses' where rest:
      "update_columns opts dice db cols (sc_draws s, sc_sleeps s) = Inr (results, done, pauses')"
      "done \<longleftrightarrow> (\<forall>col \<in> set cols. \<exists>entries. kv_iter_values db col = Inr entries)"
      "done \<longrightarrow> results = map (\<lambda>col. result_of col (counted db col)) cols"
      using Cons.IH by blast
    have "result_of col (counted db col) =
        \<lparr>ur_column = col, ur_keys_count = sc_keys_count s, ur_keys_space = sc_keys_space s, ur_values_space = sc_values_space s\<rparr>"
      using s(2) by (cases "totals entries") (simp add: result_of_def counted_def Inr scan_totals_def)
    with rest s(1) Inr show ?thesis by simp
  qed (auto intro: exI [where x = False])
qed (auto intro: exI [where x = True])

lemma set_gauges_all:
  "fold set_gauges (map (\<lambda>col. result_of col (f col)) cols) g =
    \<lparr>kg_keys_size = (\<lambda>col. if col \<in> set cols then Some (fst (snd (f col))) else kg_keys_size g col),
     kg_values_size = (\<lambda>col. if col \<in> set cols then Some (snd (snd (f col))) else kg_values_size g col),
     kg_elements_count = (\<lambda>col. if col \<in> set cols then Some (fst (f col)) else kg_elements_count g col)\<rparr>"
proof (induction cols arbitrary: g)
  case (Cons col cols)
  then show ?case by (cases "f col") (auto simp: set_gauges_def result_of_def fun_eq_iff)
qed simp

text \<open>The databases that the rounds of a run work on.\<close>

definition next_db :: "kvdb \<Rightarrow> (fault + kvdb) \<times> (fault + kvdb) \<Rightarrow> kvdb" where
  "next_db db = (\<lambda>(at_once, after_pause).
     maybe_reopen_db after_pause (if complete db then db else maybe_reopen_db at_once db))"

fun databases :: "kvdb \<Rightarrow> ((fault + kvdb) \<times> (fault + kvdb)) list \<Rightarrow> kvdb list" where
  "databases db [] = []"
| "databases db (r # rounds) = db # databases (next_db db r) rounds"

text \<open>What a column was counted at last by a complete round; the newest database comes last.\<close>

definition last_counted :: "kvdb list \<Rightarrow> bytes \<Rightarrow> (i64 \<times> i64 \<times> i64) option" where
  "last_counted dbs col =
     map_option (\<lambda>db. counted db col) (find (\<lambda>db. complete db \<and> col \<in> set (kv_columns db)) (rev dbs))"

definition shown :: "kvdb_gauges \<Rightarrow> bytes \<Rightarrow> (i64 \<times> i64 \<times> i64) option" where
  "shown g col =
     (case (kg_elements_count g col, kg_keys_size g col, kg_values_size g col) of
        (Some n, Some k, Some v) \<Rightarrow> Some (n, k, v) | _ \<Rightarrow> None)"

lemma update_round_exact:
  assumes "sane_pauses opts"
  shows "\<exists>st'. update_db_round opts dice r st = Inr st' \<and> us_db st' = next_db (us_db st) r \<and>
    (\<forall>col. shown (us_gauges st') col =
      (if complete (us_db st) \<and> col \<in> set (kv_columns (us_db st)) then Some (counted (us_db st) col)
       else shown (us_gauges st) col))"
proof -
  obtain results "done" pauses' where columns:
    "update_columns opts dice (us_db st) (kv_columns (us_db st)) (us_pauses st) = Inr (results, done, pauses')"
    "done \<longleftrightarrow> complete (us_db st)"
    "done \<longrightarrow> results = map (\<lambda>col. result_of col (counted (us_db st) col)) (kv_columns (us_db st))"
    using update_columns_exact [OF assms, of dice "us_db st" "kv_columns (us_db st)" "us_pauses st"]
    unfolding complete_def by blast
  have "sleep_secs (kp_poll_timeout opts) = Inr ()" using assms by (simp add: sane_pauses_def sleep_secs_def)
  with columns show ?thesis
    by (cases r) (auto simp: update_db_round_def next_db_def set_gauges_all shown_def Let_def split: option.splits)
qed

lemma find_rev_Cons: "find P (rev (x # xs)) = (case find P (rev xs) of None \<Rightarrow> if P x then Some x else None | Some y \<Rightarrow> Some y)"
proof -
  have "find P (ys @ zs) = (case find P ys of None \<Rightarrow> find P zs | Some y \<Rightarrow> Some y)" for ys zs
    by (induction ys) auto
  then show ?thesis by (simp split: option.split)
qed


definition sample_pauses :: kvdb_prometheus_options where
  "sample_pauses =
     \<lparr>kp_address = ''0.0.0.0'', kp_port = 65432, kp_poll_timeout = 300, kp_sleep_probability = 1 / 100000, kp_sleep_time = 1 / 100\<rparr>"

definition one_column :: "fault + kv_entry list \<Rightarrow> kvdb" where
  "one_column entries =
     \<lparr>kv_columns = [[104]], kv_iter_values = (\<lambda>_. entries), kv_prefixed_iter_values = (\<lambda>_ _. entries)\<rparr>"

definition no_gauges :: kvdb_gauges where
  "no_gauges = \<lparr>kg_keys_size = Map.empty, kg_values_size = Map.empty, kg_elements_count = Map.empty\<rparr>"


end
