(* ===== verification/Kvdb_Tool.thy ===== *)
theory Kvdb_Tool
  imports Kvdb_Metrics
begin

text \<open>
  The run of the database tool, \<^verbatim>\<open>kvdb/src/main.rs\<close>: the command that is chosen, what it prints, and the opening
  of the destination of a dump (\<^verbatim>\<open>new_dumper\<close>). The text of a result is written out; JSON, bincode, the snappy
  frame, the decimals of a quotient and the \<^verbatim>\<open>Debug\<close> form of decoded fields are the libraries'.
\<close>

section \<open>Results and their text\<close>

datatype kvdb_result = ResultUsage usage_results | ResultDecoded "key_decode_result list"

record output_libraries =
  ol_json :: "kvdb_result \<Rightarrow> fault + bytes"
  ol_bincode :: "kvdb_result \<Rightarrow> fault + bytes"
  ol_snappy :: "bytes \<Rightarrow> fault + bytes"
  ol_two_decimals :: "rat \<Rightarrow> bytes"
  ol_debug_fields :: "decode_result list \<Rightarrow> bytes"

definition display_usage :: "output_libraries \<Rightarrow> usage_results \<Rightarrow> bytes" where
  "display_usage lib u =
     us_description u @ ascii '': '' @ show_size (us_keys_count u) @ ascii '' keys size: '' @ show_size (us_keys_size u) @
     (if us_keys_count u > 0
      then ascii '' bytes ('' @ ol_two_decimals lib (of_nat (us_keys_size u) / of_nat (us_keys_count u)) @
        ascii '' bytes per key in average), values size: '' @ show_size (us_values_size u) @ ascii '' bytes ('' @
        ol_two_decimals lib (of_nat (us_values_size u) / of_nat (us_keys_count u)) @ ascii '' bytes per value in average)''
      else ascii '' bytes (0 bytes per key in average), values size: '' @ show_size (us_values_size u) @
        ascii '' bytes (0 bytes per value in average)'')"

definition display_key_decode_result :: "output_libraries \<Rightarrow> key_decode_result \<Rightarrow> bytes" where
  "display_key_decode_result lib r =
     ol_debug_fields lib (kd_fields r) @ ascii ''; value size: '' @ show_size (kd_value_size r)"

definition display_decoded_output :: "output_libraries \<Rightarrow> key_decode_result list \<Rightarrow> bytes" where
  "display_decoded_output lib rs = concat (map (\<lambda>r. display_key_decode_result lib r @ [10]) rs)"

datatype kvdb_output_mode = OutPretty | OutJson | OutBincode

definition output_result :: "output_libraries \<Rightarrow> kvdb_output_mode \<Rightarrow> bool \<Rightarrow> kvdb_result \<Rightarrow> fault + bytes" where
  "output_result lib mode compress res =
     rbind (case mode of
         OutJson \<Rightarrow> ol_json lib res
       | OutPretty \<Rightarrow> Inr ((case res of
           ResultUsage u \<Rightarrow> display_usage lib u | ResultDecoded rs \<Rightarrow> display_decoded_output lib rs) @ [10])
       | OutBincode \<Rightarrow> ol_bincode lib res) (\<lambda>output.
     if compress then ol_snappy lib output else Inr output)"

section \<open>Destinations of a dump\<close>

text \<open>What opening a destination needs of the libraries: RocksDB takes the names of the columns, ParityDB their
  number, as a byte.\<close>

record 'db dump_libraries =
  dl_rocks_open :: "bytes list \<Rightarrow> fault + 'db"
  dl_rocks_put :: "bytes \<Rightarrow> kv_entry \<Rightarrow> 'db \<Rightarrow> 'db option"
  dl_parity_open :: "u8 \<Rightarrow> fault + 'db"
  dl_parity_commit :: "u8 \<Rightarrow> kv_entry list \<Rightarrow> 'db \<Rightarrow> 'db option"

definition rocks_new_dumper :: "'db dump_libraries \<Rightarrow> kvdb \<Rightarrow> fault + 'db" where
  "rocks_new_dumper lib input = dl_rocks_open lib (kv_columns input)"

definition parity_new_dumper :: "'db dump_libraries \<Rightarrow> kvdb \<Rightarrow> fault + 'db" where
  "parity_new_dumper lib input = dl_parity_open lib (word_of_nat (length (kv_columns input)))"

section \<open>Commands\<close>

datatype kvdb_mode =
    KmColumns
  | KmUsage selection
  | KmDecodeKeys key_decode_options
  | KmDump selection "path_component list" dump_mode
  | KmPrometheus kvdb_prometheus_options

record kvdb_options =
  kv_mode :: kvdb_mode
  kv_output :: kvdb_output_mode
  kv_compress :: bool

text \<open>What a run leaves: what it printed, the destination database, the JSON files.\<close>

datatype 'db kvdb_effect =
    Printed "bytes list"
  | DumpedDb 'db
  | DumpedFiles "(path_component list \<times> kv_entry list) list"
  | NothingDone
  | ServesMetrics

definition run_decode_and_print ::
  "(bytes \<Rightarrow> bytes) \<Rightarrow> output_libraries \<Rightarrow> kvdb_options \<Rightarrow> kvdb \<Rightarrow> key_decode_options \<Rightarrow> fault + bytes" where
  "run_decode_and_print hex lib opts db key_opts =
     (case run_decode_keys hex db key_opts of
        Inl DecodePanic \<Rightarrow> Inl Panic
      | Inl _ \<Rightarrow> Inl Fail
      | Inr rs \<Rightarrow> output_result lib (kv_output opts) (kv_compress opts) (ResultDecoded rs))"

definition run_dump ::
  "'db dump_libraries \<Rightarrow> kvdb \<Rightarrow> selection \<Rightarrow> path_component list \<Rightarrow> dump_mode \<Rightarrow> 'db kvdb_effect \<times> (fault + unit)" where
  "run_dump lib db sel output_dir mode =
     (case mode of
        DumpRocksDB \<Rightarrow>
          (case rocks_new_dumper lib db of
             Inl e \<Rightarrow> (NothingDone, Inl e)
           | Inr dest \<Rightarrow>
               (case dump_into_db (rocks_write_iter (dl_rocks_put lib) False (kv_columns db)) db sel dest of
                  (result, dest') \<Rightarrow> (DumpedDb dest', result)))
      | DumpParityDB \<Rightarrow>
          (case parity_new_dumper lib db of
             Inl e \<Rightarrow> (NothingDone, Inl e)
           | Inr dest \<Rightarrow>
               (case dump_into_db (parity_write_iter (dl_parity_commit lib) (kv_columns db)) db sel dest of
                  (result, dest') \<Rightarrow> (DumpedDb dest', result)))
      | DumpJson \<Rightarrow> (case dump_into_json db sel output_dir of (files, result) \<Rightarrow> (DumpedFiles files, result)))"

text \<open>\<open>create_dir\<close> is the creation of the output directory of a dump, where it is missing.\<close>

definition run_with_db ::
  "(bytes \<Rightarrow> bytes) \<Rightarrow> output_libraries \<Rightarrow> 'db dump_libraries \<Rightarrow> fault + unit \<Rightarrow> kvdb_options \<Rightarrow> kvdb \<Rightarrow>
   'db kvdb_effect \<times> (fault + unit)" where
  "run_with_db hex lib dumps create_dir opts db =
     (case kv_mode opts of
        KmColumns \<Rightarrow> (Printed (map (\<lambda>col. col @ [10]) (kv_columns db)), Inr ())
      | KmUsage sel \<Rightarrow>
          (case each (\<lambda>col. rbind (column_usage db sel col) (\<lambda>res.
              output_result lib (kv_output opts) (kv_compress opts) (ResultUsage res))) (selected_columns db sel) of
             (printed, result) \<Rightarrow> (Printed printed, result))
      | KmDecodeKeys key_opts \<Rightarrow>
          (case run_decode_and_print hex lib opts db key_opts of
             Inl e \<Rightarrow> (Printed [], Inl e)
           | Inr printed \<Rightarrow> (Printed [printed], Inr ()))
      | KmDump sel output_dir mode \<Rightarrow>
          (case create_dir of Inl e \<Rightarrow> (NothingDone, Inl e) | Inr _ \<Rightarrow> run_dump dumps db sel output_dir mode)
      | KmPrometheus _ \<Rightarrow> (ServesMetrics, Inr ()))"

section \<open>A dump into ParityDB, opened again\<close>

text \<open>What ParityDB documents of \<^verbatim>\<open>commit\<close>: the changes are applied in order; \<open>view\<close> is a read of a column.\<close>

definition commits :: "('db \<Rightarrow> u8 \<Rightarrow> bytes \<Rightarrow> bytes option) \<Rightarrow> (u8 \<Rightarrow> kv_entry list \<Rightarrow> 'db \<Rightarrow> 'db option) \<Rightarrow> bool" where
  "commits view commit \<longleftrightarrow> (\<forall>idx es db. \<exists>db'. commit idx es db = Some db' \<and>
     (\<forall>i key. view db' i key = (if i = idx then (view db i ++ map_of (rev es)) key else view db i key)))"

definition parity_view :: "('db \<Rightarrow> u8 \<Rightarrow> bytes \<Rightarrow> bytes option) \<Rightarrow> bytes list \<Rightarrow> 'db \<Rightarrow> bytes \<Rightarrow> bytes \<Rightarrow> bytes option" where
  "parity_view view cols db col key =
     (case column_idx cols col of Inr idx \<Rightarrow> view db idx key | Inl _ \<Rightarrow> None)"

lemma position_nth:
  assumes "distinct cols" "i < length cols"
  shows "position cols (cols ! i) = Some i"
proof -
  have "takeWhile (\<lambda>c. c \<noteq> cols ! i) cols = take i cols"
    using assms by (intro takeWhile_eq_take_P_nth) (auto simp: nth_eq_iff_index_eq)
  with assms(2) show ?thesis by (simp add: position_def Let_def)
qed

lemma column_idx_nth:
  "distinct cols \<Longrightarrow> i < length cols \<Longrightarrow> column_idx cols (cols ! i) = Inr (word_of_nat i)"
  by (simp add: column_idx_def position_nth)

lemma column_idx_inj:
  assumes "distinct cols" "length cols \<le> 256" "c \<in> set cols" "d \<in> set cols" "column_idx cols c = column_idx cols d"
  shows "c = d"
proof -
  obtain i j where ij: "c = cols ! i" "i < length cols" "d = cols ! j" "j < length cols"
    using assms(3,4) by (metis in_set_conv_nth)
  then have "(word_of_nat i :: u8) = word_of_nat j" using assms(1,5) by (simp add: column_idx_nth)
  moreover have "unat (word_of_nat m :: u8) = m" if "m < length cols" for m
    using that assms(2) by (simp add: unat_of_nat take_bit_nat_eq_self)
  ultimately have "i = j" using ij(2,4) by metis
  with ij show ?thesis by simp
qed

lemma column_idx_mem: "column_idx cols c = Inr idx \<Longrightarrow> c \<in> set cols"
  using nth_length_takeWhile [of "\<lambda>d. d \<noteq> c" cols]
  by (auto simp: column_idx_def position_def Let_def split: if_splits dest: nth_mem)

lemma parity_writes_columns:
  assumes "commits view commit" "distinct cols" "length cols \<le> 256"
  shows "writes_columns (parity_view view cols) (parity_write_iter commit cols) cols"
  unfolding writes_columns_def
proof (intro ballI allI impI)
  fix col source db and es :: "kv_entry list"
  assume col: "col \<in> set cols" and es: "\<forall>k v. (k, v) \<in> set es \<longrightarrow> source col k = Some v"
  obtain i where i: "col = cols ! i" "i < length cols" using col by (metis in_set_conv_nth)
  then have idx: "column_idx cols col = Inr (word_of_nat i)" using assms(2) by (simp add: column_idx_nth)
  obtain db' where db': "commit (word_of_nat i) es db = Some db'"
    "\<And>j key. view db' j key = (if j = word_of_nat i then (view db j ++ map_of (rev es)) key else view db j key)"
    using assms(1) unfolding commits_def by blast
  have "map_of (rev es) key = (if key \<in> fst ` set es then source col key else None)" for key
  proof (cases "map_of (rev es) key")
    case None
    then show ?thesis by (metis map_of_eq_None_iff set_rev)
  next
    case (Some v)
    then have "(key, v) \<in> set es" using map_of_SomeD by fastforce
    with es Some show ?thesis by force
  qed
  note entries = this
  have "parity_view view cols db' c k = (if c = col \<and> k \<in> fst ` set es then source c k else parity_view view cols db c k)" for c k
  proof (cases "c = col")
    case True
    show ?thesis
    proof (cases "k \<in> fst ` set es")
      case in_es: True
      then obtain v where "source col k = Some v" using es by force
      with True in_es show ?thesis by (simp add: parity_view_def idx db'(2) map_add_def entries)
    qed (use True in \<open>simp add: parity_view_def idx db'(2) map_add_def entries\<close>)
  next
    case False
    have "idx' \<noteq> word_of_nat i" if "column_idx cols c = Inr idx'" for idx'
      using column_idx_inj [OF assms(2,3) column_idx_mem [OF that] col] idx that False by auto
    then show ?thesis using False by (auto simp: parity_view_def db'(2) split: sum.split)
  qed
  then have "copied (parity_view view cols) source (\<lambda>c k. c = col \<and> k \<in> fst ` set es) db db'" by (simp add: copied_def)
  then show "\<exists>db'. parity_write_iter commit cols col es db = (Inr (), db') \<and>
      copied (parity_view view cols) source (\<lambda>c k. c = col \<and> k \<in> fst ` set es) db db'"
    using db'(1) by (simp add: parity_write_iter_def idx)
qed


text \<open>A library of two columns kept as functions.\<close>

definition sample_dumps :: "(u8 \<Rightarrow> bytes \<Rightarrow> bytes option) dump_libraries" where
  "sample_dumps =
     \<lparr>dl_rocks_open = (\<lambda>_. Inl Fail), dl_rocks_put = (\<lambda>_ _ _. None), dl_parity_open = (\<lambda>_. Inr (\<lambda>_ _. None)),
      dl_parity_commit = (\<lambda>idx es db. Some (db(idx := db idx ++ map_of (rev es))))\<rparr>"

lemma sample_dumps_commits: "commits (\<lambda>db. db) (dl_parity_commit sample_dumps)"
  by (simp add: commits_def sample_dumps_def)

definition named_source :: kvdb where
  "named_source =
     \<lparr>kv_columns = [[104], [105]], kv_iter_values = (\<lambda>col. if col = [104] then Inr [([1], [7])] else Inr []),
      kv_prefixed_iter_values = (\<lambda>col p. Inr (filter (\<lambda>(k, _). prefix p k) (if col = [104] then [([1], [7])] else [])))\<rparr>"

definition named_content :: "bytes \<Rightarrow> kv_entry list" where
  "named_content col = (if col = [104] then [([1], [7])] else [])"


text \<open>The usage command prints one text for each selected column, in order, until the first error.\<close>

lemma usage_prints_each:
  assumes "kv_mode opts = KmUsage sel" "run_usage db sel = (results, Inr ())"
    and "\<And>u. output_result lib (kv_output opts) (kv_compress opts) (ResultUsage u) = Inr (text u)"
  shows "run_with_db hex lib dumps create_dir opts db = (Printed (map text results), Inr ())"
proof -
  have "each (\<lambda>col. rbind (column_usage db sel col) (\<lambda>res. Inr (text res))) cols = (map text us, Inr ())"
    if "each (column_usage db sel) cols = (us, Inr ())" for cols us
    using that by (induction cols arbitrary: us) (auto split: sum.splits prod.splits)
  with assms(2) show ?thesis by (simp add: run_with_db_def assms(1,3) run_usage_def)
qed

end
