(* ===== verification/Web_Api.thy ===== *)
theory Web_Api
  imports Storage_Api Collector_Samples
begin

text \<open>
  The HTTP interface of the collector, \<^verbatim>\<open>essentials/src/collector/ws.rs\<close>: its handlers over the storage that the
  collector fills. The storage task is the one of \<^verbatim>\<open>Storage_Api\<close>; reading a hash from its text is the parameter
  \<open>hash_from_str\<close>. The server itself, TLS and the JSON of a reply are the library's.
\<close>

section \<open>Replies\<close>

datatype web_reply =
    HealthReply nat timestamp
  | KeysReply "h256 list"
  | CandidateReply candidate_record
  | NoSuchCandidate

datatype rejection = RejNotFound | RejInvalidBody | RejMethodNotAllowed | RejOther

text \<open>A handler's result: a panic, a rejection or a reply. \<^verbatim>\<open>warp::reject::reject()\<close> is a not-found rejection.\<close>

type_synonym web_result = "fault + (rejection + web_reply)"
type_synonym storage_task = "storage api_task"

definition handle_rejection :: "rejection \<Rightarrow> nat \<times> string" where
  "handle_rejection err =
     (case err of
        RejNotFound \<Rightarrow> (404, ''Not Found'')
      | RejInvalidBody \<Rightarrow> (400, ''Invalid Body'')
      | RejMethodNotAllowed \<Rightarrow> (405, ''Method Not Allowed'')
      | RejOther \<Rightarrow> (500, ''Internal Server Error''))"

section \<open>Handlers\<close>

definition health_handler :: "timestamp \<Rightarrow> timestamp option \<Rightarrow> storage_task \<Rightarrow> web_result" where
  "health_handler now ping t =
     rbind (fst (storage_len api_handle_prefixed t)) (\<lambda>storage_size.
       Inr (Inr (HealthReply storage_size (the_default now ping))))"

fun candidate_keys :: "prefix_type list \<Rightarrow> storage_task \<Rightarrow> h256 list \<Rightarrow> fault + h256 list" where
  "candidate_keys [] t found = Inr found"
| "candidate_keys (prefix # prefixes) t found =
     (case prefix of
        PrCandidate _ \<Rightarrow>
          (case storage_keys_prefix api_handle_prefixed prefix t of
             (r, t) \<Rightarrow> rbind r (\<lambda>keys. candidate_keys prefixes t (found @ keys)))
      | _ \<Rightarrow> candidate_keys prefixes t found)"

text \<open>The query's fields: the parachain and the time, each optional.\<close>

definition candidates_handler :: "(u32 option \<times> timestamp option) option \<Rightarrow> storage_task \<Rightarrow> web_result" where
  "candidates_handler query t =
     rbind (case Option.bind query fst of
         Some para_id \<Rightarrow> fst (storage_keys_prefix api_handle_prefixed (PrCandidate para_id) t)
       | None \<Rightarrow> (case storage_prefixes api_handle_prefixed t of
             (r, t) \<Rightarrow> rbind r (\<lambda>prefixes. candidate_keys prefixes t []))) (\<lambda>keys.
       Inr (Inr (KeysReply keys)))"

definition candidate_get_handler :: "(string \<Rightarrow> h256 option) \<Rightarrow> string \<Rightarrow> storage_task \<Rightarrow> web_result" where
  "candidate_get_handler hash_from_str hash t =
     (case hash_from_str hash of
        None \<Rightarrow> Inr (Inl RejNotFound)
      | Some decoded_hash \<Rightarrow>
          rbind (fst (Storage_Api.storage_read api_handle_prefixed decoded_hash t)) (\<lambda>candidate_record.
            case candidate_record of
              Some rec \<Rightarrow>
                (case into_inner de_candidate rec of
                   Inl _ \<Rightarrow> Inr (Inl RejNotFound)
                 | Inr r \<Rightarrow> Inr (Inr (CandidateReply r)))
            | None \<Rightarrow> Inr (Inr NoSuchCandidate)))"

text \<open>A connection of the updates: what is sent until the client or the channel is gone.\<close>

fun handle_ws_connection :: "('u list \<Rightarrow> bool) \<Rightarrow> 'u option list \<Rightarrow> 'u list \<Rightarrow> 'u list" where
  "handle_ws_connection accepts [] sent = sent"
| "handle_ws_connection accepts (None # rest) sent = sent"
| "handle_ws_connection accepts (Some update # rest) sent =
     (if accepts sent then handle_ws_connection accepts rest (sent @ [update]) else sent)"

section \<open>What the handlers read\<close>

lemma serving_reads:
  "Storage_Api.storage_read api_handle_prefixed k (Serving s) = (Inr (pf_get k s), Serving s)"
  "storage_keys_prefix api_handle_prefixed p (Serving s) = (Inr (pf_prefixed_keys p s), Serving s)"
  "storage_prefixes api_handle_prefixed (Serving s) = (Inr (pf_prefixes s), Serving s)"
  "storage_len api_handle_prefixed (Serving s) = (Inr (pf_len s), Serving s)"
  by (simp_all add: client_defs)

fun is_candidate_prefix :: "prefix_type \<Rightarrow> bool" where
  "is_candidate_prefix (PrCandidate _) = True"
| "is_candidate_prefix _ = False"

lemma candidate_keys_serving:
  "candidate_keys prefixes (Serving s) found =
    Inr (found @ concat (map (\<lambda>p. pf_prefixed_keys p s) (filter is_candidate_prefix prefixes)))"
  by (induction prefixes arbitrary: found) (auto simp: serving_reads split: prefix_type.split)

text \<open>The same records with one prefix first; a \<^verbatim>\<open>HashMap\<close> may iterate in any order.\<close>

definition first_prefix :: "prefix_type \<Rightarrow> storage \<Rightarrow> storage" where
  "first_prefix p s = s\<lparr>pf_records := filter (\<lambda>(q, _). q = p) (pf_records s) @ filter (\<lambda>(q, _). q \<noteq> p) (pf_records s)\<rparr>"

lemma map_of_filter_pred: "map_of (filter (\<lambda>(q, _). P q) m) q = (if P q then map_of m q else None)"
  by (induction m) auto

lemma first_prefix_same: "pf_get_prefix q k (first_prefix p s) = pf_get_prefix q k s"
proof -
  have split: "map_of (filter (\<lambda>(q, _). q = p) m @ filter (\<lambda>(q, _). q \<noteq> p) m) q = map_of m q"
    for m :: "(prefix_type, (h256, payload storage_entry) alist) alist"
    by (simp add: map_add_def map_of_filter_pred split: option.split)
  have "pf_records (first_prefix p s) =
      filter (\<lambda>(q, _). q = p) (pf_records s) @ filter (\<lambda>(q, _). q \<noteq> p) (pf_records s)"
    by (simp add: first_prefix_def)
  then show ?thesis by (simp only: pf_get_prefix_def split)
qed

lemma get_first_prefix:
  assumes "pf_get_prefix p k s = Some e"
  shows "pf_get k (first_prefix p s) = Some e"
proof -
  have "find_first k (filter (\<lambda>(q, _). q = p) m @ rest) = Some e"
    if "map_of m p = Some d" "map_of d k = Some e" for m rest d
    using that by (induction m) (auto split: if_splits)
  with assms show ?thesis
    by (auto simp: pf_get_def first_prefix_def pf_get_prefix_def split: option.splits)
qed

section \<open>Properties\<close>

text \<open>Asking for candidates gives the hashes stored for the parachain asked for, or for every parachain one
  after the other, and nothing else; the time of the query changes nothing.\<close>

theorem candidates_listed_exact:
  "candidates_handler query (Serving s) = Inr (Inr (KeysReply
     (case Option.bind query fst of
        Some para_id \<Rightarrow> pf_prefixed_keys (PrCandidate para_id) s
      | None \<Rightarrow> concat (map (\<lambda>p. pf_prefixed_keys p s) (filter is_candidate_prefix (pf_prefixes s))))))"
  by (simp add: candidates_handler_def serving_reads candidate_keys_serving split: option.split)

text \<open>Asking for one candidate depends on the iteration order of a hash map: the collector stores a candidate
  under its parachain and, with the same hash as key, its parachain's number, and the handler reads
  whichever comes first. With the same records the answer is the candidate or, in another order, a
  rejection.\<close>

theorem candidate_reply_depends_on_order:
  assumes "storage_ok s" "hash_from_str hash = Some h"
    and "pf_get_prefix (PrCandidate para_id) h s = Some e" "pf_get_prefix PrCandidatesParachains h s = Some e'"
  shows "\<exists>s1 s2 r. (\<forall>p k. pf_get_prefix p k s1 = pf_get_prefix p k s \<and> pf_get_prefix p k s2 = pf_get_prefix p k s) \<and>
    de_candidate (se_data e) = Some r \<and>
    candidate_get_handler hash_from_str hash (Serving s1) = Inr (Inr (CandidateReply r)) \<and>
    candidate_get_handler hash_from_str hash (Serving s2) = Inr (Inl RejNotFound)"
proof -
  have "entry_ok (PrCandidate para_id) (se_data e)" "entry_ok PrCandidatesParachains (se_data e')"
    using assms(1,3,4) unfolding storage_ok_def by blast+
  then obtain r where r: "de_candidate (se_data e) = Some r" and other: "de_candidate (se_data e') = None"
    by (cases "se_data e'") (auto split: option.splits)
  let ?s1 = "first_prefix (PrCandidate para_id) s" and ?s2 = "first_prefix PrCandidatesParachains s"
  have "candidate_get_handler hash_from_str hash (Serving ?s1) = Inr (Inr (CandidateReply r))"
    "candidate_get_handler hash_from_str hash (Serving ?s2) = Inr (Inl RejNotFound)"
    by (simp_all add: candidate_get_handler_def assms(2) serving_reads get_first_prefix [OF assms(3)]
        get_first_prefix [OF assms(4)] into_inner_def r other)
  with r show ?thesis using first_prefix_same by blast
qed

definition sample_backed :: candidate_event where
  "sample_backed = \<lparr>ce_candidate_hash = 9, ce_relay_parent = 1, ce_parachain_id = 100, ce_event_type = CandidateBacked,
     ce_core_idx = 0\<rparr>"

definition sample_seen :: storage where
  "sample_seen = co_storage (snd (process_candidate_change sample_node 7 sample_backed sample_collector))"

theorem candidate_reply_depends_on_order_witness:
  "\<exists>s1 s2 r. (\<forall>p k. pf_get_prefix p k s1 = pf_get_prefix p k sample_seen \<and> pf_get_prefix p k s2 = pf_get_prefix p k sample_seen) \<and>
    candidate_get_handler (\<lambda>_. Some 9) ''9'' (Serving s1) = Inr (Inr (CandidateReply r)) \<and>
    candidate_get_handler (\<lambda>_. Some 9) ''9'' (Serving s2) = Inr (Inl RejNotFound)"
proof -
  have seen: "storage_ok sample_seen"
    using ok_candidate_change [of sample_node 7 sample_backed] sample_collector_ok
    by (simp add: sample_seen_def keeps_def preserving_def co_ok_def)
  have "\<not> Option.is_none (pf_get_prefix (PrCandidate 100) 9 sample_seen)"
    "\<not> Option.is_none (pf_get_prefix PrCandidatesParachains 9 sample_seen)"
    by code_simp+
  then obtain e e' where "pf_get_prefix (PrCandidate 100) 9 sample_seen = Some e"
    "pf_get_prefix PrCandidatesParachains 9 sample_seen = Some e'" by (auto simp: Option.is_none_def)
  from candidate_reply_depends_on_order [OF seen _ this, of "\<lambda>_. Some 9" "''9''"] show ?thesis by auto
qed

end
