(* ===== verification/Web_Routes.thy ===== *)
theory Web_Routes
  imports Web_Api Telemetry_Subscription
begin

text \<open>
  The routes of the HTTP interface, \<^verbatim>\<open>WebSocketListener::spawn\<close> of \<^verbatim>\<open>essentials/src/collector/ws.rs\<close>: which handler
  a request reaches and with which status it is answered. What the filters of the library warp do is written
  out as documented: \<^verbatim>\<open>path!\<close> matches all segments, \<^verbatim>\<open>query\<close> rejects what does not deserialize, \<^verbatim>\<open>or\<close> tries the next
  route after a rejection, \<^verbatim>\<open>recover\<close> answers what is left. A
  request is its path, its decoded query and whether it carries a websocket handshake; the cross-origin
  filter, TLS and the transport are not modelled.
\<close>

section \<open>Requests\<close>

record web_request =
  wr_path :: "string list"
  wr_query :: "(string \<times> string) list"
  wr_handshake :: bool

text \<open>A field of a query: missing, there once, or there again, which is an error.\<close>

definition query_field :: "string \<Rightarrow> (string \<times> string) list \<Rightarrow> unit + string option" where
  "query_field name query =
     (case filter (\<lambda>(n, _). n = name) query of [] \<Rightarrow> Inr None | [(_, v)] \<Rightarrow> Inr (Some v) | _ \<Rightarrow> Inl ())"

definition required :: "string \<Rightarrow> (string \<Rightarrow> 'a option) \<Rightarrow> (string \<times> string) list \<Rightarrow> 'a option" where
  "required name parse query =
     (case query_field name query of Inr (Some v) \<Rightarrow> parse v | _ \<Rightarrow> None)"

definition optional_field :: "string \<Rightarrow> (string \<Rightarrow> 'a option) \<Rightarrow> (string \<times> string) list \<Rightarrow> 'a option option" where
  "optional_field name parse query =
     (case query_field name query of
        Inl _ \<Rightarrow> None
      | Inr None \<Rightarrow> Some None
      | Inr (Some v) \<Rightarrow> map_option Some (parse v))"

definition parse_u64 :: "string \<Rightarrow> u64 option" where
  "parse_u64 s = map_option word_of_nat (parse_number s)"

definition parse_u32 :: "string \<Rightarrow> u32 option" where
  "parse_u32 s = (case parse_number s of Some n \<Rightarrow> if n < 2 ^ 32 then Some (word_of_nat n) else None | None \<Rightarrow> None)"

definition health_query :: "(string \<times> string) list \<Rightarrow> timestamp option" where
  "health_query query = required ''ts'' parse_u64 query"

definition candidates_query :: "(string \<times> string) list \<Rightarrow> (u32 option \<times> timestamp option) option" where
  "candidates_query query =
     Option.bind (optional_field ''parachain_id'' parse_u32 query) (\<lambda>parachain_id.
     Option.bind (optional_field ''not_before'' parse_u64 query) (\<lambda>not_before.
       Some (parachain_id, not_before)))"

definition candidate_get_query :: "(string \<times> string) list \<Rightarrow> string option" where
  "candidate_get_query query = required ''hash'' Some query"

section \<open>Routes\<close>

datatype web_answer = Answered web_reply | Upgraded

type_synonym route = "storage_task \<Rightarrow> fault + (rejection + web_answer)"

definition at_path :: "string list \<Rightarrow> web_request \<Rightarrow> route \<Rightarrow> route" where
  "at_path path req route = (\<lambda>t. if wr_path req = path then route t else Inr (Inl RejNotFound))"

definition answer_of :: "web_result \<Rightarrow> fault + (rejection + web_answer)" where
  "answer_of r = rbind r (\<lambda>reply. Inr (map_sum id Answered reply))"

text \<open>An optional query that does not deserialize is none.\<close>

definition health_route :: "timestamp \<Rightarrow> web_request \<Rightarrow> route" where
  "health_route now req = at_path [''v1'', ''health''] req (\<lambda>t. answer_of (health_handler now (health_query (wr_query req)) t))"

definition candidates_route :: "web_request \<Rightarrow> route" where
  "candidates_route req = at_path [''v1'', ''candidates''] req (\<lambda>t. answer_of (candidates_handler (candidates_query (wr_query req)) t))"

definition get_candidate_route :: "(string \<Rightarrow> h256 option) \<Rightarrow> web_request \<Rightarrow> route" where
  "get_candidate_route hash_from_str req = at_path [''v1'', ''candidate''] req (\<lambda>t.
     case candidate_get_query (wr_query req) of
       None \<Rightarrow> Inr (Inl RejOther)
     | Some hash \<Rightarrow> answer_of (candidate_get_handler hash_from_str hash t))"

definition ws_route :: "web_request \<Rightarrow> route" where
  "ws_route req = at_path [''v1'', ''ws''] req (\<lambda>t. Inr (if wr_handshake req then Inr Upgraded else Inl RejOther))"

text \<open>Which of two rejections the library keeps is its choice; the routes rely on not-found giving way to any other.\<close>

type_synonym combination = "rejection \<Rightarrow> rejection \<Rightarrow> rejection"

definition not_found_yields :: "combination \<Rightarrow> bool" where
  "not_found_yields combine \<longleftrightarrow> (\<forall>r. combine RejNotFound r = r \<and> combine r RejNotFound = r)"

definition or_else :: "combination \<Rightarrow> route \<Rightarrow> route \<Rightarrow> route" where
  "or_else combine first second = (\<lambda>t. rbind (first t) (\<lambda>r. case r of
     Inr found \<Rightarrow> Inr (Inr found)
   | Inl rejected \<Rightarrow> rbind (second t) (\<lambda>r2. Inr (case r2 of
       Inr found \<Rightarrow> Inr found | Inl rejected2 \<Rightarrow> Inl (combine rejected rejected2)))))"

definition routes :: "combination \<Rightarrow> timestamp \<Rightarrow> (string \<Rightarrow> h256 option) \<Rightarrow> web_request \<Rightarrow> route" where
  "routes combine now hash_from_str req =
     or_else combine (or_else combine (or_else combine (health_route now req) (candidates_route req))
       (get_candidate_route hash_from_str req)) (ws_route req)"

text \<open>The response: its status, with the answer or the message of the recovery.\<close>

datatype web_body = Body web_answer | Message string

fun status_of :: "web_answer \<Rightarrow> nat" where
  "status_of (Answered NoSuchCandidate) = 404"
| "status_of (Answered _) = 200"
| "status_of Upgraded = 101"

definition respond ::
  "combination \<Rightarrow> timestamp \<Rightarrow> (string \<Rightarrow> h256 option) \<Rightarrow> web_request \<Rightarrow> storage_task \<Rightarrow> fault + (nat \<times> web_body)" where
  "respond combine now hash_from_str req t =
     rbind (routes combine now hash_from_str req t) (\<lambda>r. Inr (case r of
       Inr found \<Rightarrow> (status_of found, Body found)
     | Inl rejected \<Rightarrow> (case handle_rejection rejected of (code, message) \<Rightarrow> (code, Message message))))"

text \<open>The server uses TLS exactly if both files are configured.\<close>

definition has_sane_tls :: "string option \<Rightarrow> string option \<Rightarrow> bool" where
  "has_sane_tls privkey cert \<longleftrightarrow> privkey \<noteq> None \<and> cert \<noteq> None"

section \<open>Which request gets which answer\<close>

text \<open>The status of a request for one candidate, as it should depend on what is stored.\<close>

definition candidate_status :: "(string \<Rightarrow> h256 option) \<Rightarrow> (string \<times> string) list \<Rightarrow> storage \<Rightarrow> nat" where
  "candidate_status hash_from_str query s =
     (case candidate_get_query query of
        None \<Rightarrow> 500
      | Some hash \<Rightarrow> (case Option.bind (hash_from_str hash) (\<lambda>h. pf_get h s) of
          None \<Rightarrow> 404
        | Some e \<Rightarrow> if de_candidate (se_data e) = None then 404 else 200))"

lemma route_simps:
  "at_path path req route t = (if wr_path req = path then route t else Inr (Inl RejNotFound))"
  "or_else combine r1 r2 t = rbind (r1 t) (\<lambda>r. case r of
     Inr found \<Rightarrow> Inr (Inr found)
   | Inl rejected \<Rightarrow> rbind (r2 t) (\<lambda>r2. Inr (case r2 of
       Inr found \<Rightarrow> Inr found | Inl rejected2 \<Rightarrow> Inl (combine rejected rejected2))))"
  by (simp_all add: at_path_def or_else_def)

lemma candidate_get_serving:
  "candidate_get_handler hash_from_str hash (Serving s) = Inr (case hash_from_str hash of
     None \<Rightarrow> Inl RejNotFound
   | Some h \<Rightarrow> (case pf_get h s of
       None \<Rightarrow> Inr NoSuchCandidate
     | Some e \<Rightarrow> (case de_candidate (se_data e) of None \<Rightarrow> Inl RejNotFound | Some r \<Rightarrow> Inr (CandidateReply r))))"
  by (simp add: candidate_get_handler_def serving_reads into_inner_def split: option.split)

text \<open>C35: The answer to every request, by its path, while the storage is served. The health of the service and the
  lists of candidates are always answered, malformed queries counting as none; a request for one candidate is
  answered by what is found, but without exactly one hash in its query it is an internal server error, and so
  is one for the updates that is no websocket handshake; every other path is not found. Nothing panics.\<close>

theorem web_answers_exact:
  assumes "not_found_yields combine"
  shows "respond combine now hash_from_str req (Serving s) = Inr
    (if wr_path req = [''v1'', ''health''] then
       (200, Body (Answered (HealthReply (pf_len s) (the_default now (health_query (wr_query req))))))
     else if wr_path req = [''v1'', ''candidates''] then
       (200, Body (Answered (KeysReply (case Option.bind (candidates_query (wr_query req)) fst of
          Some para_id \<Rightarrow> pf_prefixed_keys (PrCandidate para_id) s
        | None \<Rightarrow> concat (map (\<lambda>p. pf_prefixed_keys p s) (filter is_candidate_prefix (pf_prefixes s)))))))
     else if wr_path req = [''v1'', ''candidate''] then
       (candidate_status hash_from_str (wr_query req) s,
        case Option.bind (candidate_get_query (wr_query req)) hash_from_str of
          None \<Rightarrow> Message (if candidate_get_query (wr_query req) = None then ''Internal Server Error'' else ''Not Found'')
        | Some h \<Rightarrow> (case pf_get h s of
            None \<Rightarrow> Body (Answered NoSuchCandidate)
          | Some e \<Rightarrow> (case de_candidate (se_data e) of
              None \<Rightarrow> Message ''Not Found'' | Some r \<Rightarrow> Body (Answered (CandidateReply r)))))
     else if wr_path req = [''v1'', ''ws''] then
       (if wr_handshake req then (101, Body Upgraded) else (500, Message ''Internal Server Error''))
     else (404, Message ''Not Found''))"
proof -
  have distinct: "[''v1'', ''health''] \<noteq> [''v1'', ''candidates'']" "[''v1'', ''health''] \<noteq> [''v1'', ''candidate'']"
    "[''v1'', ''health''] \<noteq> [''v1'', ''ws'']" "[''v1'', ''candidates''] \<noteq> [''v1'', ''candidate'']"
    "[''v1'', ''candidates''] \<noteq> [''v1'', ''ws'']" "[''v1'', ''candidate''] \<noteq> [''v1'', ''ws'']"
    by simp_all
  show ?thesis
    unfolding respond_def routes_def route_simps health_route_def candidates_route_def get_candidate_route_def ws_route_def
    using assms
    by (auto simp: not_found_yields_def answer_of_def candidates_listed_exact health_handler_def serving_reads candidate_get_serving
        candidate_status_def handle_rejection_def bind_eq_Some_conv split: option.split)
qed

theorem web_answers_exact_witness:
  "respond (\<lambda>r1 r2. if r1 = RejNotFound then r2 else r1) 9 (\<lambda>_. None)
      \<lparr>wr_path = [''v1'', ''candidate''], wr_query = [(''hash'', ''0x''), (''hash'', ''0x'')], wr_handshake = False\<rparr>
      (Serving (pf_new 5)) = Inr (500, Message ''Internal Server Error'')"
  using web_answers_exact [of "\<lambda>r1 r2. if r1 = RejNotFound then r2 else r1" 9 "\<lambda>_. None"
      "\<lparr>wr_path = [''v1'', ''candidate''], wr_query = [(''hash'', ''0x''), (''hash'', ''0x'')], wr_handshake = False\<rparr>"
      "pf_new 5"]
  by (simp add: not_found_yields_def candidate_status_def candidate_get_query_def required_def query_field_def)

end
