(* ===== verification/Block_Time_Chart.thy ===== *)
theory Block_Time_Chart
  imports Complex_Main Block_Time_Laws
begin

text \<open>
  The captions of the block time charts, \<^verbatim>\<open>display_chart\<close> of \<^verbatim>\<open>block-time/src/main.rs\<close>: from milliseconds to the
  last, average, least and largest time in seconds. A floating-point number is a rational; the colours and
  the plot itself are the libraries'. Without values the average is no number and there is no least one: then
  there is no caption here.
\<close>

section \<open>Captions\<close>

record caption =
  cp_data :: nat
  cp_last :: rat
  cp_avg :: rat
  cp_min :: rat
  cp_max :: rat

definition scaled_values :: "u64 list \<Rightarrow> rat list" where
  "scaled_values current_values = map (\<lambda>v. of_nat (unat v) / 1000) current_values"

definition caption_of :: "chart_options \<Rightarrow> u64 list \<Rightarrow> caption option" where
  "caption_of opts current_values =
     (case scaled_values current_values of
        [] \<Rightarrow> None
      | v # vs \<Rightarrow>
          Some \<lparr>cp_data = ch_chart_width opts, cp_last = last (v # vs),
                cp_avg = sum_list (v # vs) / of_nat (length (v # vs)),
                cp_min = foldl min v vs, cp_max = foldl max v vs\<rparr>)"

lemma foldl_min_max:
  fixes v :: "'a::linorder"
  shows "\<forall>x \<in> set (v # vs). foldl min v vs \<le> x \<and> x \<le> foldl max v vs"
proof (induction vs rule: rev_induct)
  case (snoc x vs)
  then show ?case by (auto simp: min_le_iff_disj le_max_iff_disj)
qed simp

lemma sum_list_bounds:
  fixes lo hi :: rat
  assumes "\<forall>x \<in> set xs. lo \<le> x \<and> x \<le> hi"
  shows "of_nat (length xs) * lo \<le> sum_list xs \<and> sum_list xs \<le> of_nat (length xs) * hi"
  using assms by (induction xs) (auto simp: algebra_simps)

lemma caption_bounds:
  assumes "vals \<noteq> []"
  shows "\<exists>c. caption_of opts vals = Some c \<and> cp_min c \<le> cp_avg c \<and> cp_avg c \<le> cp_max c \<and>
    cp_last c = of_nat (unat (last vals)) / 1000 \<and>
    (\<forall>v \<in> set vals. cp_min c \<le> of_nat (unat v) / 1000 \<and> of_nat (unat v) / 1000 \<le> cp_max c)"
proof -
  have "scaled_values vals \<noteq> []" using assms by (simp add: scaled_values_def)
  then obtain v vs where vs: "scaled_values vals = v # vs" by (cases "scaled_values vals") simp_all
  let ?n = "of_nat (length (v # vs)) :: rat"
  note ends = foldl_min_max [of v vs]
  have "?n * foldl min v vs \<le> sum_list (v # vs) \<and> sum_list (v # vs) \<le> ?n * foldl max v vs"
    by (rule sum_list_bounds [OF ends])
  then have avg: "foldl min v vs \<le> sum_list (v # vs) / ?n" "sum_list (v # vs) / ?n \<le> foldl max v vs"
    by (simp_all only: pos_le_divide_eq pos_divide_le_eq of_nat_0_less_iff length_greater_0_conv list.distinct
        not_False_eq_True mult.commute)
  have "last (v # vs) = of_nat (unat (last vals)) / 1000"
    using assms by (simp add: vs [symmetric] scaled_values_def last_map)
  moreover have "\<forall>x \<in> set vals. of_nat (unat x) / 1000 \<in> set (v # vs)"
    by (simp add: vs [symmetric] scaled_values_def)
  then have "\<forall>x \<in> set vals. foldl min v vs \<le> of_nat (unat x) / 1000 \<and> of_nat (unat x) / 1000 \<le> foldl max v vs"
    using ends by blast
  ultimately show ?thesis using avg by (simp add: caption_of_def vs del: of_nat_unat divide_le_eq le_divide_eq)
qed

section \<open>What is drawn\<close>

definition drawn_ok :: "chart_options \<Rightarrow> chart \<Rightarrow> bool" where
  "drawn_ok opts c \<longleftrightarrow> (\<forall>vs. ct_values c = Some vs \<longrightarrow> vs \<noteq> [] \<and> length vs \<le> ch_chart_width opts)"

definition display_ok :: "chart_options \<Rightarrow> display_state \<Rightarrow> bool" where
  "display_ok opts d \<longleftrightarrow>
     (\<forall>url vs. map_of (ds_values d) url = Some vs \<longrightarrow> vs \<noteq> [] \<and> length vs \<le> ch_chart_width opts) \<and>
     (\<forall>charts \<in> set (ds_drawn d). \<forall>c \<in> set charts. drawn_ok opts c)"

lemma keep_newest_ok: "0 < width \<Longrightarrow> v \<noteq> [] \<Longrightarrow> keep_newest width v \<noteq> [] \<and> length (keep_newest width v) \<le> width"
  by (auto simp: keep_newest_def)

lemma add_block_time_ok:
  assumes "0 < width" "\<forall>url vs. map_of m url = Some vs \<longrightarrow> vs \<noteq> [] \<and> length vs \<le> width"
  shows "\<forall>u vs. map_of (add_block_time width url t m) u = Some vs \<longrightarrow> vs \<noteq> [] \<and> length vs \<le> width"
proof (cases "map_of m url")
  case None
  with assms show ?thesis by (auto simp: add_block_time_def map_of_hm_put)
next
  case (Some v)
  with assms keep_newest_ok [OF assms(1), of "v @ [t]"] show ?thesis
    by (auto simp: add_block_time_def map_of_hm_put)
qed

lemma display_ok_message:
  assumes "0 < ch_chart_width opts" "display_ok opts d"
  shows "display_ok opts (d\<lparr>ds_values := add_block_time (ch_chart_width opts) url t (ds_values d)\<rparr>)"
  using add_block_time_ok [OF assms(1), of "ds_values d" url t] assms(2)
  unfolding display_ok_def by simp

lemma display_ok_timer:
  assumes "display_ok opts d"
  shows "display_ok opts (d\<lparr>ds_drawn := ds_drawn d @
    [map (\<lambda>(i, url). display_chart url (row i) (map_of (ds_values d) url)) charts]\<rparr>)"
  using assms by (auto simp: display_ok_def drawn_ok_def display_chart_def dest!: spec)

lemma display_step_ok:
  assumes "0 < ch_chart_width opts" "display_ok opts d"
  shows "display_ok opts (display_step opts endpoints n input d)"
proof -
  have "display_ok opts (d\<lparr>ds_stopped := True\<rparr>)" using assms(2) by (simp add: display_ok_def)
  then show ?thesis
    using assms(2) display_ok_message [OF assms]
      display_ok_timer [OF assms(2), of "\<lambda>i. usize_as_u32 (i * (ch_chart_height opts + 3))"]
    unfolding display_step_def by (simp split: display_input.split block_time_message.split)
qed

text \<open>Every chart drawn for a node that has block times shows at least one and at most as many as the chart is
  wide, and its caption is sound: the last time is the newest, and the average lies between the least and the
  largest of the times shown, whatever arrived before.\<close>

theorem drawn_captions_sound:
  assumes "0 < ch_chart_width opts" "charts \<in> set (ds_drawn (display_charts opts endpoints inputs))" "chart \<in> set charts"
    and "ct_values chart = Some shown_values"
  shows "length shown_values \<le> ch_chart_width opts \<and>
    (\<exists>c. caption_of opts shown_values = Some c \<and> cp_min c \<le> cp_avg c \<and> cp_avg c \<le> cp_max c \<and>
      cp_last c = of_nat (unat (last shown_values)) / 1000 \<and>
      (\<forall>v \<in> set shown_values. cp_min c \<le> of_nat (unat v) / 1000 \<and> of_nat (unat v) / 1000 \<le> cp_max c))"
proof -
  have steps: "display_ok opts (foldl (\<lambda>d input. display_step opts endpoints n input d) d inputs)"
    if "display_ok opts d" for d n
    using that by (induction inputs arbitrary: d) (simp_all add: display_step_ok [OF assms(1)])
  have "display_ok opts (display_charts opts endpoints inputs)"
    unfolding display_charts_def by (rule steps) (simp add: display_ok_def)
  then have "shown_values \<noteq> [] \<and> length shown_values \<le> ch_chart_width opts"
    using assms(2-4) unfolding display_ok_def drawn_ok_def by blast
  then show ?thesis using caption_bounds by blast
qed

end
