(* ===== verification/Api_Service.thy ===== *)
theory Api_Service
  imports Storage_Api
begin

text \<open>
  \<^verbatim>\<open>ApiService\<close> of \<^verbatim>\<open>essentials/src/api/mod.rs\<close>: the sending end of a storage task together with a request executor.
  The task is a part of the service here; a clone of the service, which is a clone of the sending end, stands
  for the same task, so that a sequence of calls on clones is a sequence of calls on one service. \<open>'x\<close> is the
  executor.
\<close>

record ('s, 'x) api_service =
  as_storage :: "'s api_task"
  as_executor :: 'x

definition new_with_storage :: "nat \<Rightarrow> 'x \<Rightarrow> (('k, 'd) plain_storage, 'x) api_service" where
  "new_with_storage max_blocks executor =
     \<lparr>as_storage = Serving (pl_new max_blocks), as_executor = executor\<rparr>"

definition new_with_prefixed_storage :: "nat \<Rightarrow> 'x \<Rightarrow> (('k, 'p, 'd) prefixed_storage, 'x) api_service" where
  "new_with_prefixed_storage max_blocks executor =
     \<lparr>as_storage = Serving (pf_new max_blocks), as_executor = executor\<rparr>"

text \<open>A call on \<open>storage()\<close>, and \<open>executor()\<close>.\<close>

definition on_storage :: "('s api_task \<Rightarrow> 'r \<times> 's api_task) \<Rightarrow> ('s, 'x) api_service \<Rightarrow> 'r \<times> ('s, 'x) api_service" where
  "on_storage call service = (let (r, t) = call (as_storage service) in (r, service\<lparr>as_storage := t\<rparr>))"

definition service_executor :: "('s, 'x) api_service \<Rightarrow> 'x" where
  "service_executor service = as_executor service"

text \<open>The first record written through a new service is answered and can be read, except that a storage for no
  blocks answers the write and has nothing: the write fails silently.\<close>

theorem first_write_read:
  assumes "se_type entry \<noteq> Persistent"
  shows "\<exists>service'. on_storage (storage_write api_handle_plain k entry) (new_with_storage max_blocks executor) =
      (Inr (Inr ()), service') \<and>
    fst (on_storage (storage_read api_handle_plain k) service') = Inr (if max_blocks = 0 then None else Some entry) \<and>
    service_executor service' = executor"
  using assms
  by (simp add: on_storage_def new_with_storage_def service_executor_def plain_client_refines_storage as_status_def
      pl_insert_def pl_prune_def pl_get_def pl_new_def Let_def bt_update_default_def hm_put_def)

text \<open>The service that a plain storage backs has no calls with a prefix: one of them ends the task for all clones.\<close>

theorem plain_service_dies:
  "fst (on_storage (storage_read api_handle_plain k)
     (snd (on_storage (storage_read_prefixed api_handle_plain () k') (new_with_storage max_blocks executor)))) = Inl Panic"
  by (simp add: on_storage_def new_with_storage_def plain_client_refines_storage split_def)

end
