(* ===== verification/Telemetry_Text.thy ===== *)
theory Telemetry_Text
  imports Telemetry_Feed Tracer_Text_Laws
begin

text \<open>
  The text of the telemetry messages, the \<^verbatim>\<open>Display\<close> implementations of \<^verbatim>\<open>essentials/src/telemetry_feed.rs\<close>. How
  a hash and a floating-point number are printed are parameters. A literal of several lines is written as its
  lines joined by newlines.
\<close>

section \<open>Display\<close>

record feed_text =
  ft_hash :: "h256 \<Rightarrow> string"
  ft_float :: "rat \<Rightarrow> string"

fun join_strings :: "string \<Rightarrow> string list \<Rightarrow> string" where
  "join_strings sep [] = []"
| "join_strings sep [s] = s"
| "join_strings sep (s # ss) = s @ sep @ join_strings sep ss"

definition display_or :: "('a \<Rightarrow> string) \<Rightarrow> 'a option \<Rightarrow> string \<Rightarrow> string" where
  "display_or show_value option none = (case option of Some v \<Rightarrow> show_value v | None \<Rightarrow> none)"

definition join_floats :: "feed_text \<Rightarrow> rat list \<Rightarrow> string" where
  "join_floats lib xs = join_strings '', '' (map (ft_float lib) xs)"

definition show_flag :: "bool \<Rightarrow> string" where
  "show_flag b = (if b then ''true'' else ''false'')"

definition block_details_lines :: "feed_text \<Rightarrow> block_details \<Rightarrow> string list" where
  "block_details_lines lib b =
     [''Block'',
      ''block_hash: '' @ ft_hash lib (tb_hash (bd_block b)),
      ''block_height: '' @ dec (tb_height (bd_block b)),
      ''block_time: '' @ dec (bd_block_time b),
      ''block_timestamp: '' @ dec (bd_block_timestamp b),
      ''propagation_time: '' @ display_or dec (bd_propagation_time b) ''none'']"

definition display_block_details :: "feed_text \<Rightarrow> block_details \<Rightarrow> string" where
  "display_block_details lib b = join_strings nl (block_details_lines lib b)"

definition sys_info_lines :: "node_sys_info \<Rightarrow> string list" where
  "sys_info_lines i =
     [''SysInfo'',
      ''cpu: '' @ display_or id (ns_cpu i) ''none'',
      ''memory: '' @ display_or dec (ns_memory i) ''none'',
      ''core_count: '' @ display_or dec (ns_core_count i) ''none'',
      ''linux_kernel: '' @ display_or id (ns_linux_kernel i) ''none'',
      ''linux_distro: '' @ display_or id (ns_linux_distro i) ''none'',
      ''is_virtual_machine: '' @ display_or show_flag (ns_is_virtual_machine i) ''none'']"

definition display_sys_info :: "node_sys_info \<Rightarrow> string" where
  "display_sys_info i = join_strings nl (sys_info_lines i)"

definition details_lines :: "node_details \<Rightarrow> string list" where
  "details_lines d =
     [''Details'',
      ''name: '' @ nd_name d,
      ''implementation: '' @ nd_implementation d,
      ''version: '' @ nd_version d,
      ''validator: '' @ display_or id (nd_validator d) ''none'',
      ''network_id: '' @ display_or id (nd_network_id d) ''none'',
      ''ip: '' @ display_or id (nd_ip d) ''none'']"

definition display_details :: "node_details \<Rightarrow> string" where
  "display_details d = join_strings nl (details_lines d) @ nl @ nl @
     display_or display_sys_info (nd_sysinfo d) (''SysInfo'' @ nl @ ''none'')"

definition node_stats_lines :: "node_stats \<Rightarrow> string list" where
  "node_stats_lines s =
     [''Stats'', ''peers: '' @ dec (ns_peers s), ''txcount: '' @ dec (ns_txcount s)]"

definition display_node_stats :: "node_stats \<Rightarrow> string" where
  "display_node_stats s = join_strings nl (node_stats_lines s)"

definition location_lines :: "feed_text \<Rightarrow> node_location \<Rightarrow> string list" where
  "location_lines lib l =
     [''Location'', ''city: '' @ nl_city l, ''lat: '' @ ft_float lib (nl_lat l), ''long: '' @ ft_float lib (nl_long l)]"

definition display_location :: "feed_text \<Rightarrow> node_location \<Rightarrow> string" where
  "display_location lib l = join_strings nl (location_lines lib l)"

definition io_lines :: "feed_text \<Rightarrow> node_io \<Rightarrow> string list" where
  "io_lines lib io =
     [''IO'', ''used_state_cache_size: '' @ join_floats lib (io_used_state_cache_size io)]"

definition display_io :: "feed_text \<Rightarrow> node_io \<Rightarrow> string" where
  "display_io lib io = join_strings nl (io_lines lib io)"

definition hardware_lines :: "feed_text \<Rightarrow> node_hardware \<Rightarrow> string list" where
  "hardware_lines lib h =
     [''Hardware'',
      ''upload: '' @ join_floats lib (hw_upload h),
      ''download: '' @ join_floats lib (hw_download h),
      ''chart_stamps: '' @ join_floats lib (hw_chart_stamps h)]"

definition display_hardware :: "feed_text \<Rightarrow> node_hardware \<Rightarrow> string" where
  "display_hardware lib h = join_strings nl (hardware_lines lib h)"

definition hw_bench_lines :: "node_hw_bench \<Rightarrow> string list" where
  "hw_bench_lines h =
     [''NodeHwBench'',
      ''cpu_hashrate_score: '' @ dec (hb_cpu_hashrate_score h),
      ''memory_memcpy_score: '' @ dec (hb_memory_memcpy_score h),
      ''disk_sequential_write_score: '' @ display_or dec (hb_disk_sequential_write_score h) ''none'',
      ''disk_random_write_score: '' @ display_or dec (hb_disk_random_write_score h) ''none'']"

definition display_hw_bench :: "node_hw_bench \<Rightarrow> string" where
  "display_hw_bench h = join_strings nl (hw_bench_lines h)"

definition display_added_node :: "feed_text \<Rightarrow> added_node \<Rightarrow> string" where
  "display_added_node lib n = join_strings (nl @ nl)
     [''node_id: '' @ decimal (an_node_id n) @ nl @ ''startup_time: '' @ display_or dec (an_startup_time n) ''none'',
      display_details (an_details n),
      display_block_details lib (an_block_details n),
      display_or (display_location lib) (an_location n) (''Location:'' @ nl @ ''none''),
      display_or display_hw_bench (an_hwbench n) (''HwBench:'' @ nl @ ''none''),
      display_node_stats (an_stats n),
      display_io lib (an_io n),
      display_hardware lib (an_hardware n)]"

definition display_added_chain :: "feed_text \<Rightarrow> added_chain \<Rightarrow> string" where
  "display_added_chain lib c =
     ac_name c @ '', '' @ ft_hash lib (ac_genesis_hash c) @ '', '' @ decimal (ac_node_count c) @ '' node(s)''"

section \<open>Paragraphs\<close>

text \<open>The texts that a telemetry server takes from the nodes themselves.\<close>

definition reported_texts :: "added_node \<Rightarrow> string list" where
  "reported_texts n =
     (let d = an_details n
      in [nd_name d, nd_implementation d, nd_version d] @
         concat (map (case_option [] (\<lambda>s. [s])) [nd_validator d, nd_network_id d, nd_ip d]) @
         (case nd_sysinfo d of None \<Rightarrow> []
          | Some i \<Rightarrow> concat (map (case_option [] (\<lambda>s. [s])) [ns_cpu i, ns_linux_kernel i, ns_linux_distro i])) @
         (case an_location n of None \<Rightarrow> [] | Some l \<Rightarrow> [nl_city l]))"

definition prints_one_line :: "feed_text \<Rightarrow> bool" where
  "prints_one_line lib \<longleftrightarrow> (\<forall>h. one_line (ft_hash lib h)) \<and> (\<forall>x. one_line (ft_float lib x))"

text \<open>The paragraphs of a text: its lines, cut at the empty ones.\<close>

fun paragraphs :: "string list \<Rightarrow> string list \<Rightarrow> string list list" where
  "paragraphs p [] = [p]"
| "paragraphs p (l # ls) = (if l = [] then p # paragraphs [] ls else paragraphs (p @ [l]) ls)"

definition is_paragraph :: "string list \<Rightarrow> bool" where
  "is_paragraph ls \<longleftrightarrow> ls \<noteq> [] \<and> list_all one_line ls \<and> [] \<notin> set ls"

lemma paragraphs_append: "[] \<notin> set ls \<Longrightarrow> paragraphs p (ls @ ms) = paragraphs (p @ ls) ms"
  by (induction ls arbitrary: p) auto

lemma split_joined_then:
  "is_paragraph ls \<Longrightarrow> split_lines [] (join_strings nl ls @ nl @ s) = ls @ split_lines [] s"
  by (induction ls rule: induct_list012) (auto simp: is_paragraph_def split_line)

lemma split_last: "one_line l \<Longrightarrow> k @ l \<noteq> [] \<Longrightarrow> split_lines k l = [k @ l]"
  by (induction l arbitrary: k) auto

lemma split_joined: "is_paragraph ls \<Longrightarrow> split_lines [] (join_strings nl ls) = ls"
  by (induction ls rule: induct_list012) (auto simp: is_paragraph_def split_line split_last)

lemma split_empty_line: "split_lines [] (nl @ s) = [] # split_lines [] s"
  by (simp add: nl_def)

lemma split_paragraphs:
  assumes "pss \<noteq> []" "list_all is_paragraph pss"
  shows "paragraphs [] (split_lines [] (join_strings (nl @ nl) (map (join_strings nl) pss))) = pss"
  using assms
proof (induction pss rule: induct_list012)
  case (2 ls)
  then show ?case by (simp add: split_joined paragraphs_append [of ls "[]" "[]", simplified] is_paragraph_def)
next
  case (3 ls ls' pss)
  then show ?case
    by (simp add: split_joined_then split_empty_line paragraphs_append is_paragraph_def)
qed simp

lemma join_strings_append:
  "ss \<noteq> [] \<Longrightarrow> ts \<noteq> [] \<Longrightarrow> join_strings sep (ss @ ts) = join_strings sep ss @ sep @ join_strings sep ts"
  by (induction ss rule: induct_list012; cases ts) auto

lemma join_strings_one_line: "one_line sep \<Longrightarrow> list_all one_line ss \<Longrightarrow> one_line (join_strings sep ss)"
  by (induction ss rule: induct_list012) auto

section \<open>The text of a node\<close>

lemmas section_lines =
  block_details_lines_def sys_info_lines_def details_lines_def node_stats_lines_def location_lines_def io_lines_def
  hardware_lines_def hw_bench_lines_def

lemmas section_texts =
  display_block_details_def display_sys_info_def display_details_def display_node_stats_def display_location_def
  display_io_def display_hardware_def display_hw_bench_def

definition node_paragraphs :: "feed_text \<Rightarrow> added_node \<Rightarrow> string list list" where
  "node_paragraphs lib n =
     [[''node_id: '' @ decimal (an_node_id n), ''startup_time: '' @ display_or dec (an_startup_time n) ''none''],
      details_lines (an_details n),
      case nd_sysinfo (an_details n) of Some i \<Rightarrow> sys_info_lines i | None \<Rightarrow> [''SysInfo'', ''none''],
      block_details_lines lib (an_block_details n),
      case an_location n of Some l \<Rightarrow> location_lines lib l | None \<Rightarrow> [''Location:'', ''none''],
      case an_hwbench n of Some h \<Rightarrow> hw_bench_lines h | None \<Rightarrow> [''HwBench:'', ''none''],
      node_stats_lines (an_stats n),
      io_lines lib (an_io n),
      hardware_lines lib (an_hardware n)]"

lemma added_node_text:
  "display_added_node lib n = join_strings (nl @ nl) (map (join_strings nl) (node_paragraphs lib n))"
  by (simp add: display_added_node_def node_paragraphs_def section_texts display_or_def split: option.split)

lemma one_line_display_or:
  "one_line (display_or f option none) \<longleftrightarrow> (case option of Some v \<Rightarrow> one_line (f v) | None \<Rightarrow> one_line none)"
  by (simp add: display_or_def split: option.split)

lemma one_line_floats: "prints_one_line lib \<Longrightarrow> one_line (join_floats lib xs)"
  unfolding join_floats_def
  by (rule join_strings_one_line) (auto simp: prints_one_line_def list_all_iff)

lemma own_paragraphs:
  assumes "prints_one_line lib"
  shows "is_paragraph (block_details_lines lib b)" "is_paragraph (io_lines lib io)"
    "is_paragraph (hardware_lines lib h)" "is_paragraph (hw_bench_lines bench)" "is_paragraph (node_stats_lines s)"
  using assms one_line_floats [OF assms]
  by (simp_all add: is_paragraph_def section_lines one_line_display_or prints_one_line_def split: option.split)

lemma reported_paragraphs:
  assumes "prints_one_line lib" "list_all one_line (reported_texts n)"
  shows "is_paragraph (details_lines (an_details n))"
    "nd_sysinfo (an_details n) = Some i \<Longrightarrow> is_paragraph (sys_info_lines i)"
    "an_location n = Some l \<Longrightarrow> is_paragraph (location_lines lib l)"
  using assms
  by (auto simp: is_paragraph_def section_lines one_line_display_or prints_one_line_def reported_texts_def Let_def
      show_flag_def split: option.splits)

text \<open>Cutting the text of a node at its empty lines gives its nine sections, each with its title, as long as what the
  nodes report of themselves and where they are has no line break.\<close>

theorem node_text_exact:
  assumes "prints_one_line lib" "list_all one_line (reported_texts n)"
  shows "paragraphs [] (split_lines [] (display_added_node lib n)) = node_paragraphs lib n"
proof -
  have "list_all is_paragraph (node_paragraphs lib n)"
    using own_paragraphs [OF assms(1)] reported_paragraphs [OF assms]
    by (auto simp: node_paragraphs_def is_paragraph_def one_line_decimal one_line_display_or split: option.split)
  then show ?thesis
    unfolding added_node_text by (rule split_paragraphs [rotated]) (simp add: node_paragraphs_def)
qed

text \<open>A name with line breaks, which a node chooses itself, adds a section to its own text.\<close>

definition forging_name :: string where
  "forging_name = ''x'' @ nl @ nl @ ''Stats'' @ nl @ ''peers: 99'' @ nl @ nl"

lemma name_adds_section:
  assumes "nd_name (an_details n) = forging_name"
  shows "[''Stats'', ''peers: 99''] \<in> set (paragraphs [] (split_lines [] (display_added_node lib n)))"
proof -
  let ?head = "[[''node_id: '' @ decimal (an_node_id n), ''startup_time: '' @ display_or dec (an_startup_time n) ''none''],
    [''Details'', ''name: x''], [''Stats'', ''peers: 99'']]"
  obtain rest where "display_added_node lib n =
      join_strings nl (?head ! 0) @ nl @ nl @ join_strings nl (?head ! 1) @ nl @ nl @ join_strings nl (?head ! 2) @ nl @ nl @ rest"
    using assms by (simp add: display_added_node_def display_details_def details_lines_def forging_name_def)
  moreover have "is_paragraph (?head ! 0)" "is_paragraph (?head ! 1)" "is_paragraph (?head ! 2)"
    by (simp_all add: is_paragraph_def one_line_decimal one_line_display_or split: option.split)
  ultimately show ?thesis
    by (simp only: split_joined_then split_empty_line) (simp add: paragraphs_append is_paragraph_def)
qed

end
