(* ===== verification/Spec2Isabelle.thy ===== *)
theory Spec2Isabelle
  imports Storage_Api Tracker_Report Pipeline Collector_Advance Collector_Candidates Stats Channel Kvdb_Decode
    Tracer_Main Telemetry_Subscription Whois Chain_Wire Subscription_Laws Block_Time_Laws Kvdb_Laws
    Shadow_Tally Jaeger_Laws Tracer_Text_Laws Kvdb_Tool Kvdb_Metrics Web_Routes Block_Time_Chart Api_Service Telemetry_Text
begin

text \<open>
  A verification library for \<^verbatim>\<open>polkadot-introspector\<close>, a set of tools that watch a Polkadot relay chain and
  its parachains through the RPC interface of a node.

  \<^bold>\<open>The program and its parts.\<close> A subscription (\<^verbatim>\<open>essentials/src/chain_head_subscription.rs\<close>, or
  \<^verbatim>\<open>historical_subscription.rs\<close> for a range of past blocks) sends the heads of a node to the collector
  (\<^verbatim>\<open>essentials/src/collector\<close>). The collector asks the node for what belongs to a head through the request
  executor (\<^verbatim>\<open>essentials/src/api/executor.rs\<close>), whose backend task repeats requests and uses the client
  (\<^verbatim>\<open>api/api_client.rs\<close>); the client decodes the answers with the decoders of \<^verbatim>\<open>api/decode.rs\<close> and
  \<^verbatim>\<open>api/dynamic.rs\<close>. The collector writes everything under a prefix and the block's hash into a storage
  (\<^verbatim>\<open>essentials/src/storage.rs\<close>) that a task of its own serves (\<^verbatim>\<open>api/storage.rs\<close>), and reports new heads
  through two-lane channels (\<^verbatim>\<open>priority-channel\<close>). The parachain tracer (\<^verbatim>\<open>parachain-tracer\<close>) receives these
  reports, reads the storage, follows each parachain with a tracker and turns its state into progress
  reports, statistics and Prometheus metrics. The tools \<^verbatim>\<open>whois\<close> (with the telemetry feed and subscription),
  \<^verbatim>\<open>block-time\<close>, \<^verbatim>\<open>kvdb\<close> and \<^verbatim>\<open>jaeger\<close> use the same parts or stand alone.

  \<^bold>\<open>Theories and sources.\<close>
  \<^item> \<open>Prelude\<close>, \<open>Maps\<close>, \<open>Effects\<close>: words, results and panics, indexing; \<^verbatim>\<open>HashMap\<close> and \<^verbatim>\<open>BTreeMap\<close> as
    association lists with the contract \<open>keyed_map\<close>; actions that keep what they changed when they fail. The
    contracts \<open>step_preorder\<close> and \<open>action_preorder\<close> carry every invariant of the loops.
  \<^item> \<open>Chain_Types\<close>: the shared types of \<^verbatim>\<open>types.rs\<close>, \<^verbatim>\<open>chain_events.rs\<close>, \<^verbatim>\<open>candidate_record.rs\<close> and the keys
    and messages of the collector.
  \<^item> \<open>Storage\<close> (the contract \<open>record_store\<close>), \<open>Plain_Storage\<close>, \<open>Prefixed_Storage\<close>: \<^verbatim>\<open>storage.rs\<close>;
    \<open>Storage_Api\<close>: \<^verbatim>\<open>api/storage.rs\<close>, one definition per arm of the handler tasks and per client call;
    \<open>Api_Service\<close>: \<^verbatim>\<open>api/mod.rs\<close>.
  \<^item> \<open>Scale\<close>, \<open>Decode\<close>, \<open>Parainherent\<close>, \<open>Dynamic\<close> and \<open>Decode_Laws\<close>, \<open>Parainherent_Laws\<close>, \<open>Dynamic_Laws\<close>:
    the decoders, over a record of SCALE primitives with the laws \<open>lawful\<close>, and their round trips;
    \<open>Disputes\<close>: disputes and the events they give.
  \<^item> \<open>Api_Client\<close>, \<open>Executor\<close> and \<open>Api_Laws\<close>, \<open>Executor_Laws\<close>: the reads of the client with the shadow
    comparison, the retries, the requests and the calls; \<open>Shadow_Tally\<close>: the checklist of \<^verbatim>\<open>api/shadow.rs\<close> and what
    it proves of a run.
  \<^item> \<open>Chain_Event_Decode\<close>: \<^verbatim>\<open>chain_events.rs\<close>, the events of a block through the metadata, and the comparison
    of them with the runtime calls; \<open>Chain_Wire\<close>: bytes of the node to events of the collector.
  \<^item> \<open>Subscriptions\<close>, \<open>Subscription_Laws\<close>: both subscriptions, task by task.
  \<^item> \<open>Collector_Types\<close>, \<open>Collector\<close>, \<open>Collector_Loop\<close>: the state of \<^verbatim>\<open>collector/mod.rs\<close>, a definition per
    handler, the loop; \<open>Collector_Invariant\<close>, \<open>Collector_Block\<close>, \<open>Collector_Head\<close>, \<open>Collector_Advance\<close>,
    \<open>Collector_Candidates\<close>: what they keep, store, report and how they end; \<open>Web_Api\<close>, \<open>Web_Routes\<close>:
    the handlers and the routes of \<^verbatim>\<open>collector/ws.rs\<close>.
  \<^item> \<open>Block_Info\<close>, \<open>Tracer_Types\<close>, \<open>Tracker_Storage\<close>, \<open>Tracker\<close>, \<open>Tracker_Progress\<close>: \<^verbatim>\<open>parachain_block_info.rs\<close>,
    \<^verbatim>\<open>message_queues_tracker.rs\<close>, \<^verbatim>\<open>types.rs\<close>, \<^verbatim>\<open>utils.rs\<close>, \<^verbatim>\<open>tracker_storage.rs\<close>, \<^verbatim>\<open>tracker.rs\<close>;
    \<open>Tracker_Steps\<close>, \<open>Tracker_Invariant\<close>, \<open>Tracker_Total\<close>, \<open>Tracker_Report\<close>: life cycle of a candidate,
    invariant, absence of panics, content of a report; \<open>Pipeline\<close>: collector and tracker together.
  \<^item> \<open>Stats\<close>, \<open>Metrics\<close>, \<open>Tracer_Main\<close>, \<open>Channel\<close>: \<^verbatim>\<open>stats.rs\<close>, \<^verbatim>\<open>prometheus.rs\<close>, \<^verbatim>\<open>main.rs\<close> of the tracer and
    the channel; \<open>Tracer_Text\<close>, \<open>Tracer_Text_Laws\<close>: the text of reports and statistics, line by line.
  \<^item> \<open>Telemetry_Feed\<close>, \<open>Telemetry_Text\<close>, \<open>Telemetry_Subscription\<close>, \<open>Whois\<close>; \<open>Block_Time\<close>, \<open>Block_Time_Laws\<close>,
    \<open>Block_Time_Chart\<close>; \<open>Kvdb_Decode\<close>, \<open>Kvdb_Main\<close>, \<open>Kvdb_Laws\<close>, \<open>Kvdb_Tool\<close>, \<open>Kvdb_Metrics\<close> (with \<open>Durations\<close>);
    \<open>Jaeger\<close>, \<open>Jaeger_Laws\<close>: the other tools. The \<open>Samples\<close> theories hold values to evaluate on.

  \<^bold>\<open>How state and operations correspond.\<close> A struct is a record, an enum a datatype, a method a function that
  returns the changed state. Panics and errors are values. A loop is a fold of its body over what its
  \<^verbatim>\<open>select!\<close> yields, so that a theorem about all input lists is one about all interleavings. A \<^verbatim>\<open>HashMap\<close>'s
  iteration order is the order of its list, and theorems hold for every order unless they are about it.

  \<^bold>\<open>Bounds and fuel.\<close> Machine integers are words that wrap, as in a release build; sizes in memory are
  natural numbers. Round trips ask for lists shorter than \<open>2 ^ 32\<close> and bit lists shorter than \<open>2 ^ 29\<close>, the
  limits of the SCALE length prefix. Retries end for every count below \<open>2 ^ 32 - 1\<close>; for that count the loop
  is shown not to end. No definition uses fuel: loops recurse on their input, or are partial functions to
  \<open>option\<close> with a theorem on when they return.

  \<^bold>\<open>What is assumed.\<close> Code outside the repository is an argument with named laws: the SCALE crate
  (\<open>lawful\<close>, shown for the concrete \<open>scale_codec\<close>), \<^verbatim>\<open>subxt\<close> and the node behind it (records of answers),
  hash functions, \<^verbatim>\<open>async_channel\<close>, the database libraries (\<open>parity_holds\<close>, \<open>puts\<close>), the Prometheus library.

  \<^bold>\<open>Not modelled.\<close> The text of \<^verbatim>\<open>whois\<close>, plots, logging, command line parsing, TLS
  and transport, serving metrics over HTTP, opening connections, types generated from the metadata
  (\<^verbatim>\<open>metadata.rs\<close>), the start-up in \<^verbatim>\<open>init.rs\<close>, the Prometheus mode of \<^verbatim>\<open>jaeger\<close>, which the code
  leaves to be done, and test code. Floating-point numbers are rationals. Waiting for room in a channel is
  not modelled where a channel is a log of what was put into it (collector, subscriptions).
\<close>

end
